(* ===== verification/Prelude.thy ===== *)
theory Prelude
  imports Main
begin

text \<open>
  Shared vocabulary of the development: the exceptions the services raise, the shape of a
  service operation (a function of the state that returns either an exception or a value,
  together with the state it leaves behind: a Python exception does not undo the writes made
  before it), loops over lists, and the pieces of Python's string library the services use.
  Strings are lists of characters, one character per code point.
\<close>

named_theorems py_simps \<open>equations of the exception-with-state operations\<close>
named_theorems ok_rules \<open>equations of an operation on a state where it succeeds\<close>
named_theorems drawing \<open>an operation never gives back a uuid it has drawn\<close>
named_theorems audited \<open>an operation extends the audit log only by whole entries\<close>

subsection \<open>Exceptions and operations\<close>

datatype exc =
    TicketError string
  | HACCPError string
  | SalsaError string
  | TriggerError string
  | TrainingError string
  | GDPRError string
  | DSARError string
  | TOTPCryptoError string
  | InvalidToken string
  | UnsafeWebhookURL string
  | PermanentSMSError string
  | NoSuchJobError string
  | ValueError string
  | TypeError string
  | KeyError string
  | IndexError string
  | AttributeError string
  | OverflowError string
  | CSVError string
  | RuntimeError string
  | ConnectionError string
  | HTTPError string
  | UnicodeDecodeError string
  | IntegrityError string
  | InternalError string
  | PendingRollbackError

type_synonym ('s, 'a) py = "'s \<Rightarrow> (exc + 'a) \<times> 's"

definition ret :: "'a \<Rightarrow> ('s, 'a) py" where
  "ret x = (\<lambda>s. (Inr x, s))"

definition throw :: "exc \<Rightarrow> ('s, 'a) py" where
  "throw e = (\<lambda>s. (Inl e, s))"

definition bind :: "('s, 'a) py \<Rightarrow> ('a \<Rightarrow> ('s, 'b) py) \<Rightarrow> ('s, 'b) py" where
  "bind m f = (\<lambda>s. case m s of (Inl e, s') \<Rightarrow> (Inl e, s') | (Inr x, s') \<Rightarrow> f x s')"

text \<open>\<open>seq m n\<close>: run \<open>m\<close> for its effect, then \<open>n\<close>.\<close>

definition seq :: "('s, 'a) py \<Rightarrow> ('s, 'b) py \<Rightarrow> ('s, 'b) py" where
  "seq m n = bind m (\<lambda>_. n)"

definition read :: "('s \<Rightarrow> 'a) \<Rightarrow> ('s, 'a) py" where
  "read f = (\<lambda>s. (Inr (f s), s))"

definition modify :: "('s \<Rightarrow> 's) \<Rightarrow> ('s, unit) py" where
  "modify f = (\<lambda>s. (Inr (), f s))"

text \<open>A pure computation that may raise.\<close>

definition lift :: "exc + 'b \<Rightarrow> ('s, 'b) py" where
  "lift r = (case r of Inl e \<Rightarrow> throw e | Inr x \<Rightarrow> ret x)"

text \<open>An operation that reads the state it starts from.\<close>

definition with_state :: "('s \<Rightarrow> ('s, 'a) py) \<Rightarrow> ('s, 'a) py" where
  "with_state f = (\<lambda>s. f s s)"

text \<open>\<open>try: m except <p>: h\<close>: the handler sees the state the exception left behind.\<close>

definition catch :: "('s, 'a) py \<Rightarrow> (exc \<Rightarrow> bool) \<Rightarrow> (exc \<Rightarrow> ('s, 'a) py) \<Rightarrow> ('s, 'a) py" where
  "catch m p h = (\<lambda>s. case m s of (Inl e, s') \<Rightarrow> if p e then h e s' else (Inl e, s')
                                | (Inr x, s') \<Rightarrow> (Inr x, s'))"

fun for_each :: "('a \<Rightarrow> ('s, unit) py) \<Rightarrow> 'a list \<Rightarrow> ('s, unit) py" where
  "for_each f [] = ret ()"
| "for_each f (x # xs) = seq (f x) (for_each f xs)"

fun foldM :: "('b \<Rightarrow> 'a \<Rightarrow> ('s, 'b) py) \<Rightarrow> 'b \<Rightarrow> 'a list \<Rightarrow> ('s, 'b) py" where
  "foldM f b [] = ret b"
| "foldM f b (x # xs) = bind (f b x) (\<lambda>b'. foldM f b' xs)"

lemma ret_apply [simp, py_simps]: "ret x s = (Inr x, s)"
  by (simp add: ret_def)

lemma throw_apply [simp, py_simps]: "throw e s = (Inl e, s)"
  by (simp add: throw_def)

lemma read_apply [simp, py_simps]: "read f s = (Inr (f s), s)"
  by (simp add: read_def)

lemma with_state_apply [simp, py_simps]: "with_state f s = f s s"
  by (simp add: with_state_def)

lemma modify_apply [simp, py_simps]: "modify f s = (Inr (), f s)"
  by (simp add: modify_def)

lemma bind_Inr [py_simps]: "m s = (Inr x, s') \<Longrightarrow> bind m f s = f x s'"
  by (simp add: bind_def)

lemma bind_Inl [py_simps]: "m s = (Inl e, s') \<Longrightarrow> bind m f s = (Inl e, s')"
  by (simp add: bind_def)

lemma seq_Inr [py_simps]: "m s = (Inr x, s') \<Longrightarrow> seq m n s = n s'"
  by (simp add: seq_def bind_Inr)

lemma seq_Inl [py_simps]: "m s = (Inl e, s') \<Longrightarrow> seq m n s = (Inl e, s')"
  by (simp add: seq_def bind_Inl)

lemma catch_Inr [py_simps]: "m s = (Inr x, s') \<Longrightarrow> catch m p h s = (Inr x, s')"
  by (simp add: catch_def)

lemma catch_Inl [py_simps]:
  "m s = (Inl e, s') \<Longrightarrow> catch m p h s = (if p e then h e s' else (Inl e, s'))"
  by (simp add: catch_def)

lemma bind_ret [simp]: "bind (ret x) f = f x"
  by (simp add: bind_def ret_def)

lemma bind_throw [simp]: "bind (throw e) f = throw e"
  by (simp add: bind_def throw_def)

lemma bind_read [simp]: "bind (read f) g s = g (f s) s"
  by (simp add: bind_def)

lemma bind_modify [simp]: "bind (modify f) g s = g () (f s)"
  by (simp add: bind_def)

lemma seq_modify [simp]: "seq (modify f) m s = m (f s)"
  by (simp add: seq_def)

lemma seq_ret [simp]: "seq (ret x) m = m"
  by (simp add: seq_def)

lemma seq_throw [simp]: "seq (throw e) m = throw e"
  by (simp add: seq_def)

lemma bind_ret_right [simp]: "bind m ret = m"
  by (auto simp: bind_def fun_eq_iff split: prod.splits sum.splits)

lemma bind_assoc: "bind (bind m f) g = bind m (\<lambda>x. bind (f x) g)"
  by (auto simp: bind_def fun_eq_iff split: prod.splits sum.splits)

lemma bind_snd:
  "snd (bind m f s) = (case m s of (Inl e, s') \<Rightarrow> s' | (Inr x, s') \<Rightarrow> snd (f x s'))"
  by (simp add: bind_def split: prod.splits sum.splits)

lemma foldM_append: "foldM f b (xs @ ys) = bind (foldM f b xs) (\<lambda>b'. foldM f b' ys)"
  by (induction xs arbitrary: b) (simp_all add: bind_assoc)

text \<open>
  A relation between the state before and after that every step of a program keeps, and that
  is reflexive and transitive, is kept by the whole program, whatever exceptions it raises.
\<close>

definition keeps :: "('s \<Rightarrow> 's \<Rightarrow> bool) \<Rightarrow> ('s, 'a) py \<Rightarrow> bool" where
  "keeps R m \<longleftrightarrow> (\<forall>s. R s (snd (m s)))"

lemma keepsI [intro?]: "(\<And>s. R s (snd (m s))) \<Longrightarrow> keeps R m"
  by (simp add: keeps_def)

lemma keepsD: "keeps R m \<Longrightarrow> R s (snd (m s))"
  by (simp add: keeps_def)

lemma keeps_ret: "reflp R \<Longrightarrow> keeps R (ret x)"
  by (simp add: keeps_def reflpD)

lemma keeps_throw: "reflp R \<Longrightarrow> keeps R (throw e)"
  by (simp add: keeps_def reflpD)

lemma keeps_read: "reflp R \<Longrightarrow> keeps R (read f)"
  by (simp add: keeps_def reflpD)

lemma keeps_bind:
  assumes R: "transp R" and m: "keeps R m" and f: "\<And>x. keeps R (f x)"
  shows "keeps R (bind m f)"
proof
  fix s
  have "R s (snd (m s))" using m by (rule keepsD)
  moreover have "R (snd (m s)) (snd (f x (snd (m s))))" for x using f by (rule keepsD)
  ultimately show "R s (snd (bind m f s))"
    by (auto simp: bind_def split: prod.splits sum.splits intro: transpD [OF R])
qed

lemma keeps_seq: "transp R \<Longrightarrow> keeps R m \<Longrightarrow> keeps R n \<Longrightarrow> keeps R (seq m n)"
  by (simp add: seq_def keeps_bind)

lemma keeps_catch:
  assumes R: "transp R" and m: "keeps R m" and h: "\<And>e. keeps R (h e)"
  shows "keeps R (catch m p h)"
proof
  fix s
  have "R s (snd (m s))" using m by (rule keepsD)
  moreover have "R (snd (m s)) (snd (h e (snd (m s))))" for e using h by (rule keepsD)
  ultimately show "R s (snd (catch m p h s))"
    by (auto simp: catch_def split: prod.splits sum.splits intro: transpD [OF R])
qed

lemma keeps_for_each:
  assumes "reflp R" "transp R" "\<And>x. x \<in> set xs \<Longrightarrow> keeps R (f x)"
  shows "keeps R (for_each f xs)"
  using assms by (induction xs) (auto intro: keeps_ret keeps_seq)

lemma keeps_foldM:
  assumes "reflp R" "transp R" "\<And>b x. x \<in> set xs \<Longrightarrow> keeps R (f b x)"
  shows "keeps R (foldM f b xs)"
  using assms by (induction xs arbitrary: b) (auto intro: keeps_ret keeps_bind)

lemma keeps_if: "keeps R m \<Longrightarrow> keeps R n \<Longrightarrow> keeps R (if b then m else n)"
  by simp

lemma keeps_option:
  "keeps R m \<Longrightarrow> (\<And>x. keeps R (f x)) \<Longrightarrow> keeps R (case v of None \<Rightarrow> m | Some x \<Rightarrow> f x)"
  by (cases v) simp_all

lemma keeps_sum:
  "(\<And>e. keeps R (f e)) \<Longrightarrow> (\<And>x. keeps R (g x)) \<Longrightarrow> keeps R (case v of Inl e \<Rightarrow> f e | Inr x \<Rightarrow> g x)"
  by (cases v) simp_all

lemma keeps_list:
  "keeps R m \<Longrightarrow> (\<And>x xs. keeps R (f x xs)) \<Longrightarrow> keeps R (case v of [] \<Rightarrow> m | x # xs \<Rightarrow> f x xs)"
  by (cases v) simp_all

lemma keeps_prod: "(\<And>x y. keeps R (f x y)) \<Longrightarrow> keeps R (case v of (x, y) \<Rightarrow> f x y)"
  by (cases v) simp

lemma keeps_let: "(\<And>x. keeps R (f x)) \<Longrightarrow> keeps R (let x = v in f x)"
  by (simp add: Let_def)

lemma keeps_with_state: "(\<And>s. keeps R (f s)) \<Longrightarrow> keeps R (with_state f)"
  by (simp add: keeps_def)

text \<open>Successful runs.\<close>

lemma seq_Inr_iff: "seq m n s = (Inr y, t) \<longleftrightarrow> (\<exists>x u. m s = (Inr x, u) \<and> n u = (Inr y, t))"
  by (auto simp: seq_def bind_def split: prod.splits sum.splits)

lemma bind_Inr_iff: "bind m f s = (Inr y, t) \<longleftrightarrow> (\<exists>x u. m s = (Inr x, u) \<and> f x u = (Inr y, t))"
  by (auto simp: bind_def split: prod.splits sum.splits)

lemmas run_iff = seq_Inr_iff bind_Inr_iff

text \<open>Reading a state through a projection that an operation leaves alone.\<close>

definition frames :: "('s \<Rightarrow> 'v) \<Rightarrow> ('s, 'a) py \<Rightarrow> bool" where
  "frames p m \<longleftrightarrow> keeps (\<lambda>s t. p t = p s) m"

lemma framesD: "frames p m \<Longrightarrow> p (snd (m s)) = p s"
  by (simp add: frames_def keeps_def)

subsection \<open>Strings\<close>

definition str_py_space :: "char \<Rightarrow> bool" where
  "str_py_space c \<longleftrightarrow> c \<in> {CHR '' '', CHR 0x09, CHR 0x0A, CHR 0x0B, CHR 0x0C, CHR 0x0D,
                             CHR 0x1C, CHR 0x1D, CHR 0x1E, CHR 0x1F, CHR 0x85, CHR 0xA0}"

definition lstrip :: "string \<Rightarrow> string" where
  "lstrip s = dropWhile str_py_space s"

definition rstrip :: "string \<Rightarrow> string" where
  "rstrip s = rev (dropWhile str_py_space (rev s))"

text \<open>\<open>str.strip()\<close>.\<close>

definition strip :: "string \<Rightarrow> string" where
  "strip s = rstrip (lstrip s)"

text \<open>\<open>s.startswith(p)\<close>.\<close>

fun startswith :: "string \<Rightarrow> string \<Rightarrow> bool" where
  "startswith s [] = True"
| "startswith [] (p # ps) = False"
| "startswith (c # s) (p # ps) = (c = p \<and> startswith s ps)"

text \<open>\<open>s.split(c)\<close> for a one-character separator.\<close>

fun split_on :: "char \<Rightarrow> string \<Rightarrow> string list" where
  "split_on c [] = [[]]"
| "split_on c (x # xs) =
     (if x = c then [] # split_on c xs
      else (case split_on c xs of [] \<Rightarrow> [[x]] | w # ws \<Rightarrow> (x # w) # ws))"

text \<open>\<open>c.join(ws)\<close>.\<close>

fun join_with :: "string \<Rightarrow> string list \<Rightarrow> string" where
  "join_with sep [] = []"
| "join_with sep [w] = w"
| "join_with sep (w # ws) = w @ sep @ join_with sep ws"

text \<open>\<open>s.rstrip(chars)\<close> for one character.\<close>

definition rstrip_char :: "char \<Rightarrow> string \<Rightarrow> string" where
  "rstrip_char c s = rev (dropWhile (\<lambda>x. x = c) (rev s))"

text \<open>\<open>s.partition(c)\<close>: the part before, whether the separator occurs, the part after.\<close>

definition partition_on :: "char \<Rightarrow> string \<Rightarrow> string \<times> bool \<times> string" where
  "partition_on c s = (takeWhile (\<lambda>x. x \<noteq> c) s, c \<in> set s, drop 1 (dropWhile (\<lambda>x. x \<noteq> c) s))"

definition lower_char :: "char \<Rightarrow> char" where
  "lower_char c = (if 65 \<le> (of_char c :: nat) \<and> (of_char c :: nat) \<le> 90
                   then char_of ((of_char c :: nat) + 32) else c)"

text \<open>\<open>s.lower()\<close> on ASCII letters; other characters are left alone.\<close>

definition lower :: "string \<Rightarrow> string" where
  "lower s = map lower_char s"

text \<open>\<open>x or None\<close> on a string, and \<open>x or ''''\<close> on an optional one.\<close>

definition or_none :: "string \<Rightarrow> string option" where
  "or_none s = (if s = [] then None else Some s)"

definition or_empty :: "string option \<Rightarrow> string" where
  "or_empty s = (case s of None \<Rightarrow> [] | Some t \<Rightarrow> t)"

text \<open>A missing or empty string is false in a condition.\<close>

definition truthy :: "string option \<Rightarrow> bool" where
  "truthy s \<longleftrightarrow> (case s of None \<Rightarrow> False | Some t \<Rightarrow> t \<noteq> [])"

text \<open>\<open>hmac.compare_digest\<close> on two strings: ASCII only, else a TypeError.\<close>

definition ascii :: "string \<Rightarrow> bool" where
  "ascii s \<longleftrightarrow> list_all (\<lambda>c. (of_char c :: nat) < 128) s"

definition compare_digest :: "string \<Rightarrow> string \<Rightarrow> exc + bool" where
  "compare_digest a b =
     (if ascii a \<and> ascii b then Inr (a = b)
      else Inl (TypeError ''comparing strings with non-ASCII characters is not supported''))"

lemma compare_digest_same [simp]: "ascii a \<Longrightarrow> compare_digest a a = Inr True"
  by (simp add: compare_digest_def)

lemma compare_digest_True: "compare_digest a b = Inr True \<Longrightarrow> a = b"
  by (simp add: compare_digest_def split: if_splits)

lemma startswith_iff: "startswith s p \<longleftrightarrow> (\<exists>r. s = p @ r)"
  by (induction s p rule: startswith.induct) auto

lemma startswith_append [simp]: "startswith (p @ r) p"
  by (simp add: startswith_iff)

lemma split_on_not_Nil [simp]: "split_on c s \<noteq> []"
  by (induction s) (auto split: list.splits)

lemma split_on_no_sep: "c \<notin> set s \<Longrightarrow> split_on c s = [s]"
  by (induction s) auto

lemma split_on_append: "c \<notin> set w \<Longrightarrow> split_on c (w @ c # r) = w # split_on c r"
  by (induction w) auto

lemma split_on_pieces: "\<forall>w\<in>set (split_on c s). c \<notin> set w"
  by (induction s) (auto split: list.splits)

lemma length_split_on: "length (split_on c s) = Suc (length (filter ((=) c) s))"
  by (induction s) (auto split: list.splits)

lemma join_split: "join_with [c] (split_on c s) = s"
proof (induction s)
  case Nil
  show ?case by simp
next
  case (Cons x xs)
  obtain w ws where w: "split_on c xs = w # ws"
    by (cases "split_on c xs") auto
  with Cons show ?case by (cases ws) auto
qed

lemma strip_Nil [simp]: "strip [] = []"
  by (simp add: strip_def lstrip_def rstrip_def)

lemma strip_length: "length (strip s) \<le> length s"
  unfolding strip_def lstrip_def rstrip_def
  by (metis (no_types) le_trans length_dropWhile_le length_rev)

lemma dropWhile_hd: "dropWhile P s \<noteq> [] \<Longrightarrow> \<not> P (hd (dropWhile P s))"
  by (rule hd_dropWhile)

lemma lstrip_id: "s = [] \<or> \<not> str_py_space (hd s) \<Longrightarrow> lstrip s = s"
  by (cases s) (auto simp: lstrip_def)

lemma rstrip_prefix: "\<exists>r. s = rstrip s @ r"
proof -
  have "rev s = takeWhile str_py_space (rev s) @ dropWhile str_py_space (rev s)" by simp
  then have "s = rstrip s @ rev (takeWhile str_py_space (rev s))"
    unfolding rstrip_def by (metis rev_append rev_rev_ident)
  then show ?thesis by blast
qed

lemma rstrip_idem [simp]: "rstrip (rstrip s) = rstrip s"
  by (simp add: rstrip_def)

lemma strip_idem [simp]: "strip (strip s) = strip s"
proof -
  define t where "t = lstrip s"
  have t: "t = [] \<or> \<not> str_py_space (hd t)"
    using hd_dropWhile [of str_py_space s] by (auto simp: t_def lstrip_def simp del: dropWhile_eq_Nil_conv)
  obtain r where r: "t = rstrip t @ r" using rstrip_prefix by blast
  have "rstrip t = [] \<or> \<not> str_py_space (hd (rstrip t))"
    using t r by (metis append_is_Nil_conv hd_append2)
  then have "lstrip (rstrip t) = rstrip t" by (rule lstrip_id)
  then show ?thesis by (simp add: strip_def t_def)
qed

subsection \<open>Tables: lists of rows\<close>

text \<open>\<open>db.session.get(Model, id)\<close>: the row with a primary key.\<close>

definition by_key :: "('r \<Rightarrow> 'k) \<Rightarrow> 'k \<Rightarrow> 'r list \<Rightarrow> 'r option" where
  "by_key key k rows = find (\<lambda>r. key r = k) rows"

text \<open>Rewriting the rows with a key, in place.\<close>

definition update_row :: "('r \<Rightarrow> 'k) \<Rightarrow> 'k \<Rightarrow> ('r \<Rightarrow> 'r) \<Rightarrow> 'r list \<Rightarrow> 'r list" where
  "update_row key k f rows = map (\<lambda>r. if key r = k then f r else r) rows"

text \<open>\<open>ORDER BY key DESC LIMIT 1\<close>: the last row in key order.\<close>

definition last_by :: "('r \<Rightarrow> 'k::linorder) \<Rightarrow> 'r list \<Rightarrow> 'r option" where
  "last_by key rows = (case rev (sort_key key rows) of [] \<Rightarrow> None | r # _ \<Rightarrow> Some r)"

lemma by_key_Some: "by_key key k rows = Some r \<Longrightarrow> key r = k \<and> r \<in> set rows"
  by (auto simp: by_key_def find_Some_iff)

lemma by_key_None: "by_key key k rows = None \<longleftrightarrow> k \<notin> key ` set rows"
  by (auto simp: by_key_def find_None_iff)

lemma by_key_map: "(\<And>r. key (f r) = key r) \<Longrightarrow> by_key key k (map f rows) = map_option f (by_key key k rows)"
  by (induction rows) (auto simp: by_key_def)

lemma by_key_append:
  "by_key key k (xs @ ys) = (case by_key key k xs of None \<Rightarrow> by_key key k ys | Some r \<Rightarrow> Some r)"
  by (induction xs) (auto simp: by_key_def)

lemma by_key_unique:
  "distinct (map key rows) \<Longrightarrow> r \<in> set rows \<Longrightarrow> by_key key (key r) rows = Some r"
  by (induction rows) (auto simp: by_key_def)

lemma map_update_row:
  "(\<And>r. key' (f r) = key' r) \<Longrightarrow> map key' (update_row key k f rows) = map key' rows"
  by (auto simp: update_row_def)

lemma by_key_update_same:
  "(\<And>r. key (f r) = key r) \<Longrightarrow> by_key key k (update_row key k f rows) = map_option f (by_key key k rows)"
  by (induction rows) (auto simp: by_key_def update_row_def)

lemma by_key_update_other:
  "(\<And>r. key (f r) = key r) \<Longrightarrow> j \<noteq> k \<Longrightarrow> by_key key j (update_row key k f rows) = by_key key j rows"
  by (induction rows) (auto simp: by_key_def update_row_def)

lemma last_by_Nil [simp]: "last_by key [] = None"
  by (simp add: last_by_def)

lemma last_by_in: "last_by key rows = Some r \<Longrightarrow> r \<in> set rows"
  by (auto simp: last_by_def split: list.splits)
     (metis in_set_conv_decomp set_rev set_sort)

lemma last_by_None: "last_by key rows = None \<longleftrightarrow> rows = []"
proof
  assume "last_by key rows = None"
  then have "rev (sort_key key rows) = []" by (simp add: last_by_def split: list.splits)
  then have "length (sort_key key rows) = 0" by simp
  then show "rows = []" by simp
qed simp

lemma last_by_max:
  assumes "last_by key rows = Some r" "x \<in> set rows"
  shows "key x \<le> key r"
proof -
  obtain rs where rs: "rev (sort_key key rows) = r # rs"
    using assms(1) by (auto simp: last_by_def split: list.splits)
  then have eq: "sort_key key rows = rev rs @ [r]" by (metis rev.simps(2) rev_rev_ident)
  have "sorted (map key (sort_key key rows))" by simp
  then have "\<forall>y\<in>set (rev rs). key y \<le> key r" unfolding eq by (simp add: sorted_append)
  moreover have "x \<in> set (rev rs @ [r])" using assms(2) eq by (metis set_sort)
  ultimately show ?thesis by auto
qed

lemma sort_key_sorted: "sorted (map key rows) \<Longrightarrow> sort_key key rows = rows"
  by (induction rows) (auto simp: insort_is_Cons)

lemma last_by_snoc: "sorted (map key (rows @ [r])) \<Longrightarrow> last_by key (rows @ [r]) = Some r"
  by (simp add: last_by_def sort_key_sorted del: map_append)

lemma last_by_sorted:
  "sorted (map key rows) \<Longrightarrow> last_by key rows = (if rows = [] then None else Some (last rows))"
  using last_by_snoc [of key "butlast rows" "last rows"] by (cases "rows = []") simp_all

lemma find_Some_sat: "find P xs = Some x \<Longrightarrow> P x \<and> x \<in> set xs"
  by (auto simp: find_Some_iff)

end
