(* ===== verification/PyTime.thy ===== *)
theory PyTime
  imports Prelude "HOL-Library.List_Lexorder" "HOL-Library.Char_ord"
begin

text \<open>
  The pieces of Python's number formatting and of its datetime and calendar modules that the
  services rely on: decimal printing and \<open>int()\<close>, the proleptic Gregorian calendar (ordinals,
  month lengths), instants in microseconds, naive and timezone-aware values, and ISO printing.
  An instant counts microseconds from ordinal 0 (midnight before 0001-01-01) in UTC.
\<close>

subsection \<open>Decimal numbers\<close>

definition digit_char :: "nat \<Rightarrow> char" where
  "digit_char d = char_of (48 + d)"

definition is_digit :: "char \<Rightarrow> bool" where
  "is_digit c \<longleftrightarrow> 48 \<le> (of_char c :: nat) \<and> (of_char c :: nat) \<le> 57"

definition digit_val :: "char \<Rightarrow> nat" where
  "digit_val c = of_char c - 48"

fun digits :: "nat \<Rightarrow> string" where
  "digits n = (if n < 10 then [digit_char n] else digits (n div 10) @ [digit_char (n mod 10)])"

declare digits.simps [simp del]

definition show_int :: "int \<Rightarrow> string" where
  "show_int i = (if i < 0 then CHR ''-'' # digits (nat (- i)) else digits (nat i))"

text \<open>Zero padding, as in \<open>f"{n:05d}"\<close> for a number that is not negative.\<close>

definition zpad :: "nat \<Rightarrow> nat \<Rightarrow> string" where
  "zpad w n = replicate (w - length (digits n)) (CHR ''0'') @ digits n"

fun digits_val :: "nat \<Rightarrow> string \<Rightarrow> nat" where
  "digits_val acc [] = acc"
| "digits_val acc (c # cs) = digits_val (acc * 10 + digit_val c) cs"

text \<open>
  \<open>int(s)\<close>: surrounding blanks, a sign, digits with single underscores between them; anything
  else is a ValueError (here \<open>None\<close>).
\<close>

fun int_digits :: "nat \<Rightarrow> bool \<Rightarrow> string \<Rightarrow> nat option" where
  "int_digits acc prev [] = (if prev then Some acc else None)"
| "int_digits acc prev (c # cs) =
     (if is_digit c then int_digits (acc * 10 + digit_val c) True cs
      else if c = CHR ''_'' \<and> prev then int_digits acc False cs
      else None)"

definition python_int :: "string \<Rightarrow> int option" where
  "python_int s =
     (case strip s of
        [] \<Rightarrow> None
      | c # cs \<Rightarrow>
          (if c = CHR ''-'' then map_option (\<lambda>n. - int n) (int_digits 0 False cs)
           else if c = CHR ''+'' then map_option int (int_digits 0 False cs)
           else map_option int (int_digits 0 False (c # cs))))"

lemma of_char_digit [simp]: "d < 10 \<Longrightarrow> (of_char (digit_char d) :: nat) = 48 + d"
  by (simp add: digit_char_def)

lemma is_digit_digit_char [simp]: "d < 10 \<Longrightarrow> is_digit (digit_char d)"
  by (simp add: is_digit_def)

lemma digit_val_digit_char [simp]: "d < 10 \<Longrightarrow> digit_val (digit_char d) = d"
  by (simp add: digit_val_def)

lemma digits_all: "\<forall>c\<in>set (digits n). is_digit c"
  by (induction n rule: digits.induct) (subst digits.simps, auto)

lemma digits_not_Nil [simp]: "digits n \<noteq> []"
  by (subst digits.simps) simp

lemma digits_val_append: "digits_val acc (xs @ ys) = digits_val (digits_val acc xs) ys"
  by (induction xs arbitrary: acc) auto

lemma digits_val_digits: "digits_val 0 (digits n) = n"
  by (induction n rule: digits.induct) (subst digits.simps, auto simp: digits_val_append)

lemma digits_val_zeros [simp]: "digits_val 0 (replicate k (CHR ''0'')) = 0"
  by (induction k) (auto simp: digit_val_def)

lemma digits_val_zpad: "digits_val 0 (zpad w n) = n"
  by (simp add: zpad_def digits_val_append digits_val_digits)

lemma zpad_all: "\<forall>c\<in>set (zpad w n). is_digit c"
  using digits_all by (auto simp: zpad_def is_digit_def)

lemma int_digits_all:
  "\<forall>c\<in>set s. is_digit c \<Longrightarrow> int_digits acc prev s =
     (if s = [] \<and> \<not> prev then None else Some (digits_val acc s))"
  by (induction s arbitrary: acc prev) auto

lemma digit_not_space: "is_digit c \<Longrightarrow> \<not> str_py_space c"
  by (auto simp: is_digit_def str_py_space_def)

lemma strip_digits:
  assumes "\<forall>c\<in>set s. is_digit c"
  shows "strip s = s"
proof -
  have drop: "\<forall>c\<in>set t. is_digit c \<Longrightarrow> dropWhile str_py_space t = t" for t :: string
    by (cases t) (auto simp: digit_not_space)
  from drop [of s] drop [of "rev s"] assms show ?thesis
    by (simp add: strip_def lstrip_def rstrip_def)
qed

lemma python_int_digits:
  assumes "\<forall>c\<in>set s. is_digit c" "s \<noteq> []"
  shows "python_int s = Some (int (digits_val 0 s))"
proof -
  obtain c cs where s: "s = c # cs" using assms(2) by (cases s) auto
  have "c \<noteq> CHR ''-''" "c \<noteq> CHR ''+''" using assms s by (auto simp: is_digit_def)
  moreover have "int_digits 0 False s = Some (digits_val 0 s)"
    using int_digits_all [OF assms(1)] assms(2) by simp
  ultimately show ?thesis
    using strip_digits [OF assms(1)] unfolding python_int_def s by simp
qed

lemma python_int_zpad: "python_int (zpad w n) = Some (int n)"
proof -
  have "zpad w n \<noteq> []" by (simp add: zpad_def)
  with python_int_digits [OF zpad_all] show ?thesis by (simp add: digits_val_zpad)
qed

lemma python_int_show_nat: "python_int (digits n) = Some (int n)"
  using python_int_digits [OF digits_all] by (simp add: digits_val_digits)

lemma digits_inj: "digits m = digits n \<Longrightarrow> m = n"
  by (metis digits_val_digits)

lemma zpad_inj: "zpad w m = zpad w n \<Longrightarrow> m = n"
  by (metis digits_val_zpad)

lemma length_digits: "n < 10 ^ k \<Longrightarrow> 0 < k \<Longrightarrow> length (digits n) \<le> k"
proof (induction n arbitrary: k rule: digits.induct)
  case (1 n)
  show ?case
  proof (cases "n < 10")
    case True
    with 1 show ?thesis by (subst digits.simps) simp
  next
    case False
    with 1 obtain j where j: "k = Suc j" "0 < j"
      by (metis One_nat_def Suc_pred neq0_conv power_one_right)
    then have "n div 10 < 10 ^ j" using 1 by (simp add: less_mult_imp_div_less mult.commute)
    with 1(1) [OF False this j(2)] False j show ?thesis by (subst digits.simps) simp
  qed
qed

lemma length_digits_ge: "10 ^ k \<le> n \<Longrightarrow> k < length (digits n)"
proof (induction n arbitrary: k rule: digits.induct)
  case (1 n)
  show ?case
  proof (cases k)
    case 0
    then show ?thesis by simp
  next
    case (Suc j)
    have "10 \<le> n" using 1(2) Suc by (metis dual_order.trans le_add1 mult_le_mono2 nat_mult_1_right
          one_le_numeral one_le_power power_Suc)
    then have f: "\<not> n < 10" by simp
    have "10 ^ j \<le> n div 10" using 1(2) Suc by (simp add: less_eq_div_iff_mult_less_eq mult.commute)
    with 1(1) [OF f] f Suc show ?thesis by (subst digits.simps) simp
  qed
qed

lemma length_zpad: "n < 10 ^ w \<Longrightarrow> 0 < w \<Longrightarrow> length (zpad w n) = w"
  using length_digits [of n w] by (simp add: zpad_def)

subsection \<open>Lexicographic order of digit strings\<close>

lemma char_less_digit:
  "is_digit c \<Longrightarrow> is_digit d \<Longrightarrow> c < d \<longleftrightarrow> digit_val c < digit_val d"
  by (auto simp: is_digit_def digit_val_def less_char_def)

lemma char_eq_digit: "is_digit c \<Longrightarrow> is_digit d \<Longrightarrow> digit_val c = digit_val d \<Longrightarrow> c = d"
  by (auto simp: is_digit_def digit_val_def)
     (metis char_of_char le_add_diff_inverse)

lemma digit_val_less: "is_digit c \<Longrightarrow> digit_val c < 10"
  by (auto simp: is_digit_def digit_val_def)

lemma digits_val_shift: "digits_val acc s = acc * 10 ^ length s + digits_val 0 s"
proof (induction s arbitrary: acc)
  case (Cons c s)
  show ?case
    using Cons [of "acc * 10 + digit_val c"] Cons [of "digit_val c"]
    by (simp add: algebra_simps)
qed simp

lemma digits_val_bound: "\<forall>c\<in>set s. is_digit c \<Longrightarrow> digits_val 0 s < 10 ^ length s"
proof (induction s)
  case (Cons c s)
  then have "digit_val c < 10" "digits_val 0 s < 10 ^ length s" by (auto intro: digit_val_less)
  then have "digit_val c * 10 ^ length s + digits_val 0 s < (digit_val c + 1) * 10 ^ length s"
    by simp
  also have "\<dots> \<le> 10 * 10 ^ length s" using \<open>digit_val c < 10\<close>
    by (intro mult_le_mono1) simp
  finally show ?case by (simp add: digits_val_shift [of "digit_val c" s])
qed simp

text \<open>Digit strings of one length compare as the numbers they print.\<close>

lemma less_digits_iff:
  assumes "length s = length t" "\<forall>c\<in>set s. is_digit c" "\<forall>c\<in>set t. is_digit c"
  shows "s < t \<longleftrightarrow> digits_val 0 s < digits_val 0 t"
  using assms
proof (induction s t rule: list_induct2)
  case Nil
  show ?case by simp
next
  case (Cons c s d t)
  have b: "digits_val 0 s < 10 ^ length s" "digits_val 0 t < 10 ^ length s"
    using Cons digits_val_bound [of s] digits_val_bound [of t] by auto
  have e: "digits_val 0 (c # s) = digit_val c * 10 ^ length s + digits_val 0 s"
    "digits_val 0 (d # t) = digit_val d * 10 ^ length s + digits_val 0 t"
    using digits_val_shift [of "digit_val c" s] digits_val_shift [of "digit_val d" t] Cons.hyps
    by auto
  consider "digit_val c < digit_val d" | "c = d" | "digit_val d < digit_val c"
    using Cons.prems char_eq_digit [of c d] by fastforce
  then show ?case
  proof cases
    case 1
    then have "(digit_val c + 1) * 10 ^ length s \<le> digit_val d * 10 ^ length s"
      by (intro mult_le_mono1) simp
    with b e have "digits_val 0 (c # s) < digits_val 0 (d # t)" by (simp add: algebra_simps)
    with 1 Cons.prems show ?thesis by (simp add: char_less_digit)
  next
    case 2
    with Cons e show ?thesis by auto
  next
    case 3
    then have "(digit_val d + 1) * 10 ^ length s \<le> digit_val c * 10 ^ length s"
      by (intro mult_le_mono1) simp
    with b e have "digits_val 0 (d # t) < digits_val 0 (c # s)" by (simp add: algebra_simps)
    with 3 Cons.prems show ?thesis by (auto simp: char_less_digit)
  qed
qed

lemma append_less_cancel: "(p @ s :: 'a::linorder list) < p @ t \<longleftrightarrow> s < t"
  by (induction p) auto

lemma append_le_cancel: "(p @ s :: 'a::linorder list) \<le> p @ t \<longleftrightarrow> s \<le> t"
  by (auto simp: le_less append_less_cancel)

subsection \<open>The Gregorian calendar\<close>

definition is_leap :: "int \<Rightarrow> bool" where
  "is_leap y \<longleftrightarrow> y mod 4 = 0 \<and> (y mod 100 \<noteq> 0 \<or> y mod 400 = 0)"

text \<open>\<open>calendar.monthrange(y, m)[1]\<close>.\<close>

definition days_in_month :: "int \<Rightarrow> int \<Rightarrow> int" where
  "days_in_month y m =
     (if m = 2 then (if is_leap y then 29 else 28) else if m \<in> {4, 6, 9, 11} then 30 else 31)"

definition days_before_year :: "int \<Rightarrow> int" where
  "days_before_year y = (y - 1) * 365 + (y - 1) div 4 - (y - 1) div 100 + (y - 1) div 400"

definition days_before_month :: "int \<Rightarrow> int \<Rightarrow> int" where
  "days_before_month y m = sum_list (map (days_in_month y) [1..m - 1])"

record date =
  year :: int
  month :: int
  day :: int

definition valid_date :: "date \<Rightarrow> bool" where
  "valid_date d \<longleftrightarrow> 1 \<le> year d \<and> year d \<le> 9999 \<and> 1 \<le> month d \<and> month d \<le> 12 \<and>
     1 \<le> day d \<and> day d \<le> days_in_month (year d) (month d)"

definition toordinal :: "date \<Rightarrow> int" where
  "toordinal d = days_before_year (year d) + days_before_month (year d) (month d) + day d"

lemma div_pred: "0 < k \<Longrightarrow> y div k = (y - 1) div k + (if y mod k = 0 then 1 else 0)" for y k :: int
proof -
  assume k: "0 < k"
  define q r where "q = (y - 1) div k" and "r = (y - 1) mod k"
  have y: "y = q * k + (r + 1)" by (simp add: q_def r_def)
  have r: "0 \<le> r" "r < k" using k by (auto simp: r_def)
  show ?thesis
  proof (cases "r + 1 = k")
    case True
    then have "y = (q + 1) * k" using y by (simp add: algebra_simps)
    then have "y div k = q + 1" "y mod k = 0" using k by auto
    then show ?thesis by (simp add: q_def)
  next
    case False
    then have "r + 1 < k" using r by simp
    then have "y div k = q" "y mod k = r + 1" unfolding y using r by auto
    then show ?thesis using r by (simp add: q_def)
  qed
qed

lemma days_before_year_Suc:
  "days_before_year (y + 1) = days_before_year y + (if is_leap y then 366 else 365)"
proof -
  have q: "y div 4 = (y - 1) div 4 + (if y mod 4 = 0 then 1 else 0)"
    "y div 100 = (y - 1) div 100 + (if y mod 100 = 0 then 1 else 0)"
    "y div 400 = (y - 1) div 400 + (if y mod 400 = 0 then 1 else 0)"
    by (rule div_pred, simp)+
  have m: "y mod 400 = 0 \<Longrightarrow> y mod 100 = 0" "y mod 100 = 0 \<Longrightarrow> y mod 4 = 0"
    using mod_mod_cancel [of 100 400 y] mod_mod_cancel [of 4 100 y] by auto
  have count: "y * 365 + a - b + c = (y - 1) * 365 + a' - b' + c' + (if P \<and> (\<not> Q \<or> R) then 366 else 365)"
    if "a = a' + (if P then 1 else 0)" "b = b' + (if Q then 1 else 0)" "c = c' + (if R then 1 else 0)"
      "R \<Longrightarrow> Q" "Q \<Longrightarrow> P" for a b c a' b' c' :: int and P Q R
    using that by auto
  from count [OF q m] show ?thesis by (simp only: days_before_year_def is_leap_def add_diff_cancel simp_thms)
qed

lemma days_before_month_Suc:
  "1 \<le> m \<Longrightarrow> days_before_month y (m + 1) = days_before_month y m + days_in_month y m"
  using upto_rec2 [of 1 m] by (simp add: days_before_month_def)

lemma days_before_month_1 [simp]: "days_before_month y 1 = 0"
  by (simp add: days_before_month_def)

lemma days_in_month_bounds: "28 \<le> days_in_month y m \<and> days_in_month y m \<le> 31"
  by (auto simp: days_in_month_def)

lemma days_before_month_mono: "m \<le> m' \<Longrightarrow> 1 \<le> m \<Longrightarrow> days_before_month y m \<le> days_before_month y m'"
proof (induction m' rule: int_ge_induct)
  case (step i)
  with days_in_month_bounds [of y i] show ?case by (simp add: days_before_month_Suc)
qed simp

function year_search :: "int \<Rightarrow> int \<Rightarrow> int" where
  "year_search n y = (if days_before_year (y + 1) < n then year_search n (y + 1) else y)"
  by pat_completeness auto
termination
proof (relation "measure (\<lambda>(n, y). nat (n - days_before_year (y + 1)))")
  fix n y :: int
  assume "days_before_year (y + 1) < n"
  with days_before_year_Suc [of "y + 1"]
  show "((n, y + 1), n, y) \<in> measure (\<lambda>(n, y). nat (n - days_before_year (y + 1)))"
    by (simp split: if_splits)
qed simp

function month_search :: "int \<Rightarrow> int \<Rightarrow> int \<Rightarrow> int \<times> int" where
  "month_search y r m =
     (if r \<le> days_in_month y m \<or> 12 \<le> m then (m, r)
      else month_search y (r - days_in_month y m) (m + 1))"
  by pat_completeness auto
termination
  by (relation "measure (\<lambda>(y, r, m). nat (12 - m))") auto

declare year_search.simps [simp del] month_search.simps [simp del]

text \<open>\<open>date.fromordinal(n)\<close>.\<close>

definition fromordinal :: "int \<Rightarrow> date" where
  "fromordinal n =
     (let y = year_search n ((n - 1) div 366 + 1);
          (m, d) = month_search y (n - days_before_year y) 1
      in \<lparr>year = y, month = m, day = d\<rparr>)"

lemma days_before_year_strict: "y < z \<Longrightarrow> days_before_year y < days_before_year z"
proof (induction z rule: int_gr_induct)
  case base
  then show ?case by (simp add: days_before_year_Suc)
next
  case (step i)
  then show ?case by (simp add: days_before_year_Suc split: if_splits)
qed

lemma days_before_year_mono: "y \<le> z \<Longrightarrow> days_before_year y \<le> days_before_year z"
  using days_before_year_strict [of y z] by (cases "y = z") auto

lemma year_search_upper: "n \<le> days_before_year (year_search n y + 1)"
  by (induction n y rule: year_search.induct) (subst year_search.simps, auto)

lemma year_search_lower:
  "days_before_year y < n \<Longrightarrow> days_before_year (year_search n y) < n"
  by (induction n y rule: year_search.induct) (subst year_search.simps, auto)

lemma year_start: "1 \<le> n \<Longrightarrow> days_before_year ((n - 1) div 366 + 1) < n"
proof -
  assume n: "1 \<le> n"
  define p where "p = (n - 1) div 366"
  have p: "0 \<le> p" "p * 366 \<le> n - 1" using n by (auto simp: p_def)
  have "p div 4 \<le> p" using p(1) by presburger
  moreover have "p div 400 \<le> p div 100" using p(1) by (simp add: zdiv_mono2)
  ultimately have "p div 4 - p div 100 + p div 400 \<le> p" by linarith
  with p have "p * 365 + p div 4 - p div 100 + p div 400 \<le> n - 1" by simp
  then show ?thesis by (simp add: days_before_year_def p_def [symmetric])
qed

lemma year_unique:
  assumes "days_before_year y < n" "n \<le> days_before_year (y + 1)"
    "days_before_year z < n" "n \<le> days_before_year (z + 1)"
  shows "y = z"
proof (rule ccontr)
  assume "y \<noteq> z"
  then consider "y + 1 \<le> z" | "z + 1 \<le> y" by linarith
  then show False
    using assms days_before_year_mono [of "y + 1" z] days_before_year_mono [of "z + 1" y]
    by cases auto
qed

lemma days_in_year: "days_before_month y 12 + days_in_month y 12 = (if is_leap y then 366 else 365)"
proof -
  have "[1..11] = [1, 2, 3, 4, 5, 6, 7, 8, 9, 10, 11 :: int]" by (simp add: upto.simps)
  then show ?thesis by (simp add: days_before_month_def days_in_month_def)
qed

lemma month_search_spec:
  assumes "1 \<le> m" "m \<le> 12" "1 \<le> r" "r + days_before_month y m \<le> (if is_leap y then 366 else 365)"
  shows "case month_search y r m of (m', d) \<Rightarrow> m \<le> m' \<and> m' \<le> 12 \<and> 1 \<le> d \<and>
           d \<le> days_in_month y m' \<and> days_before_month y m' + d = days_before_month y m + r"
  using assms
proof (induction y r m rule: month_search.induct)
  case (1 y r m)
  show ?case
  proof (cases "r \<le> days_in_month y m \<or> 12 \<le> m")
    case True
    with "1.prems" days_in_year [of y] show ?thesis
      by (subst month_search.simps) auto
  next
    case False
    with "1.IH" [OF False] "1.prems" show ?thesis
      by (subst month_search.simps) (auto simp: days_before_month_Suc split: prod.splits)
  qed
qed

lemma month_search_found:
  assumes "1 \<le> m" "m \<le> m'" "m' \<le> 12" "1 \<le> d" "d \<le> days_in_month y m'"
  shows "month_search y (days_before_month y m' - days_before_month y m + d) m = (m', d)"
  using assms
proof (induction "nat (m' - m)" arbitrary: m)
  case 0
  then show ?case by (subst month_search.simps) simp
next
  case (Suc k)
  then have mm: "m + 1 \<le> m'" by simp
  have ge: "days_before_month y (m + 1) \<le> days_before_month y m'"
    using Suc.prems mm by (intro days_before_month_mono) auto
  have step: "days_before_month y (m + 1) = days_before_month y m + days_in_month y m"
    using Suc.prems by (simp add: days_before_month_Suc)
  have "\<not> days_before_month y m' - days_before_month y m + d \<le> days_in_month y m"
    using ge step Suc.prems by simp
  then show ?case
    using Suc(1) [of "m + 1"] Suc(2) Suc.prems mm step
    by (subst month_search.simps) (simp add: algebra_simps)
qed

text \<open>The calendar conversions are inverse to each other.\<close>

lemma toordinal_fromordinal:
  assumes "1 \<le> n"
  shows "toordinal (fromordinal n) = n"
proof -
  define y where "y = year_search n ((n - 1) div 366 + 1)"
  have lo: "days_before_year y < n" and hi: "n \<le> days_before_year (y + 1)"
    unfolding y_def using year_start [OF assms] by (auto intro: year_search_lower year_search_upper)
  have "case month_search y (n - days_before_year y) 1 of (m', d) \<Rightarrow>
      days_before_month y m' + d = n - days_before_year y"
    using month_search_spec [of 1 "n - days_before_year y" y] lo hi
    by (auto simp: days_before_year_Suc split: prod.splits if_splits)
  then show ?thesis
    by (auto simp: fromordinal_def toordinal_def Let_def y_def [symmetric] split: prod.splits)
qed

lemma fromordinal_toordinal:
  assumes "valid_date d"
  shows "fromordinal (toordinal d) = d"
proof -
  define n where "n = toordinal d"
  have v: "1 \<le> month d" "month d \<le> 12" "1 \<le> day d" "day d \<le> days_in_month (year d) (month d)"
    "1 \<le> year d" using assms by (auto simp: valid_date_def)
  have mono: "days_before_month (year d) (month d) + day d \<le> (if is_leap (year d) then 366 else 365)"
    and nn: "0 \<le> days_before_month (year d) (month d)"
  proof -
    have "days_before_month (year d) (month d + 1) \<le> days_before_month (year d) 13"
      using v by (intro days_before_month_mono) auto
    with v days_in_year [of "year d"] show "days_before_month (year d) (month d) + day d
        \<le> (if is_leap (year d) then 366 else 365)"
      using days_before_month_Suc [of "month d" "year d"] days_before_month_Suc [of 12 "year d"]
      by simp
    show "0 \<le> days_before_month (year d) (month d)"
      unfolding days_before_month_def
      by (intro sum_list_nonneg) (auto intro: order_trans [OF _ conjunct1 [OF days_in_month_bounds]])
  qed
  have dby: "0 \<le> days_before_year (year d)"
    using days_before_year_mono [of 1 "year d"] v by (simp add: days_before_year_def)
  have lo: "days_before_year (year d) < n" using v nn by (simp add: n_def toordinal_def)
  have hi: "n \<le> days_before_year (year d + 1)"
    using mono by (simp add: n_def toordinal_def days_before_year_Suc)
  have n1: "1 \<le> n" using lo dby by simp
  have y: "year_search n ((n - 1) div 366 + 1) = year d"
    using lo hi year_start [OF n1] by (intro year_unique) (auto intro: year_search_lower year_search_upper)
  have "month_search (year d) (n - days_before_year (year d)) 1 = (month d, day d)"
    using month_search_found [of 1 "month d" "day d" "year d"] v by (simp add: n_def toordinal_def)
  with y show ?thesis by (simp add: fromordinal_def n_def [symmetric])
qed

subsection \<open>Instants and datetimes\<close>

definition us_day :: int where
  "us_day = 86400000000"

definition us_second :: int where
  "us_second = 1000000"

text \<open>\<open>datetime(1970, 1, 1).toordinal()\<close>.\<close>

definition epoch_ordinal :: int where
  "epoch_ordinal = 719163"

text \<open>\<open>dt.date()\<close> and \<open>datetime.combine\<close>, for UTC instants.\<close>

definition date_of :: "int \<Rightarrow> date" where
  "date_of t = fromordinal (t div us_day)"

definition at_time :: "date \<Rightarrow> int \<Rightarrow> int" where
  "at_time d us = toordinal d * us_day + us"

text \<open>\<open>int(dt.timestamp())\<close>.\<close>

definition unix_seconds :: "int \<Rightarrow> int" where
  "unix_seconds t = (t - epoch_ordinal * us_day) div us_second"

definition days :: "int \<Rightarrow> int" where
  "days n = n * us_day"

definition seconds :: "int \<Rightarrow> int" where
  "seconds n = n * us_second"

definition minutes :: "int \<Rightarrow> int" where
  "minutes n = n * 60 * us_second"

text \<open>
  A datetime object: with the timezone UTC, or naive as SQLite hands it back. Both carry UTC
  wall-clock time, so both name an instant.
\<close>

datatype pydt = Naive int | Aware int

fun instant :: "pydt \<Rightarrow> int" where
  "instant (Naive t) = t"
| "instant (Aware t) = t"

definition iso_date :: "date \<Rightarrow> string" where
  "iso_date d = zpad 4 (nat (year d)) @ ''-'' @ zpad 2 (nat (month d)) @ ''-'' @ zpad 2 (nat (day d))"

definition iso_time :: "int \<Rightarrow> string" where
  "iso_time us =
     (let s = us div us_second; f = us mod us_second
      in zpad 2 (nat (s div 3600)) @ '':'' @ zpad 2 (nat (s mod 3600 div 60)) @ '':'' @
         zpad 2 (nat (s mod 60)) @ (if f = 0 then [] else ''.'' @ zpad 6 (nat f)))"

definition isoformat_utc :: "int \<Rightarrow> string" where
  "isoformat_utc t = iso_date (date_of t) @ ''T'' @ iso_time (t mod us_day) @ ''+00:00''"

text \<open>\<open>dt.isoformat()\<close>: a naive value prints no offset.\<close>

definition isoformat :: "pydt \<Rightarrow> string" where
  "isoformat d = (case d of
     Aware t \<Rightarrow> isoformat_utc t
   | Naive t \<Rightarrow> iso_date (date_of t) @ ''T'' @ iso_time (t mod us_day))"

lemma date_of_at_time:
  assumes "valid_date d" "0 \<le> us" "us < us_day"
  shows "date_of (at_time d us) = d"
proof -
  have "(toordinal d * us_day + us) div us_day = toordinal d"
    using assms(2,3) by (simp add: div_add1_eq us_day_def)
  with fromordinal_toordinal [OF assms(1)] show ?thesis by (simp add: date_of_def at_time_def)
qed

lemma at_time_mod: "0 \<le> us \<Longrightarrow> us < us_day \<Longrightarrow> at_time d us mod us_day = us"
  by (simp add: at_time_def)

end
