(* ===== verification/PyJson.thy ===== *)
theory PyJson
  imports PyTime Complex_Main
begin

text \<open>
  JSON values as Python sees them after \<open>json.loads\<close> or in a JSON column: the audit diffs, the
  trigger conditions and the metric payloads. Floating-point numbers are exact rationals with
  the three IEEE special values. The comparison operators follow Python: numbers and booleans
  compare by value, lists by their elements, \<open>==\<close> is total, and an ordering between other
  types raises TypeError (here \<open>None\<close>).
\<close>

datatype pyfloat = Fin rat | PosInf | NegInf | NaN

datatype json =
    JNull
  | JBool bool
  | JInt int
  | JFloat pyfloat
  | JStr string
  | JList "json list"
  | JObj "(string \<times> json) list"

subsection \<open>Dictionaries\<close>

type_synonym dict = "(string \<times> json) list"

text \<open>\<open>d.get(k)\<close>; a key occurs at most once in a dictionary.\<close>

definition jget :: "string \<Rightarrow> (string \<times> json) list \<Rightarrow> json option" where
  "jget k d = map_of d k"

text \<open>\<open>d.get(k)\<close> with the default None.\<close>

definition jget_or_null :: "string \<Rightarrow> (string \<times> json) list \<Rightarrow> json" where
  "jget_or_null k d = (case map_of d k of None \<Rightarrow> JNull | Some v \<Rightarrow> v)"

text \<open>\<open>d[k] = v\<close>: overwrite in place, or append.\<close>

fun jset :: "string \<Rightarrow> json \<Rightarrow> (string \<times> json) list \<Rightarrow> (string \<times> json) list" where
  "jset k v [] = [(k, v)]"
| "jset k v ((k', v') # d) = (if k' = k then (k, v) # d else (k', v') # jset k v d)"

text \<open>A value in a condition: \<open>bool(v)\<close>.\<close>

fun jtruthy :: "json \<Rightarrow> bool" where
  "jtruthy JNull = False"
| "jtruthy (JBool b) = b"
| "jtruthy (JInt i) = (i \<noteq> 0)"
| "jtruthy (JFloat f) = (f \<noteq> Fin 0)"
| "jtruthy (JStr s) = (s \<noteq> [])"
| "jtruthy (JList xs) = (xs \<noteq> [])"
| "jtruthy (JObj d) = (d \<noteq> [])"

text \<open>\<open>d.get(k, v)\<close>, and \<open>a or b\<close>.\<close>

definition jget_or :: "json \<Rightarrow> string \<Rightarrow> dict \<Rightarrow> json" where
  "jget_or dflt k d = (case map_of d k of None \<Rightarrow> dflt | Some v \<Rightarrow> v)"

definition json_or :: "json \<Rightarrow> json \<Rightarrow> json" where
  "json_or a b = (if jtruthy a then a else b)"

text \<open>\<open>int(v)\<close>: a float is truncated towards zero.\<close>

fun json_int :: "json \<Rightarrow> exc + int" where
  "json_int (JStr s) = (case python_int s of None \<Rightarrow> Inl (ValueError ''invalid literal for int()'') | Some i \<Rightarrow> Inr i)"
| "json_int (JInt i) = Inr i"
| "json_int (JBool b) = Inr (if b then 1 else 0)"
| "json_int (JFloat (Fin x)) = Inr (if x < 0 then \<lceil>x\<rceil> else \<lfloor>x\<rfloor>)"
| "json_int (JFloat NaN) = Inl (ValueError ''cannot convert float NaN to integer'')"
| "json_int (JFloat _) = Inl (OverflowError ''cannot convert float infinity to integer'')"
| "json_int _ = Inl (TypeError ''int() argument'')"

definition jstr_opt :: "string option \<Rightarrow> json" where
  "jstr_opt s = (case s of None \<Rightarrow> JNull | Some t \<Rightarrow> JStr t)"

definition jfloat_opt :: "pyfloat option \<Rightarrow> json" where
  "jfloat_opt f = (case f of None \<Rightarrow> JNull | Some x \<Rightarrow> JFloat x)"

lemma map_of_jset: "map_of (jset k v d) = (map_of d)(k \<mapsto> v)"
  by (induction d) (auto simp: fun_eq_iff)

lemma jget_jset [simp]: "jget k (jset k v d) = Some v"
  by (simp add: jget_def map_of_jset)

lemma jget_jset_other [simp]: "k \<noteq> k' \<Longrightarrow> jget k (jset k' v d) = jget k d"
  by (simp add: jget_def map_of_jset)

subsection \<open>Comparisons\<close>

fun feq :: "pyfloat \<Rightarrow> pyfloat \<Rightarrow> bool" where
  "feq (Fin a) (Fin b) = (a = b)"
| "feq PosInf PosInf = True"
| "feq NegInf NegInf = True"
| "feq _ _ = False"

fun flt :: "pyfloat \<Rightarrow> pyfloat \<Rightarrow> bool" where
  "flt NaN _ = False"
| "flt _ NaN = False"
| "flt (Fin a) (Fin b) = (a < b)"
| "flt (Fin a) PosInf = True"
| "flt NegInf (Fin b) = True"
| "flt NegInf PosInf = True"
| "flt _ _ = False"

definition fle :: "pyfloat \<Rightarrow> pyfloat \<Rightarrow> bool" where
  "fle a b \<longleftrightarrow> flt a b \<or> feq a b"

text \<open>The numeric value of an int, a float or a boolean.\<close>

fun jnum :: "json \<Rightarrow> pyfloat option" where
  "jnum (JBool b) = Some (Fin (if b then 1 else 0))"
| "jnum (JInt i) = Some (Fin (of_int i))"
| "jnum (JFloat f) = Some f"
| "jnum _ = None"

fun jeq :: "json \<Rightarrow> json \<Rightarrow> bool" and
    jeq_list :: "json list \<Rightarrow> json list \<Rightarrow> bool" and
    jeq_obj :: "(string \<times> json) list \<Rightarrow> (string \<times> json) list \<Rightarrow> bool" where
  "jeq JNull JNull = True"
| "jeq (JStr s) (JStr t) = (s = t)"
| "jeq (JList xs) (JList ys) = jeq_list xs ys"
| "jeq (JObj d) (JObj e) = (length d = length e \<and> jeq_obj d e)"
| "jeq a b = (case (jnum a, jnum b) of (Some x, Some y) \<Rightarrow> feq x y | _ \<Rightarrow> False)"
| "jeq_list [] [] = True"
| "jeq_list (x # xs) (y # ys) = (jeq x y \<and> jeq_list xs ys)"
| "jeq_list _ _ = False"
| "jeq_obj [] e = True"
| "jeq_obj ((k, v) # d) e = ((case map_of e k of None \<Rightarrow> False | Some w \<Rightarrow> jeq v w) \<and> jeq_obj d e)"

text \<open>\<open>a < b\<close>; None is a TypeError. \<open>a <= b\<close> is \<open>a < b or a == b\<close> on the ordered types.\<close>

fun jlt :: "json \<Rightarrow> json \<Rightarrow> bool option" and
    jlt_list :: "bool \<Rightarrow> json list \<Rightarrow> json list \<Rightarrow> bool option" where
  "jlt (JStr s) (JStr t) = Some (s < t)"
| "jlt (JList xs) (JList ys) = jlt_list False xs ys"
| "jlt a b = (case (jnum a, jnum b) of (Some x, Some y) \<Rightarrow> Some (flt x y) | _ \<Rightarrow> None)"
| "jlt_list e [] [] = Some e"
| "jlt_list e [] (y # ys) = Some True"
| "jlt_list e (x # xs) [] = Some False"
| "jlt_list e (x # xs) (y # ys) = (if jeq x y then jlt_list e xs ys else jlt x y)"

definition jle :: "json \<Rightarrow> json \<Rightarrow> bool option" where
  "jle a b = (case jlt a b of None \<Rightarrow> None | Some l \<Rightarrow> Some (l \<or> jeq a b))"

lemma flt_NaN [simp]: "\<not> flt x NaN" "\<not> flt NaN x"
  by (cases x; simp)+

lemma feq_NaN [simp]: "\<not> feq x NaN" "\<not> feq NaN x"
  by (cases x; simp)+

lemma feq_refl: "x \<noteq> NaN \<Longrightarrow> feq x x"
  by (cases x) auto

lemma flt_irrefl [simp]: "\<not> flt x x"
  by (cases x) auto

lemma flt_trans: "flt x y \<Longrightarrow> flt y z \<Longrightarrow> flt x z"
  by (cases x; cases y; cases z) auto

lemma flt_linear: "x \<noteq> NaN \<Longrightarrow> y \<noteq> NaN \<Longrightarrow> flt x y \<or> feq x y \<or> flt y x"
  by (cases x; cases y) auto

lemma feq_sym: "feq x y \<Longrightarrow> feq y x"
  by (cases x; cases y) auto

lemma flt_asym: "flt x y \<Longrightarrow> \<not> flt y x"
  by (cases x; cases y) auto

subsection \<open>Printing with sorted keys\<close>

text \<open>
  \<open>json.dumps(v, sort_keys=True)\<close> prints every dictionary with its keys in order, whatever
  order they were inserted in: the same text as for the key-sorted value.
\<close>

fun sort_keys :: "json \<Rightarrow> json" where
  "sort_keys (JList xs) = JList (map sort_keys xs)"
| "sort_keys (JObj d) = JObj (sort_key fst (map (\<lambda>(k, v). (k, sort_keys v)) d))"
| "sort_keys v = v"

lemma sort_key_perm_distinct:
  assumes "set d = set e" "distinct (map fst d)" "distinct (map fst e)"
  shows "sort_key fst d = sort_key fst (e :: (string \<times> 'v) list)"
proof (rule map_sorted_distinct_set_unique [where f = fst])
  show "inj_on fst (set (sort_key fst d) \<union> set (sort_key fst e))"
    using assms by (simp add: distinct_map)
  show "sorted (map fst (sort_key fst d))" "sorted (map fst (sort_key fst e))" by simp_all
  show "distinct (map fst (sort_key fst d))" "distinct (map fst (sort_key fst e))"
    using assms by (simp_all add: distinct_map distinct_sort)
  show "set (sort_key fst d) = set (sort_key fst e)" using assms by simp
qed

text \<open>The order in which a dictionary's keys were inserted does not show in the printed text.\<close>

lemma sort_keys_perm:
  assumes "set d = set e" "distinct (map fst d)" "distinct (map fst e)"
  shows "sort_keys (JObj d) = sort_keys (JObj e)"
proof -
  let ?f = "\<lambda>(k, v). (k, sort_keys v)"
  have fst: "map fst (map ?f x) = map fst x" for x :: "(string \<times> json) list"
    by (induction x) auto
  have "sort_key fst (map ?f d) = sort_key fst (map ?f e)"
    using assms by (intro sort_key_perm_distinct) (auto simp: fst simp del: map_map)
  then show ?thesis by simp
qed

end
