(* ===== verification/Ports.thy ===== *)
theory Ports
  imports PyJson
begin

text \<open>
  What lies outside the database: the RQ queues and the Redis server. A transaction that rolls
  back does not undo what was sent there. The queue side is the list of jobs handed to RQ; the
  Redis side is the list of commands issued, and what Redis answers to a read is a function of
  the commands before it, a parameter of the model whose documented behaviour is
  \<open>redis_laws\<close>.
\<close>

subsection \<open>Queues\<close>

record queued_job =
  job_id :: string
  job_queue :: string
  job_func :: string
  job_kwargs :: "(string \<times> json) list"
  job_retry :: "int list"

record queue_port =
  q_up :: bool
  q_job_id :: "nat \<Rightarrow> string"
  q_jobs :: "queued_job list"

subsection \<open>Redis\<close>

text \<open>Write commands, each at its time (microseconds); expiry times in seconds.\<close>

datatype redis_cmd =
    SETEX int string int string
  | DEL int string
  | INCR int string
  | EXPIRE int string int

record redis_port =
  r_up :: bool
  r_log :: "redis_cmd list"
  r_get :: "redis_cmd list \<Rightarrow> int \<Rightarrow> string \<Rightarrow> string option"
  r_count :: "redis_cmd list \<Rightarrow> int \<Rightarrow> string \<Rightarrow> int"

fun cmd_key :: "redis_cmd \<Rightarrow> string" where
  "cmd_key (SETEX t k ttl v) = k"
| "cmd_key (DEL t k) = k"
| "cmd_key (INCR t k) = k"
| "cmd_key (EXPIRE t k ttl) = k"

text \<open>
  GET: the value of the last SETEX of the key until its time to live has passed or the key is
  deleted; commands on other keys do not matter. The value INCR returns: one more than the
  value before, starting from zero, unless the key expired in between.
\<close>

definition redis_laws ::
  "(redis_cmd list \<Rightarrow> int \<Rightarrow> string \<Rightarrow> string option) \<Rightarrow> (redis_cmd list \<Rightarrow> int \<Rightarrow> string \<Rightarrow> int) \<Rightarrow> bool" where
  "redis_laws get cnt \<longleftrightarrow>
     (\<forall>now k. get [] now k = None \<and> cnt [] now k = 0) \<and>
     (\<forall>h t k ttl v now. t \<le> now \<longrightarrow>
        get (h @ [SETEX t k ttl v]) now k = (if now < t + seconds ttl then Some v else None)) \<and>
     (\<forall>h t k now. get (h @ [DEL t k]) now k = None) \<and>
     (\<forall>h c now k. cmd_key c \<noteq> k \<longrightarrow> get (h @ [c]) now k = get h now k \<and> cnt (h @ [c]) now k = cnt h now k) \<and>
     (\<forall>h t k now. cnt h t k = 0 \<longrightarrow> cnt (h @ [INCR t k]) now k = 1) \<and>
     (\<forall>h t k now. 0 < cnt h now k \<longrightarrow> t \<le> now \<longrightarrow> cnt (h @ [INCR t k]) now k = cnt h now k + 1) \<and>
     (\<forall>h t k ttl now. t \<le> now \<longrightarrow>
        cnt (h @ [EXPIRE t k ttl]) now k = (if now < t + seconds ttl then cnt h now k else 0))"

subsection \<open>Sample ports\<close>

definition sample_queue :: queue_port where
  "sample_queue = \<lparr>q_up = True, q_job_id = digits, q_jobs = []\<rparr>"

text \<open>A Redis that keeps the documented behaviour: it replays the commands.\<close>

fun replay_get :: "redis_cmd list \<Rightarrow> int \<Rightarrow> string \<Rightarrow> string option" where
  "replay_get [] now k = None"
| "replay_get (c # older) now k =
     (if cmd_key c \<noteq> k then replay_get older now k
      else case c of
             SETEX t k' ttl v \<Rightarrow> if now < t + seconds ttl then Some v else None
           | DEL t k' \<Rightarrow> None
           | INCR t k' \<Rightarrow> replay_get older now k
           | EXPIRE t k' ttl \<Rightarrow> replay_get older now k)"

fun replay_count :: "redis_cmd list \<Rightarrow> int \<Rightarrow> string \<Rightarrow> int" where
  "replay_count [] now k = 0"
| "replay_count (c # older) now k =
     (if cmd_key c \<noteq> k then replay_count older now k
      else case c of
             INCR t k' \<Rightarrow> if replay_count older t k = 0 then 1
                          else if replay_count older now k = 0 then 0 else replay_count older now k + 1
           | EXPIRE t k' ttl \<Rightarrow> if now < t + seconds ttl then replay_count older now k else 0
           | _ \<Rightarrow> replay_count older now k)"

definition sample_redis :: redis_port where
  "sample_redis = \<lparr>r_up = True, r_log = [], r_get = (\<lambda>h. replay_get (rev h)), r_count = (\<lambda>h. replay_count (rev h))\<rparr>"

lemma replay_count_nonneg: "0 \<le> replay_count h now k"
  by (induction h arbitrary: now) (auto split: redis_cmd.splits)

lemma replay_count_earlier:
  "0 < replay_count h now k \<Longrightarrow> t \<le> now \<Longrightarrow> replay_count h t k = replay_count h now k"
proof (induction h)
  case (Cons c h)
  have "\<not> 0 < replay_count h now k \<Longrightarrow> replay_count h now k = 0"
    using replay_count_nonneg [of h now k] by simp
  with Cons show ?case by (auto split: redis_cmd.splits if_splits)
qed simp

lemma sample_redis_laws: "redis_laws (r_get sample_redis) (r_count sample_redis)"
proof -
  have pos: "replay_count h now k \<noteq> 0 \<longleftrightarrow> 0 < replay_count h now k" for h now k
    using replay_count_nonneg [of h now k] by auto
  show ?thesis
    unfolding redis_laws_def sample_redis_def redis_port.simps
  proof (intro conjI allI impI)
    fix h :: "redis_cmd list" and t k now
    assume "0 < replay_count (rev h) now k" "t \<le> now"
    then show "replay_count (rev (h @ [INCR t k])) now k = replay_count (rev h) now k + 1"
      using replay_count_earlier [of "rev h" now k t] by simp
  qed simp_all
qed

end
