(* ===== verification/AuditTrail.thy ===== *)
theory AuditTrail
  imports Ports
begin

text \<open>
  The audit trail (app/models/audit.py, app/services/audit.py, app/audit_actions.py) and the
  database trigger that protects it (migrations/versions/c9e1a2b3d4f5_audit_immutability.py).
  The state \<open>session\<close> holds what every service reads from its surroundings (the clock, the
  supply of uuid4 values, the request being served); \<open>audit_db\<close> adds the audit_log table.
  SHA-256 over the printed payload is the parameter \<open>json_hash\<close>; it is applied to the
  key-sorted payload, because \<open>json.dumps(sort_keys=True)\<close> prints that.
\<close>

subsection \<open>The session\<close>

record request =
  remote_addr :: "string option"
  user_agent_string :: string
  current_user_id :: "string option"

datatype dialect = SQLite | PostgreSQL

record session =
  clock :: int
  uuid_at :: "nat \<Rightarrow> string"
  uuid_next :: nat
  request_context :: "request option"
  dialect :: dialect
  session_failed :: bool
  queue :: queue_port
  redis :: redis_port

definition utcnow :: "'a session_scheme \<Rightarrow> pydt" where
  "utcnow s = Aware (clock s)"

definition gen_uuid :: "'a session_scheme \<Rightarrow> string" where
  "gen_uuid s = uuid_at s (uuid_next s)"

definition take_uuid :: "('a session_scheme, string) py" where
  "take_uuid = (\<lambda>s. (Inr (gen_uuid s), s\<lparr>uuid_next := Suc (uuid_next s)\<rparr>))"

text \<open>\<open>_request_metadata\<close> and \<open>_current_user_id\<close>.\<close>

definition request_metadata :: "'a session_scheme \<Rightarrow> string option \<times> string option" where
  "request_metadata s =
     (case request_context s of
        None \<Rightarrow> (None, None)
      | Some r \<Rightarrow> (remote_addr r, or_none (take 255 (user_agent_string r))))"

definition session_user_id :: "'a session_scheme \<Rightarrow> string option" where
  "session_user_id s =
     (case request_context s of None \<Rightarrow> None | Some r \<Rightarrow> current_user_id r)"

text \<open>\<open>session.flush()\<close> of nothing new: only a failed session raises.\<close>

definition flush :: "('a session_scheme, unit) py" where
  "flush = with_state (\<lambda>s. if session_failed s then throw PendingRollbackError else ret ())"

subsection \<open>Actions\<close>

text \<open>\<open>record(action: AuditAction | str)\<close>: a few callers pass a plain string.\<close>

datatype audit_action =
    LOGIN_SUCCESS | LOGIN_2FA_SUCCESS | LOGIN_2FA_FAILURE | LOGOUT | ACCOUNT_LOCKED
  | TOTP_ENROLLED | DENIED
  | CREATE | UPDATE | TOGGLE_ACTIVE | CREATE_VERSION
  | STATUS_CHANGE | ASSIGNED_ACTION | COMMENT
  | SUBMIT | RECORD | FIRE | FIRE_DRY_RUN
  | DLQ_REQUEUE | DLQ_DISCARD
  | TRAINING_ENROLLED | TRAINING_LINK_SENT | TRAINING_ATTEMPT_STARTED
  | TRAINING_ATTEMPT_SUBMITTED | TRAINING_DECLARED | TRAINING_CERTIFIED
  | TRAINING_LINK_EXPIRED | TRAINING_REMINDER_SENT
  | GDPR_DSAR_EXPORTED | GDPR_REDACTED
  | PlainAction string

fun action_str :: "audit_action \<Rightarrow> string" where
  "action_str LOGIN_SUCCESS = ''login_success''"
| "action_str LOGIN_2FA_SUCCESS = ''login_2fa_success''"
| "action_str LOGIN_2FA_FAILURE = ''login_2fa_failure''"
| "action_str LOGOUT = ''logout''"
| "action_str ACCOUNT_LOCKED = ''account_locked''"
| "action_str TOTP_ENROLLED = ''totp_enrolled''"
| "action_str DENIED = ''denied''"
| "action_str CREATE = ''create''"
| "action_str UPDATE = ''update''"
| "action_str TOGGLE_ACTIVE = ''toggle_active''"
| "action_str CREATE_VERSION = ''create_version''"
| "action_str STATUS_CHANGE = ''status_change''"
| "action_str ASSIGNED_ACTION = ''assigned''"
| "action_str COMMENT = ''comment''"
| "action_str SUBMIT = ''submit''"
| "action_str RECORD = ''record''"
| "action_str FIRE = ''fire''"
| "action_str FIRE_DRY_RUN = ''fire_dry_run''"
| "action_str DLQ_REQUEUE = ''dlq_requeue''"
| "action_str DLQ_DISCARD = ''dlq_discard''"
| "action_str TRAINING_ENROLLED = ''training_enrolled''"
| "action_str TRAINING_LINK_SENT = ''training_link_sent''"
| "action_str TRAINING_ATTEMPT_STARTED = ''training_attempt_started''"
| "action_str TRAINING_ATTEMPT_SUBMITTED = ''training_attempt_submitted''"
| "action_str TRAINING_DECLARED = ''training_declared''"
| "action_str TRAINING_CERTIFIED = ''training_certified''"
| "action_str TRAINING_LINK_EXPIRED = ''training_link_expired''"
| "action_str TRAINING_REMINDER_SENT = ''training_reminder_sent''"
| "action_str GDPR_DSAR_EXPORTED = ''gdpr_dsar_exported''"
| "action_str GDPR_REDACTED = ''gdpr_redacted''"
| "action_str (PlainAction a) = a"

subsection \<open>The table and its checksums\<close>

definition GENESIS_HASH :: string where
  "GENESIS_HASH = replicate 64 (CHR ''0'')"

record audit_row =
  al_id :: int
  occurred_at :: pydt
  al_user_id :: "string option"
  session_id :: "string option"
  entity_type :: string
  entity_id :: "string option"
  al_action :: string
  diff :: json
  ip_address :: "string option"
  user_agent :: "string option"
  prev_checksum :: string
  checksum :: string

record audit_db = session +
  json_hash :: "json \<Rightarrow> string"
  immutable_trigger :: bool
  audit_redact_ok :: bool
  audit_log :: "audit_row list"
  audit_seq :: int

text \<open>\<open>_to_utc_iso\<close>: a naive datetime is taken as UTC.\<close>

fun to_utc_iso :: "pydt option \<Rightarrow> json" where
  "to_utc_iso None = JNull"
| "to_utc_iso (Some dt) =
     JStr (isoformat_utc (case dt of Naive t \<Rightarrow> t | Aware t \<Rightarrow> t))"

definition checksum_payload :: "audit_row \<Rightarrow> json" where
  "checksum_payload r = JObj
     [(''occurred_at'', to_utc_iso (Some (occurred_at r))),
      (''user_id'', jstr_opt (al_user_id r)),
      (''entity_type'', JStr (entity_type r)),
      (''entity_id'', jstr_opt (entity_id r)),
      (''action'', JStr (al_action r)),
      (''diff'', diff r),
      (''prev'', JStr (prev_checksum r))]"

definition compute_checksum :: "(json \<Rightarrow> string) \<Rightarrow> audit_row \<Rightarrow> string" where
  "compute_checksum H r = H (sort_keys (checksum_payload r))"

subsection \<open>Appending an entry\<close>

text \<open>
  The immutability trigger runs on every UPDATE or DELETE of an audit_log row on PostgreSQL
  and raises unless the transaction has set \<open>qms.audit_redact_ok\<close> to 1.
\<close>

definition audit_update_allowed :: "'a audit_db_scheme \<Rightarrow> bool" where
  "audit_update_allowed s \<longleftrightarrow>
     \<not> (dialect s = PostgreSQL \<and> immutable_trigger s) \<or> audit_redact_ok s"

text \<open>The entry as it is added and flushed: the defaults (id, occurred_at) are filled in.\<close>

definition new_entry ::
  "string \<Rightarrow> audit_action \<Rightarrow> string option \<Rightarrow> (string \<times> json) list \<Rightarrow> string option \<Rightarrow>
   'a audit_db_scheme \<Rightarrow> audit_row" where
  "new_entry etype act eid d uid s =
     \<lparr>al_id = audit_seq s + 1,
      occurred_at = utcnow s,
      al_user_id = (if truthy uid then uid else session_user_id s),
      session_id = None,
      entity_type = etype,
      entity_id = eid,
      al_action = action_str act,
      diff = JObj d,
      ip_address = fst (request_metadata s),
      user_agent = snd (request_metadata s),
      prev_checksum = (case last_by al_id (audit_log s) of
                         None \<Rightarrow> GENESIS_HASH | Some tail_row \<Rightarrow> checksum tail_row),
      checksum = []\<rparr>"

definition with_checksum :: "(json \<Rightarrow> string) \<Rightarrow> audit_row \<Rightarrow> audit_row" where
  "with_checksum H r = r\<lparr>checksum := compute_checksum H r\<rparr>"

text \<open>
  \<open>record\<close>: INSERT the entry with an empty checksum and flush, then set the checksum and flush
  again, which is an UPDATE of the row. A flush that fails rolls the transaction back and
  leaves the session unusable until \<open>rollback()\<close>: every later call raises.
\<close>

definition record_entry ::
  "string \<Rightarrow> audit_action \<Rightarrow> string option \<Rightarrow> (string \<times> json) list \<Rightarrow> string option \<Rightarrow>
   ('a audit_db_scheme, audit_row) py" where
  "record_entry etype act eid d uid = (\<lambda>s.
     if session_failed s then (Inl PendingRollbackError, s)
     else
       let entry = new_entry etype act eid d uid s
       in if audit_update_allowed s then
            (Inr (with_checksum (json_hash s) entry),
             s\<lparr>audit_log := audit_log s @ [with_checksum (json_hash s) entry],
               audit_seq := audit_seq s + 1\<rparr>)
          else (Inl (InternalError ''audit_log is append-only''), s\<lparr>session_failed := True\<rparr>))"

subsection \<open>Transactions\<close>

text \<open>
  A request (or one iteration of a worker) runs an operation and commits; when the operation
  raises, the session is rolled back, by the handler or by the teardown of the request. The
  transaction-local opt-in \<open>qms.audit_redact_ok\<close> ends with the transaction either way; uuid
  values already drawn are not drawn again, and what was sent to the queues and to Redis stays
  sent.
\<close>

definition commit :: "'a audit_db_scheme \<Rightarrow> 'a audit_db_scheme" where
  "commit s = s\<lparr>audit_redact_ok := False\<rparr>"

definition rollback :: "'a audit_db_scheme \<Rightarrow> 'a audit_db_scheme \<Rightarrow> 'a audit_db_scheme" where
  "rollback s s' = s\<lparr>uuid_next := uuid_next s', session_failed := False, queue := queue s', redis := redis s',
                     audit_redact_ok := False\<rparr>"

definition in_request :: "('a audit_db_scheme, 'b) py \<Rightarrow> ('a audit_db_scheme, 'b) py" where
  "in_request m = (\<lambda>s. case m s of
     (Inr x, s') \<Rightarrow> (Inr x, commit s') | (Inl e, s') \<Rightarrow> (Inl e, rollback s s'))"

subsection \<open>Verification\<close>

fun verify_rows :: "(json \<Rightarrow> string) \<Rightarrow> string \<Rightarrow> audit_row list \<Rightarrow> bool \<times> int option" where
  "verify_rows H expected_prev [] = (True, None)"
| "verify_rows H expected_prev (row # rows) =
     (if prev_checksum row \<noteq> expected_prev then (False, Some (al_id row))
      else if compute_checksum H row \<noteq> checksum row then (False, Some (al_id row))
      else verify_rows H (checksum row) rows)"

definition verify_chain :: "'a audit_db_scheme \<Rightarrow> bool \<times> int option" where
  "verify_chain s = verify_rows (json_hash s) GENESIS_HASH (sort_key al_id (audit_log s))"

subsection \<open>The chain, as a predicate\<close>

text \<open>Every row links to the one before it and carries its own checksum.\<close>

fun chained :: "(json \<Rightarrow> string) \<Rightarrow> string \<Rightarrow> audit_row list \<Rightarrow> bool" where
  "chained H prev [] = True"
| "chained H prev (r # rs) =
     (prev_checksum r = prev \<and> checksum r = compute_checksum H r \<and> chained H (checksum r) rs)"

definition tail_checksum :: "string \<Rightarrow> audit_row list \<Rightarrow> string" where
  "tail_checksum g rows = (if rows = [] then g else checksum (last rows))"

text \<open>Rows are in id order and below the sequence, and the chain holds.\<close>

definition log_wf :: "'a audit_db_scheme \<Rightarrow> bool" where
  "log_wf s \<longleftrightarrow> sorted_wrt (<) (map al_id (audit_log s)) \<and>
     (\<forall>r\<in>set (audit_log s). al_id r \<le> audit_seq s) \<and>
     chained (json_hash s) GENESIS_HASH (audit_log s)"

definition writable :: "'a audit_db_scheme \<Rightarrow> bool" where
  "writable s \<longleftrightarrow> \<not> session_failed s \<and> audit_update_allowed s"

lemma tail_checksum_simps [simp]:
  "tail_checksum g [] = g"
  "tail_checksum g (rows @ [r]) = checksum r"
  by (simp_all add: tail_checksum_def)

lemma tail_checksum_Cons: "tail_checksum g (r # rs) = tail_checksum (checksum r) rs"
  by (simp add: tail_checksum_def)

lemma chained_append:
  "chained H g (rs @ ts) \<longleftrightarrow> chained H g rs \<and> chained H (tail_checksum g rs) ts"
  by (induction rs arbitrary: g) (auto simp: tail_checksum_Cons)

lemma verify_rows_iff: "verify_rows H g rows = (True, None) \<longleftrightarrow> chained H g rows"
  by (induction rows arbitrary: g) auto

lemma verify_rows_shape: "verify_rows H g rows = (b, r) \<Longrightarrow> b \<longleftrightarrow> r = None"
  by (induction rows arbitrary: g) (auto split: if_splits)

text \<open>A failing verification names the first bad row: everything before it is a valid chain.\<close>

lemma verify_rows_bad:
  "verify_rows H g rows = (False, Some i) \<longleftrightarrow>
     (\<exists>good r rest. rows = good @ r # rest \<and> al_id r = i \<and> chained H g good \<and>
        (prev_checksum r \<noteq> tail_checksum g good \<or> checksum r \<noteq> compute_checksum H r))"
proof (induction rows arbitrary: g)
  case Nil
  show ?case by simp
next
  case (Cons x xs)
  show ?case
  proof (cases "prev_checksum x = g \<and> checksum x = compute_checksum H x")
    case True
    then have "verify_rows H g (x # xs) = verify_rows H (checksum x) xs" by auto
    moreover have "(\<exists>good r rest. xs = good @ r # rest \<and> al_id r = i \<and> chained H (checksum x) good \<and>
        (prev_checksum r \<noteq> tail_checksum (checksum x) good \<or> checksum r \<noteq> compute_checksum H r)) \<longleftrightarrow>
      (\<exists>good r rest. x # xs = good @ r # rest \<and> al_id r = i \<and> chained H g good \<and>
        (prev_checksum r \<noteq> tail_checksum g good \<or> checksum r \<noteq> compute_checksum H r))"
      (is "?L \<longleftrightarrow> ?R")
    proof
      assume ?L
      then obtain good r rest where "xs = good @ r # rest" "al_id r = i"
        "chained H (checksum x) good"
        "prev_checksum r \<noteq> tail_checksum (checksum x) good \<or> checksum r \<noteq> compute_checksum H r"
        by blast
      with True show ?R
        by (intro exI [of _ "x # good"] exI [of _ r] exI [of _ rest]) (auto simp: tail_checksum_Cons)
    next
      assume ?R
      then obtain good r rest where R: "x # xs = good @ r # rest" "al_id r = i" "chained H g good"
        "prev_checksum r \<noteq> tail_checksum g good \<or> checksum r \<noteq> compute_checksum H r"
        by blast
      with True obtain good' where "good = x # good'" by (cases good) auto
      with R show ?L
        by (intro exI [of _ good'] exI [of _ r] exI [of _ rest]) (auto simp: tail_checksum_Cons)
    qed
    ultimately show ?thesis using Cons.IH by simp
  next
    case False
    then have "verify_rows H g (x # xs) = (False, Some (al_id x))" by auto
    moreover have first: "good = []" if "x # xs = good @ r # rest" "chained H g good" for good r rest
      using that False by (cases good) auto
    have "(\<exists>good r rest. x # xs = good @ r # rest \<and> al_id r = i \<and> chained H g good \<and>
        (prev_checksum r \<noteq> tail_checksum g good \<or> checksum r \<noteq> compute_checksum H r)) \<longleftrightarrow> al_id x = i"
      (is "?R \<longleftrightarrow> _")
    proof
      assume ?R
      then obtain good r rest where R: "x # xs = good @ r # rest" "al_id r = i" "chained H g good"
        by blast
      from R first [OF R(1,3)] show "al_id x = i" by simp
    next
      assume "al_id x = i"
      with False show ?R by (intro exI [of _ "[]"] exI [of _ x] exI [of _ xs]) auto
    qed
    ultimately show ?thesis by simp
  qed
qed

lemma compute_checksum_update [simp]:
  "compute_checksum H (r\<lparr>checksum := c\<rparr>) = compute_checksum H r"
  by (simp add: compute_checksum_def checksum_payload_def)

lemma with_checksum_simps [simp]:
  "al_id (with_checksum H r) = al_id r"
  "prev_checksum (with_checksum H r) = prev_checksum r"
  "checksum (with_checksum H r) = compute_checksum H r"
  "compute_checksum H' (with_checksum H r) = compute_checksum H' r"
  "diff (with_checksum H r) = diff r"
  "entity_type (with_checksum H r) = entity_type r"
  "entity_id (with_checksum H r) = entity_id r"
  "al_action (with_checksum H r) = al_action r"
  "al_user_id (with_checksum H r) = al_user_id r"
  "occurred_at (with_checksum H r) = occurred_at r"
  by (simp_all add: with_checksum_def)

lemma log_wf_sorted: "log_wf s \<Longrightarrow> sorted (map al_id (audit_log s))"
  by (simp add: log_wf_def strict_sorted_imp_sorted)

lemma log_wf_verify: "log_wf s \<Longrightarrow> verify_chain s = (True, None)"
  by (simp add: verify_chain_def sort_key_sorted [OF log_wf_sorted] verify_rows_iff log_wf_def)

lemma last_by_log: "log_wf s \<Longrightarrow> last_by al_id (audit_log s) = (if audit_log s = [] then None else Some (last (audit_log s)))"
  by (rule last_by_sorted) (rule log_wf_sorted)

lemma new_entry_prev:
  "log_wf s \<Longrightarrow> prev_checksum (new_entry t a e d u s) = tail_checksum GENESIS_HASH (audit_log s)"
  by (simp add: new_entry_def last_by_log tail_checksum_def)

lemma record_entry_ok [ok_rules]:
  "writable s \<Longrightarrow> record_entry t a e d u s =
     (Inr (with_checksum (json_hash s) (new_entry t a e d u s)),
      s\<lparr>audit_log := audit_log s @ [with_checksum (json_hash s) (new_entry t a e d u s)],
        audit_seq := audit_seq s + 1\<rparr>)"
  by (simp add: record_entry_def writable_def Let_def)

subsection \<open>The contract every audited operation keeps\<close>

text \<open>
  Between two states of an operation the hash function is the same, the sequence does not go
  back, and a well-formed log stays well-formed and keeps every entry it had.
\<close>

definition log_step :: "'a audit_db_scheme \<Rightarrow> 'a audit_db_scheme \<Rightarrow> bool" where
  "log_step s t \<longleftrightarrow> json_hash t = json_hash s \<and>
     (log_wf s \<longrightarrow> log_wf t \<and> (\<exists>ext. audit_log t = audit_log s @ ext))"

lemma log_step_refl: "reflp log_step"
  by (auto simp: reflp_def log_step_def)

lemma log_step_trans: "transp log_step"
  by (auto simp: transp_def log_step_def)

lemma record_entry_step: "log_step s (snd (record_entry t a e d u s))"
proof -
  have wf: "log_wf (s\<lparr>audit_log := audit_log s @ [with_checksum (json_hash s) (new_entry t a e d u s)],
                      audit_seq := audit_seq s + 1\<rparr>)" if "log_wf s"
    using that new_entry_prev [OF that, of t a e d u]
    by (auto simp: log_wf_def chained_append sorted_wrt_append new_entry_def)
  have failed: "log_wf (s\<lparr>session_failed := b\<rparr>) = log_wf s" for b by (simp add: log_wf_def)
  show ?thesis
    using wf failed by (auto simp: record_entry_def log_step_def Let_def)
qed

lemma keeps_record_entry [audited]: "keeps log_step (record_entry t a e d u)"
  by (rule keepsI) (rule record_entry_step)

lemma keeps_modify_log [audited]:
  assumes "\<And>s. audit_log (f s) = audit_log s" "\<And>s. audit_seq (f s) = audit_seq s"
    "\<And>s. json_hash (f s) = json_hash s"
  shows "keeps log_step (modify f)"
  using assms by (intro keepsI) (auto simp: log_step_def log_wf_def)

lemma keeps_in_request [audited]:
  assumes "keeps log_step m"
  shows "keeps log_step (in_request m)"
proof
  fix s
  have "log_step s (snd (m s))" using assms by (rule keepsD)
  then show "log_step s (snd (in_request m s))"
    by (auto simp: in_request_def commit_def rollback_def log_step_def log_wf_def
        split: prod.splits sum.splits)
qed

lemma keeps_take_uuid [audited]: "keeps log_step (take_uuid :: ('a audit_db_scheme, string) py)"
  by (rule keepsI) (simp add: take_uuid_def log_step_def log_wf_def)

lemmas log_step_rules =
  keeps_ret [OF log_step_refl] keeps_throw [OF log_step_refl] keeps_read [OF log_step_refl]
  keeps_bind [OF log_step_trans] keeps_seq [OF log_step_trans] keeps_catch [OF log_step_trans]
  keeps_for_each [OF log_step_refl log_step_trans] keeps_foldM [OF log_step_refl log_step_trans]
  keeps_if [where R = log_step] keeps_option [where R = log_step]
  keeps_sum [where R = log_step] keeps_list [where R = log_step] keeps_prod [where R = log_step]
  keeps_let [where R = log_step] keeps_with_state [where R = log_step]

declare log_step_rules [audited]

locale audited_operation =
  fixes run :: "('a audit_db_scheme, 'b) py"
  assumes run_audited: "keeps log_step run"
begin

lemma log_step_run: "log_step s (snd (run s))"
  using run_audited by (rule keepsD)

lemma run_wf: "log_wf s \<Longrightarrow> log_wf (snd (run s))"
  using log_step_run [of s] by (simp add: log_step_def)

lemma run_verifies: "log_wf s \<Longrightarrow> verify_chain (snd (run s)) = (True, None)"
  by (rule log_wf_verify) (rule run_wf)

lemma run_keeps_entries: "log_wf s \<Longrightarrow> \<exists>ext. audit_log (snd (run s)) = audit_log s @ ext"
  using log_step_run [of s] by (simp add: log_step_def)

end

interpretation recorder: audited_operation "record_entry t a e d u" for t a e d u
  by unfold_locales (rule keeps_record_entry)

subsection \<open>Drawing uuid values\<close>

text \<open>Values drawn by an operation stay drawn, also when it fails.\<close>

definition draws :: "'a session_scheme \<Rightarrow> 'a session_scheme \<Rightarrow> bool" where
  "draws s t \<longleftrightarrow> uuid_next s \<le> uuid_next t"

lemma draws_refl: "reflp draws" and draws_trans: "transp draws"
  by (auto simp: reflp_def transp_def draws_def)

lemma keeps_draws_record [drawing]: "keeps draws (record_entry t a e d u)"
  by (rule keepsI) (simp add: draws_def record_entry_def Let_def)

lemma keeps_draws_take [drawing]: "keeps draws (take_uuid :: ('a session_scheme, string) py)"
  by (rule keepsI) (simp add: draws_def take_uuid_def)

lemma keeps_draws_modify [drawing]: "(\<And>s. uuid_next (f s) = uuid_next s) \<Longrightarrow> keeps draws (modify f)"
  by (rule keepsI) (simp add: draws_def)

lemmas draws_rules [drawing] =
  keeps_ret [OF draws_refl] keeps_throw [OF draws_refl] keeps_read [OF draws_refl]
  keeps_bind [OF draws_trans] keeps_seq [OF draws_trans] keeps_catch [OF draws_trans]
  keeps_for_each [OF draws_refl draws_trans] keeps_foldM [OF draws_refl draws_trans]
  keeps_if [where R = draws] keeps_option [where R = draws] keeps_sum [where R = draws]
  keeps_list [where R = draws] keeps_prod [where R = draws] keeps_let [where R = draws]
  keeps_with_state [where R = draws]

subsection \<open>What the chain protects\<close>

lemma payload_prev:
  assumes "sort_keys (checksum_payload r) = sort_keys (checksum_payload t)"
  shows "prev_checksum r = prev_checksum t"
proof -
  have "(''prev'', JStr (prev_checksum q)) \<in> (case sort_keys (checksum_payload q) of JObj d \<Rightarrow> set d | _ \<Rightarrow> {})"
    for q by (simp add: checksum_payload_def)
  moreover have "p = prev_checksum q" if "(''prev'', JStr p) \<in> (case sort_keys (checksum_payload q) of JObj d \<Rightarrow> set d | _ \<Rightarrow> {})"
    for p q using that by (auto simp: checksum_payload_def)
  ultimately show ?thesis using assms by metis
qed

lemma chained_collision:
  assumes "chained H g rs" "chained H g ts" "length rs = length ts"
    "tail_checksum g rs = tail_checksum g ts"
  shows "map (\<lambda>r. sort_keys (checksum_payload r)) rs = map (\<lambda>r. sort_keys (checksum_payload r)) ts \<or>
    (\<exists>i<length rs. sort_keys (checksum_payload (rs ! i)) \<noteq> sort_keys (checksum_payload (ts ! i)) \<and>
       H (sort_keys (checksum_payload (rs ! i))) = H (sort_keys (checksum_payload (ts ! i))))"
  using assms
proof (induction rs arbitrary: ts rule: rev_induct)
  case Nil
  then show ?case by simp
next
  case (snoc r rs)
  from snoc.prems(3) obtain us u where ts: "ts = us @ [u]" by (cases ts rule: rev_cases) auto
  have len: "length rs = length us" using snoc.prems(3) ts by simp
  have c: "H (sort_keys (checksum_payload r)) = H (sort_keys (checksum_payload u))"
    using snoc.prems ts by (simp add: chained_append compute_checksum_def)
  show ?case
  proof (cases "sort_keys (checksum_payload r) = sort_keys (checksum_payload u)")
    case False
    with c len ts show ?thesis by (intro disjI2 exI [of _ "length rs"]) (simp add: nth_append)
  next
    case True
    then have "tail_checksum g rs = tail_checksum g us"
      using payload_prev [OF True] snoc.prems ts by (simp add: chained_append)
    then have IH: "map (\<lambda>r. sort_keys (checksum_payload r)) rs = map (\<lambda>r. sort_keys (checksum_payload r)) us \<or>
      (\<exists>i<length rs. sort_keys (checksum_payload (rs ! i)) \<noteq> sort_keys (checksum_payload (us ! i)) \<and>
         H (sort_keys (checksum_payload (rs ! i))) = H (sort_keys (checksum_payload (us ! i))))"
      using snoc.prems ts len by (intro snoc.IH) (auto simp: chained_append)
    then show ?thesis
    proof
      assume "map (\<lambda>r. sort_keys (checksum_payload r)) rs = map (\<lambda>r. sort_keys (checksum_payload r)) us"
      with True ts show ?thesis by simp
    next
      assume "\<exists>i<length rs. sort_keys (checksum_payload (rs ! i)) \<noteq> sort_keys (checksum_payload (us ! i)) \<and>
         H (sort_keys (checksum_payload (rs ! i))) = H (sort_keys (checksum_payload (us ! i)))"
      then obtain i where "i < length rs"
        "sort_keys (checksum_payload (rs ! i)) \<noteq> sort_keys (checksum_payload (us ! i))"
        "H (sort_keys (checksum_payload (rs ! i))) = H (sort_keys (checksum_payload (us ! i)))" by blast
      with len ts show ?thesis by (intro disjI2 exI [of _ i]) (simp add: nth_append)
    qed
  qed
qed

lemma verify_chain_chained:
  "sorted (map al_id (audit_log s)) \<Longrightarrow>
     verify_chain s = (True, None) \<longleftrightarrow> chained (json_hash s) GENESIS_HASH (audit_log s)"
  by (simp add: verify_chain_def verify_rows_iff sort_key_sorted)


text \<open>A small database for the witnesses: an empty log on SQLite.\<close>

definition sample_session :: audit_db where
  "sample_session =
     \<lparr>clock = at_time \<lparr>year = 2026, month = 5, day = 2\<rparr> 0, uuid_at = (\<lambda>n. ''id-'' @ digits n), uuid_next = 0,
      request_context = None, dialect = SQLite, session_failed = False,
      queue = sample_queue, redis = sample_redis,
      json_hash = (\<lambda>_. ''h''), immutable_trigger = True, audit_redact_ok = False,
      audit_log = [], audit_seq = 0\<rparr>"

lemma sample_session_simps [simp]:
  "writable sample_session" "log_wf sample_session" "audit_log sample_session = []"
  by (simp_all add: sample_session_def writable_def audit_update_allowed_def log_wf_def)

definition sample_logged :: audit_db where
  "sample_logged = snd (record_entry ''ticket'' CREATE (Some ''id-0'') [] None sample_session)"

lemma sample_logged_wf [simp]: "log_wf sample_logged"
  unfolding sample_logged_def by (rule recorder.run_wf) simp

lemma sample_logged_log: "length (audit_log sample_logged) = 1"
  by (simp add: sample_logged_def record_entry_ok)


text \<open>
  What a failing verification reports: verify_chain returns an id exactly when the log, in
  id order, is a valid chain up to a row with that id whose link or whose own checksum is
  wrong; it is the first such row.
\<close>

theorem verify_chain_first_bad:
  "verify_chain s = (False, Some i) \<longleftrightarrow>
     (\<exists>good r rest. sort_key al_id (audit_log s) = good @ r # rest \<and> al_id r = i \<and>
        chained (json_hash s) GENESIS_HASH good \<and>
        (prev_checksum r \<noteq> tail_checksum GENESIS_HASH good \<or>
         checksum r \<noteq> compute_checksum (json_hash s) r))"
  by (simp add: verify_chain_def verify_rows_bad)

theorem verify_chain_first_bad_witness:
  "verify_chain (sample_session\<lparr>audit_log :=
     [(new_entry ''ticket'' CREATE None [] None sample_session)\<lparr>checksum := ''x''\<rparr>]\<rparr>) = (False, Some 1)"
proof -
  let ?r = "(new_entry ''ticket'' CREATE None [] None sample_session)\<lparr>checksum := ''x''\<rparr>"
  have "sort_key al_id (audit_log (sample_session\<lparr>audit_log := [?r]\<rparr>)) = [] @ ?r # [] \<and> al_id ?r = 1 \<and>
      chained (json_hash (sample_session\<lparr>audit_log := [?r]\<rparr>)) GENESIS_HASH [] \<and>
      (prev_checksum ?r \<noteq> tail_checksum GENESIS_HASH [] \<or>
       checksum ?r \<noteq> compute_checksum (json_hash (sample_session\<lparr>audit_log := [?r]\<rparr>)) ?r)"
    by (simp add: sample_session_def new_entry_def compute_checksum_def)
  then show ?thesis by (subst verify_chain_first_bad) blast
qed

text \<open>
  What the chain does not protect: the client address, the user agent and the session id
  of an entry are outside the checksum, and so is the existence of the newest entries. Any
  rewriting of those columns, and any truncation of the newest entries, still verifies.
\<close>

definition rewrite_client :: "(audit_row \<Rightarrow> string option) \<Rightarrow> (audit_row \<Rightarrow> string option) \<Rightarrow>
    (audit_row \<Rightarrow> string option) \<Rightarrow> audit_row \<Rightarrow> audit_row" where
  "rewrite_client f g h r = r\<lparr>ip_address := f r, user_agent := g r, session_id := h r\<rparr>"

lemma rewrite_client_simps [simp]:
  "compute_checksum H (rewrite_client f g h r) = compute_checksum H r"
  "checksum (rewrite_client f g h r) = checksum r"
  "prev_checksum (rewrite_client f g h r) = prev_checksum r"
  "al_id (rewrite_client f g h r) = al_id r"
  by (simp_all add: rewrite_client_def compute_checksum_def checksum_payload_def)

lemma chained_rewrite_client: "chained H p (map (rewrite_client f g h) rs) = chained H p rs"
  by (induction rs arbitrary: p) auto

lemma chained_take: "chained H p rs \<Longrightarrow> chained H p (take n rs)"
  using chained_append [of H p "take n rs" "drop n rs"] by simp

theorem audit_chain_blind_spots:
  assumes "log_wf s"
  shows "verify_chain (s\<lparr>audit_log := map (rewrite_client f g h) (take n (audit_log s))\<rparr>) = (True, None)"
proof -
  have "sorted (map al_id (take n (audit_log s)))"
    using log_wf_sorted [OF assms] by (metis sorted_wrt_take take_map)
  moreover have "chained (json_hash s) GENESIS_HASH (take n (audit_log s))"
    using assms by (intro chained_take) (simp add: log_wf_def)
  ultimately show ?thesis
    by (subst verify_chain_chained) (simp_all add: chained_rewrite_client comp_def)
qed

theorem audit_chain_blind_spots_witness:
  "verify_chain (sample_logged\<lparr>audit_log :=
      map (rewrite_client (\<lambda>_. Some ''10.0.0.1'') (\<lambda>_. None) (\<lambda>_. None)) (take 1 (audit_log sample_logged))\<rparr>)
   = (True, None)"
  by (rule audit_chain_blind_spots) simp

text \<open>
  Portability of the checksums: SQLite hands the timestamps back without a timezone,
  PostgreSQL with one. Whatever rows lose it, the verification result is the same.
\<close>

definition drop_tz :: "audit_row \<Rightarrow> audit_row" where
  "drop_tz r = r\<lparr>occurred_at := Naive (instant (occurred_at r))\<rparr>"

lemma drop_tz_simps [simp]:
  "compute_checksum H (drop_tz r) = compute_checksum H r"
  "checksum (drop_tz r) = checksum r"
  "prev_checksum (drop_tz r) = prev_checksum r"
  "al_id (drop_tz r) = al_id r"
  by (cases "occurred_at r"; simp add: drop_tz_def compute_checksum_def checksum_payload_def)+

lemma verify_rows_map:
  assumes "\<And>r. al_id (f r) = al_id r" "\<And>r. prev_checksum (f r) = prev_checksum r"
    "\<And>r. checksum (f r) = checksum r" "\<And>r. compute_checksum H (f r) = compute_checksum H r"
  shows "verify_rows H g (map f rs) = verify_rows H g rs"
  using assms by (induction rs arbitrary: g) auto

lemma sort_key_map: "(\<And>r. k (f r) = k r) \<Longrightarrow> sort_key k (map f rs) = map f (sort_key k rs)"
proof (induction rs)
  case (Cons r rs)
  have "insort_key k (f r) (map f xs) = map f (insort_key k r xs)" for xs
    using Cons.prems by (induction xs) auto
  with Cons show ?case by simp
qed simp

theorem verify_chain_timezone_independent:
  "verify_chain (s\<lparr>audit_log := map (\<lambda>r. if naive r then drop_tz r else r) (audit_log s)\<rparr>) = verify_chain s"
proof -
  let ?f = "\<lambda>r. if naive r then drop_tz r else r"
  have "sort_key al_id (map ?f (audit_log s)) = map ?f (sort_key al_id (audit_log s))"
    by (rule sort_key_map) simp
  then show ?thesis by (simp add: verify_chain_def) (rule verify_rows_map; simp)
qed

end
