(* ===== verification/Redaction.thy ===== *)
theory Redaction
  imports AuditTrail
begin

text \<open>
  The rewriting of the audit chain under the right to erasure (app/services/gdpr.py,
  \<open>_redact_audit_rows\<close>): the diff of the listed rows becomes a marker and every row from the
  first of them on gets a new link and a new checksum. On PostgreSQL the transaction opts in
  to the immutability trigger first.
\<close>

definition redaction_marker :: "'a session_scheme \<Rightarrow> json" where
  "redaction_marker s =
     JObj [(''redacted'', JBool True), (''redacted_at'', JStr (isoformat_utc (clock s)))]"

definition rehash_row :: "(json \<Rightarrow> string) \<Rightarrow> int list \<Rightarrow> json \<Rightarrow> string \<Rightarrow> audit_row \<Rightarrow> audit_row" where
  "rehash_row H ids marker expected_prev row =
     with_checksum H ((if al_id row \<in> set ids then row\<lparr>diff := marker\<rparr> else row)
                        \<lparr>prev_checksum := expected_prev\<rparr>)"

fun rehash :: "(json \<Rightarrow> string) \<Rightarrow> int list \<Rightarrow> json \<Rightarrow> string \<Rightarrow> audit_row list \<Rightarrow> audit_row list \<times> int" where
  "rehash H ids marker expected_prev [] = ([], 0)"
| "rehash H ids marker expected_prev (row # rows) =
     (let row' = rehash_row H ids marker expected_prev row;
          (rest, n) = rehash H ids marker (checksum row') rows
      in (row' # rest, (if al_id row \<in> set ids then 1 else 0) + n))"

definition redact_audit_rows :: "int list \<Rightarrow> ('a audit_db_scheme, int) py" where
  "redact_audit_rows ids = (\<lambda>s.
     if ids = [] then (Inr 0, s)
     else if session_failed s then (Inl PendingRollbackError, s)
     else
       let s = (if dialect s = PostgreSQL then s\<lparr>audit_redact_ok := True\<rparr> else s);
           first_id = fold min (tl ids) (hd ids);
           rows = sort_key al_id (filter (\<lambda>r. first_id \<le> al_id r) (audit_log s))
       in case rows of
            [] \<Rightarrow> (Inr 0, s)
          | r0 # _ \<Rightarrow>
              if al_id r0 \<noteq> first_id then (Inr 0, s)
              else
                let before = filter (\<lambda>r. al_id r < first_id) (audit_log s);
                    expected_prev = (case last_by al_id before of
                                       None \<Rightarrow> GENESIS_HASH | Some p \<Rightarrow> checksum p);
                    (rows', n) = rehash (json_hash s) ids (redaction_marker s) expected_prev rows
                in (Inr n, s\<lparr>audit_log := before @ rows'\<rparr>))"

lemma rehash_row_simps [simp]:
  "al_id (rehash_row H ids m g r) = al_id r"
  "prev_checksum (rehash_row H ids m g r) = g"
  "checksum (rehash_row H ids m g r) = compute_checksum H (rehash_row H ids m g r)"
  "diff (rehash_row H ids m g r) = (if al_id r \<in> set ids then m else diff r)"
  by (simp_all add: rehash_row_def)

lemma rehash_Cons [simp]:
  "fst (rehash H ids m g (r # rows)) =
     rehash_row H ids m g r # fst (rehash H ids m (checksum (rehash_row H ids m g r)) rows)"
  "snd (rehash H ids m g (r # rows)) =
     (if al_id r \<in> set ids then 1 else 0) + snd (rehash H ids m (checksum (rehash_row H ids m g r)) rows)"
  by (simp_all add: Let_def case_prod_beta)

declare rehash.simps(2) [simp del]

lemma rehash_chained: "chained H g (fst (rehash H ids m g rows))"
  by (induction rows arbitrary: g) auto

lemma rehash_ids: "map al_id (fst (rehash H ids m g rows)) = map al_id rows"
  by (induction rows arbitrary: g) auto

lemma rehash_count: "snd (rehash H ids m g rows) = int (length (filter (\<lambda>r. al_id r \<in> set ids) rows))"
  by (induction rows arbitrary: g) auto

lemma rehash_diffs:
  "map diff (fst (rehash H ids m g rows)) = map (\<lambda>r. if al_id r \<in> set ids then m else diff r) rows"
  by (induction rows arbitrary: g) auto

text \<open>What a row says apart from its diff, its link and its checksum.\<close>

definition row_facts :: "audit_row \<Rightarrow> int \<times> pydt \<times> string option \<times> string \<times> string option \<times> string" where
  "row_facts r = (al_id r, occurred_at r, al_user_id r, entity_type r, entity_id r, al_action r)"

lemma row_facts_rehash_row [simp]: "row_facts (rehash_row H ids m g r) = row_facts r"
  by (simp add: row_facts_def rehash_row_def with_checksum_def)

lemma rehash_facts: "map row_facts (fst (rehash H ids m g rows)) = map row_facts rows"
  by (induction rows arbitrary: g) auto

lemma fold_min_hd: "x \<in> set ids \<Longrightarrow> fold min (tl ids) (hd ids) \<le> (x :: int)"
  by (cases ids) (auto simp: Min.set_eq_fold [symmetric])

lemma fold_min_in: "ids \<noteq> [] \<Longrightarrow> fold min (tl ids) (hd ids) \<in> set (ids :: int list)"
proof (cases ids)
  case (Cons i js)
  then show ?thesis using Min_in [of "set (i # js)"] by (simp only: Min.set_eq_fold) simp
qed simp

lemma filter_le_sorted:
  fixes f :: "'a \<Rightarrow> 'b::linorder"
  assumes "sorted (map f xs)"
  shows "filter (\<lambda>x. f x < k) xs @ filter (\<lambda>x. k \<le> f x) xs = xs"
  using assms
proof (induction xs)
  case (Cons x xs)
  show ?case
  proof (cases "f x < k")
    case True
    with Cons show ?thesis by auto
  next
    case False
    then have "\<forall>y\<in>set (x # xs). k \<le> f y" using Cons.prems by fastforce
    then show ?thesis by (simp add: filter_empty_conv leD)
  qed
qed simp

subsection \<open>Correctness\<close>

lemma sorted_append_ids:
  "sorted_wrt (<) (map al_id xs) \<Longrightarrow> map al_id xs = map al_id ys \<Longrightarrow> sorted_wrt (<) (map al_id ys)"
  by simp

text \<open>
  The rewriting, on a log in id order whose first listed id exists: the rows before it are as
  they were, the rest is rehashed from the tail of the part before.
\<close>

lemma redact_audit_rows_eq:
  assumes "\<not> session_failed s" "ids \<noteq> []" "sorted_wrt (<) (map al_id (audit_log s))"
    "fold min (tl ids) (hd ids) \<in> al_id ` set (audit_log s)"
  defines "k \<equiv> fold min (tl ids) (hd ids)"
  defines "before \<equiv> filter (\<lambda>r. al_id r < k) (audit_log s)"
  defines "later \<equiv> filter (\<lambda>r. k \<le> al_id r) (audit_log s)"
  defines "new \<equiv> rehash (json_hash s) ids (redaction_marker s) (tail_checksum GENESIS_HASH before) later"
  shows "redact_audit_rows ids s =
    (Inr (snd new), (if dialect s = PostgreSQL then s\<lparr>audit_redact_ok := True\<rparr> else s)
                      \<lparr>audit_log := before @ fst new\<rparr>)"
proof -
  have sorted: "sorted (map al_id (audit_log s))"
    using assms(3) by (rule strict_sorted_imp_sorted)
  have srt: "sorted (map al_id (filter P (audit_log s)))" for P
    using sorted by (rule sorted_filter)
  obtain r where r: "r \<in> set (audit_log s)" "al_id r = k" using assms(4) by (auto simp: k_def)
  then have "r \<in> set later" by (simp add: later_def)
  then obtain r0 rest where lt: "later = r0 # rest" by (cases later) auto
  have "sorted (map al_id (r0 # rest))" using srt [of "\<lambda>r. k \<le> al_id r"] lt by (simp add: later_def)
  then have "al_id r0 \<le> k" using \<open>r \<in> set later\<close> r(2) lt by auto
  moreover have "k \<le> al_id r0" using lt by (auto simp: later_def filter_eq_Cons_iff)
  ultimately have hd: "al_id r0 = k" by simp
  have "last_by al_id before = (if before = [] then None else Some (last before))"
    unfolding before_def by (rule last_by_sorted) (rule srt)
  then have prev: "(case last_by al_id before of None \<Rightarrow> GENESIS_HASH | Some p \<Rightarrow> checksum p)
      = tail_checksum GENESIS_HASH before" by (simp add: tail_checksum_def)
  have sk: "sort_key al_id later = later"
    unfolding later_def using srt by (rule sort_key_sorted)
  show ?thesis
    using assms(1,2) sk lt hd prev
    unfolding redact_audit_rows_def k_def [symmetric] before_def [symmetric] later_def [symmetric]
    by (simp add: Let_def before_def [symmetric] later_def [symmetric] new_def redaction_marker_def
        case_prod_beta)
qed

lemma redact_rows_result:
  assumes "log_wf s" "\<not> session_failed s" "ids \<noteq> []"
    "fold min (tl ids) (hd ids) \<in> al_id ` set (audit_log s)"
  shows "\<exists>t. redact_audit_rows ids s =
        (Inr (int (length (filter (\<lambda>r. al_id r \<in> set ids) (audit_log s)))), t) \<and>
      log_wf t \<and> verify_chain t = (True, None) \<and>
      map row_facts (audit_log t) = map row_facts (audit_log s) \<and>
      map diff (audit_log t) =
        map (\<lambda>r. if al_id r \<in> set ids then redaction_marker s else diff r) (audit_log s)"
proof -
  define k where "k = fold min (tl ids) (hd ids)"
  define before where "before = filter (\<lambda>r. al_id r < k) (audit_log s)"
  define rest where "rest = filter (\<lambda>r. k \<le> al_id r) (audit_log s)"
  define new where "new = rehash (json_hash s) ids (redaction_marker s) (tail_checksum GENESIS_HASH before) rest"
  define t where "t = (if dialect s = PostgreSQL then s\<lparr>audit_redact_ok := True\<rparr> else s)
                        \<lparr>audit_log := before @ fst new\<rparr>"
  have wf: "sorted_wrt (<) (map al_id (audit_log s))"
    "\<And>r. r \<in> set (audit_log s) \<Longrightarrow> al_id r \<le> audit_seq s"
    "chained (json_hash s) GENESIS_HASH (audit_log s)"
    using assms(1) by (auto simp: log_wf_def)
  have split: "before @ rest = audit_log s"
    unfolding before_def rest_def using log_wf_sorted [OF assms(1)] by (rule filter_le_sorted)
  have not_hit: "al_id r \<notin> set ids" if "r \<in> set before" for r
    using that fold_min_hd [of "al_id r" ids] by (auto simp: before_def k_def)
  have eq: "redact_audit_rows ids s = (Inr (snd new), t)"
    using redact_audit_rows_eq [OF assms(2,3) wf(1) assms(4)]
    by (simp add: k_def before_def rest_def new_def t_def)
  have ids_t: "map al_id (before @ fst new) = map al_id (audit_log s)"
    unfolding split [symmetric] new_def by (simp add: rehash_ids)
  have hash: "json_hash t = json_hash s" "audit_seq t = audit_seq s" "audit_log t = before @ fst new"
    by (simp_all add: t_def)
  have "chained (json_hash s) GENESIS_HASH before"
    using wf(3) unfolding split [symmetric] by (simp add: chained_append)
  then have ch: "chained (json_hash s) GENESIS_HASH (before @ fst new)"
    unfolding new_def by (simp add: chained_append rehash_chained)
  have "al_id ` set (before @ fst new) = al_id ` set (audit_log s)"
    using ids_t by (metis set_map)
  then have "\<forall>r\<in>set (before @ fst new). al_id r \<le> audit_seq s"
    using wf(2) by (metis (no_types, lifting) imageE imageI)
  then have wft: "log_wf t" using ch ids_t wf(1) by (simp add: log_wf_def hash)
  moreover have "snd new = int (length (filter (\<lambda>r. al_id r \<in> set ids) (audit_log s)))"
    unfolding new_def rehash_count split [symmetric] using not_hit by (simp add: filter_empty_conv)
  moreover have "map row_facts (audit_log t) = map row_facts (audit_log s)"
    unfolding hash split [symmetric] new_def by (simp add: rehash_facts)
  moreover have "map diff (audit_log t) =
      map (\<lambda>r. if al_id r \<in> set ids then redaction_marker s else diff r) (audit_log s)"
    unfolding hash split [symmetric] new_def using not_hit by (simp add: rehash_diffs)
  ultimately show ?thesis using eq log_wf_verify [OF wft] by (intro exI [of _ t]) simp
qed



text \<open>
  Redaction launders tampering: rehashing does not look at the checksums it replaces. Only
  the rows before the first redacted one have to form a valid chain; whatever was done to the
  links, checksums and contents of the rows after it, the chain verifies after the redaction.
\<close>

theorem redact_audit_rows_launders:
  assumes "\<not> session_failed s" "ids \<noteq> []" "sorted_wrt (<) (map al_id (audit_log s))"
    "fold min (tl ids) (hd ids) \<in> al_id ` set (audit_log s)"
    "chained (json_hash s) GENESIS_HASH
       (filter (\<lambda>r. al_id r < fold min (tl ids) (hd ids)) (audit_log s))"
  shows "verify_chain (snd (redact_audit_rows ids s)) = (True, None)"
proof -
  define k where "k = fold min (tl ids) (hd ids)"
  have "sorted (map al_id (audit_log s))" using assms(3) by (rule strict_sorted_imp_sorted)
  then have "filter (\<lambda>r. al_id r < k) (audit_log s) @ filter (\<lambda>r. k \<le> al_id r) (audit_log s) = audit_log s"
    by (rule filter_le_sorted)
  then have "map al_id (filter (\<lambda>r. al_id r < k) (audit_log s)) @
      map al_id (filter (\<lambda>r. k \<le> al_id r) (audit_log s)) = map al_id (audit_log s)"
    by (metis map_append)
  then have "sorted (map al_id (filter (\<lambda>r. al_id r < k) (audit_log s)) @
      map al_id (filter (\<lambda>r. k \<le> al_id r) (audit_log s)))"
    using assms(3) by (simp add: strict_sorted_imp_sorted)
  with assms(5) show ?thesis
    by (simp add: redact_audit_rows_eq [OF assms(1-4)] verify_chain_chained rehash_ids
        chained_append rehash_chained k_def del: filter_append)
qed

definition sample_tampered :: audit_db where
  "sample_tampered = sample_logged\<lparr>audit_log := map (\<lambda>r. r\<lparr>checksum := ''forged''\<rparr>) (audit_log sample_logged)\<rparr>"

theorem redact_audit_rows_launders_witness:
  "verify_chain sample_tampered = (False, Some 1) \<and>
   verify_chain (snd (redact_audit_rows [1] sample_tampered)) = (True, None)"
proof -
  have s: "audit_log sample_tampered = [(with_checksum (json_hash sample_session)
      (new_entry ''ticket'' CREATE (Some ''id-0'') [] None sample_session))\<lparr>checksum := ''forged''\<rparr>]"
    "\<not> session_failed sample_tampered" "json_hash sample_tampered = (\<lambda>_. ''h'')"
    by (simp_all add: sample_tampered_def sample_logged_def record_entry_ok) (simp_all add: sample_session_def)
  have id: "al_id (new_entry ''ticket'' CREATE (Some ''id-0'') [] None sample_session) = 1"
    "prev_checksum (new_entry ''ticket'' CREATE (Some ''id-0'') [] None sample_session) = GENESIS_HASH"
    by (simp_all add: new_entry_def) (simp add: sample_session_def)
  have "verify_chain sample_tampered = (False, Some 1)"
    by (simp add: verify_chain_def s id compute_checksum_def)
  moreover have "verify_chain (snd (redact_audit_rows [1] sample_tampered)) = (True, None)"
    by (rule redact_audit_rows_launders) (simp_all add: s id)
  ultimately show ?thesis ..
qed

end
