(* ===== verification/Auth.thy ===== *)
theory Auth
  imports Redaction
begin

text \<open>
  Users, roles and permissions (app/models/auth.py, app/permissions.py), signing in
  (app/auth.py), the second factor (app/services/totp.py) and the encryption of its secrets
  (app/services/totp_crypto.py), the sign-in views (app/blueprints/auth.py) and the second-factor
  gate and key rotation of app/__init__.py. bcrypt (\<open>checkpw\<close>), Fernet (\<open>fenc\<close>, \<open>fdec\<close>) and
  the one-time codes of pyotp (\<open>otp_ok\<close>) are parameters.
\<close>

subsection \<open>Configuration, users and roles\<close>

text \<open>The entries of app.config the services read.\<close>

record app_config =
  LOCKOUT_THRESHOLD :: int
  LOCKOUT_MINUTES :: int
  TOTP_ENC_KEY :: string
  TOTP_ENC_KEYS_OLD :: string
  ENFORCE_TOTP_FOR_ROLES :: bool
  RATELIMIT_ENABLED :: bool
  RATELIMIT_API_MAX :: int
  API_KEYS :: "(string \<times> string) list"
  TRAINING_LINK_SIGNING_KEY :: "string option"
  SECRET_KEY :: string
  TRAINING_BASE_URL :: string
  TRAINING_RECERT_LEAD_DAYS :: int
  TRAINING_DEFAULT_PASS_THRESHOLD :: pyfloat
  TRAINING_DEFAULT_LINK_TTL_DAYS :: int
  SUPPORTED_LANGUAGES :: "string list"
  DEFAULT_LANGUAGE :: string
  MQTT_USE_STREAM :: bool
  SMTP_HOST :: string
  SMTP_PORT :: int
  SMTP_USERNAME :: "string option"
  SMTP_PASSWORD :: "string option"
  SMTP_USE_TLS :: bool
  SMTP_FROM :: string
  CLICKSEND_USERNAME :: string
  CLICKSEND_API_KEY :: string
  CLICKSEND_SOURCE :: string
  CLICKSEND_BASE_URL :: string

datatype user_role = OPERATOR | QA | LINE_MANAGER | COMPLIANCE | PLANT_MANAGER | ADMIN

fun role_value :: "user_role \<Rightarrow> string" where
  "role_value OPERATOR = ''operator''"
| "role_value QA = ''qa''"
| "role_value LINE_MANAGER = ''line_manager''"
| "role_value COMPLIANCE = ''compliance''"
| "role_value PLANT_MANAGER = ''plant_manager''"
| "role_value ADMIN = ''admin''"

datatype perm =
    TICKETS_CREATE | TICKETS_VIEW | TICKETS_CLASSIFY | TICKETS_CORRECTIVE_ACTION | TICKETS_CLOSE
  | CCP_MEASURE | CCP_DEFINE | SALSA_RESPOND | SALSA_DEFINE | PIPELINE_CONFIGURE | TRIGGERS_DEFINE
  | USERS_MANAGE | AUDIT_VIEW | AUDIT_EXPORT | REPORTS_GENERATE | DASHBOARD_VIEW
  | SYSTEM_CONFIGURE | DLQ_MANAGE | TRAINING_AUTHOR | TRAINING_REVIEW | TRAINING_SEND

fun perm_code :: "perm \<Rightarrow> string" where
  "perm_code TICKETS_CREATE = ''tickets.create''"
| "perm_code TICKETS_VIEW = ''tickets.view''"
| "perm_code TICKETS_CLASSIFY = ''tickets.classify''"
| "perm_code TICKETS_CORRECTIVE_ACTION = ''tickets.corrective_action''"
| "perm_code TICKETS_CLOSE = ''tickets.close''"
| "perm_code CCP_MEASURE = ''ccp.measure''"
| "perm_code CCP_DEFINE = ''ccp.define''"
| "perm_code SALSA_RESPOND = ''salsa.respond''"
| "perm_code SALSA_DEFINE = ''salsa.define''"
| "perm_code PIPELINE_CONFIGURE = ''pipeline.configure''"
| "perm_code TRIGGERS_DEFINE = ''triggers.define''"
| "perm_code USERS_MANAGE = ''users.manage''"
| "perm_code AUDIT_VIEW = ''audit.view''"
| "perm_code AUDIT_EXPORT = ''audit.export''"
| "perm_code REPORTS_GENERATE = ''reports.generate''"
| "perm_code DASHBOARD_VIEW = ''dashboard.view''"
| "perm_code SYSTEM_CONFIGURE = ''system.configure''"
| "perm_code DLQ_MANAGE = ''dlq.manage''"
| "perm_code TRAINING_AUTHOR = ''training.author''"
| "perm_code TRAINING_REVIEW = ''training.review''"
| "perm_code TRAINING_SEND = ''training.send''"

text \<open>A role with the codes of its permissions.\<close>

record role =
  role_id :: string
  role_code :: string
  role_permissions :: "string list"

record user =
  u_id :: string
  email :: string
  password_hash :: string
  full_name :: string
  language :: string
  is_active_flag :: bool
  failed_attempts :: int
  locked_until :: "pydt option"
  last_login_at :: "pydt option"
  u_role_id :: string
  totp_secret :: "string option"
  totp_enrolled_at :: "pydt option"

record auth_db = audit_db +
  app_config :: app_config
  users :: "user list"
  roles :: "role list"

definition role_of :: "user \<Rightarrow> 'a auth_db_scheme \<Rightarrow> role option" where
  "role_of u s = by_key role_id (u_role_id u) (roles s)"

definition role_has_permission :: "role \<Rightarrow> string \<Rightarrow> bool" where
  "role_has_permission r code \<longleftrightarrow> code \<in> set (role_permissions r)"

definition has_permission :: "user \<Rightarrow> string \<Rightarrow> 'a auth_db_scheme \<Rightarrow> bool" where
  "has_permission u code s =
     (case role_of u s of None \<Rightarrow> False | Some r \<Rightarrow> role_has_permission r code)"

definition totp_enabled :: "user \<Rightarrow> bool" where
  "totp_enabled u \<longleftrightarrow> truthy (totp_secret u) \<and> totp_enrolled_at u \<noteq> None"

definition is_locked :: "user \<Rightarrow> int \<Rightarrow> bool" where
  "is_locked u now = (case locked_until u of None \<Rightarrow> False | Some l \<Rightarrow> instant l > now)"

definition put_user :: "user \<Rightarrow> 'a auth_db_scheme \<Rightarrow> 'a auth_db_scheme" where
  "put_user u s = s\<lparr>users := update_row u_id (u_id u) (\<lambda>_. u) (users s)\<rparr>"

subsection \<open>Signing in\<close>

text \<open>\<open>bcrypt.checkpw\<close> may raise on a malformed hash (None).\<close>

definition verify_password :: "(string \<Rightarrow> string \<Rightarrow> bool option) \<Rightarrow> string \<Rightarrow> string \<Rightarrow> bool" where
  "verify_password checkpw plain hashed =
     (case checkpw plain hashed of None \<Rightarrow> False | Some b \<Rightarrow> b)"

text \<open>The row after a wrong password, and after the right one.\<close>

definition served_lockout :: "user \<Rightarrow> user" where
  "served_lockout u =
     (if locked_until u \<noteq> None then u\<lparr>failed_attempts := 0, locked_until := None\<rparr> else u)"

definition failed_login :: "'a auth_db_scheme \<Rightarrow> user \<Rightarrow> user" where
  "failed_login s u =
     (let n = failed_attempts u + 1
      in u\<lparr>failed_attempts := n,
           locked_until := (if n \<ge> LOCKOUT_THRESHOLD (app_config s)
                            then Some (Aware (clock s + minutes (LOCKOUT_MINUTES (app_config s))))
                            else locked_until u)\<rparr>)"

definition authenticate ::
  "(string \<Rightarrow> string \<Rightarrow> bool option) \<Rightarrow> string \<Rightarrow> string \<Rightarrow> ('a auth_db_scheme, user option) py" where
  "authenticate checkpw em password = with_state (\<lambda>s.
     case by_key email (strip (lower em)) (users s) of
       None \<Rightarrow> ret None
     | Some u \<Rightarrow>
         if \<not> is_active_flag u then ret None
         else if is_locked u (clock s) then ret None
         else
           let u = served_lockout u
           in if \<not> verify_password checkpw password (password_hash u) then
                let u = failed_login s u
                in seq (modify (put_user u))
                    (seq (if failed_attempts u \<ge> LOCKOUT_THRESHOLD (app_config s)
                          then bind (record_entry ''user'' ACCOUNT_LOCKED (Some (u_id u))
                                      [(''failed_attempts'', JInt (failed_attempts u))] (Some (u_id u)))
                                 (\<lambda>_. ret ())
                          else ret ())
                    (seq (modify commit) (ret None)))
              else
                let u = u\<lparr>failed_attempts := 0, locked_until := None, last_login_at := Some (utcnow s)\<rparr>
                in seq (modify (put_user u))
                    (seq (record_entry ''user'' LOGIN_SUCCESS (Some (u_id u)) [] (Some (u_id u)))
                    (seq (modify commit) (ret (Some u)))))"

subsection \<open>Permissions on views\<close>

datatype response = Page | Redirect string | Abort nat

definition current_user :: "'a auth_db_scheme \<Rightarrow> user option" where
  "current_user s =
     (case session_user_id s of None \<Rightarrow> None | Some i \<Rightarrow> by_key u_id i (users s))"

definition require_permission ::
  "string \<Rightarrow> string \<Rightarrow> (user \<Rightarrow> ('a auth_db_scheme, response) py) \<Rightarrow> ('a auth_db_scheme, response) py" where
  "require_permission code path view = with_state (\<lambda>s.
     case current_user s of
       None \<Rightarrow> ret (Redirect (''/auth/login?next='' @ path))
     | Some u \<Rightarrow>
         if \<not> has_permission u code s
         then seq (record_entry ''access'' DENIED None
                     [(''required'', JStr code), (''path'', JStr path)] None)
               (seq (modify commit) (ret (Abort 403)))
         else view u)"

subsection \<open>Encryption of the second-factor secrets\<close>

definition ENC_PREFIX :: string where
  "ENC_PREFIX = ''v1:''"

text \<open>The keys tried on decryption: the primary, then the old ones.\<close>

definition old_keys :: "string \<Rightarrow> string list" where
  "old_keys raw = filter (\<lambda>k. k \<noteq> []) (map strip (split_on (CHR '','') raw))"

definition decryption_keys :: "app_config \<Rightarrow> string list" where
  "decryption_keys cfg = TOTP_ENC_KEY cfg # old_keys (TOTP_ENC_KEYS_OLD cfg)"

text \<open>\<open>MultiFernet.decrypt\<close>: the first key that accepts the token.\<close>

fun multi_decrypt :: "(string \<Rightarrow> string \<Rightarrow> string option) \<Rightarrow> string list \<Rightarrow> string \<Rightarrow> string option" where
  "multi_decrypt fdec [] token = None"
| "multi_decrypt fdec (k # ks) token =
     (case fdec k token of Some m \<Rightarrow> Some m | None \<Rightarrow> multi_decrypt fdec ks token)"

text \<open>\<open>Fernet.encrypt\<close> draws an initialisation vector: the second argument of \<open>fenc\<close>.\<close>

definition encrypt ::
  "(string \<Rightarrow> nat \<Rightarrow> string \<Rightarrow> string) \<Rightarrow> app_config \<Rightarrow> nat \<Rightarrow> string \<Rightarrow> exc + string" where
  "encrypt fenc cfg iv plain =
     (if plain = [] then Inl (TOTPCryptoError ''plaintext is empty'')
      else if TOTP_ENC_KEY cfg = [] then Inl (TOTPCryptoError ''TOTP_ENC_KEY is required'')
      else Inr (ENC_PREFIX @ fenc (TOTP_ENC_KEY cfg) iv plain))"

definition decrypt ::
  "(string \<Rightarrow> string \<Rightarrow> string option) \<Rightarrow> app_config \<Rightarrow> string \<Rightarrow> exc + string" where
  "decrypt fdec cfg stored =
     (if stored = [] then Inl (TOTPCryptoError ''stored value is empty'')
      else if \<not> startswith stored ENC_PREFIX
      then Inl (TOTPCryptoError ''no recognised version prefix'')
      else if TOTP_ENC_KEY cfg = [] then Inl (TOTPCryptoError ''TOTP_ENC_KEY is required'')
      else case multi_decrypt fdec (decryption_keys cfg) (drop (length ENC_PREFIX) stored) of
             None \<Rightarrow> Inl (TOTPCryptoError ''no configured key matches'')
           | Some m \<Rightarrow> Inr m)"

definition is_on_primary_key ::
  "(string \<Rightarrow> string \<Rightarrow> string option) \<Rightarrow> app_config \<Rightarrow> string \<Rightarrow> exc + bool" where
  "is_on_primary_key fdec cfg stored =
     (if stored = [] \<or> \<not> startswith stored ENC_PREFIX then Inr False
      else if TOTP_ENC_KEY cfg = [] then Inl (TOTPCryptoError ''TOTP_ENC_KEY is required'')
      else Inr (fdec (TOTP_ENC_KEY cfg) (drop (length ENC_PREFIX) stored) \<noteq> None))"

definition is_encrypted :: "string option \<Rightarrow> bool" where
  "is_encrypted stored \<longleftrightarrow> truthy stored \<and> startswith (or_empty stored) ENC_PREFIX"

subsection \<open>The second factor\<close>

definition ROLES_REQUIRING_2FA :: "string list" where
  "ROLES_REQUIRING_2FA = [role_value COMPLIANCE, role_value ADMIN]"

definition role_requires_totp :: "string option \<Rightarrow> bool" where
  "role_requires_totp code \<longleftrightarrow> (\<exists>c \<in> set ROLES_REQUIRING_2FA. code = Some c)"

text \<open>\<open>_verify\<close>: six digits, and pyotp accepts them in the window of one step either way.\<close>

definition verify_totp :: "(string \<Rightarrow> string \<Rightarrow> int \<Rightarrow> bool) \<Rightarrow> string \<Rightarrow> string \<Rightarrow> int \<Rightarrow> bool" where
  "verify_totp otp_ok secret code now =
     (let code = filter (\<lambda>c. c \<noteq> CHR '' '') (strip code)
      in if code = [] \<or> length code \<noteq> 6 \<or> \<not> list_all is_digit code then False
         else otp_ok secret code now)"

definition begin_enrollment ::
  "(string \<Rightarrow> nat \<Rightarrow> string \<Rightarrow> string) \<Rightarrow> nat \<Rightarrow> string \<Rightarrow> user \<Rightarrow> ('a auth_db_scheme, string) py" where
  "begin_enrollment fenc iv secret u = with_state (\<lambda>s.
     case encrypt fenc (app_config s) iv secret of
       Inl e \<Rightarrow> throw e
     | Inr stored \<Rightarrow>
         seq (modify (put_user (u\<lparr>totp_secret := Some stored, totp_enrolled_at := None\<rparr>)))
             (ret secret))"

definition complete_enrollment ::
  "(string \<Rightarrow> string \<Rightarrow> string option) \<Rightarrow> (string \<Rightarrow> string \<Rightarrow> int \<Rightarrow> bool) \<Rightarrow> user \<Rightarrow> string \<Rightarrow>
   ('a auth_db_scheme, bool) py" where
  "complete_enrollment fdec otp_ok u code = with_state (\<lambda>s.
     if \<not> truthy (totp_secret u) then ret False
     else case decrypt fdec (app_config s) (or_empty (totp_secret u)) of
            Inl e \<Rightarrow> ret False
          | Inr plaintext \<Rightarrow>
              if \<not> verify_totp otp_ok plaintext code (clock s) then ret False
              else seq (modify (put_user (u\<lparr>totp_enrolled_at := Some (utcnow s)\<rparr>))) (ret True))"

definition verify_code ::
  "(string \<Rightarrow> string \<Rightarrow> string option) \<Rightarrow> (string \<Rightarrow> string \<Rightarrow> int \<Rightarrow> bool) \<Rightarrow> app_config \<Rightarrow> user \<Rightarrow>
   string \<Rightarrow> int \<Rightarrow> bool" where
  "verify_code fdec otp_ok cfg u code now =
     (if \<not> totp_enabled u then False
      else case decrypt fdec cfg (or_empty (totp_secret u)) of
             Inl e \<Rightarrow> False
           | Inr plaintext \<Rightarrow> verify_totp otp_ok plaintext code now)"

subsection \<open>The second-factor gate\<close>

definition TOTP_GATE_ALLOWLIST :: "string list" where
  "TOTP_GATE_ALLOWLIST =
     [''auth.totp_enroll'', ''auth.logout'', ''auth.set_language'', ''legal.privacy'',
      ''pwa.service_worker'', ''pwa.manifest'', ''health.healthz'', ''health.readyz'',
      ''help.index'', ''help.training'', ''help.admin'', ''help.auditor'', ''help.ops'',
      ''help.trainee_card_pdf'', ''static'']"

text \<open>\<open>_enforce_totp_for_compliance_roles\<close>: None lets the request through.\<close>

definition enforce_totp :: "string option \<Rightarrow> 'a auth_db_scheme \<Rightarrow> response option" where
  "enforce_totp endpoint s =
     (if \<not> ENFORCE_TOTP_FOR_ROLES (app_config s) then None
      else case current_user s of
        None \<Rightarrow> None
      | Some u \<Rightarrow>
          if (case endpoint of None \<Rightarrow> False | Some e \<Rightarrow> e \<in> set TOTP_GATE_ALLOWLIST) then None
          else if (case endpoint of None \<Rightarrow> False | Some e \<Rightarrow> e \<noteq> [] \<and> startswith e ''static'') then None
          else if \<not> role_requires_totp (map_option role_code (role_of u s)) then None
          else if totp_enabled u then None
          else Some (Redirect ''/auth/2fa/enroll''))"

end
