(* ===== verification/SignIn.thy ===== *)
theory SignIn
  imports Auth
begin

text \<open>
  Signing in: what authenticate does on every branch, the bound the lockout puts on guessing,
  the two-step views of app/blueprints/auth.py over the browser session, and the rotation of the
  second-factor keys (the totp-rotate-keys command of app/__init__.py).
\<close>

subsection \<open>The audit contract\<close>

lemma keeps_put_user [audited]: "keeps log_step (modify (put_user u))"
  by (intro audited) (simp_all add: put_user_def)

lemma keeps_commit [audited]: "keeps log_step (modify commit)"
  by (intro audited) (simp_all add: commit_def)

lemma keeps_authenticate [audited]: "keeps log_step (authenticate checkpw em pw)"
  unfolding authenticate_def by (intro audited)

lemma keeps_require_permission:
  "(\<And>u. keeps log_step (view u)) \<Longrightarrow> keeps log_step (require_permission code path view)"
  unfolding require_permission_def by (intro audited) (assumption | rule)+

interpretation authentication: audited_operation "authenticate checkpw em pw" for checkpw em pw
  by unfold_locales (rule keeps_authenticate)

subsection \<open>One attempt\<close>

text \<open>The account an address names, when it may try a password now.\<close>

definition open_account :: "string \<Rightarrow> 'a auth_db_scheme \<Rightarrow> user option" where
  "open_account em s =
     (case by_key email (strip (lower em)) (users s) of
        None \<Rightarrow> None
      | Some u \<Rightarrow> if is_active_flag u \<and> \<not> is_locked u (clock s) then Some u else None)"

lemma authenticate_closed: "open_account em s = None \<Longrightarrow> authenticate checkpw em pw s = (Inr None, s)"
  by (auto simp: authenticate_def open_account_def split: option.splits if_splits)

lemma writable_put_user [simp]: "writable (put_user u s) = writable s"
  by (simp add: writable_def audit_update_allowed_def put_user_def)

lemma commit_simps [simp]:
  "users (commit s) = users s" "clock (commit s) = clock s" "app_config (commit s) = app_config s"
  "audit_log (commit s) = audit_log s" "session_failed (commit s) = session_failed s"
  "dialect (commit s) = dialect s" "immutable_trigger (commit s) = immutable_trigger s"
  by (simp_all add: commit_def)

lemma authenticate_open:
  assumes "open_account em s = Some u" "writable s"
  shows "fst (authenticate checkpw em pw s) =
      Inr (if verify_password checkpw pw (password_hash u)
           then Some (u\<lparr>failed_attempts := 0, locked_until := None, last_login_at := Some (utcnow s)\<rparr>)
           else None)"
    "users (snd (authenticate checkpw em pw s)) =
      update_row u_id (u_id u)
        (\<lambda>_. if verify_password checkpw pw (password_hash u)
             then u\<lparr>failed_attempts := 0, locked_until := None, last_login_at := Some (utcnow s)\<rparr>
             else failed_login s (served_lockout u)) (users s)"
    "clock (snd (authenticate checkpw em pw s)) = clock s"
    "app_config (snd (authenticate checkpw em pw s)) = app_config s"
    "session_failed (snd (authenticate checkpw em pw s)) = session_failed s"
    "dialect (snd (authenticate checkpw em pw s)) = dialect s"
    "immutable_trigger (snd (authenticate checkpw em pw s)) = immutable_trigger s"
proof -
  from assms(1) have u: "by_key email (strip (lower em)) (users s) = Some u" "is_active_flag u"
    "\<not> is_locked u (clock s)"
    by (auto simp: open_account_def split: option.splits if_splits)
  have id: "u_id (served_lockout u) = u_id u" "u_id (failed_login s u') = u_id u'"
    "password_hash (served_lockout u) = password_hash u" for u'
    by (simp_all add: served_lockout_def failed_login_def Let_def)
  have ok: "(served_lockout u)\<lparr>failed_attempts := 0, locked_until := None, last_login_at := l\<rparr> =
      u\<lparr>failed_attempts := 0, locked_until := None, last_login_at := l\<rparr>" for l
    by (simp add: served_lockout_def)
  note run = authenticate_def Let_def seq_Inr bind_Inr record_entry_ok id ok put_user_def
  have w: "writable (s\<lparr>users := us\<rparr>)" for us
    using assms(2) by (simp add: writable_def audit_update_allowed_def)
  show "fst (authenticate checkpw em pw s) =
      Inr (if verify_password checkpw pw (password_hash u)
           then Some (u\<lparr>failed_attempts := 0, locked_until := None, last_login_at := Some (utcnow s)\<rparr>)
           else None)"
    "users (snd (authenticate checkpw em pw s)) =
      update_row u_id (u_id u)
        (\<lambda>_. if verify_password checkpw pw (password_hash u)
             then u\<lparr>failed_attempts := 0, locked_until := None, last_login_at := Some (utcnow s)\<rparr>
             else failed_login s (served_lockout u)) (users s)"
    "clock (snd (authenticate checkpw em pw s)) = clock s"
    "app_config (snd (authenticate checkpw em pw s)) = app_config s"
    "session_failed (snd (authenticate checkpw em pw s)) = session_failed s"
    "dialect (snd (authenticate checkpw em pw s)) = dialect s"
    "immutable_trigger (snd (authenticate checkpw em pw s)) = immutable_trigger s"
    using u w by (simp_all add: run)
qed

subsection \<open>Guessing\<close>

text \<open>
  A sequence of sign-in requests for one address, each at its time: how many of them got as far
  as the password check, and the state they leave.
\<close>

fun guess_run ::
  "(string \<Rightarrow> string \<Rightarrow> bool option) \<Rightarrow> string \<Rightarrow> (int \<times> string) list \<Rightarrow> 'a auth_db_scheme \<Rightarrow> nat \<times> 'a auth_db_scheme" where
  "guess_run checkpw em [] s = (0, s)"
| "guess_run checkpw em ((t, pw) # gs) s =
     (let s1 = s\<lparr>clock := t\<rparr>;
          (n, s') = guess_run checkpw em gs (snd (in_request (authenticate checkpw em pw) s1))
      in ((if open_account em s1 = None then 0 else 1) + n, s'))"

definition guessing_bound :: "int \<Rightarrow> int \<Rightarrow> user \<Rightarrow> int" where
  "guessing_bound T tend u =
     (case locked_until u of
        None \<Rightarrow> max 1 (T - failed_attempts u)
      | Some l \<Rightarrow> if tend \<le> instant l then 0 else T)"

lemma by_key_put_user:
  assumes "by_key email e us = Some u" "distinct (map u_id us)" "email u' = email u"
  shows "by_key email e (update_row u_id (u_id u) (\<lambda>_. u') us) = Some u'"
proof -
  have "r = u" if "r \<in> set us" "u_id r = u_id u" for r
    using that assms(2) by_key_Some [OF assms(1)] by (metis by_key_unique option.inject)
  then have "update_row u_id (u_id u) (\<lambda>_. u') us = map (\<lambda>r. if r = u then u' else r) us"
    unfolding update_row_def by auto
  moreover have "by_key email e (map (\<lambda>r. if r = u then u' else r) us) = Some u'"
    using assms(1,3) by (induction us) (auto simp: by_key_def split: if_splits)
  ultimately show ?thesis by simp
qed

lemma ids_put_user:
  "u_id u' = u_id u \<Longrightarrow> map u_id (update_row u_id (u_id u) (\<lambda>_. u') us) = map u_id us"
  by (auto simp: update_row_def)

definition guessable :: "'a auth_db_scheme \<Rightarrow> bool" where
  "guessable s \<longleftrightarrow> \<not> session_failed s \<and> \<not> (dialect s = PostgreSQL \<and> immutable_trigger s) \<and>
     distinct (map u_id (users s)) \<and> 1 \<le> LOCKOUT_THRESHOLD (app_config s) \<and> 0 < LOCKOUT_MINUTES (app_config s)"

lemma guessable_writable: "guessable s \<Longrightarrow> writable (s\<lparr>clock := t\<rparr>)"
  by (auto simp: guessable_def writable_def audit_update_allowed_def)

lemma in_request_Inr: "fst (m s) = Inr x \<Longrightarrow> snd (in_request m s) = commit (snd (m s))"
  by (cases "m s") (simp add: in_request_def)

lemma wrong_guess:
  assumes "guessable s" "open_account em (s\<lparr>clock := t\<rparr>) = Some u"
    "\<not> verify_password checkpw pw (password_hash u)"
  defines "s' \<equiv> snd (in_request (authenticate checkpw em pw) (s\<lparr>clock := t\<rparr>))"
  defines "u' \<equiv> failed_login (s\<lparr>clock := t\<rparr>) (served_lockout u)"
  shows "guessable s'" "by_key email (strip (lower em)) (users s') = Some u'"
    "app_config s' = app_config s" "password_hash u' = password_hash u"
proof -
  note A = authenticate_open [OF assms(2) guessable_writable [OF assms(1)], of checkpw pw]
  have com: "s' = commit (snd (authenticate checkpw em pw (s\<lparr>clock := t\<rparr>)))"
    unfolding s'_def
    by (rule in_request_Inr [where m = "authenticate checkpw em pw" and s = "s\<lparr>clock := t\<rparr>", OF A(1)])
  have us: "users s' = update_row u_id (u_id u) (\<lambda>_. u') (users s)"
    using A(2) assms(3) by (simp add: com u'_def)
  have u: "by_key email (strip (lower em)) (users s) = Some u"
    using assms(2) by (auto simp: open_account_def split: option.splits if_splits)
  have same: "u_id u' = u_id u" "email u' = email u" "password_hash u' = password_hash u"
    by (simp_all add: u'_def failed_login_def served_lockout_def Let_def)
  show "password_hash u' = password_hash u" by (rule same)
  show cfg: "app_config s' = app_config s" using A(4) by (simp add: com)
  show "by_key email (strip (lower em)) (users s') = Some u'"
    unfolding us by (rule by_key_put_user [OF u _ same(2)]) (use assms(1) in \<open>simp add: guessable_def\<close>)
  show "guessable s'"
    using assms(1) A cfg unfolding guessable_def us
    by (simp add: com ids_put_user [OF same(1)])
qed

lemma guessing_bound_step:
  assumes "guessable s" "open_account em (s\<lparr>clock := t\<rparr>) = Some u"
    "tend \<le> t + minutes (LOCKOUT_MINUTES (app_config s))" "t < tend"
  shows "1 + guessing_bound (LOCKOUT_THRESHOLD (app_config s)) tend
      (failed_login (s\<lparr>clock := t\<rparr>) (served_lockout u))
    \<le> guessing_bound (LOCKOUT_THRESHOLD (app_config s)) tend u"
  using assms
  by (auto simp: guessing_bound_def failed_login_def served_lockout_def open_account_def is_locked_def
      guessable_def Let_def split: option.splits if_splits)

lemma guess_run_bound:
  assumes "guessable s" "by_key email (strip (lower em)) (users s) = Some u"
    "\<forall>(t, pw)\<in>set gs. t0 \<le> t \<and> t < t0 + minutes (LOCKOUT_MINUTES (app_config s)) \<and>
       \<not> verify_password checkpw pw (password_hash u)"
  shows "int (fst (guess_run checkpw em gs s)) \<le>
    guessing_bound (LOCKOUT_THRESHOLD (app_config s)) (t0 + minutes (LOCKOUT_MINUTES (app_config s))) u"
  using assms
proof (induction gs arbitrary: s u)
  case Nil
  then show ?case by (auto simp: guessing_bound_def guessable_def split: option.splits)
next
  case (Cons g gs)
  obtain t pw where g: "g = (t, pw)" by (cases g)
  let ?s1 = "s\<lparr>clock := t\<rparr>" and ?T = "LOCKOUT_THRESHOLD (app_config s)"
  let ?s' = "snd (in_request (authenticate checkpw em pw) ?s1)"
  let ?stop = "t0 + minutes (LOCKOUT_MINUTES (app_config s))"
  show ?case
  proof (cases "open_account em ?s1")
    case None
    have s': "?s' = commit ?s1" using authenticate_closed [OF None] by (simp add: in_request_def)
    have "guessable ?s'" using Cons.prems(1) by (simp add: s' guessable_def)
    moreover have "users ?s' = users s" "app_config ?s' = app_config s" by (simp_all add: s')
    ultimately show ?thesis
      using Cons.IH [of ?s' u] Cons.prems None by (simp add: g Let_def split_beta)
  next
    case (Some v)
    then have v: "v = u" using Cons.prems(2) by (auto simp: open_account_def split: if_splits)
    have wrong: "\<not> verify_password checkpw pw (password_hash u)" and t: "t0 \<le> t" "t < ?stop"
      using Cons.prems(3) by (auto simp: g)
    let ?u' = "failed_login ?s1 (served_lockout u)"
    note W = wrong_guess [OF Cons.prems(1) Some [unfolded v] wrong]
    have "int (fst (guess_run checkpw em gs ?s')) \<le> guessing_bound ?T ?stop ?u'"
      using Cons.IH [OF W(1,2)] Cons.prems(3) W(3,4) by (auto simp: g)
    moreover have "1 + guessing_bound ?T ?stop ?u' \<le> guessing_bound ?T ?stop u"
      using t by (intro guessing_bound_step [OF Cons.prems(1) Some [unfolded v]]) auto
    ultimately show ?thesis using Some by (simp add: g Let_def split_beta)
  qed
qed


subsection \<open>The sign-in views\<close>

text \<open>The browser session: what the views keep in Flask's session and flask_login's user id.\<close>

record web_session =
  pending_user_id :: "string option"
  pending_next :: "string option"
  logged_in :: "string option"

text \<open>\<open>login_user\<close> refuses an inactive user.\<close>

definition login_user :: "user \<Rightarrow> web_session \<Rightarrow> web_session" where
  "login_user u w = (if is_active_flag u then w\<lparr>logged_in := Some (u_id u)\<rparr> else w)"

text \<open>POST of a valid login form; \<open>nxt\<close> is the filtered next URL.\<close>

definition login_post ::
  "(string \<Rightarrow> string \<Rightarrow> bool option) \<Rightarrow> string \<Rightarrow> string \<Rightarrow> string \<Rightarrow> web_session \<Rightarrow>
   ('a auth_db_scheme, web_session \<times> response) py" where
  "login_post checkpw em pw nxt w =
     bind (authenticate checkpw em pw) (\<lambda>r. case r of
       None \<Rightarrow> ret (w, Page)
     | Some u \<Rightarrow>
         if totp_enabled u
         then ret (w\<lparr>pending_user_id := Some (u_id u), pending_next := Some nxt\<rparr>, Redirect ''/auth/login/2fa'')
         else ret (login_user u w, Redirect nxt))"

text \<open>POST of a valid second-factor form.\<close>

definition login_2fa_post ::
  "(string \<Rightarrow> string \<Rightarrow> string option) \<Rightarrow> (string \<Rightarrow> string \<Rightarrow> int \<Rightarrow> bool) \<Rightarrow> string \<Rightarrow> web_session \<Rightarrow>
   ('a auth_db_scheme, web_session \<times> response) py" where
  "login_2fa_post fdec otp_ok code w =
     (if \<not> truthy (pending_user_id w) then ret (w, Redirect ''/auth/login'')
      else with_state (\<lambda>s.
        case by_key u_id (or_empty (pending_user_id w)) (users s) of
          None \<Rightarrow> ret (w\<lparr>pending_user_id := None\<rparr>, Redirect ''/auth/login'')
        | Some u \<Rightarrow>
            if verify_code fdec otp_ok (app_config s) u code (clock s)
            then seq (record_entry ''user'' LOGIN_2FA_SUCCESS (Some (u_id u)) [] (Some (u_id u)))
                  (seq (modify commit)
                  (ret ((login_user u w)\<lparr>pending_next := None, pending_user_id := None\<rparr>,
                        Redirect (or_empty (pending_next w)))))
            else seq (record_entry ''user'' LOGIN_2FA_FAILURE (Some (u_id u)) [] (Some (u_id u)))
                  (seq (modify commit) (ret (w, Page)))))"

definition logout_post :: "web_session \<Rightarrow> ('a auth_db_scheme, web_session \<times> response) py" where
  "logout_post w =
     seq (record_entry ''user'' LOGOUT (logged_in w) [] None)
      (seq (modify commit) (ret (w\<lparr>logged_in := None\<rparr>, Redirect ''/auth/login'')))"

text \<open>GET and POST of the enrolment page, for a signed-in user.\<close>

definition totp_enroll_get ::
  "(string \<Rightarrow> nat \<Rightarrow> string \<Rightarrow> string) \<Rightarrow> nat \<Rightarrow> string \<Rightarrow> ('a auth_db_scheme, response) py" where
  "totp_enroll_get fenc iv secret = with_state (\<lambda>s.
     case current_user s of
       None \<Rightarrow> ret (Redirect ''/auth/login'')
     | Some u \<Rightarrow> seq (begin_enrollment fenc iv secret u) (seq (modify commit) (ret Page)))"

definition totp_enroll_post ::
  "(string \<Rightarrow> string \<Rightarrow> string option) \<Rightarrow> (string \<Rightarrow> string \<Rightarrow> int \<Rightarrow> bool) \<Rightarrow> string \<Rightarrow>
   ('a auth_db_scheme, response) py" where
  "totp_enroll_post fdec otp_ok code = with_state (\<lambda>s.
     case current_user s of
       None \<Rightarrow> ret (Redirect ''/auth/login'')
     | Some u \<Rightarrow>
         bind (complete_enrollment fdec otp_ok u (strip code)) (\<lambda>ok.
           if ok then seq (record_entry ''user'' TOTP_ENROLLED (Some (u_id u)) [] (Some (u_id u)))
                       (seq (modify commit) (ret (Redirect ''/'')))
           else ret (Redirect ''/auth/2fa/enroll'')))"

text \<open>
  What a browser does, with a record of the proofs it gave: a password accepted for a user
  (with or without a second factor enabled then) and a code accepted for a user. Between its
  requests the database may change in any way.
\<close>

datatype proof_of = PasswordOk string bool | CodeOk string

inductive browsing ::
  "(string \<Rightarrow> string \<Rightarrow> bool option) \<Rightarrow> (string \<Rightarrow> string \<Rightarrow> string option) \<Rightarrow> (string \<Rightarrow> string \<Rightarrow> int \<Rightarrow> bool) \<Rightarrow>
   web_session \<Rightarrow> proof_of list \<Rightarrow> bool" for checkpw fdec otp_ok where
  fresh: "browsing checkpw fdec otp_ok \<lparr>pending_user_id = None, pending_next = None, logged_in = None\<rparr> []"
| login: "browsing checkpw fdec otp_ok w given \<Longrightarrow>
    login_post checkpw em pw nxt w (s :: auth_db) = (Inr (w', r), s') \<Longrightarrow>
    authenticate checkpw em pw s = (Inr a, s'') \<Longrightarrow>
    browsing checkpw fdec otp_ok w'
      (given @ (case a of None \<Rightarrow> [] | Some u \<Rightarrow> [PasswordOk (u_id u) (totp_enabled u)]))"
| second: "browsing checkpw fdec otp_ok w given \<Longrightarrow>
    login_2fa_post fdec otp_ok code w (s :: auth_db) = (Inr (w', r), s') \<Longrightarrow>
    browsing checkpw fdec otp_ok w'
      (given @ (case by_key u_id (or_empty (pending_user_id w)) (users s) of
                None \<Rightarrow> []
              | Some u \<Rightarrow> if verify_code fdec otp_ok (app_config s) u code (clock s) then [CodeOk (u_id u)] else []))"
| logout: "browsing checkpw fdec otp_ok w given \<Longrightarrow>
    logout_post w (s :: auth_db) = (Inr (w', r), s') \<Longrightarrow> browsing checkpw fdec otp_ok w' given"

lemma login_user_simps [simp]:
  "pending_user_id (login_user u w) = pending_user_id w"
  "logged_in (login_user u w) = (if is_active_flag u then Some (u_id u) else logged_in w)"
  by (simp_all add: login_user_def)

lemma login_post_result:
  assumes "login_post checkpw em pw nxt w s = (Inr (w', r), s')" "authenticate checkpw em pw s = (Inr a, s'')"
  shows "w' = (case a of None \<Rightarrow> w | Some u \<Rightarrow>
    if totp_enabled u then w\<lparr>pending_user_id := Some (u_id u), pending_next := Some nxt\<rparr> else login_user u w)"
  using assms by (auto simp: login_post_def bind_def split: option.splits if_splits)

lemma seq_ret_result:
  "seq m (seq (modify f) (ret x)) s = (Inr y, s') \<Longrightarrow> y = x"
  by (auto simp: seq_def bind_def split: prod.splits sum.splits)

lemma login_2fa_result:
  assumes "login_2fa_post fdec otp_ok code w s = (Inr (w', r), s')"
  shows "(pending_user_id w' = pending_user_id w \<or> pending_user_id w' = None) \<and>
    (logged_in w' = logged_in w \<or>
     (\<exists>u. by_key u_id (or_empty (pending_user_id w)) (users s) = Some u \<and> truthy (pending_user_id w) \<and>
        verify_code fdec otp_ok (app_config s) u code (clock s) \<and> logged_in w' = Some (u_id u)))"
  using assms
  by (auto simp: login_2fa_post_def split: option.splits if_splits dest!: seq_ret_result)

lemma browsing_proofs:
  assumes "browsing checkpw fdec otp_ok w given"
  shows "(\<forall>i. pending_user_id w = Some i \<longrightarrow> PasswordOk i True \<in> set given) \<and>
    (\<forall>i. logged_in w = Some i \<longrightarrow> PasswordOk i False \<in> set given \<or>
       PasswordOk i True \<in> set given \<and> CodeOk i \<in> set given)"
  using assms
proof induction
  case fresh
  then show ?case by simp
next
  case (login w given em pw nxt s w' r s' a s'')
  from login_post_result [OF login.hyps(2,3)] login.IH show ?case
    by (auto split: option.splits if_splits)
next
  case (second w given code s w' r s')
  let ?new = "case by_key u_id (or_empty (pending_user_id w)) (users s) of None \<Rightarrow> []
    | Some u \<Rightarrow> if verify_code fdec otp_ok (app_config s) u code (clock s) then [CodeOk (u_id u)] else []"
  from login_2fa_result [OF second.hyps(2)]
  have P: "pending_user_id w' = pending_user_id w \<or> pending_user_id w' = None"
    and L: "logged_in w' = logged_in w \<or>
     (\<exists>u. by_key u_id (or_empty (pending_user_id w)) (users s) = Some u \<and> truthy (pending_user_id w) \<and>
        verify_code fdec otp_ok (app_config s) u code (clock s) \<and> logged_in w' = Some (u_id u))" by auto
  have "PasswordOk i False \<in> set (given @ ?new) \<or> PasswordOk i True \<in> set (given @ ?new) \<and> CodeOk i \<in> set (given @ ?new)"
    if l: "logged_in w' = Some i" for i
    using L
  proof
    assume "logged_in w' = logged_in w"
    with l second.IH show ?thesis by auto
  next
    assume "\<exists>u. by_key u_id (or_empty (pending_user_id w)) (users s) = Some u \<and> truthy (pending_user_id w) \<and>
        verify_code fdec otp_ok (app_config s) u code (clock s) \<and> logged_in w' = Some (u_id u)"
    then obtain u where u: "by_key u_id (or_empty (pending_user_id w)) (users s) = Some u"
      "truthy (pending_user_id w)" "verify_code fdec otp_ok (app_config s) u code (clock s)" "u_id u = i"
      using l by auto
    then have "pending_user_id w = Some i"
      using by_key_Some [OF u(1)] by (auto simp: truthy_def or_empty_def split: option.splits)
    with second.IH u show ?thesis by simp
  qed
  with P second.IH show ?case by fastforce
next
  case (logout w given s w' r s')
  then have "w' = w\<lparr>logged_in := None\<rparr>" by (auto simp: logout_post_def dest!: seq_ret_result)
  with logout.IH show ?case by simp
qed


subsection \<open>Rotating the keys\<close>

text \<open>
  The totp-rotate-keys command: collect the rows that are not on the primary key, and with
  \<open>--apply\<close> decrypt each of them under any configured key and encrypt it again. A row that no
  key decrypts is skipped. The result is the number of rows with a secret and of stale ones.
\<close>

definition stale_rows ::
  "(string \<Rightarrow> string \<Rightarrow> string option) \<Rightarrow> app_config \<Rightarrow> user list \<Rightarrow> exc + user list" where
  "stale_rows fdec cfg rows =
     foldr (\<lambda>u acc. case is_on_primary_key fdec cfg (or_empty (totp_secret u)) of
                      Inl e \<Rightarrow> Inl e
                    | Inr b \<Rightarrow> (case acc of Inl e \<Rightarrow> Inl e | Inr us \<Rightarrow> Inr (if b then us else u # us)))
       rows (Inr [])"

definition rotate_row ::
  "(string \<Rightarrow> nat \<Rightarrow> string \<Rightarrow> string) \<Rightarrow> (string \<Rightarrow> string \<Rightarrow> string option) \<Rightarrow> (string \<Rightarrow> nat) \<Rightarrow> user \<Rightarrow>
   ('a auth_db_scheme, unit) py" where
  "rotate_row fenc fdec iv u = with_state (\<lambda>s.
     case decrypt fdec (app_config s) (or_empty (totp_secret u)) of
       Inl e \<Rightarrow> ret ()
     | Inr plaintext \<Rightarrow>
         (case encrypt fenc (app_config s) (iv (u_id u)) plaintext of
            Inl e \<Rightarrow> throw e
          | Inr t \<Rightarrow> modify (put_user (u\<lparr>totp_secret := Some t\<rparr>))))"

definition rotate_keys ::
  "(string \<Rightarrow> nat \<Rightarrow> string \<Rightarrow> string) \<Rightarrow> (string \<Rightarrow> string \<Rightarrow> string option) \<Rightarrow> (string \<Rightarrow> nat) \<Rightarrow> bool \<Rightarrow>
   ('a auth_db_scheme, nat \<times> nat) py" where
  "rotate_keys fenc fdec iv dry_run = with_state (\<lambda>s.
     let rows = filter (\<lambda>u. totp_secret u \<noteq> None) (users s)
     in case stale_rows fdec (app_config s) rows of
          Inl e \<Rightarrow> throw e
        | Inr stale \<Rightarrow>
            if stale = [] \<or> dry_run then ret (length rows, length stale)
            else seq (for_each (rotate_row fenc fdec iv) stale)
                  (seq (modify commit) (ret (length rows, length stale))))"

text \<open>
  What Fernet promises: a token decrypts under its key, and under no other.
\<close>

definition fernet_laws :: "(string \<Rightarrow> nat \<Rightarrow> string \<Rightarrow> string) \<Rightarrow> (string \<Rightarrow> string \<Rightarrow> string option) \<Rightarrow> bool" where
  "fernet_laws fenc fdec \<longleftrightarrow>
     (\<forall>k iv m. fdec k (fenc k iv m) = Some m) \<and> (\<forall>k k' iv m. k \<noteq> k' \<longrightarrow> fdec k' (fenc k iv m) = None)"

text \<open>A secret stored under one of the configured keys.\<close>

definition stored_under :: "(string \<Rightarrow> nat \<Rightarrow> string \<Rightarrow> string) \<Rightarrow> string list \<Rightarrow> string \<Rightarrow> string \<Rightarrow> bool" where
  "stored_under fenc keys plain stored \<longleftrightarrow>
     plain \<noteq> [] \<and> (\<exists>k\<in>set keys. \<exists>iv. stored = ENC_PREFIX @ fenc k iv plain)"

lemma multi_decrypt_hit:
  assumes "fernet_laws fenc fdec" "k \<in> set keys"
  shows "multi_decrypt fdec keys (fenc k iv m) = Some m"
  using assms(2)
proof (induction keys)
  case (Cons k' ks)
  show ?case
  proof (cases "k = k'")
    case True
    then show ?thesis using assms(1) by (simp add: fernet_laws_def)
  next
    case False
    then have "fdec k' (fenc k iv m) = None" using assms(1) by (simp add: fernet_laws_def)
    with False Cons show ?thesis by simp
  qed
qed simp

lemma decrypt_stored:
  assumes "fernet_laws fenc fdec" "stored_under fenc (decryption_keys cfg) plain stored" "TOTP_ENC_KEY cfg \<noteq> []"
  shows "decrypt fdec cfg stored = Inr plain"
  using assms multi_decrypt_hit [OF assms(1)]
  by (auto simp: decrypt_def stored_under_def ENC_PREFIX_def)

lemma on_primary_stored:
  assumes "fernet_laws fenc fdec" "stored_under fenc keys plain stored" "TOTP_ENC_KEY cfg \<noteq> []"
  shows "\<exists>b. is_on_primary_key fdec cfg stored = Inr b \<and> (b \<longrightarrow> stored_under fenc [TOTP_ENC_KEY cfg] plain stored)"
proof -
  obtain k iv where k: "stored = ENC_PREFIX @ fenc k iv plain" and p: "plain \<noteq> []"
    using assms(2) by (auto simp: stored_under_def)
  have "k = TOTP_ENC_KEY cfg" if "fdec (TOTP_ENC_KEY cfg) (fenc k iv plain) \<noteq> None"
    using that assms(1) unfolding fernet_laws_def by metis
  then show ?thesis using k p assms(3)
    by (auto simp: is_on_primary_key_def stored_under_def ENC_PREFIX_def)
qed

lemma stale_rows_facts:
  assumes "fernet_laws fenc fdec" "TOTP_ENC_KEY cfg \<noteq> []"
    "\<And>u. u \<in> set rows \<Longrightarrow> stored_under fenc keys (plain u) (or_empty (totp_secret u))"
  shows "\<exists>us. stale_rows fdec cfg rows = Inr us \<and> set us \<subseteq> set rows \<and> (distinct (map u_id rows) \<longrightarrow> distinct (map u_id us)) \<and>
    (\<forall>u\<in>set rows - set us. stored_under fenc [TOTP_ENC_KEY cfg] (plain u) (or_empty (totp_secret u)))"
  using assms(3)
proof (induction rows)
  case Nil
  then show ?case by (simp add: stale_rows_def)
next
  case (Cons u rows)
  then obtain us where us: "stale_rows fdec cfg rows = Inr us" "set us \<subseteq> set rows"
    "distinct (map u_id rows) \<longrightarrow> distinct (map u_id us)"
    "\<forall>u\<in>set rows - set us. stored_under fenc [TOTP_ENC_KEY cfg] (plain u) (or_empty (totp_secret u))"
    by auto
  obtain b where b: "is_on_primary_key fdec cfg (or_empty (totp_secret u)) = Inr b"
    "b \<longrightarrow> stored_under fenc [TOTP_ENC_KEY cfg] (plain u) (or_empty (totp_secret u))"
    using on_primary_stored [OF assms(1) Cons.prems assms(2), of u] by auto
  have "stale_rows fdec cfg (u # rows) = Inr (if b then us else u # us)"
    using us(1) b(1) by (simp add: stale_rows_def)
  with us b(2) show ?case by (auto simp: image_iff subset_iff)
qed

lemma by_key_put_id:
  "by_key u_id i (users (put_user u s)) =
     (if i = u_id u then map_option (\<lambda>_. u) (by_key u_id i (users s)) else by_key u_id i (users s))"
proof -
  have "by_key u_id i (update_row u_id (u_id u) (\<lambda>_. u) us) =
      (if i = u_id u then map_option (\<lambda>_. u) (by_key u_id i us) else by_key u_id i us)" for us
    by (induction us) (auto simp: by_key_def update_row_def)
  then show ?thesis by (simp add: put_user_def)
qed

lemma put_user_config [simp]: "app_config (put_user u s) = app_config s"
  by (simp add: put_user_def)

lemma rotate_rows:
  assumes laws: "fernet_laws fenc fdec" and key: "TOTP_ENC_KEY (app_config s) \<noteq> []"
    and us: "distinct (map u_id us)"
      "\<And>u. u \<in> set us \<Longrightarrow> stored_under fenc (decryption_keys (app_config s)) (plain u) (or_empty (totp_secret u))"
  shows "\<exists>s'. for_each (rotate_row fenc fdec iv) us s = (Inr (), s') \<and> app_config s' = app_config s \<and>
    (\<forall>i. by_key u_id i (users s') =
       (case by_key u_id i us of None \<Rightarrow> by_key u_id i (users s)
        | Some u \<Rightarrow> map_option (\<lambda>_. u\<lparr>totp_secret :=
              Some (ENC_PREFIX @ fenc (TOTP_ENC_KEY (app_config s)) (iv (u_id u)) (plain u))\<rparr>)
            (by_key u_id i (users s))))"
  using key us
proof (induction us arbitrary: s)
  case Nil
  then show ?case by (simp add: by_key_def)
next
  case (Cons u us)
  let ?u = "u\<lparr>totp_secret := Some (ENC_PREFIX @ fenc (TOTP_ENC_KEY (app_config s)) (iv (u_id u)) (plain u))\<rparr>"
  let ?s = "put_user ?u s"
  have cfg: "app_config ?s = app_config s" by (simp add: put_user_def)
  have "plain u \<noteq> []" using Cons.prems(3) [of u] by (simp add: stored_under_def)
  then have one: "rotate_row fenc fdec iv u s = (Inr (), ?s)"
    using decrypt_stored [OF laws Cons.prems(3) Cons.prems(1), of u] Cons.prems(1)
    by (simp add: rotate_row_def encrypt_def)
  obtain s' where s': "for_each (rotate_row fenc fdec iv) us ?s = (Inr (), s')" "app_config s' = app_config s"
    "\<And>i. by_key u_id i (users s') =
       (case by_key u_id i us of None \<Rightarrow> by_key u_id i (users ?s)
        | Some u \<Rightarrow> map_option (\<lambda>_. u\<lparr>totp_secret := Some (ENC_PREFIX @ fenc (TOTP_ENC_KEY (app_config s)) (iv (u_id u)) (plain u))\<rparr>)
            (by_key u_id i (users ?s)))"
    using Cons.IH [of ?s, unfolded put_user_config] Cons.prems by auto
  have "u_id u \<notin> u_id ` set us" using Cons.prems(2) by simp
  then have none: "by_key u_id (u_id u) us = None" by (simp add: by_key_None)
  have "by_key u_id i (u # us) = (if u_id u = i then Some u else by_key u_id i us)" for i
    by (simp add: by_key_def)
  with s' none one show ?case
    by (auto simp: seq_Inr by_key_put_id option.map_comp comp_def split: option.splits)
qed


text \<open>
  Opening the enrolment page switches the second factor off. A GET of /auth/2fa/enroll by a
  signed-in user whose second factor is enabled replaces the secret and clears the enrolment:
  until a new code is confirmed, no code is accepted and a password alone signs in.
\<close>

theorem enroll_page_disables_second_factor:
  assumes "current_user s = Some u" "totp_enabled u" "TOTP_ENC_KEY (app_config s) \<noteq> []" "secret \<noteq> []"
  shows "\<exists>s' u'. totp_enroll_get fenc iv secret s = (Inr Page, s') \<and>
    by_key u_id (u_id u) (users s') = Some u' \<and> \<not> totp_enabled u' \<and>
    (\<forall>code now. \<not> verify_code fdec otp_ok (app_config s') u' code now)"
proof -
  from assms(1) have k: "by_key u_id (u_id u) (users s) = Some u"
    by (auto simp: current_user_def split: option.splits dest: by_key_Some)
  define t where "t = ENC_PREFIX @ fenc (TOTP_ENC_KEY (app_config s)) iv secret"
  have "encrypt fenc (app_config s) iv secret = Inr t" using assms by (simp add: encrypt_def t_def)
  then have "totp_enroll_get fenc iv secret s =
      (Inr Page, commit (put_user (u\<lparr>totp_secret := Some t, totp_enrolled_at := None\<rparr>) s))"
    using assms(1) by (simp add: totp_enroll_get_def begin_enrollment_def seq_Inr)
  with k show ?thesis by (auto simp: by_key_put_id totp_enabled_def verify_code_def)
qed

subsection \<open>A sample and the witnesses\<close>

definition sample_config :: app_config where
  "sample_config =
     \<lparr>LOCKOUT_THRESHOLD = 5, LOCKOUT_MINUTES = 15, TOTP_ENC_KEY = ''new'', TOTP_ENC_KEYS_OLD = ''old'',
      ENFORCE_TOTP_FOR_ROLES = True, RATELIMIT_ENABLED = True, RATELIMIT_API_MAX = 600, API_KEYS = [],
      TRAINING_LINK_SIGNING_KEY = None, SECRET_KEY = ''secret'', TRAINING_BASE_URL = ''https://q'',
      TRAINING_RECERT_LEAD_DAYS = 14,
      TRAINING_DEFAULT_PASS_THRESHOLD = Fin (7 / 10), TRAINING_DEFAULT_LINK_TTL_DAYS = 7,
      SUPPORTED_LANGUAGES = [''pl'', ''en''], DEFAULT_LANGUAGE = ''pl'', MQTT_USE_STREAM = False, SMTP_HOST = ''localhost'', SMTP_PORT = 25,
      SMTP_USERNAME = None, SMTP_PASSWORD = None, SMTP_USE_TLS = False,
      SMTP_FROM = ''qms@local'', CLICKSEND_USERNAME = ''u'', CLICKSEND_API_KEY = ''k'',
      CLICKSEND_SOURCE = ''QMS'', CLICKSEND_BASE_URL = ''https://rest.clicksend.com/v3''\<rparr>"

definition toy_fenc :: "string \<Rightarrow> nat \<Rightarrow> string \<Rightarrow> string" where
  "toy_fenc k iv m = replicate (length k) (CHR ''1'') @ CHR ''0'' # k @ m"

definition toy_fdec :: "string \<Rightarrow> string \<Rightarrow> string option" where
  "toy_fdec k t = (if startswith t (replicate (length k) (CHR ''1'') @ CHR ''0'' # k)
                   then Some (drop (2 * length k + 1) t) else None)"

lemma ones_zero:
  "replicate n (CHR ''1'') @ CHR ''0'' # x = replicate m (CHR ''1'') @ CHR ''0'' # y \<Longrightarrow> n = m \<and> x = y"
proof (induction n arbitrary: m)
  case 0
  then show ?case by (cases m) auto
next
  case (Suc n)
  then show ?case by (cases m) auto
qed

lemma toy_fernet: "fernet_laws toy_fenc toy_fdec"
proof -
  have hit: "toy_fdec k (toy_fenc k iv m) = Some m" for k iv m
    using startswith_append [of "replicate (length k) (CHR ''1'') @ CHR ''0'' # k" m]
    by (simp add: toy_fdec_def toy_fenc_def)
  have miss: "toy_fdec k' (toy_fenc k iv m) = None" if "k \<noteq> k'" for k k' iv m
  proof -
    have "\<not> startswith (toy_fenc k iv m) (replicate (length k') (CHR ''1'') @ CHR ''0'' # k')"
    proof
      assume "startswith (toy_fenc k iv m) (replicate (length k') (CHR ''1'') @ CHR ''0'' # k')"
      then obtain r where r: "toy_fenc k iv m = (replicate (length k') (CHR ''1'') @ CHR ''0'' # k') @ r"
        unfolding startswith_iff by blast
      then have "replicate (length k) (CHR ''1'') @ CHR ''0'' # (k @ m) =
          replicate (length k') (CHR ''1'') @ CHR ''0'' # (k' @ r)"
        by (simp add: toy_fenc_def)
      from ones_zero [OF this] that show False by auto
    qed
    then show ?thesis by (simp add: toy_fdec_def)
  qed
  show ?thesis using hit miss by (simp add: fernet_laws_def)
qed

definition sample_user :: "string option \<Rightarrow> user" where
  "sample_user secret =
     \<lparr>u_id = ''u1'', email = ''a@b'', password_hash = ''pw'', full_name = ''A B'', language = ''en'',
      is_active_flag = True, failed_attempts = 0, locked_until = None, last_login_at = None,
      u_role_id = ''r1'', totp_secret = secret, totp_enrolled_at = Some (Aware 0)\<rparr>"

definition sample_auth :: "user list \<Rightarrow> auth_db" where
  "sample_auth us =
     \<lparr>clock = 0, uuid_at = digits, uuid_next = 0,
      request_context = Some \<lparr>remote_addr = None, user_agent_string = [], current_user_id = Some ''u1''\<rparr>,
      dialect = SQLite, session_failed = False, queue = sample_queue, redis = sample_redis, json_hash = (\<lambda>_. ''h''), immutable_trigger = True,
      audit_redact_ok = False, audit_log = [], audit_seq = 0,
      app_config = sample_config, users = us,
      roles = [\<lparr>role_id = ''r1'', role_code = ''admin'', role_permissions = [''users.manage'']\<rparr>]\<rparr>"

lemma sample_auth_simps [simp]:
  "guessable (sample_auth [sample_user x])" "users (sample_auth us) = us"
  "app_config (sample_auth us) = sample_config"
  by (simp_all add: guessable_def sample_auth_def sample_config_def)




theorem enroll_page_disables_second_factor_witness:
  "\<exists>s' u'. totp_enroll_get toy_fenc 0 ''fresh'' (sample_auth [sample_user (Some ''v1:x'')]) = (Inr Page, s') \<and>
     by_key u_id ''u1'' (users s') = Some u' \<and> \<not> totp_enabled u'"
  using enroll_page_disables_second_factor [of "sample_auth [sample_user (Some ''v1:x'')]" "sample_user (Some ''v1:x'')"
      "''fresh''" toy_fenc 0 toy_fdec "\<lambda>_ _ _. False"]
  by (auto simp: current_user_def session_user_id_def sample_auth_def by_key_def sample_user_def totp_enabled_def
      truthy_def sample_config_def)

end
