(* ===== verification/Queue.thy ===== *)
theory Queue
  imports SignIn
begin

text \<open>
  Handing work to the queues (app/services/queue.py): what is passed to RQ for a webhook, an
  email and an SMS. The connection details of the transport are read from the configuration
  when the job is enqueued and travel with it.
\<close>

definition WEBHOOK_QUEUE :: string where
  "WEBHOOK_QUEUE = ''qms:webhooks''"

definition EMAIL_QUEUE :: string where
  "EMAIL_QUEUE = ''qms:emails''"

definition SMS_QUEUE :: string where
  "SMS_QUEUE = ''qms:sms''"

definition RETRY_INTERVALS_SECONDS :: "int list" where
  "RETRY_INTERVALS_SECONDS = [180, 540, 1620]"

text \<open>\<open>q.enqueue(func, kwargs, retry)\<close>: RQ raises when Redis cannot be reached.\<close>

definition enqueue :: "string \<Rightarrow> string \<Rightarrow> (string \<times> json) list \<Rightarrow> ('a session_scheme, string) py" where
  "enqueue q func kwargs = (\<lambda>s.
     let p = queue s; i = q_job_id p (length (q_jobs p))
     in if \<not> q_up p then (Inl (ConnectionError ''redis''), s)
        else (Inr i,
              s\<lparr>queue := p\<lparr>q_jobs := q_jobs p @
                 [\<lparr>job_id = i, job_queue = q, job_func = func, job_kwargs = kwargs,
                   job_retry = RETRY_INTERVALS_SECONDS\<rparr>]\<rparr>\<rparr>))"

definition enqueue_webhook :: "json \<Rightarrow> json \<Rightarrow> json \<Rightarrow> ('a auth_db_scheme, string) py" where
  "enqueue_webhook url payload secret =
     enqueue WEBHOOK_QUEUE ''app.jobs.webhook.post_webhook''
       [(''url'', url), (''payload'', payload), (''secret'', secret)]"

definition enqueue_email ::
  "json \<Rightarrow> string \<Rightarrow> string \<Rightarrow> string option \<Rightarrow> ('a auth_db_scheme, string) py" where
  "enqueue_email recipients subject body_text body_html = with_state (\<lambda>s.
     let cfg = app_config s
     in enqueue EMAIL_QUEUE ''app.jobs.email.send_email''
       [(''to'', recipients), (''subject'', JStr subject),
        (''body_text'', JStr body_text), (''body_html'', jstr_opt body_html),
        (''smtp_host'', JStr (SMTP_HOST cfg)), (''smtp_port'', JInt (SMTP_PORT cfg)),
        (''smtp_username'', jstr_opt (SMTP_USERNAME cfg)), (''smtp_password'', jstr_opt (SMTP_PASSWORD cfg)),
        (''smtp_use_tls'', JBool (SMTP_USE_TLS cfg)), (''sender'', JStr (SMTP_FROM cfg))])"

definition enqueue_sms :: "json \<Rightarrow> string \<Rightarrow> ('a auth_db_scheme, string) py" where
  "enqueue_sms recipients body = with_state (\<lambda>s.
     let cfg = app_config s
     in enqueue SMS_QUEUE ''app.jobs.sms.send_sms''
       [(''to'', recipients), (''body'', JStr body),
        (''username'', JStr (CLICKSEND_USERNAME cfg)), (''api_key'', JStr (CLICKSEND_API_KEY cfg)),
        (''source'', JStr (CLICKSEND_SOURCE cfg)), (''base_url'', JStr (CLICKSEND_BASE_URL cfg))])"

lemma keeps_enqueue [audited]: "keeps log_step (enqueue q f k :: ('a audit_db_scheme, string) py)"
  by (rule keepsI) (auto simp: enqueue_def Let_def log_step_def log_wf_def)

lemma keeps_enqueue_ops [audited]:
  "keeps log_step (enqueue_webhook url p sec)" "keeps log_step (enqueue_email ms sub b h)"
  "keeps log_step (enqueue_sms ms b)"
  unfolding enqueue_webhook_def enqueue_email_def enqueue_sms_def by (intro audited)+

subsection \<open>Redis\<close>

definition send_redis :: "redis_cmd \<Rightarrow> 'a session_scheme \<Rightarrow> 'a session_scheme" where
  "send_redis c s = s\<lparr>redis := (redis s)\<lparr>r_log := r_log (redis s) @ [c]\<rparr>\<rparr>"

definition redis_read :: "'a session_scheme \<Rightarrow> string \<Rightarrow> string option" where
  "redis_read s k = r_get (redis s) (r_log (redis s)) (clock s) k"

definition redis_write :: "redis_cmd \<Rightarrow> ('a session_scheme, unit) py" where
  "redis_write c = (\<lambda>s. if \<not> r_up (redis s) then (Inl (ConnectionError ''redis''), s) else (Inr (), send_redis c s))"

definition redis_get :: "string \<Rightarrow> ('a session_scheme, string option) py" where
  "redis_get k = (\<lambda>s. if \<not> r_up (redis s) then (Inl (ConnectionError ''redis''), s) else (Inr (redis_read s k), s))"

lemma send_redis_simps [simp]:
  "r_up (redis (send_redis c s)) = r_up (redis s)" "r_get (redis (send_redis c s)) = r_get (redis s)"
  "r_count (redis (send_redis c s)) = r_count (redis s)"
  "r_log (redis (send_redis c s)) = r_log (redis s) @ [c]" "clock (send_redis c s) = clock s"
  by (simp_all add: send_redis_def)

lemma keeps_redis [audited]:
  "keeps log_step (redis_get k :: ('a audit_db_scheme, string option) py)"
  "keeps log_step (redis_write c :: ('a audit_db_scheme, unit) py)"
  by (rule keepsI; auto simp: redis_get_def redis_write_def send_redis_def log_step_def log_wf_def)+

interpretation webhook_sending: audited_operation "enqueue_webhook url p sec" for url p sec
  by unfold_locales (rule keeps_enqueue_ops)

end
