(* ===== verification/Tickets.thy ===== *)
theory Tickets
  imports Queue
begin

text \<open>
  Tickets: the tables of app/models/production.py and app/models/tickets.py, the service
  app/services/tickets.py and the state-changing views of app/blueprints/tickets.py. Columns
  that hold enum values are strings, as in the tables; the enums are datatypes with their
  string values.
\<close>

subsection \<open>Enumerations\<close>

datatype ticket_status =
  NEW | ASSIGNED | IN_PROGRESS | AWAITING_VERIFICATION | ESCALATED | REJECTED | CLOSED

fun status_value :: "ticket_status \<Rightarrow> string" where
  "status_value NEW = ''new''"
| "status_value ASSIGNED = ''assigned''"
| "status_value IN_PROGRESS = ''in_progress''"
| "status_value AWAITING_VERIFICATION = ''awaiting_verification''"
| "status_value ESCALATED = ''escalated''"
| "status_value REJECTED = ''rejected''"
| "status_value CLOSED = ''closed''"

definition all_statuses :: "ticket_status list" where
  "all_statuses = [NEW, ASSIGNED, IN_PROGRESS, AWAITING_VERIFICATION, ESCALATED, REJECTED, CLOSED]"

text \<open>\<open>TicketStatus(s)\<close>; an unknown value is a ValueError (None).\<close>

definition status_of :: "string \<Rightarrow> ticket_status option" where
  "status_of s = find (\<lambda>t. status_value t = s) all_statuses"

datatype ticket_severity = LOW | MEDIUM | HIGH | CRITICAL

fun severity_value :: "ticket_severity \<Rightarrow> string" where
  "severity_value LOW = ''low''"
| "severity_value MEDIUM = ''medium''"
| "severity_value HIGH = ''high''"
| "severity_value CRITICAL = ''critical''"

definition severity_of :: "string \<Rightarrow> ticket_severity option" where
  "severity_of s = find (\<lambda>t. severity_value t = s) [LOW, MEDIUM, HIGH, CRITICAL]"

datatype ticket_source = MANUAL | IOT | API

fun source_value :: "ticket_source \<Rightarrow> string" where
  "source_value MANUAL = ''manual''"
| "source_value IOT = ''iot''"
| "source_value API = ''api''"

datatype ticket_event_type = EV_CREATED | EV_STATUS_CHANGE | EV_ASSIGNED | EV_COMMENT

fun event_type_value :: "ticket_event_type \<Rightarrow> string" where
  "event_type_value EV_CREATED = ''created''"
| "event_type_value EV_STATUS_CHANGE = ''status_change''"
| "event_type_value EV_ASSIGNED = ''assigned''"
| "event_type_value EV_COMMENT = ''comment''"

datatype ticket_category =
    TEMPERATURE_DEVIATION | WEIGHT_OUT_OF_SPEC | FOREIGN_BODY | ALLERGEN_CROSS_CONTACT
  | HYGIENE | OTHER

fun category_value :: "ticket_category \<Rightarrow> string" where
  "category_value TEMPERATURE_DEVIATION = ''temperature_deviation''"
| "category_value WEIGHT_OUT_OF_SPEC = ''weight_out_of_spec''"
| "category_value FOREIGN_BODY = ''foreign_body''"
| "category_value ALLERGEN_CROSS_CONTACT = ''allergen_cross_contact''"
| "category_value HYGIENE = ''hygiene''"
| "category_value OTHER = ''other''"

fun TICKET_TRANSITIONS :: "ticket_status \<Rightarrow> ticket_status list" where
  "TICKET_TRANSITIONS NEW = [ASSIGNED, REJECTED]"
| "TICKET_TRANSITIONS ASSIGNED = [IN_PROGRESS, ESCALATED, REJECTED]"
| "TICKET_TRANSITIONS IN_PROGRESS = [AWAITING_VERIFICATION, ESCALATED, REJECTED]"
| "TICKET_TRANSITIONS AWAITING_VERIFICATION = [CLOSED, IN_PROGRESS]"
| "TICKET_TRANSITIONS ESCALATED = [IN_PROGRESS, CLOSED, REJECTED]"
| "TICKET_TRANSITIONS REJECTED = []"
| "TICKET_TRANSITIONS CLOSED = []"

definition CLOSED_STATES :: "ticket_status list" where
  "CLOSED_STATES = [CLOSED, REJECTED]"

subsection \<open>Tables\<close>

record production_line =
  line_id :: string
  line_code :: string
  line_name :: string
  line_is_active :: bool

record pipeline =
  pipe_id :: string
  pipe_line_id :: string
  pipe_version :: int
  pipe_is_active :: bool

record pipeline_stage =
  stage_id :: string
  stage_pipeline_id :: string
  order_index :: int
  stage_code :: string
  stage_name_pl :: string
  stage_name_en :: string
  required_role_code :: "string option"
  sla_minutes :: "int option"
  is_ccp_checkpoint :: bool

record ticket =
  ticket_id :: string
  ticket_number :: string
  t_line_id :: string
  t_pipeline_id :: "string option"
  current_stage_id :: "string option"
  status :: string
  t_source :: string
  t_severity :: string
  t_category :: string
  title :: string
  description :: "string option"
  description_lang :: "string option"
  is_ccp_related :: bool
  extra_data :: json
  version :: int
  created_by_user_id :: "string option"
  assigned_to_user_id :: "string option"
  closed_at :: "pydt option"
  t_created_at :: pydt

record ticket_event =
  ev_id :: string
  ev_ticket_id :: string
  event_type :: string
  from_status :: "string option"
  to_status :: "string option"
  ev_user_id :: "string option"
  ev_comment :: "string option"
  ev_occurred_at :: pydt
  ev_payload :: json

record ticket_db = auth_db +
  lines :: "production_line list"
  pipelines :: "pipeline list"
  pipeline_stages :: "pipeline_stage list"
  tickets :: "ticket list"
  ticket_events :: "ticket_event list"

text \<open>\<open>Ticket.is_open\<close>, on a valid status.\<close>

definition is_open :: "ticket \<Rightarrow> bool" where
  "is_open t \<longleftrightarrow> (case status_of (status t) of None \<Rightarrow> False | Some st \<Rightarrow> st \<notin> set CLOSED_STATES)"

subsection \<open>The service\<close>

definition ticket_prefix :: "int \<Rightarrow> string" where
  "ticket_prefix y = ''QMS-'' @ show_int y @ ''-''"

text \<open>
  \<open>generate_ticket_number\<close>: the largest number of the year in the column's string order, its
  last dash-separated part plus one, padded to five digits.
\<close>

definition generate_ticket_number :: "'a ticket_db_scheme \<Rightarrow> exc + string" where
  "generate_ticket_number s =
     (let prefix = ticket_prefix (year (date_of (clock s)));
          numbers = filter (\<lambda>n. startswith n prefix) (map ticket_number (tickets s))
      in case last_by (\<lambda>n. n) numbers of
           None \<Rightarrow> Inr (prefix @ zpad 5 1)
         | Some n \<Rightarrow>
             (case python_int (last (split_on (CHR ''-'') n)) of
                None \<Rightarrow> Inl (ValueError ''invalid literal for int()'')
              | Some k \<Rightarrow> Inr (prefix @ zpad 5 (nat (k + 1)))))"

definition active_pipeline :: "string \<Rightarrow> 'a ticket_db_scheme \<Rightarrow> pipeline option" where
  "active_pipeline lid s =
     last_by pipe_version (filter (\<lambda>p. pipe_line_id p = lid \<and> pipe_is_active p) (pipelines s))"

text \<open>\<open>pipeline.stages\<close>, ordered by order_index.\<close>

definition stages_of :: "string \<Rightarrow> 'a ticket_db_scheme \<Rightarrow> pipeline_stage list" where
  "stages_of pid s = sort_key order_index (filter (\<lambda>g. stage_pipeline_id g = pid) (pipeline_stages s))"

text \<open>INSERT of a ticket: the ticket_number column is unique.\<close>

definition insert_ticket :: "ticket \<Rightarrow> ('a ticket_db_scheme, unit) py" where
  "insert_ticket t = (\<lambda>s.
     if session_failed s then (Inl PendingRollbackError, s)
     else if ticket_number t \<in> ticket_number ` set (tickets s)
     then (Inl (IntegrityError ''tickets.ticket_number''), s\<lparr>session_failed := True\<rparr>)
     else (Inr (), s\<lparr>tickets := tickets s @ [t]\<rparr>))"

definition add_event :: "ticket_event \<Rightarrow> ('a ticket_db_scheme, unit) py" where
  "add_event e = bind take_uuid (\<lambda>i. modify (\<lambda>s. s\<lparr>ticket_events := ticket_events s @ [e\<lparr>ev_id := i\<rparr>]\<rparr>))"

definition new_event :: "string \<Rightarrow> ticket_event_type \<Rightarrow> pydt \<Rightarrow> ticket_event" where
  "new_event tid ty now =
     \<lparr>ev_id = [], ev_ticket_id = tid, event_type = event_type_value ty, from_status = None,
      to_status = None, ev_user_id = None, ev_comment = None, ev_occurred_at = now, ev_payload = JNull\<rparr>"

record ticket_args =
  a_line_id :: string
  a_title :: string
  a_description :: "string option"
  a_severity :: ticket_severity
  a_category :: ticket_category
  a_source :: ticket_source
  a_created_by :: "string option"
  a_description_lang :: "string option"
  a_metadata :: "(string \<times> json) list"

definition new_ticket :: "ticket_args \<Rightarrow> string \<Rightarrow> 'a ticket_db_scheme \<Rightarrow> string \<Rightarrow> ticket" where
  "new_ticket a number s tid =
     (let pipe = active_pipeline (a_line_id a) s;
          first_stage = (case pipe of
             None \<Rightarrow> None
           | Some p \<Rightarrow> (case stages_of (pipe_id p) s of [] \<Rightarrow> None | g # _ \<Rightarrow> Some g))
      in \<lparr>ticket_id = tid,
          ticket_number = number,
          t_line_id = a_line_id a,
          t_pipeline_id = map_option pipe_id pipe,
          current_stage_id = map_option stage_id first_stage,
          status = status_value NEW,
          t_source = source_value (a_source a),
          t_severity = severity_value (a_severity a),
          t_category = category_value (a_category a),
          title = take 200 (strip (a_title a)),
          description = or_none (strip (or_empty (a_description a))),
          description_lang = a_description_lang a,
          is_ccp_related = False,
          extra_data = JObj (a_metadata a),
          version = 1,
          created_by_user_id = a_created_by a,
          assigned_to_user_id = None,
          closed_at = None,
          t_created_at = utcnow s\<rparr>)"

definition created_event :: "ticket_args \<Rightarrow> ticket \<Rightarrow> pydt \<Rightarrow> ticket_event" where
  "created_event a t now =
     (new_event (ticket_id t) EV_CREATED now)
       \<lparr>to_status := Some (status t), ev_user_id := a_created_by a,
        ev_payload := JObj [(''source'', JStr (source_value (a_source a))),
                            (''severity'', JStr (severity_value (a_severity a)))]\<rparr>"

definition create_ticket :: "ticket_args \<Rightarrow> ('a ticket_db_scheme, ticket) py" where
  "create_ticket a = with_state (\<lambda>s.
     case by_key line_id (a_line_id a) (lines s) of
       None \<Rightarrow> throw (TicketError (''Production line '' @ a_line_id a @ '' not found''))
     | Some line \<Rightarrow>
         if \<not> line_is_active line
         then throw (TicketError (''Production line '' @ line_code line @ '' is inactive''))
         else
           case generate_ticket_number s of
             Inl e \<Rightarrow> throw e
           | Inr number \<Rightarrow>
               bind take_uuid (\<lambda>tid.
                 let t = new_ticket a number s tid
                 in seq (insert_ticket t)
                   (seq (add_event (created_event a t (utcnow s)))
                   (bind (record_entry ''ticket'' CREATE (Some tid)
                           [(''ticket_number'', JStr (ticket_number t)),
                            (''title'', JStr (title t)),
                            (''severity'', JStr (t_severity t)),
                            (''source'', JStr (t_source t))]
                           (a_created_by a))
                   (\<lambda>_. ret t)))))"

definition update_ticket :: "string \<Rightarrow> (ticket \<Rightarrow> ticket) \<Rightarrow> 'a ticket_db_scheme \<Rightarrow> 'a ticket_db_scheme" where
  "update_ticket tid f s = s\<lparr>tickets := update_row ticket_id tid f (tickets s)\<rparr>"

text \<open>The row changes of a transition.\<close>

definition apply_transition :: "ticket_status \<Rightarrow> string option \<Rightarrow> pydt \<Rightarrow> ticket \<Rightarrow> ticket" where
  "apply_transition new_status uid now t =
     t\<lparr>assigned_to_user_id :=
         (if new_status = ASSIGNED \<and> \<not> truthy (assigned_to_user_id t) then uid
          else assigned_to_user_id t),
       closed_at := (if new_status \<in> set CLOSED_STATES then Some now else closed_at t),
       status := status_value new_status,
       version := version t + 1\<rparr>"

definition transition ::
  "string \<Rightarrow> ticket_status \<Rightarrow> string option \<Rightarrow> string option \<Rightarrow> ('a ticket_db_scheme, ticket) py" where
  "transition tid new_status uid comment = with_state (\<lambda>s.
     case by_key ticket_id tid (tickets s) of
       None \<Rightarrow> throw (RuntimeError ''instance is not present in the session'')
     | Some t \<Rightarrow>
         case status_of (status t) of
           None \<Rightarrow> throw (ValueError (status t @ '' is not a valid TicketStatus''))
         | Some current \<Rightarrow>
             if new_status \<notin> set (TICKET_TRANSITIONS current)
             then throw (TicketError (''Invalid transition: '' @ status_value current @ '' -> '' @
                     status_value new_status))
             else
               seq (modify (update_ticket tid (apply_transition new_status uid (utcnow s))))
                (seq (add_event ((new_event tid EV_STATUS_CHANGE (utcnow s))
                        \<lparr>from_status := Some (status_value current),
                         to_status := Some (status_value new_status),
                         ev_user_id := uid, ev_comment := comment\<rparr>))
                (bind (record_entry ''ticket'' STATUS_CHANGE (Some tid)
                        [(''from'', JStr (status_value current)), (''to'', JStr (status_value new_status)),
                         (''comment'', jstr_opt comment)] uid)
                (\<lambda>_. ret (apply_transition new_status uid (utcnow s) t)))))"

definition assign_to :: "string \<Rightarrow> string \<Rightarrow> string option \<Rightarrow> ('a ticket_db_scheme, ticket) py" where
  "assign_to tid uid by_uid = with_state (\<lambda>s.
     case by_key ticket_id tid (tickets s) of
       None \<Rightarrow> throw (RuntimeError ''instance is not present in the session'')
     | Some t \<Rightarrow>
         seq (modify (update_ticket tid (\<lambda>t. t\<lparr>assigned_to_user_id := Some uid\<rparr>)))
          (if status t = status_value NEW
           then transition tid ASSIGNED (Some (if truthy by_uid then or_empty by_uid else uid)) None
           else
             seq (add_event ((new_event tid EV_ASSIGNED (utcnow s))
                     \<lparr>ev_user_id := by_uid,
                      ev_payload := JObj [(''from'', jstr_opt (assigned_to_user_id t)), (''to'', JStr uid)]\<rparr>))
             (bind (record_entry ''ticket'' ASSIGNED_ACTION (Some tid)
                     [(''from'', jstr_opt (assigned_to_user_id t)), (''to'', JStr uid)] by_uid)
             (\<lambda>_. ret (t\<lparr>assigned_to_user_id := Some uid\<rparr>)))))"

definition add_comment :: "string \<Rightarrow> string \<Rightarrow> string \<Rightarrow> ('a ticket_db_scheme, unit) py" where
  "add_comment tid uid comment = with_state (\<lambda>s.
     seq (add_event ((new_event tid EV_COMMENT (utcnow s))
             \<lparr>ev_user_id := Some uid, ev_comment := Some (take 5000 (strip comment))\<rparr>))
     (bind (record_entry ''ticket'' COMMENT (Some tid)
             [(''length'', JInt (int (length comment)))] (Some uid))
     (\<lambda>_. ret ())))"

definition not_closed_value :: "ticket \<Rightarrow> bool" where
  "not_closed_value t \<longleftrightarrow> status t \<notin> status_value ` set CLOSED_STATES"

text \<open>A filter argument that is None or empty is not applied.\<close>

definition opt_filter :: "string option \<Rightarrow> ('r \<Rightarrow> string) \<Rightarrow> 'r \<Rightarrow> bool" where
  "opt_filter arg col r \<longleftrightarrow> (truthy arg \<longrightarrow> Some (col r) = arg)"

definition list_tickets ::
  "string option \<Rightarrow> string option \<Rightarrow> string option \<Rightarrow> bool \<Rightarrow> nat \<Rightarrow> 'a ticket_db_scheme \<Rightarrow> ticket list" where
  "list_tickets st lid sev open_only limit s =
     take limit (rev (sort_key (\<lambda>t. instant (t_created_at t))
       (filter (\<lambda>t. opt_filter st status t \<and> opt_filter lid t_line_id t \<and>
                    opt_filter sev t_severity t \<and> (open_only \<longrightarrow> not_closed_value t)) (tickets s))))"

record ticket_stats =
  open_tickets :: nat
  high_severity :: nat
  closed_today :: nat
  production_lines :: nat

definition count_where :: "('r \<Rightarrow> bool) \<Rightarrow> 'r list \<Rightarrow> nat" where
  "count_where P rows = length (filter P rows)"

definition stats_overview :: "'a ticket_db_scheme \<Rightarrow> ticket_stats" where
  "stats_overview s =
     \<lparr>open_tickets = count_where not_closed_value (tickets s),
      high_severity = count_where (\<lambda>t. t_severity t \<in> {severity_value HIGH, severity_value CRITICAL} \<and>
                                       not_closed_value t) (tickets s),
      closed_today = count_where (\<lambda>t. status t = status_value CLOSED \<and>
          (case closed_at t of None \<Rightarrow> False
           | Some d \<Rightarrow> date_of (instant d) = date_of (clock s))) (tickets s),
      production_lines = count_where line_is_active (lines s)\<rparr>"

end
