(* ===== verification/TicketLife.thy ===== *)
theory TicketLife
  imports Tickets "HOL-Library.Multiset"
begin

text \<open>
  The ticket life cycle: what each operation of app/services/tickets.py does on every branch,
  the invariant of the ticket and ticket_event tables, the steps the service can take and what
  holds in every state they reach.
\<close>

subsection \<open>The audit contract of the ticket operations\<close>

lemma keeps_insert_ticket [audited]: "keeps log_step (insert_ticket t)"
  by (rule keepsI) (auto simp: insert_ticket_def log_step_def log_wf_def)

lemma keeps_add_event [audited]: "keeps log_step (add_event e)"
  unfolding add_event_def by (intro audited) simp_all

lemma keeps_update_ticket [audited]: "keeps log_step (modify (update_ticket tid f))"
  by (intro audited) (simp_all add: update_ticket_def)

lemma keeps_transition [audited]: "keeps log_step (transition tid new uid c)"
  unfolding transition_def by (intro audited)

lemma keeps_assign_to [audited]: "keeps log_step (assign_to tid uid by_uid)"
  unfolding assign_to_def by (intro audited)

lemma keeps_add_comment [audited]: "keeps log_step (add_comment tid uid c)"
  unfolding add_comment_def by (intro audited)

lemma keeps_create_ticket [audited]: "keeps log_step (create_ticket a)"
  unfolding create_ticket_def by (intro audited)

interpretation ticket_creation: audited_operation "create_ticket a" for a
  by unfold_locales (rule keeps_create_ticket)

interpretation ticket_transition: audited_operation "transition tid new uid c" for tid new uid c
  by unfold_locales (rule keeps_transition)

interpretation ticket_assignment: audited_operation "assign_to tid uid by_uid" for tid uid by_uid
  by unfold_locales (rule keeps_assign_to)

interpretation ticket_comment: audited_operation "add_comment tid uid c" for tid uid c
  by unfold_locales (rule keeps_add_comment)

subsection \<open>What each operation does\<close>

lemma add_event_apply [simp]:
  "add_event e s = (Inr (), s\<lparr>uuid_next := Suc (uuid_next s),
                             ticket_events := ticket_events s @ [e\<lparr>ev_id := gen_uuid s\<rparr>]\<rparr>)"
  by (simp add: add_event_def take_uuid_def bind_def)

lemma record_entry_frame [simp]:
  "tickets (snd (record_entry t ac e d u s)) = tickets s"
  "ticket_events (snd (record_entry t ac e d u s)) = ticket_events s"
  "lines (snd (record_entry t ac e d u s)) = lines s"
  "uuid_at (snd (record_entry t ac e d u s)) = uuid_at s"
  "uuid_next (snd (record_entry t ac e d u s)) = uuid_next s"
  by (simp_all add: record_entry_def Let_def)

lemma writable_frame [simp]:
  "writable (s\<lparr>uuid_next := n\<rparr>) = writable s"
  "writable (t\<lparr>ticket_events := evs\<rparr>) = writable t"
  "writable (t\<lparr>tickets := ts\<rparr>) = writable t"
  by (simp_all add: writable_def audit_update_allowed_def update_ticket_def)

lemma status_of_value [simp]: "status_of (status_value st) = Some st"
  by (cases st) (simp_all add: status_of_def all_statuses_def)

lemma status_of_Some: "status_of x = Some st \<longleftrightarrow> x = status_value st"
  unfolding status_of_def all_statuses_def
  by (cases st) (auto split: if_splits)

lemma status_value_inj [simp]: "status_value a = status_value b \<longleftrightarrow> a = b"
  by (metis option.inject status_of_value)

lemma apply_transition_simps [simp]:
  "ticket_id (apply_transition new uid now t) = ticket_id t"
  "ticket_number (apply_transition new uid now t) = ticket_number t"
  "status (apply_transition new uid now t) = status_value new"
  "version (apply_transition new uid now t) = version t + 1"
  "closed_at (apply_transition new uid now t) =
     (if new \<in> set CLOSED_STATES then Some now else closed_at t)"
  by (simp_all add: apply_transition_def)


subsection \<open>Successful calls\<close>

lemma record_entry_Inr:
  "record_entry ty ac e d u s = (Inr r, t) \<Longrightarrow>
     tickets t = tickets s \<and> ticket_events t = ticket_events s \<and> lines t = lines s \<and>
     uuid_at t = uuid_at s \<and> uuid_next t = uuid_next s"
  using record_entry_frame [of ty ac e d u s] by simp

lemma new_ticket_simps [simp]:
  "ticket_id (new_ticket a number s tid) = tid"
  "ticket_number (new_ticket a number s tid) = number"
  "status (new_ticket a number s tid) = ''new''"
  "version (new_ticket a number s tid) = 1"
  "closed_at (new_ticket a number s tid) = None"
  by (simp_all add: new_ticket_def Let_def)

lemma created_event_simps [simp]:
  "ev_ticket_id (created_event a t now) = ticket_id t"
  "event_type (created_event a t now) = ''created''"
  "to_status (created_event a t now) = Some (status t)"
  by (simp_all add: created_event_def new_event_def)

lemma create_ticket_Inr:
  assumes "create_ticket a s = (Inr t, s')"
  obtains number where "generate_ticket_number s = Inr number"
    "number \<notin> ticket_number ` set (tickets s)"
    "t = new_ticket a number s (gen_uuid s)" "tickets s' = tickets s @ [t]"
    "ticket_events s' = ticket_events s @ [(created_event a t (utcnow s))\<lparr>ev_id := uuid_at s (Suc (uuid_next s))\<rparr>]"
    "uuid_at s' = uuid_at s" "uuid_next s' = Suc (Suc (uuid_next s))"
proof -
  from assms obtain number where n: "generate_ticket_number s = Inr number"
    by (auto simp: create_ticket_def split: option.splits if_splits sum.splits)
  with assms show thesis
    by (intro that [of number])
       (auto simp: create_ticket_def Let_def run_iff take_uuid_def insert_ticket_def gen_uuid_def
         split: option.splits if_splits dest!: record_entry_Inr)
qed

lemma transition_Inr:
  assumes "transition tid new uid c s = (Inr t', s')"
  obtains t cur ev where "by_key ticket_id tid (tickets s) = Some t" "status t = status_value cur"
    "new \<in> set (TICKET_TRANSITIONS cur)"
    "tickets s' = update_row ticket_id tid (apply_transition new uid (utcnow s)) (tickets s)"
    "ticket_events s' = ticket_events s @ [ev]" "ev_ticket_id ev = tid"
    "event_type ev = ''status_change''" "from_status ev = Some (status_value cur)"
    "to_status ev = Some (status_value new)"
    "uuid_at s' = uuid_at s" "uuid_next s' = Suc (uuid_next s)"
proof -
  from assms obtain t cur where "by_key ticket_id tid (tickets s) = Some t"
    "status_of (status t) = Some cur" "new \<in> set (TICKET_TRANSITIONS cur)"
    by (auto simp: transition_def split: option.splits if_splits)
  with assms show thesis
    by (intro that [of t cur "\<lparr>ev_id = gen_uuid s, ev_ticket_id = tid, event_type = ''status_change'',
              from_status = Some (status t), to_status = Some (status_value new),
              ev_user_id = uid, ev_comment = c, ev_occurred_at = utcnow s, ev_payload = JNull\<rparr>"])
       (auto simp: transition_def run_iff update_ticket_def new_event_def gen_uuid_def status_of_Some
         dest!: record_entry_Inr)
qed

lemma assign_to_Inr:
  assumes "assign_to tid uid by_uid s = (Inr t', s')"
  obtains t f ev where "by_key ticket_id tid (tickets s) = Some t"
    "tickets s' = update_row ticket_id tid f (tickets s)"
    "ticket_events s' = ticket_events s @ [ev]" "ev_ticket_id ev = tid"
    "uuid_at s' = uuid_at s" "uuid_next s' = Suc (uuid_next s)"
    "\<And>r. ticket_id (f r) = ticket_id r" "\<And>r. ticket_number (f r) = ticket_number r"
    "closed_at (f t) = closed_at t"
    "status t = ''new'' \<Longrightarrow> event_type ev = ''status_change'' \<and> from_status ev = Some ''new'' \<and>
       to_status ev = Some ''assigned'' \<and> status (f t) = ''assigned'' \<and> version (f t) = version t + 1"
    "status t \<noteq> ''new'' \<Longrightarrow> event_type ev = ''assigned'' \<and> status (f t) = status t \<and> version (f t) = version t"
proof -
  from assms obtain t where t: "by_key ticket_id tid (tickets s) = Some t"
    by (auto simp: assign_to_def split: option.splits)
  let ?g = "\<lambda>t. t\<lparr>assigned_to_user_id := Some uid\<rparr>"
  show thesis
  proof (cases "status t = ''new''")
    case True
    let ?v = "Some (if truthy by_uid then or_empty by_uid else uid)"
    from assms t True have tr: "transition tid ASSIGNED ?v None (update_ticket tid ?g s) = (Inr t', s')"
      by (simp add: assign_to_def)
    have g: "by_key ticket_id tid (tickets (update_ticket tid ?g s)) = Some (?g t)"
      by (simp add: update_ticket_def by_key_update_same t)
    from tr obtain t0 cur ev where T: "by_key ticket_id tid (tickets (update_ticket tid ?g s)) = Some t0"
      "status t0 = status_value cur"
      "tickets s' = update_row ticket_id tid (apply_transition ASSIGNED ?v (utcnow s)) (tickets (update_ticket tid ?g s))"
      "ticket_events s' = ticket_events s @ [ev]" "ev_ticket_id ev = tid"
      "event_type ev = ''status_change''" "from_status ev = Some (status_value cur)"
      "to_status ev = Some ''assigned''" "uuid_at s' = uuid_at s" "uuid_next s' = Suc (uuid_next s)"
      by (rule transition_Inr) (simp add: update_ticket_def utcnow_def)
    show thesis
      using T g t True
      by (intro that [of t "apply_transition ASSIGNED ?v (utcnow s) \<circ> ?g" ev])
         (auto simp: update_ticket_def update_row_def CLOSED_STATES_def)
  next
    case False
    with assms t show thesis
      by (intro that [of t ?g "\<lparr>ev_id = gen_uuid s, ev_ticket_id = tid, event_type = ''assigned'',
              from_status = None, to_status = None, ev_user_id = by_uid, ev_comment = None,
              ev_occurred_at = utcnow s,
              ev_payload = JObj [(''from'', jstr_opt (assigned_to_user_id t)), (''to'', JStr uid)]\<rparr>"])
         (auto simp: assign_to_def run_iff update_ticket_def new_event_def gen_uuid_def
           dest!: record_entry_Inr)
  qed
qed

lemma add_comment_Inr:
  assumes "add_comment tid uid c s = (Inr x, s')"
  obtains ev where "tickets s' = tickets s" "ticket_events s' = ticket_events s @ [ev]"
    "ev_ticket_id ev = tid" "event_type ev = ''comment''"
    "uuid_at s' = uuid_at s" "uuid_next s' = Suc (uuid_next s)"
  using assms
  by (intro that [of "\<lparr>ev_id = gen_uuid s, ev_ticket_id = tid, event_type = ''comment'',
              from_status = None, to_status = None, ev_user_id = Some uid,
              ev_comment = Some (take 5000 (strip c)), ev_occurred_at = utcnow s, ev_payload = JNull\<rparr>"])
     (auto simp: add_comment_def run_iff new_event_def gen_uuid_def dest!: record_entry_Inr)

subsection \<open>The invariant of the two tables\<close>

text \<open>
  Replaying the events of a ticket after its creation: every status_change event must start
  where the one before ended and follow the transition table, and counts one version.
\<close>

fun replay :: "ticket_status \<times> int \<Rightarrow> ticket_event list \<Rightarrow> (ticket_status \<times> int) option" where
  "replay cv [] = Some cv"
| "replay (cur, v) (e # es) =
     (if event_type e = event_type_value EV_STATUS_CHANGE
      then (case status_of (or_empty (to_status e)) of
              None \<Rightarrow> None
            | Some new \<Rightarrow>
                if from_status e = Some (status_value cur) \<and> new \<in> set (TICKET_TRANSITIONS cur)
                then replay (new, v + 1) es else None)
      else if event_type e = event_type_value EV_CREATED then None
      else replay (cur, v) es)"

definition history :: "string \<Rightarrow> 'a ticket_db_scheme \<Rightarrow> ticket_event list" where
  "history tid s = filter (\<lambda>e. ev_ticket_id e = tid) (ticket_events s)"

text \<open>
  The row is what its history says: a creation event into the status new, then a replayable
  path to the row's status, with the row's version; closed_at is set exactly in the closed
  states.
\<close>

definition ticket_ok :: "ticket_event list \<Rightarrow> ticket \<Rightarrow> bool" where
  "ticket_ok evs t \<longleftrightarrow>
     (case evs of [] \<Rightarrow> False
      | e # es \<Rightarrow> event_type e = event_type_value EV_CREATED \<and> to_status e = Some (status_value NEW) \<and>
          (case replay (NEW, 1) es of None \<Rightarrow> False
           | Some (cur, v) \<Rightarrow> status t = status_value cur \<and> version t = v \<and>
               (closed_at t \<noteq> None \<longleftrightarrow> cur \<in> set CLOSED_STATES)))"

definition tickets_wf :: "'a ticket_db_scheme \<Rightarrow> bool" where
  "tickets_wf s \<longleftrightarrow> inj (uuid_at s) \<and>
     distinct (map ticket_id (tickets s)) \<and> distinct (map ticket_number (tickets s)) \<and>
     ticket_id ` set (tickets s) \<subseteq> uuid_at s ` {..<uuid_next s} \<and>
     ev_ticket_id ` set (ticket_events s) \<subseteq> ticket_id ` set (tickets s) \<and>
     (\<forall>t\<in>set (tickets s). ticket_ok (history (ticket_id t) s) t)"

lemma replay_append:
  "replay cv (xs @ ys) = (case replay cv xs of None \<Rightarrow> None | Some cv' \<Rightarrow> replay cv' ys)"
  by (induction cv xs rule: replay.induct) (auto split: option.splits)

lemma ticket_ok_snoc:
  assumes "ticket_ok evs t" "\<And>cur. status t = status_value cur \<Longrightarrow>
      (closed_at t \<noteq> None \<longleftrightarrow> cur \<in> set CLOSED_STATES) \<Longrightarrow>
      \<exists>new. replay (cur, version t) evs' = Some (new, version t') \<and> status t' = status_value new \<and>
        (closed_at t' \<noteq> None \<longleftrightarrow> new \<in> set CLOSED_STATES)"
  shows "ticket_ok (evs @ evs') t'"
  using assms by (fastforce simp: ticket_ok_def replay_append split: list.splits option.splits)

lemma tickets_wf_update:
  assumes wf: "tickets_wf s" and t: "by_key ticket_id tid (tickets s) = Some t"
    and s': "tickets s' = update_row ticket_id tid f (tickets s)"
      "ticket_events s' = ticket_events s @ evs" "\<And>e. e \<in> set evs \<Longrightarrow> ev_ticket_id e = tid"
      "uuid_at s' = uuid_at s" "uuid_next s \<le> uuid_next s'"
    and f: "\<And>r. ticket_id (f r) = ticket_id r" "\<And>r. ticket_number (f r) = ticket_number r"
    and step: "\<And>cur. status t = status_value cur \<Longrightarrow>
      (closed_at t \<noteq> None \<longleftrightarrow> cur \<in> set CLOSED_STATES) \<Longrightarrow>
      \<exists>new. replay (cur, version t) evs = Some (new, version (f t)) \<and> status (f t) = status_value new \<and>
        (closed_at (f t) \<noteq> None \<longleftrightarrow> new \<in> set CLOSED_STATES)"
  shows "tickets_wf s'"
proof -
  have tin: "t \<in> set (tickets s)" "ticket_id t = tid" using by_key_Some [OF t] by auto
  have only: "r = t" if "r \<in> set (tickets s)" "ticket_id r = tid" for r
    using wf that by_key_unique [of ticket_id "tickets s" r] t by (simp add: tickets_wf_def)
  have mid: "map ticket_id (tickets s') = map ticket_id (tickets s)"
    and num: "map ticket_number (tickets s') = map ticket_number (tickets s)"
    unfolding s' by (rule map_update_row; rule f)+
  then have ids: "ticket_id ` set (tickets s') = ticket_id ` set (tickets s)" by (metis set_map)
  have hist: "history i s' = history i s @ (if i = tid then evs else [])" for i
    using s'(3) by (auto simp: history_def s'(2) filter_empty_conv filter_id_conv)
  have "ticket_ok (history (ticket_id r') s') r'" if "r' \<in> set (tickets s')" for r'
  proof -
    from that obtain r where r: "r \<in> set (tickets s)" "r' = (if ticket_id r = tid then f r else r)"
      by (auto simp: s'(1) update_row_def)
    have ok: "ticket_ok (history (ticket_id r) s) r" using wf r by (simp add: tickets_wf_def)
    show ?thesis
    proof (cases "ticket_id r = tid")
      case True
      with only r have "r = t" by blast
      with ok True r show ?thesis
        using ticket_ok_snoc [OF _ step, of "history tid s"] by (simp add: hist f)
    next
      case False
      with ok r show ?thesis by (simp add: hist)
    qed
  qed
  moreover have "ticket_id ` set (tickets s') \<subseteq> uuid_at s ` {..<uuid_next s'}"
    using wf s'(5) unfolding ids tickets_wf_def by (meson image_mono lessThan_subset_iff subset_trans)
  moreover have "ev_ticket_id ` set (ticket_events s') \<subseteq> ticket_id ` set (tickets s')"
    using wf s'(3) tin unfolding ids tickets_wf_def by (auto simp: s'(2))
  ultimately show ?thesis
    using wf s'(4) mid num by (simp add: tickets_wf_def)
qed

subsection \<open>The steps of the service\<close>

text \<open>
  One committed or rolled-back request at a time; clearing the assignee is the unassign path of
  the assign view, a comment is on a ticket the view has loaded.
\<close>

inductive ticket_step :: "ticket_db \<Rightarrow> ticket_db \<Rightarrow> bool" where
  create: "ticket_step s (snd (in_request (create_ticket a) s))"
| transition: "ticket_step s (snd (in_request (transition tid new uid c) s))"
| assign: "ticket_step s (snd (in_request (assign_to tid uid by_uid) s))"
| unassign: "ticket_step s (update_ticket tid (\<lambda>t. t\<lparr>assigned_to_user_id := None\<rparr>) s)"
| comment: "by_key ticket_id tid (tickets s) \<noteq> None \<Longrightarrow>
    ticket_step s (snd (in_request (add_comment tid uid c) s))"
| tick: "clock s \<le> c \<Longrightarrow> ticket_step s (s\<lparr>clock := c\<rparr>)"

lemma in_request_snd:
  "snd (in_request m s) = (case m s of (Inr x, s') \<Rightarrow> commit s' | (Inl e, s') \<Rightarrow> rollback s s')"
  by (simp add: in_request_def split: prod.splits sum.splits)

lemma tickets_wf_commit [simp]: "tickets_wf (commit s) = tickets_wf s"
  by (simp add: tickets_wf_def commit_def history_def)

lemma uuid_mono_take [intro]: "uuid_next s \<le> uuid_next (snd (m s)) \<Longrightarrow> uuid_next s \<le> uuid_next (rollback s (snd (m s)))"
  by (simp add: rollback_def)

lemma keeps_draws_simple [drawing]: "keeps draws (add_event e)" "keeps draws (insert_ticket t)"
  "keeps draws (modify (update_ticket tid f))"
  by (rule keepsI; simp add: draws_def insert_ticket_def update_ticket_def)+

lemma keeps_draws_ops [drawing]:
  "keeps draws (transition tid new uid c)" "keeps draws (create_ticket a)"
  "keeps draws (add_comment tid who txt)"
  unfolding transition_def create_ticket_def add_comment_def by (intro drawing)+

lemma keeps_draws_assign [drawing]: "keeps draws (assign_to tid uid by_uid)"
  unfolding assign_to_def by (intro drawing)

lemma tickets_wf_draws:
  assumes "tickets_wf s" "uuid_next s \<le> n"
  shows "tickets_wf (s\<lparr>uuid_next := n, session_failed := b, queue := q, redis := rd, audit_redact_ok := r\<rparr>)"
proof -
  have "uuid_at s ` {..<uuid_next s} \<subseteq> uuid_at s ` {..<n}" using assms(2) by (intro image_mono) auto
  with assms(1) have "ticket_id ` set (tickets s) \<subseteq> uuid_at s ` {..<n}"
    unfolding tickets_wf_def by (elim conjE) (rule subset_trans)
  with assms(1) show ?thesis by (simp add: tickets_wf_def history_def)
qed

lemma tickets_wf_request:
  assumes "tickets_wf s" "keeps draws m" "\<And>x s'. m s = (Inr x, s') \<Longrightarrow> tickets_wf s'"
  shows "tickets_wf (snd (in_request m s))"
proof (cases "m s")
  case (Pair r s')
  show ?thesis
  proof (cases r)
    case (Inl e)
    have "uuid_next s \<le> uuid_next s'"
      using keepsD [OF assms(2), of s] Pair by (simp add: draws_def)
    with Pair Inl assms(1) show ?thesis
      by (simp add: in_request_snd rollback_def tickets_wf_draws)
  next
    case (Inr x)
    with Pair assms(3) show ?thesis by (simp add: in_request_snd)
  qed
qed

lemma create_keeps_wf:
  assumes wf: "tickets_wf s" and run: "create_ticket a s = (Inr t, s')"
  shows "tickets_wf s'"
proof -
  obtain number where c: "number \<notin> ticket_number ` set (tickets s)"
    "t = new_ticket a number s (gen_uuid s)" "tickets s' = tickets s @ [t]"
    "ticket_events s' = ticket_events s @ [(created_event a t (utcnow s))\<lparr>ev_id := uuid_at s (Suc (uuid_next s))\<rparr>]"
    "uuid_at s' = uuid_at s" "uuid_next s' = Suc (Suc (uuid_next s))"
    using run by (rule create_ticket_Inr)
  have id: "ticket_id t = uuid_at s (uuid_next s)" by (simp add: c(2) gen_uuid_def)
  have fresh: "ticket_id t \<notin> uuid_at s ` {..<uuid_next s}"
    using wf by (auto simp: id tickets_wf_def inj_eq)
  then have new: "ticket_id t \<notin> ticket_id ` set (tickets s)"
    using wf by (auto simp: tickets_wf_def)
  moreover have "ev_ticket_id ` set (ticket_events s) \<subseteq> ticket_id ` set (tickets s)"
    using wf by (simp add: tickets_wf_def)
  ultimately have none: "history (ticket_id t) s = []"
    unfolding history_def filter_empty_conv by (metis image_eqI subsetD)
  have hist: "history i s' = history i s @ (if i = ticket_id t then
      [(created_event a t (utcnow s))\<lparr>ev_id := uuid_at s (Suc (uuid_next s))\<rparr>] else [])" for i
    by (auto simp: history_def c(4))
  have ok: "ticket_ok (history (ticket_id r) s') r" if "r \<in> set (tickets s)" for r
  proof -
    have "ticket_id r \<noteq> ticket_id t" using new that by (metis image_eqI)
    then show ?thesis using wf that by (simp add: hist tickets_wf_def)
  qed
  have st: "event_type (created_event a t (utcnow s)) = ''created''"
    "to_status (created_event a t (utcnow s)) = Some ''new''" "status t = ''new''" "version t = 1"
    "closed_at t = None" "ticket_number t = number"
    by (simp_all add: c(2))
  have okt: "ticket_ok (history (ticket_id t) s') t"
    by (simp add: hist none ticket_ok_def st CLOSED_STATES_def)
  have "ticket_id ` set (tickets s') \<subseteq> uuid_at s' ` {..<uuid_next s'}"
    using wf unfolding tickets_wf_def by (auto simp: c(3,5,6) id lessThan_Suc)
  moreover have "ev_ticket_id ` set (ticket_events s') \<subseteq> ticket_id ` set (tickets s')"
    using wf unfolding tickets_wf_def by (auto simp: c(3,4))
  moreover have "\<forall>r\<in>set (tickets s'). ticket_ok (history (ticket_id r) s') r"
    using ok okt by (simp add: c(3))
  ultimately show ?thesis
    using wf new c(1) by (simp add: tickets_wf_def c(3,5) st)
qed

lemma transition_keeps_wf:
  assumes wf: "tickets_wf s" and run: "transition tid new uid c s = (Inr t', s')"
  shows "tickets_wf s'"
proof -
  obtain t cur ev where T: "by_key ticket_id tid (tickets s) = Some t" "status t = status_value cur"
    "new \<in> set (TICKET_TRANSITIONS cur)"
    "tickets s' = update_row ticket_id tid (apply_transition new uid (utcnow s)) (tickets s)"
    "ticket_events s' = ticket_events s @ [ev]" "ev_ticket_id ev = tid"
    "event_type ev = ''status_change''" "from_status ev = Some (status_value cur)"
    "to_status ev = Some (status_value new)"
    "uuid_at s' = uuid_at s" "uuid_next s' = Suc (uuid_next s)"
    using run by (rule transition_Inr)
  have "cur \<notin> set CLOSED_STATES"
    using T(3) by (cases cur) (simp_all add: CLOSED_STATES_def)
  with T show ?thesis
    by (intro tickets_wf_update [OF wf T(1,4,5)]) (auto simp: or_empty_def)
qed

lemma assign_keeps_wf:
  assumes wf: "tickets_wf s" and run: "assign_to tid uid by_uid s = (Inr t', s')"
  shows "tickets_wf s'"
proof -
  obtain t f ev where T: "by_key ticket_id tid (tickets s) = Some t"
    "tickets s' = update_row ticket_id tid f (tickets s)"
    "ticket_events s' = ticket_events s @ [ev]" "ev_ticket_id ev = tid"
    "uuid_at s' = uuid_at s" "uuid_next s' = Suc (uuid_next s)"
    "\<And>r. ticket_id (f r) = ticket_id r" "\<And>r. ticket_number (f r) = ticket_number r"
    "closed_at (f t) = closed_at t"
    "status t = ''new'' \<Longrightarrow> event_type ev = ''status_change'' \<and> from_status ev = Some ''new'' \<and>
       to_status ev = Some ''assigned'' \<and> status (f t) = ''assigned'' \<and> version (f t) = version t + 1"
    "status t \<noteq> ''new'' \<Longrightarrow> event_type ev = ''assigned'' \<and> status (f t) = status t \<and> version (f t) = version t"
    using run by (rule assign_to_Inr) blast
  have "\<exists>new. replay (cur, version t) [ev] = Some (new, version (f t)) \<and> status (f t) = status_value new \<and>
      (closed_at (f t) \<noteq> None \<longleftrightarrow> new \<in> set CLOSED_STATES)"
    if cur: "status t = status_value cur" and cl: "closed_at t \<noteq> None \<longleftrightarrow> cur \<in> set CLOSED_STATES" for cur
  proof (cases "cur = NEW")
    case True
    have "status_of ''assigned'' = Some ASSIGNED" using status_of_value [of ASSIGNED] by simp
    with True cur cl T(9-11) show ?thesis
      by (intro exI [of _ ASSIGNED]) (auto simp: or_empty_def CLOSED_STATES_def)
  next
    case False
    then have "status t \<noteq> ''new''" using cur status_value_inj [of cur NEW] by simp
    with cur cl T(9,11) show ?thesis by (intro exI [of _ cur]) auto
  qed
  with T show ?thesis
    by (intro tickets_wf_update [OF wf T(1-3)]) auto
qed

lemma comment_keeps_wf:
  assumes wf: "tickets_wf s" and t: "by_key ticket_id tid (tickets s) = Some t"
    and run: "add_comment tid uid c s = (Inr x, s')"
  shows "tickets_wf s'"
proof -
  obtain ev where C: "tickets s' = tickets s" "ticket_events s' = ticket_events s @ [ev]"
    "ev_ticket_id ev = tid" "event_type ev = ''comment''"
    "uuid_at s' = uuid_at s" "uuid_next s' = Suc (uuid_next s)"
    using run by (rule add_comment_Inr)
  have same: "tickets s' = update_row ticket_id tid (\<lambda>t. t) (tickets s)"
    by (simp add: C(1) update_row_def)
  show ?thesis
    using C by (intro tickets_wf_update [OF wf t same C(2)]) auto
qed

lemma unassign_keeps_wf:
  assumes wf: "tickets_wf s"
  shows "tickets_wf (update_ticket tid (\<lambda>t. t\<lparr>assigned_to_user_id := None\<rparr>) s)"
proof (cases "by_key ticket_id tid (tickets s)")
  case None
  then have "update_row ticket_id tid (\<lambda>t. t\<lparr>assigned_to_user_id := None\<rparr>) (tickets s) = tickets s"
    unfolding by_key_None update_row_def by (intro map_idI) (auto simp: image_iff)
  with wf show ?thesis by (simp add: update_ticket_def)
next
  case (Some t)
  show ?thesis
    by (rule tickets_wf_update [OF wf Some, where f = "\<lambda>t. t\<lparr>assigned_to_user_id := None\<rparr>" and evs = "[]"])
       (auto simp: update_ticket_def)
qed

lemma ticket_step_wf:
  assumes "ticket_step s s'" "tickets_wf s"
  shows "tickets_wf s'"
  using assms
proof cases
  case create
  with assms(2) show ?thesis by (auto intro: tickets_wf_request drawing create_keeps_wf)
next
  case transition
  with assms(2) show ?thesis by (auto intro: tickets_wf_request drawing transition_keeps_wf)
next
  case assign
  with assms(2) show ?thesis by (auto intro: tickets_wf_request drawing assign_keeps_wf)
next
  case unassign
  with assms(2) show ?thesis by (simp add: unassign_keeps_wf)
next
  case comment
  with assms(2) show ?thesis by (auto intro: tickets_wf_request drawing comment_keeps_wf)
next
  case tick
  with assms(2) show ?thesis by (simp add: tickets_wf_def history_def)
qed

lemma reachable_wf:
  assumes "ticket_step\<^sup>*\<^sup>* s s'" "tickets_wf s"
  shows "tickets_wf s'"
  using assms by (induction rule: rtranclp_induct) (auto intro: ticket_step_wf)

text \<open>
  C4. Every ticket is what its history says. Start from empty tables and let any requests run
  (creations, status changes, assignments, unassignments, comments, in any order, some of them
  failing and rolled back): then each ticket's events begin with its creation, its status_change
  events form a path through the transition table from new to the ticket's status, its version
  is one more than the length of that path, and closed_at is set exactly when it is closed or
  rejected.
\<close>

theorem ticket_history_replays:
  assumes "ticket_step\<^sup>*\<^sup>* s s'" "tickets s = []" "ticket_events s = []" "inj (uuid_at s)"
    "t \<in> set (tickets s')"
  shows "\<exists>e es cur. history (ticket_id t) s' = e # es \<and> event_type e = ''created'' \<and>
    replay (NEW, 1) es = Some (cur, version t) \<and> status t = status_value cur \<and>
    (closed_at t \<noteq> None \<longleftrightarrow> cur \<in> set CLOSED_STATES)"
proof -
  have "tickets_wf s" using assms by (simp add: tickets_wf_def)
  with assms(1) have "tickets_wf s'" by (rule reachable_wf)
  with assms(5) have "ticket_ok (history (ticket_id t) s') t" by (simp add: tickets_wf_def)
  then show ?thesis by (auto simp: ticket_ok_def split: list.splits option.splits)
qed

text \<open>What a step does to a row that was there before.\<close>

definition row_step :: "ticket \<Rightarrow> ticket \<Rightarrow> bool" where
  "row_step t t' \<longleftrightarrow> ticket_number t' = ticket_number t \<and>
     (status t' = status t \<and> version t' = version t \<and> closed_at t' = closed_at t \<or>
      (\<exists>cur new. status t = status_value cur \<and> status t' = status_value new \<and>
         new \<in> set (TICKET_TRANSITIONS cur) \<and> version t' = version t + 1))"

definition rows_step :: "ticket_db \<Rightarrow> ticket_db \<Rightarrow> bool" where
  "rows_step s s' \<longleftrightarrow> (\<forall>tid t. by_key ticket_id tid (tickets s) = Some t \<longrightarrow>
     (\<exists>t'. by_key ticket_id tid (tickets s') = Some t' \<and> row_step t t'))"

lemma row_step_refl [simp]: "row_step t t"
  by (simp add: row_step_def)

lemma rows_step_same: "tickets s' = tickets s \<Longrightarrow> rows_step s s'"
  by (auto simp: rows_step_def)

lemma rows_step_update:
  assumes "tickets s' = update_row ticket_id tid f (tickets s)" "\<And>r. ticket_id (f r) = ticket_id r"
    "\<And>t. by_key ticket_id tid (tickets s) = Some t \<Longrightarrow> row_step t (f t)"
  shows "rows_step s s'"
  using assms
  by (auto simp: rows_step_def by_key_update_same by_key_update_other)
     (metis by_key_update_other by_key_update_same option.simps(9) row_step_refl)

lemma rows_step_request:
  assumes "\<And>x s'. m s = (Inr x, s') \<Longrightarrow> rows_step s s'"
  shows "rows_step s (snd (in_request m s))"
proof (cases "m s")
  case (Pair r s')
  then show ?thesis
    using assms by (cases r) (auto simp: in_request_snd rollback_def commit_def rows_step_def)
qed

lemma row_step_apply_transition:
  "status t = status_value cur \<Longrightarrow> new \<in> set (TICKET_TRANSITIONS cur) \<Longrightarrow>
     row_step t (apply_transition new uid now t)"
  by (auto simp: row_step_def apply_transition_def)

lemma ticket_step_rows:
  assumes "ticket_step s s'"
  shows "rows_step s s'"
  using assms
proof cases
  case (create a)
  have "rows_step s u" if "create_ticket a s = (Inr x, u)" for x u
    by (rule create_ticket_Inr [OF that]) (auto simp: rows_step_def by_key_append)
  with create show ?thesis by (simp add: rows_step_request)
next
  case (transition tid new uid c)
  have "rows_step s u" if run: "transition tid new uid c s = (Inr x, u)" for x u
  proof -
    obtain t cur where T: "by_key ticket_id tid (tickets s) = Some t" "status t = status_value cur"
      "new \<in> set (TICKET_TRANSITIONS cur)"
      "tickets u = update_row ticket_id tid (apply_transition new uid (utcnow s)) (tickets s)"
      using run by (rule transition_Inr)
    then show ?thesis by (intro rows_step_update [OF T(4)]) (auto intro: row_step_apply_transition)
  qed
  with transition show ?thesis by (simp add: rows_step_request)
next
  case (assign tid uid by_uid)
  have "rows_step s u" if run: "assign_to tid uid by_uid s = (Inr x, u)" for x u
  proof -
    obtain t f where T: "by_key ticket_id tid (tickets s) = Some t"
      "tickets u = update_row ticket_id tid f (tickets s)"
      "\<And>r. ticket_id (f r) = ticket_id r" "ticket_number (f t) = ticket_number t"
      "closed_at (f t) = closed_at t"
      "status t = ''new'' \<Longrightarrow> status (f t) = ''assigned'' \<and> version (f t) = version t + 1"
      "status t \<noteq> ''new'' \<Longrightarrow> status (f t) = status t \<and> version (f t) = version t"
      using run by (rule assign_to_Inr) blast
    have "row_step t (f t)"
    proof (cases "status t = ''new''")
      case True
      with T(4,6) show ?thesis
        unfolding row_step_def by (intro conjI disjI2 exI [of _ NEW] exI [of _ ASSIGNED]) auto
    next
      case False
      with T(4,5,7) show ?thesis by (simp add: row_step_def)
    qed
    with T(1,3) show ?thesis by (intro rows_step_update [OF T(2)]) auto
  qed
  with assign show ?thesis by (simp add: rows_step_request)
next
  case (unassign tid)
  then show ?thesis by (auto intro!: rows_step_update simp: update_ticket_def row_step_def)
next
  case (comment tid uid c)
  have "rows_step s u" if "add_comment tid uid c s = (Inr x, u)" for x u
    by (rule add_comment_Inr [OF that]) (simp add: rows_step_same)
  with comment show ?thesis by (simp add: rows_step_request)
next
  case tick
  then show ?thesis by (simp add: rows_step_same)
qed

definition row_later :: "ticket \<Rightarrow> ticket \<Rightarrow> bool" where
  "row_later t t' \<longleftrightarrow> ticket_number t' = ticket_number t \<and> version t \<le> version t' \<and>
     (status t \<in> status_value ` set CLOSED_STATES \<longrightarrow>
        status t' = status t \<and> closed_at t' = closed_at t \<and> version t' = version t)"

lemma row_step_later: "row_later t u \<Longrightarrow> row_step u v \<Longrightarrow> row_later t v"
  by (auto simp: row_later_def row_step_def CLOSED_STATES_def simp del: status_value.simps
      dest!: status_value_inj [THEN iffD1])

text \<open>
  C5. Tickets are never lost and closed ones stay closed: whatever requests follow, a ticket
  that exists keeps its number and its version never decreases, and once it is CLOSED or
  REJECTED its status, its closing time and its version never change again.
\<close>

theorem ticket_closed_is_final:
  assumes "ticket_step\<^sup>*\<^sup>* s s'" "by_key ticket_id tid (tickets s) = Some t"
  shows "\<exists>t'. by_key ticket_id tid (tickets s') = Some t' \<and> ticket_number t' = ticket_number t \<and>
    version t \<le> version t' \<and>
    (status t \<in> {''closed'', ''rejected''} \<longrightarrow>
       status t' = status t \<and> closed_at t' = closed_at t \<and> version t' = version t)"
proof -
  have "\<exists>t'. by_key ticket_id tid (tickets s') = Some t' \<and> row_later t t'"
    using assms(1)
  proof (induction rule: rtranclp_induct)
    case base
    with assms(2) show ?case by (auto simp: row_later_def)
  next
    case (step u v)
    then obtain t' where "by_key ticket_id tid (tickets u) = Some t'" "row_later t t'" by blast
    moreover have "rows_step u v" using step.hyps(2) by (rule ticket_step_rows)
    ultimately show ?case unfolding rows_step_def by (meson row_step_later)
  qed
  then show ?thesis by (auto simp: row_later_def CLOSED_STATES_def)
qed

subsection \<open>Ticket numbers\<close>

lemma split_on_sep: "split_on c (p @ c # w) = split_on c p @ split_on c w"
proof (induction p)
  case (Cons x p)
  then show ?case by (cases "split_on c p") auto
qed simp

lemma split_on_last: "c \<notin> set w \<Longrightarrow> last (split_on c (p @ c # w)) = w"
  by (simp add: split_on_sep split_on_no_sep)

lemma dash_not_zpad: "CHR ''-'' \<notin> set (zpad w n)"
  using zpad_all [of w n] by (auto simp: is_digit_def)

lemma number_suffix: "last (split_on (CHR ''-'') (ticket_prefix y @ zpad w n)) = zpad w n"
  using split_on_last [OF dash_not_zpad, of "''QMS-'' @ show_int y" w n] by (simp add: ticket_prefix_def)

lemma zpad_less:
  assumes "m < 100000" "n < 100000"
  shows "zpad 5 m < zpad 5 n \<longleftrightarrow> m < n"
  using less_digits_iff [of "zpad 5 m" "zpad 5 n"] assms
  by (simp add: length_zpad zpad_all digits_val_zpad)

abbreviation this_year :: "'a ticket_db_scheme \<Rightarrow> int" where
  "this_year s \<equiv> year (date_of (clock s))"

abbreviation year_numbers :: "'a ticket_db_scheme \<Rightarrow> string list" where
  "year_numbers s \<equiv> filter (\<lambda>n. startswith n (ticket_prefix (this_year s))) (map ticket_number (tickets s))"

lemma generate_number_of_max:
  assumes "last_by (\<lambda>n. n) (year_numbers s) = Some (ticket_prefix (this_year s) @ zpad 5 k)"
  shows "generate_ticket_number s = Inr (ticket_prefix (this_year s) @ zpad 5 (Suc k))"
proof -
  have "nat (int k + 1) = Suc k" by simp
  with assms show ?thesis
    by (simp add: generate_ticket_number_def Let_def number_suffix python_int_zpad)
qed

text \<open>
  C6. Ticket numbers are unique and increasing up to 99999. When every number of the current
  year has the service's form with a sequence below 99999, the next number is the greatest
  sequence plus one (1 when there is none), it is not in the table, and it is above every number
  of the year in the order the query uses.
\<close>

theorem ticket_number_fresh:
  assumes "\<forall>n\<in>set (year_numbers s). \<exists>k<99999. n = ticket_prefix (this_year s) @ zpad 5 k"
  shows "\<exists>k\<le>99999. generate_ticket_number s = Inr (ticket_prefix (this_year s) @ zpad 5 k) \<and>
    ticket_prefix (this_year s) @ zpad 5 k \<notin> ticket_number ` set (tickets s) \<and>
    (\<forall>n\<in>set (year_numbers s). n < ticket_prefix (this_year s) @ zpad 5 k)"
proof -
  let ?p = "ticket_prefix (this_year s)"
  have mem: "n \<in> set (year_numbers s)" if "n \<in> ticket_number ` set (tickets s)" "startswith n ?p" for n
    using that by auto
  show ?thesis
  proof (cases "last_by (\<lambda>n. n) (year_numbers s)")
    case None
    then have e: "year_numbers s = []" by (simp add: last_by_None)
    then have "generate_ticket_number s = Inr (?p @ zpad 5 1)"
      by (simp add: generate_ticket_number_def Let_def)
    moreover have "?p @ zpad 5 1 \<notin> ticket_number ` set (tickets s)"
      using mem [of "?p @ zpad 5 1"] unfolding e by auto
    ultimately show ?thesis unfolding e by (intro exI [of _ 1]) auto
  next
    case (Some m)
    then have min: "m \<in> set (year_numbers s)" by (rule last_by_in)
    with assms obtain k where k: "k < 99999" "m = ?p @ zpad 5 k" by blast
    have above: "n < ?p @ zpad 5 (Suc k)" if n: "n \<in> set (year_numbers s)" for n
    proof -
      from assms n obtain j where j: "j < 99999" "n = ?p @ zpad 5 j" by blast
      have "n \<le> m" using last_by_max [OF Some n] by simp
      then have "j \<le> k"
        using j k zpad_less [of k j] by (simp add: append_le_cancel) (metis not_le)
      with j k show ?thesis by (simp add: append_less_cancel zpad_less)
    qed
    have "?p @ zpad 5 (Suc k) \<notin> ticket_number ` set (tickets s)"
      using mem [of "?p @ zpad 5 (Suc k)"] above [of "?p @ zpad 5 (Suc k)"] by auto
    with k above generate_number_of_max [OF Some [unfolded k(2)]] show ?thesis
      by (intro exI [of _ "Suc k"]) auto
  qed
qed

lemma digit_chars: "digit_char 0 = CHR ''0''" "digit_char 1 = CHR ''1''" "digit_char 9 = CHR ''9''"
  by code_simp+

lemma zpad_wraps: "zpad 5 99999 = ''99999''" "zpad 5 100000 = ''100000''"
  by (simp_all add: zpad_def digits.simps digit_chars [unfolded One_nat_def])

text \<open>
  Numbering stops at 100000 tickets in a year. The query orders the numbers as strings, and
  QMS-Y-100000 sorts below QMS-Y-99999: once both exist, every further creation computes the
  number 100000 again and dies on the unique column, whatever it is called with.
\<close>

theorem ticket_numbers_run_out:
  assumes "ticket_prefix (this_year s) @ zpad 5 99999 \<in> ticket_number ` set (tickets s)"
    "ticket_prefix (this_year s) @ zpad 5 100000 \<in> ticket_number ` set (tickets s)"
    "\<forall>n\<in>set (year_numbers s). \<exists>k\<le>100000. n = ticket_prefix (this_year s) @ zpad 5 k"
    "by_key line_id (a_line_id a) (lines s) = Some l" "line_is_active l" "\<not> session_failed s"
  shows "fst (create_ticket a s) = Inl (IntegrityError ''tickets.ticket_number'')"
proof -
  let ?p = "ticket_prefix (this_year s)"
  have big: "?p @ zpad 5 99999 \<in> set (year_numbers s)" using assms(1) by auto
  then have "year_numbers s \<noteq> []" by (metis empty_iff empty_set)
  then obtain m where m: "last_by (\<lambda>n. n) (year_numbers s) = Some m"
    by (metis last_by_None option.exhaust)
  then obtain k where k: "k \<le> 100000" "m = ?p @ zpad 5 k"
    using assms(3) last_by_in by metis
  have le: "zpad 5 99999 \<le> zpad 5 k"
    using last_by_max [OF m big] k by (simp add: append_le_cancel)
  have "k = 99999"
  proof (rule ccontr)
    assume "k \<noteq> 99999"
    with k consider "k = 100000" | "k < 99999" by linarith
    then show False
    proof cases
      case 1
      with le show False unfolding 1 zpad_wraps by (simp add: less_char_def less_eq_char_def)
    next
      case 2
      then have "zpad 5 k < zpad 5 99999" by (simp add: zpad_less)
      with le show False by (simp add: not_less [symmetric])
    qed
  qed
  with m k have "generate_ticket_number s = Inr (?p @ zpad 5 (Suc 99999))"
    by (intro generate_number_of_max) simp
  with assms show ?thesis
    by (auto simp: create_ticket_def bind_def seq_def take_uuid_def insert_ticket_def Let_def)
qed

subsection \<open>Creation\<close>

lemma generate_ticket_number_cong:
  "clock t = clock s \<Longrightarrow> tickets t = tickets s \<Longrightarrow> generate_ticket_number t = generate_ticket_number s"
  by (simp add: generate_ticket_number_def)

lemma create_ticket_bad_line:
  assumes "\<And>l. by_key line_id (a_line_id a) (lines s) = Some l \<Longrightarrow> \<not> line_is_active l"
  obtains msg where "create_ticket a s = (Inl (TicketError msg), s)"
  using assms by (cases "by_key line_id (a_line_id a) (lines s)") (auto simp: create_ticket_def)

lemma create_ticket_ok:
  assumes "writable s" "by_key line_id (a_line_id a) (lines s) = Some l" "line_is_active l"
    "generate_ticket_number s = Inr number" "number \<notin> ticket_number ` set (tickets s)"
  shows "create_ticket a s = (let t = new_ticket a number s (gen_uuid s) in (Inr t,
     s\<lparr>uuid_next := Suc (Suc (uuid_next s)), tickets := tickets s @ [t],
       ticket_events := ticket_events s @
         [(created_event a t (utcnow s))\<lparr>ev_id := uuid_at s (Suc (uuid_next s))\<rparr>],
       audit_log := audit_log s @ [with_checksum (json_hash s) (new_entry ''ticket'' CREATE (Some (gen_uuid s))
         [(''ticket_number'', JStr number), (''title'', JStr (title t)),
          (''severity'', JStr (severity_value (a_severity a))), (''source'', JStr (source_value (a_source a)))]
         (a_created_by a) s)],
       audit_seq := audit_seq s + 1\<rparr>))"
proof -
  have src: "t_source (new_ticket a number s i) = source_value (a_source a)"
    "t_severity (new_ticket a number s i) = severity_value (a_severity a)" for i
    by (simp_all add: new_ticket_def Let_def)
  from assms have "\<not> session_failed s" by (simp add: writable_def)
  with assms show ?thesis
    by (simp add: create_ticket_def Let_def bind_Inr seq_Inr take_uuid_def insert_ticket_def
        record_entry_ok src gen_uuid_def new_entry_def utcnow_def session_user_id_def request_metadata_def)
qed

text \<open>
  What creating a ticket does. On an active line it returns the new row (status new,
  version 1, the title trimmed and cut to 200 characters, the newest active pipeline of the line
  and its first stage) and appends exactly that row, its created event and one audit entry; on
  an unknown or inactive line it raises TicketError and nothing changes.
\<close>

theorem create_ticket_correct:
  assumes "writable s"
  shows "case by_key line_id (a_line_id a) (lines s) of
      None \<Rightarrow> create_ticket a s = (Inl (TicketError (''Production line '' @ a_line_id a @ '' not found'')), s)
    | Some l \<Rightarrow>
        (\<not> line_is_active l \<longrightarrow>
           create_ticket a s = (Inl (TicketError (''Production line '' @ line_code l @ '' is inactive'')), s)) \<and>
        (line_is_active l \<longrightarrow> (\<forall>number. generate_ticket_number s = Inr number \<longrightarrow>
           number \<notin> ticket_number ` set (tickets s) \<longrightarrow>
           (\<exists>t s' entry. create_ticket a s = (Inr t, s') \<and>
              tickets s' = tickets s @ [t] \<and>
              ticket_id t = gen_uuid s \<and> ticket_number t = number \<and> t_line_id t = a_line_id a \<and>
              status t = ''new'' \<and> version t = 1 \<and> closed_at t = None \<and> assigned_to_user_id t = None \<and>
              title t = take 200 (strip (a_title a)) \<and> t_created_at t = Aware (clock s) \<and>
              t_pipeline_id t = map_option pipe_id (active_pipeline (a_line_id a) s) \<and>
              ticket_events s' = ticket_events s @
                [(created_event a t (utcnow s))\<lparr>ev_id := uuid_at s (Suc (uuid_next s))\<rparr>] \<and>
              audit_log s' = audit_log s @ [entry] \<and> al_action entry = ''create'' \<and>
              entity_id entry = Some (ticket_id t))))"
proof (cases "by_key line_id (a_line_id a) (lines s)")
  case None
  then show ?thesis by (simp add: create_ticket_def)
next
  case (Some l)
  then show ?thesis
    using create_ticket_ok [OF assms Some]
    by (auto simp: create_ticket_def Let_def new_ticket_def new_entry_def utcnow_def)
qed

lemma record_entry_blocked:
  "\<not> audit_update_allowed s \<Longrightarrow> \<exists>e s'. record_entry ty ac i d u s = (Inl e, s')"
  by (auto simp: record_entry_def Let_def)

lemma blocked_frame [simp]:
  "audit_update_allowed (s\<lparr>uuid_next := n\<rparr>) = audit_update_allowed s"
  "audit_update_allowed (s\<lparr>session_failed := b\<rparr>) = audit_update_allowed s"
  "audit_update_allowed (t\<lparr>ticket_events := evs\<rparr>) = audit_update_allowed t"
  "audit_update_allowed (t\<lparr>tickets := ts\<rparr>) = audit_update_allowed t"
  by (simp_all add: audit_update_allowed_def)

lemma record_entry_not_Inr:
  "record_entry ty ac i d u s = (Inr r, s') \<Longrightarrow> audit_update_allowed s"
  by (auto simp: record_entry_def Let_def split: if_splits)

lemma blocked_operations:
  assumes "\<not> audit_update_allowed s"
  shows "fst (create_ticket a s) \<noteq> Inr t" "fst (transition tid new uid c s) \<noteq> Inr t"
    "fst (assign_to tid usr by_uid s) \<noteq> Inr t" "fst (add_comment tid usr txt s) \<noteq> Inr x"
proof -
  have A: "audit_update_allowed s" if "create_ticket a s = (Inr t, s')" for s'
    using that by (auto simp: create_ticket_def Let_def run_iff take_uuid_def insert_ticket_def
        split: option.splits if_splits sum.splits dest!: record_entry_not_Inr)
  have B: "audit_update_allowed s" if "transition tid new uid c s = (Inr t, s')" for s' :: "'a ticket_db_scheme"
    and s new uid c t tid
    using that by (auto simp: transition_def run_iff update_ticket_def
        split: option.splits if_splits dest!: record_entry_not_Inr)
  have C: "audit_update_allowed s" if "assign_to tid usr by_uid s = (Inr t, s')" for s'
    using that by (auto simp: assign_to_def run_iff update_ticket_def
        split: option.splits if_splits dest!: record_entry_not_Inr B)
  have D: "audit_update_allowed s" if "add_comment tid usr txt s = (Inr x, s')" for s'
    using that by (auto simp: add_comment_def run_iff dest!: record_entry_not_Inr)
  show "fst (create_ticket a s) \<noteq> Inr t" "fst (transition tid new uid c s) \<noteq> Inr t"
    "fst (assign_to tid usr by_uid s) \<noteq> Inr t" "fst (add_comment tid usr txt s) \<noteq> Inr x"
    using assms A B C D by (metis prod.collapse)+
qed

text \<open>
  The append-only trigger and the two-step insert exclude each other. On PostgreSQL with
  the trigger of migration c9e1a2b3d4f5 installed, the flush that stores the checksum of a new
  audit entry is an UPDATE the trigger rejects: creating, moving, assigning or commenting a
  ticket never succeeds, and a request that tries leaves the tables as they were.
\<close>

theorem postgres_trigger_blocks_tickets:
  assumes "dialect s = PostgreSQL" "immutable_trigger s" "\<not> audit_redact_ok s"
    "m \<in> {seq (create_ticket a) (ret ()), seq (transition tid new uid c) (ret ()),
          seq (assign_to tid usr by_uid) (ret ()), add_comment tid usr txt}"
  shows "(\<exists>e. fst (in_request m s) = Inl e) \<and> tickets (snd (in_request m s)) = tickets s \<and>
    ticket_events (snd (in_request m s)) = ticket_events s \<and>
    audit_log (snd (in_request m s)) = audit_log s"
proof -
  have blocked: "\<not> audit_update_allowed s" using assms(1-3) by (simp add: audit_update_allowed_def)
  have no: "m s \<noteq> (Inr (), s')" for s'
  proof -
    have "create_ticket a s \<noteq> (Inr t, u)" "transition tid new uid c s \<noteq> (Inr t, u)"
      "assign_to tid usr by_uid s \<noteq> (Inr t, u)" for t u
      using blocked_operations [OF blocked] by (metis fst_conv)+
    moreover have "fst (add_comment tid usr txt s) \<noteq> Inr ()"
      using blocked by (rule blocked_operations)
    ultimately show ?thesis using assms(4) by (auto simp: seq_Inr_iff)
  qed
  obtain e s' where "m s = (Inl e, s')"
    using no by (cases "m s"; cases "fst (m s)") auto
  then show ?thesis by (simp add: in_request_def rollback_def)
qed

subsection \<open>Listing\<close>

definition ticket_matches :: "string option \<Rightarrow> string option \<Rightarrow> string option \<Rightarrow> bool \<Rightarrow> ticket \<Rightarrow> bool" where
  "ticket_matches st lid sev open_only t \<longleftrightarrow>
     (truthy st \<longrightarrow> st = Some (status t)) \<and> (truthy lid \<longrightarrow> lid = Some (t_line_id t)) \<and>
     (truthy sev \<longrightarrow> sev = Some (t_severity t)) \<and>
     (open_only \<longrightarrow> status t \<notin> {''closed'', ''rejected''})"

text \<open>
  Listing tickets returns the newest matching ones. The result is a selection of the rows
  that match every filter given, newest first, as many as there are up to the limit, and any
  matching row left out is not newer than any row returned.
\<close>

theorem list_tickets_correct:
  "\<exists>omitted. mset (list_tickets st lid sev open_only limit s) + mset omitted =
       filter_mset (ticket_matches st lid sev open_only) (mset (tickets s)) \<and>
     length (list_tickets st lid sev open_only limit s) =
       min limit (length (filter (ticket_matches st lid sev open_only) (tickets s))) \<and>
     sorted_wrt (\<lambda>x y. instant (t_created_at y) \<le> instant (t_created_at x))
       (list_tickets st lid sev open_only limit s @ omitted)"
proof -
  let ?P = "ticket_matches st lid sev open_only"
  have P: "(\<lambda>t. opt_filter st status t \<and> opt_filter lid t_line_id t \<and>
      opt_filter sev t_severity t \<and> (open_only \<longrightarrow> not_closed_value t)) = ?P"
    by (auto simp: fun_eq_iff ticket_matches_def opt_filter_def not_closed_value_def CLOSED_STATES_def)
  define all where "all = rev (sort_key (\<lambda>t. instant (t_created_at t)) (filter ?P (tickets s)))"
  have l: "list_tickets st lid sev open_only limit s = take limit all"
    by (simp only: list_tickets_def P all_def)
  have "sorted_wrt (\<lambda>x y. instant (t_created_at y) \<le> instant (t_created_at x)) all"
    using sorted_sort_key [of "\<lambda>t. instant (t_created_at t)" "filter ?P (tickets s)"]
    by (simp add: all_def sorted_wrt_rev sorted_wrt_map)
  moreover have "mset all = filter_mset ?P (mset (tickets s))" by (simp add: all_def)
  ultimately show ?thesis
    by (intro exI [of _ "drop limit all"]) (simp add: l flip: mset_append, simp add: all_def)
qed

subsection \<open>A sample database and the witnesses\<close>

definition sample_line :: production_line where
  "sample_line = \<lparr>line_id = ''L1'', line_code = ''BREAD'', line_name = ''Bread line'', line_is_active = True\<rparr>"

definition sample_ticket :: "string \<Rightarrow> string \<Rightarrow> ticket_status \<Rightarrow> ticket" where
  "sample_ticket tid number st =
     \<lparr>ticket_id = tid, ticket_number = number, t_line_id = ''L1'', t_pipeline_id = None,
      current_stage_id = None, status = status_value st, t_source = ''manual'', t_severity = ''medium'',
      t_category = ''other'', title = ''Oven'', description = None, description_lang = None,
      is_ccp_related = False, extra_data = JObj [], version = 1, created_by_user_id = None,
      assigned_to_user_id = None, closed_at = None, t_created_at = Aware 0\<rparr>"

definition sample_tickets :: "dialect \<Rightarrow> ticket list \<Rightarrow> ticket_db" where
  "sample_tickets d ts =
     \<lparr>clock = at_time \<lparr>year = 2026, month = 5, day = 2\<rparr> 0, uuid_at = digits, uuid_next = 0,
      request_context = None, dialect = d, session_failed = False,
      queue = sample_queue, redis = sample_redis, json_hash = (\<lambda>_. ''h''), immutable_trigger = True, audit_redact_ok = False,
      audit_log = [], audit_seq = 0, app_config = sample_config, users = [], roles = [],
      lines = [sample_line], pipelines = [], pipeline_stages = [], tickets = ts, ticket_events = []\<rparr>"

lemma sample_tickets_simps [simp]:
  "writable (sample_tickets SQLite ts)" "tickets (sample_tickets d ts) = ts"
  "ticket_events (sample_tickets d ts) = []" "lines (sample_tickets d ts) = [sample_line]"
  "session_failed (sample_tickets d ts) = False" "dialect (sample_tickets d ts) = d"
  "immutable_trigger (sample_tickets d ts)" "\<not> audit_redact_ok (sample_tickets d ts)"
  "inj (uuid_at (sample_tickets d ts))"
  by (auto simp: sample_tickets_def writable_def audit_update_allowed_def inj_def dest: digits_inj)

lemma sample_year: "this_year (sample_tickets d ts) = 2026"
proof -
  have "date_of (at_time \<lparr>year = 2026, month = 5, day = 2\<rparr> 0) = \<lparr>year = 2026, month = 5, day = 2\<rparr>"
    by (rule date_of_at_time) (simp_all add: us_day_def us_second_def valid_date_def days_in_month_def is_leap_def)
  then show ?thesis by (simp add: sample_tickets_def)
qed


definition sample_args :: ticket_args where
  "sample_args = \<lparr>a_line_id = ''L1'', a_title = '' Oven too hot '', a_description = None, a_severity = HIGH,
     a_category = TEMPERATURE_DEVIATION, a_source = MANUAL, a_created_by = Some ''u'',
     a_description_lang = None, a_metadata = []\<rparr>"

definition sample_created :: ticket_db where
  "sample_created = snd (in_request (create_ticket sample_args) (sample_tickets SQLite []))"

lemma sample_number: "generate_ticket_number (sample_tickets d []) = Inr (ticket_prefix 2026 @ zpad 5 1)"
  using sample_year [of d "[]"] by (simp add: generate_ticket_number_def Let_def)

lemma sample_created_ticket: "\<exists>t. tickets sample_created = [t] \<and> status t = ''new''"
proof -
  have "fst (create_ticket sample_args (sample_tickets SQLite [])) =
      Inr (new_ticket sample_args (ticket_prefix 2026 @ zpad 5 1) (sample_tickets SQLite []) (gen_uuid (sample_tickets SQLite [])))"
    by (subst create_ticket_ok [OF _ _ _ sample_number, where l = sample_line])
       (simp_all add: by_key_def sample_args_def sample_line_def Let_def)
  moreover have "tickets (snd (create_ticket sample_args (sample_tickets SQLite []))) =
      [new_ticket sample_args (ticket_prefix 2026 @ zpad 5 1) (sample_tickets SQLite []) (gen_uuid (sample_tickets SQLite []))]"
    by (subst create_ticket_ok [OF _ _ _ sample_number, where l = sample_line])
       (simp_all add: by_key_def sample_args_def sample_line_def Let_def)
  ultimately show ?thesis
    by (cases "create_ticket sample_args (sample_tickets SQLite [])")
       (auto simp: sample_created_def in_request_snd commit_def)
qed

lemma sample_step: "ticket_step\<^sup>*\<^sup>* (sample_tickets SQLite []) sample_created"
  unfolding sample_created_def by (rule r_into_rtranclp) (rule ticket_step.create)

theorem ticket_history_replays_witness:
  "\<exists>t. tickets sample_created = [t] \<and> (\<exists>e es cur. history (ticket_id t) sample_created = e # es \<and>
     event_type e = ''created'' \<and> replay (NEW, 1) es = Some (cur, version t) \<and> status t = status_value cur \<and>
     (closed_at t \<noteq> None \<longleftrightarrow> cur \<in> set CLOSED_STATES))"
proof -
  obtain t where "tickets sample_created = [t]" using sample_created_ticket by blast
  with ticket_history_replays [OF sample_step, of t] show ?thesis by simp
qed

theorem ticket_closed_is_final_witness:
  "\<exists>t'. by_key ticket_id ''1'' (tickets (snd (in_request (assign_to ''1'' ''u'' None)
        (sample_tickets SQLite [sample_ticket ''1'' ''n'' REJECTED])))) = Some t' \<and> ticket_number t' = ''n'' \<and>
    1 \<le> version t' \<and> status t' = ''rejected'' \<and> closed_at t' = None \<and> version t' = 1"
proof -
  let ?s = "sample_tickets SQLite [sample_ticket ''1'' ''n'' REJECTED]"
  have "ticket_step\<^sup>*\<^sup>* ?s (snd (in_request (assign_to ''1'' ''u'' None) ?s))"
    by (rule r_into_rtranclp) (rule ticket_step.assign)
  from ticket_closed_is_final [OF this, where tid = "''1''" and t = "sample_ticket ''1'' ''n'' REJECTED"]
  show ?thesis by (simp add: by_key_def sample_ticket_def)
qed

theorem ticket_number_fresh_witness:
  "\<exists>k\<le>99999. generate_ticket_number (sample_tickets SQLite [sample_ticket ''1'' (ticket_prefix 2026 @ zpad 5 7) NEW]) =
    Inr (ticket_prefix 2026 @ zpad 5 k)"
proof -
  let ?s = "sample_tickets SQLite [sample_ticket ''1'' (ticket_prefix 2026 @ zpad 5 7) NEW]"
  have "\<forall>n\<in>set (year_numbers ?s). \<exists>k<99999. n = ticket_prefix (this_year ?s) @ zpad 5 k"
    unfolding sample_year by (auto simp: sample_ticket_def intro: exI [of _ 7])
  from ticket_number_fresh [OF this] show ?thesis unfolding sample_year by blast
qed

theorem ticket_numbers_run_out_witness:
  "fst (create_ticket sample_args (sample_tickets SQLite
     [sample_ticket ''1'' (ticket_prefix 2026 @ zpad 5 99999) NEW,
      sample_ticket ''2'' (ticket_prefix 2026 @ zpad 5 100000) NEW])) =
   Inl (IntegrityError ''tickets.ticket_number'')"
  by (rule ticket_numbers_run_out [of _ _ sample_line])
     (auto simp: sample_year sample_ticket_def by_key_def sample_args_def sample_line_def
       intro: exI [of _ 99999] exI [of _ 100000])

theorem create_ticket_correct_witness:
  "\<exists>t s'. create_ticket sample_args (sample_tickets SQLite []) = (Inr t, s') \<and> title t = ''Oven too hot''"
  using create_ticket_correct [of "sample_tickets SQLite []" sample_args]
  by (auto simp: by_key_def sample_args_def sample_line_def sample_number strip_def lstrip_def rstrip_def
      str_py_space_def)

theorem postgres_trigger_blocks_tickets_witness:
  "\<exists>e. fst (in_request (add_comment ''1'' ''u'' ''hi'') (sample_tickets PostgreSQL [sample_ticket ''1'' ''n'' NEW])) = Inl e"
  using postgres_trigger_blocks_tickets [of "sample_tickets PostgreSQL [sample_ticket ''1'' ''n'' NEW]"
      "add_comment ''1'' ''u'' ''hi''" sample_args "''1''" NEW None None "''u''" None "''hi''"]
  by simp

end
