(* ===== verification/Haccp.thy ===== *)
theory Haccp
  imports TicketLife
begin

text \<open>
  Critical control points: the tables of app/models/haccp.py and the measurement service
  app/services/haccp.py, which opens a critical ticket for a reading outside the limits.
  Printing a float is the parameter \<open>show_float\<close>; the dash between the limits in the title
  (U+2013) is the character 0x96.
\<close>

record ccp_definition =
  ccp_id :: string
  ccp_line_id :: string
  ccp_code :: string
  ccp_parameter :: string
  ccp_unit :: string
  critical_limit_min :: "pyfloat option"
  critical_limit_max :: "pyfloat option"
  ccp_is_active :: bool

record ccp_measurement =
  cm_id :: string
  cm_ccp_id :: string
  measured_value :: pyfloat
  measured_at :: pydt
  measured_by_user_id :: "string option"
  cm_device_id :: "string option"
  cm_within_limits :: bool
  cm_notes :: "string option"
  cm_linked_ticket_id :: "string option"

record haccp_db = ticket_db +
  ccp_definitions :: "ccp_definition list"
  ccp_measurements :: "ccp_measurement list"

definition is_within_limits :: "ccp_definition \<Rightarrow> pyfloat \<Rightarrow> bool" where
  "is_within_limits c v =
     (if (case critical_limit_min c of None \<Rightarrow> False | Some lo \<Rightarrow> flt v lo) then False
      else if (case critical_limit_max c of None \<Rightarrow> False | Some hi \<Rightarrow> flt hi v) then False
      else True)"

definition show_limit :: "(pyfloat \<Rightarrow> string) \<Rightarrow> pyfloat option \<Rightarrow> string" where
  "show_limit show_float l = (case l of None \<Rightarrow> ''None'' | Some x \<Rightarrow> show_float x)"

definition deviation_title :: "(pyfloat \<Rightarrow> string) \<Rightarrow> ccp_definition \<Rightarrow> pyfloat \<Rightarrow> string" where
  "deviation_title show_float c v =
     ''CCP deviation: '' @ ccp_code c @ '' = '' @ show_float v @ '' '' @ ccp_unit c @ '' (limits: '' @
     show_limit show_float (critical_limit_min c) @ [CHR 0x96] @ show_limit show_float (critical_limit_max c) @ '')''"

definition deviation_ticket ::
  "(pyfloat \<Rightarrow> string) \<Rightarrow> ccp_definition \<Rightarrow> pyfloat \<Rightarrow> string \<Rightarrow> string option \<Rightarrow> string option \<Rightarrow>
   string option \<Rightarrow> ticket_args" where
  "deviation_ticket show_float c v mid uid device notes =
     \<lparr>a_line_id = ccp_line_id c,
      a_title = take 200 (deviation_title show_float c v),
      a_description = notes,
      a_severity = CRITICAL,
      a_category = (if ccp_parameter c = ''temperature'' then TEMPERATURE_DEVIATION else OTHER),
      a_source = (if truthy device then IOT else MANUAL),
      a_created_by = uid,
      a_description_lang = None,
      a_metadata =
        [(''ccp_id'', JStr (ccp_id c)), (''ccp_code'', JStr (ccp_code c)), (''measurement_id'', JStr mid),
         (''value'', JFloat v),
         (''limits'', JObj [(''min'', jfloat_opt (critical_limit_min c)), (''max'', jfloat_opt (critical_limit_max c))])]\<rparr>"

definition link_measurement :: "string \<Rightarrow> string \<Rightarrow> 'a haccp_db_scheme \<Rightarrow> 'a haccp_db_scheme" where
  "link_measurement mid tid s =
     s\<lparr>ccp_measurements := update_row cm_id mid (\<lambda>m. m\<lparr>cm_linked_ticket_id := Some tid\<rparr>) (ccp_measurements s)\<rparr>"

definition record_measurement ::
  "(pyfloat \<Rightarrow> string) \<Rightarrow> string \<Rightarrow> pyfloat \<Rightarrow> string option \<Rightarrow> string option \<Rightarrow> string option \<Rightarrow>
   ('a haccp_db_scheme, ccp_measurement) py" where
  "record_measurement show_float cid v uid device notes = with_state (\<lambda>s.
     case by_key ccp_id cid (ccp_definitions s) of
       None \<Rightarrow> throw (HACCPError (''CCP '' @ cid @ '' not found''))
     | Some c \<Rightarrow>
         if \<not> ccp_is_active c then throw (HACCPError (''CCP '' @ ccp_code c @ '' is inactive''))
         else
           bind take_uuid (\<lambda>mid.
             let ok = is_within_limits c v;
                 m = \<lparr>cm_id = mid, cm_ccp_id = ccp_id c, measured_value = v, measured_at = utcnow s,
                      measured_by_user_id = uid, cm_device_id = device, cm_within_limits = ok,
                      cm_notes = notes, cm_linked_ticket_id = None\<rparr>
             in seq (modify (\<lambda>s. s\<lparr>ccp_measurements := ccp_measurements s @ [m]\<rparr>))
               (seq (record_entry ''ccp_measurement'' RECORD (Some mid)
                       [(''ccp_code'', JStr (ccp_code c)), (''value'', JFloat v),
                        (''within_limits'', JBool ok), (''device_id'', jstr_opt device)] uid)
               (if ok then ret m
                else
                  bind (create_ticket (deviation_ticket show_float c v mid uid device notes)) (\<lambda>t.
                    seq (modify (update_ticket (ticket_id t) (\<lambda>t. t\<lparr>is_ccp_related := True\<rparr>)))
                    (seq (modify (link_measurement mid (ticket_id t)))
                    (ret (m\<lparr>cm_linked_ticket_id := Some (ticket_id t)\<rparr>))))))))"

definition list_definitions :: "string option \<Rightarrow> bool \<Rightarrow> 'a haccp_db_scheme \<Rightarrow> ccp_definition list" where
  "list_definitions lid active_only s =
     sort_key ccp_code (filter (\<lambda>c. opt_filter lid ccp_line_id c \<and> (active_only \<longrightarrow> ccp_is_active c))
       (ccp_definitions s))"

definition recent_measurements :: "string \<Rightarrow> nat \<Rightarrow> 'a haccp_db_scheme \<Rightarrow> ccp_measurement list" where
  "recent_measurements cid limit s =
     take limit (rev (sort_key (\<lambda>m. instant (measured_at m))
       (filter (\<lambda>m. cm_ccp_id m = cid) (ccp_measurements s))))"

subsection \<open>The audit contract\<close>

lemma keeps_record_measurement [audited]: "keeps log_step (record_measurement sf cid v uid d n)"
  unfolding record_measurement_def
  by (intro audited) (simp_all add: update_ticket_def link_measurement_def)

interpretation ccp_recording: audited_operation "record_measurement sf cid v uid d n" for sf cid v uid d n
  by unfold_locales (rule keeps_record_measurement)

subsection \<open>The limits\<close>

definition no_nan :: "ccp_definition \<Rightarrow> bool" where
  "no_nan c \<longleftrightarrow> critical_limit_min c \<noteq> Some NaN \<and> critical_limit_max c \<noteq> Some NaN"

text \<open>
  A reading counts as within the limits exactly when it lies in the closed interval they
  give (a missing limit does not bound), or when it is not a number: a sensor that reports NaN is
  never a deviation.
\<close>

theorem within_limits_iff:
  assumes "no_nan c"
  shows "is_within_limits c v \<longleftrightarrow> v = NaN \<or>
    (case critical_limit_min c of None \<Rightarrow> True | Some lo \<Rightarrow> fle lo v) \<and>
    (case critical_limit_max c of None \<Rightarrow> True | Some hi \<Rightarrow> fle v hi)"
proof -
  have le: "flt v lo \<longleftrightarrow> \<not> fle lo v" if "v \<noteq> NaN" "lo \<noteq> NaN" for v lo
    using flt_linear [OF that] flt_asym feq_sym feq_refl that unfolding fle_def
    by (cases v; cases lo) auto
  show ?thesis
    using assms le
    by (cases "v = NaN") (auto simp: is_within_limits_def no_nan_def split: option.splits)
qed

definition sample_ccp :: ccp_definition where
  "sample_ccp = \<lparr>ccp_id = ''c1'', ccp_line_id = ''L1'', ccp_code = ''CCP-OVEN'', ccp_parameter = ''temperature'',
     ccp_unit = ''C'', critical_limit_min = Some (Fin 200), critical_limit_max = Some (Fin 240),
     ccp_is_active = True\<rparr>"

theorem within_limits_iff_witness:
  "is_within_limits sample_ccp (Fin 220) \<and> is_within_limits sample_ccp NaN \<and> \<not> is_within_limits sample_ccp (Fin 241)"
proof -
  have "no_nan sample_ccp" by (simp add: no_nan_def sample_ccp_def)
  from within_limits_iff [OF this, of "Fin 220"] within_limits_iff [OF this, of NaN]
    within_limits_iff [OF this, of "Fin 241"]
  show ?thesis by (simp add: sample_ccp_def fle_def)
qed

subsection \<open>Recording\<close>

definition new_measurement ::
  "ccp_definition \<Rightarrow> pyfloat \<Rightarrow> string option \<Rightarrow> string option \<Rightarrow> string option \<Rightarrow> 'a session_scheme \<Rightarrow>
   ccp_measurement" where
  "new_measurement c v uid device notes s =
     \<lparr>cm_id = gen_uuid s, cm_ccp_id = ccp_id c, measured_value = v, measured_at = utcnow s,
      measured_by_user_id = uid, cm_device_id = device, cm_within_limits = is_within_limits c v,
      cm_notes = notes, cm_linked_ticket_id = None\<rparr>"

definition measured ::
  "ccp_definition \<Rightarrow> pyfloat \<Rightarrow> string option \<Rightarrow> string option \<Rightarrow> string option \<Rightarrow> 'a haccp_db_scheme \<Rightarrow>
   'a haccp_db_scheme" where
  "measured c v uid device notes s =
     snd (record_entry ''ccp_measurement'' RECORD (Some (gen_uuid s))
            [(''ccp_code'', JStr (ccp_code c)), (''value'', JFloat v),
             (''within_limits'', JBool (is_within_limits c v)), (''device_id'', jstr_opt device)] uid
       (s\<lparr>uuid_next := Suc (uuid_next s),
          ccp_measurements := ccp_measurements s @ [new_measurement c v uid device notes s]\<rparr>))"

lemma writable_measurements [simp]:
  "writable (s\<lparr>ccp_measurements := ms\<rparr>) = writable s"
  "writable (s\<lparr>ccp_measurements := ms, uuid_next := n\<rparr>) = writable s"
  by (simp_all add: writable_def audit_update_allowed_def)

lemma record_measurement_unfold:
  assumes "writable s" "by_key ccp_id cid (ccp_definitions s) = Some c" "ccp_is_active c"
  shows "record_measurement sf cid v uid device notes s =
    (let m = new_measurement c v uid device notes s; s' = measured c v uid device notes s
     in if is_within_limits c v then (Inr m, s')
        else bind (create_ticket (deviation_ticket sf c v (gen_uuid s) uid device notes)) (\<lambda>t.
               seq (modify (update_ticket (ticket_id t) (\<lambda>t. t\<lparr>is_ccp_related := True\<rparr>)))
               (seq (modify (link_measurement (gen_uuid s) (ticket_id t)))
               (ret (m\<lparr>cm_linked_ticket_id := Some (ticket_id t)\<rparr>)))) s')"
  using assms
  by (simp add: record_measurement_def Let_def bind_Inr seq_Inr take_uuid_def record_entry_ok
      new_measurement_def measured_def utcnow_def)

lemma measured_simps:
  assumes "writable s"
  shows "writable (measured c v uid device notes s)"
    "lines (measured c v uid device notes s) = lines s"
    "tickets (measured c v uid device notes s) = tickets s"
    "clock (measured c v uid device notes s) = clock s"
    "ccp_measurements (measured c v uid device notes s) =
       ccp_measurements s @ [new_measurement c v uid device notes s]"
    "\<exists>entry. audit_log (measured c v uid device notes s) = audit_log s @ [entry] \<and>
       al_action entry = ''record'' \<and> entity_id entry = Some (gen_uuid s)"
  using assms
  by (simp_all add: measured_def record_entry_ok)
     (auto simp: writable_def audit_update_allowed_def new_entry_def)

text \<open>
  C10. Recording a reading at an active control point. A reading within the limits is stored
  with one audit entry and touches no ticket. A deviation whose production line is active also
  opens exactly one new ticket on that line, critical and marked as CCP related, and the stored
  reading is linked to it. A deviation whose line is inactive or gone raises TicketError, and the
  request that carries it leaves no reading behind.
\<close>

theorem record_measurement_correct:
  assumes "writable s" "by_key ccp_id cid (ccp_definitions s) = Some c" "ccp_is_active c"
    "generate_ticket_number s = Inr number" "number \<notin> ticket_number ` set (tickets s)"
    "gen_uuid s \<notin> cm_id ` set (ccp_measurements s)"
  shows "case record_measurement sf cid v uid device memo s of
      (Inr m, s') \<Rightarrow> m \<in> set (ccp_measurements s') \<and> measured_value m = v \<and> cm_ccp_id m = ccp_id c \<and>
        cm_within_limits m = is_within_limits c v \<and>
        length (ccp_measurements s') = Suc (length (ccp_measurements s)) \<and>
        (if is_within_limits c v then tickets s' = tickets s \<and> cm_linked_ticket_id m = None
         else \<exists>t. tickets s' = map (\<lambda>r. if ticket_id r = ticket_id t then r\<lparr>is_ccp_related := True\<rparr> else r) (tickets s) @ [t] \<and>
                t_severity t = ''critical'' \<and> is_ccp_related t \<and> t_line_id t = ccp_line_id c \<and>
                status t = ''new'' \<and> cm_linked_ticket_id m = Some (ticket_id t))
    | (Inl e, s') \<Rightarrow> \<not> is_within_limits c v \<and> (\<exists>msg. e = TicketError msg) \<and>
        (\<forall>l. by_key line_id (ccp_line_id c) (lines s) = Some l \<longrightarrow> \<not> line_is_active l) \<and>
        ccp_measurements (snd (in_request (record_measurement sf cid v uid device memo) s)) = ccp_measurements s"
proof -
  let ?m = "new_measurement c v uid device memo s" and ?s = "measured c v uid device memo s"
  let ?a = "deviation_ticket sf c v (gen_uuid s) uid device memo"
  note M = measured_simps [OF assms(1), of c v uid device memo]
  note R = record_measurement_unfold [OF assms(1-3), of sf v uid device memo]
  have line: "a_line_id ?a = ccp_line_id c" "a_severity ?a = CRITICAL"
    by (simp_all add: deviation_ticket_def)
  have gen: "generate_ticket_number ?s = Inr number"
    using assms(4) generate_ticket_number_cong [OF M(4,3)] by simp
  show ?thesis
  proof (cases "is_within_limits c v")
    case True
    with R M show ?thesis by (simp add: new_measurement_def)
  next
    case False
    show ?thesis
    proof (cases "\<exists>l. by_key line_id (ccp_line_id c) (lines s) = Some l \<and> line_is_active l")
      case bad: False
      then have "\<not> line_is_active l" if "by_key line_id (a_line_id ?a) (lines ?s) = Some l" for l
        using that by (auto simp: line M(2))
      then obtain msg where "create_ticket ?a ?s = (Inl (TicketError msg), ?s)"
        by (rule create_ticket_bad_line)
      then have run: "record_measurement sf cid v uid device memo s = (Inl (TicketError msg), ?s)"
        using False by (simp add: R Let_def bind_Inl)
      with bad False show ?thesis by (auto simp: in_request_def rollback_def)
    next
      case ok: True
      then obtain l where l: "by_key line_id (ccp_line_id c) (lines s) = Some l" "line_is_active l" by blast
      let ?t = "new_ticket ?a number ?s (gen_uuid ?s)"
      obtain u where u: "create_ticket ?a ?s = (Inr ?t, u)" "tickets u = tickets s @ [?t]"
        "ccp_measurements u = ccp_measurements s @ [?m]"
        using create_ticket_ok [OF M(1) _ l(2) gen, of ?a] l(1) assms(5) M
        by (auto simp: line Let_def)
      define m' where "m' = ?m\<lparr>cm_linked_ticket_id := Some (ticket_id ?t)\<rparr>"
      define t' where "t' = ?t\<lparr>is_ccp_related := True\<rparr>"
      define w where "w = link_measurement (gen_uuid s) (ticket_id ?t)
        (update_ticket (ticket_id ?t) (\<lambda>t. t\<lparr>is_ccp_related := True\<rparr>) u)"
      have run: "record_measurement sf cid v uid device memo s = (Inr m', w)"
        using False u by (simp add: R Let_def bind_Inr m'_def w_def)
      have id: "cm_id ?m = gen_uuid s" by (simp add: new_measurement_def)
      have old: "update_row cm_id (gen_uuid s) f (ccp_measurements s) = ccp_measurements s" for f
        unfolding update_row_def using assms(6) by (intro map_idI) (auto simp: image_iff)
      have t: "t_severity t' = ''critical''" "is_ccp_related t'" "t_line_id t' = ccp_line_id c"
        "status t' = ''new''" "ticket_id t' = ticket_id ?t"
        by (simp_all add: t'_def new_ticket_def Let_def line)
      have m: "measured_value m' = v" "cm_ccp_id m' = ccp_id c" "cm_within_limits m' = is_within_limits c v"
        "cm_linked_ticket_id m' = Some (ticket_id t')"
        by (simp_all add: m'_def t(5) new_measurement_def)
      have ms: "ccp_measurements w = ccp_measurements s @ [m']"
        using old id by (simp add: w_def m'_def link_measurement_def update_ticket_def u(3) update_row_def)
      have ts: "tickets w = map (\<lambda>r. if ticket_id r = ticket_id t' then r\<lparr>is_ccp_related := True\<rparr> else r) (tickets s) @ [t']"
        by (simp add: w_def t(5) link_measurement_def update_ticket_def u(2) update_row_def t'_def del: new_ticket_simps)
      show ?thesis
        unfolding run using ms ts t m False by auto
    qed
  qed
qed

definition sample_haccp :: haccp_db where
  "sample_haccp = ticket_db.extend (sample_tickets SQLite []) (haccp_db.fields [sample_ccp] [])"

lemma sample_haccp_simps [simp]:
  "writable sample_haccp" "tickets sample_haccp = []" "lines sample_haccp = [sample_line]"
  "ccp_definitions sample_haccp = [sample_ccp]" "ccp_measurements sample_haccp = []"
  by (simp_all add: sample_haccp_def ticket_db.defs haccp_db.defs sample_tickets_def
      writable_def audit_update_allowed_def)

lemma sample_haccp_number: "generate_ticket_number sample_haccp = Inr (ticket_prefix 2026 @ zpad 5 1)"
proof -
  have "this_year sample_haccp = this_year (sample_tickets SQLite [])"
    by (simp add: sample_haccp_def ticket_db.defs haccp_db.defs)
  then show ?thesis using sample_year [of SQLite "[]"] by (simp add: generate_ticket_number_def Let_def)
qed

theorem record_measurement_correct_witness:
  "\<exists>m s' t. record_measurement (\<lambda>_. ''250.0'') ''c1'' (Fin 250) None (Some ''oven-1'') None sample_haccp = (Inr m, s') \<and>
     tickets s' = [t] \<and> t_severity t = ''critical'' \<and> cm_linked_ticket_id m = Some (ticket_id t)"
proof -
  have c: "by_key ccp_id ''c1'' (ccp_definitions sample_haccp) = Some sample_ccp" "ccp_is_active sample_ccp"
    "\<not> is_within_limits sample_ccp (Fin 250)" "ccp_line_id sample_ccp = ''L1''"
    by (simp_all add: by_key_def sample_ccp_def is_within_limits_def)
  have l: "by_key line_id ''L1'' [sample_line] = Some sample_line" "line_is_active sample_line"
    by (simp_all add: by_key_def sample_line_def)
  show ?thesis
    using record_measurement_correct [OF _ c(1,2) sample_haccp_number, where sf = "\<lambda>_. ''250.0''"
        and v = "Fin 250" and uid = None and device = "Some ''oven-1''" and memo = None]
      c l
    by (cases "record_measurement (\<lambda>_. ''250.0'') ''c1'' (Fin 250) None (Some ''oven-1'') None sample_haccp")
       (auto split: sum.splits)
qed

end
