(* ===== verification/Salsa.thy ===== *)
theory Salsa
  imports TicketLife
begin

text \<open>
  SALSA checklists: the tables of app/models/salsa.py and app/services/salsa.py. The service
  walks the keys of a Python set; the order of that walk is the parameter \<open>walk\<close> (any
  enumeration of the distinct keys). The dash in the ticket title (U+2014) is the character
  0x97.
\<close>

datatype checklist_frequency = DAILY | SHIFT | WEEKLY | PER_EVENT | MONTHLY

fun frequency_value :: "checklist_frequency \<Rightarrow> string" where
  "frequency_value DAILY = ''daily''"
| "frequency_value SHIFT = ''shift''"
| "frequency_value WEEKLY = ''weekly''"
| "frequency_value PER_EVENT = ''per_event''"
| "frequency_value MONTHLY = ''monthly''"

record salsa_item =
  item_key :: string
  item_prompt_en :: "string option"

record salsa_checklist =
  sc_id :: string
  sc_code :: string
  sc_frequency :: string
  sc_line_id :: "string option"
  sc_is_active :: bool
  sc_items :: "salsa_item list"

text \<open>An answer as the form sends it, and as it is stored.\<close>

record salsa_entry =
  entry_ok :: "json option"
  entry_comment :: "string option"

record salsa_answer =
  answer_ok :: bool
  answer_comment :: "string option"

record salsa_response =
  sr_id :: string
  sr_checklist_id :: string
  responded_by_user_id :: "string option"
  responded_at :: pydt
  sr_answers :: "(string \<times> salsa_answer) list"
  nonconformities_count :: nat
  sr_linked_ticket_id :: "string option"

record salsa_db = ticket_db +
  salsa_checklists :: "salsa_checklist list"
  salsa_responses :: "salsa_response list"

definition list_checklists :: "bool \<Rightarrow> 'a salsa_db_scheme \<Rightarrow> salsa_checklist list" where
  "list_checklists active_only s =
     sort_key sc_code (filter (\<lambda>c. active_only \<longrightarrow> sc_is_active c) (salsa_checklists s))"

definition clean_answer :: "salsa_entry option \<Rightarrow> salsa_answer" where
  "clean_answer e = (case e of
     None \<Rightarrow> \<lparr>answer_ok = False, answer_comment = None\<rparr>
   | Some e \<Rightarrow>
       \<lparr>answer_ok = (case entry_ok e of None \<Rightarrow> False | Some v \<Rightarrow> jtruthy v),
        answer_comment = or_none (take 500 (strip (or_empty (entry_comment e))))\<rparr>)"

definition item_title :: "salsa_item list \<Rightarrow> string \<Rightarrow> string" where
  "item_title items key =
     (case map_of (rev (map (\<lambda>i. (item_key i, item_prompt_en i)) items)) key of
        Some (Some en) \<Rightarrow> en
      | _ \<Rightarrow> key)"

definition salsa_ticket ::
  "salsa_checklist \<Rightarrow> string \<Rightarrow> string list \<Rightarrow> string \<Rightarrow> string option \<Rightarrow> ticket_args" where
  "salsa_ticket c lid failures rid uid =
     \<lparr>a_line_id = lid,
      a_title = take 200 (''SALSA nonconformity: '' @ sc_code c @ '' '' @ [CHR 0x97] @ '' '' @
                          item_title (sc_items c) (hd failures)),
      a_description = Some (digits (length failures) @ '' failed item(s): '' @ join_with '', '' failures),
      a_severity = HIGH,
      a_category = HYGIENE,
      a_source = MANUAL,
      a_created_by = uid,
      a_description_lang = None,
      a_metadata = [(''salsa_checklist'', JStr (sc_code c)), (''salsa_response_id'', JStr rid),
                    (''failed_items'', JList (map JStr failures))]\<rparr>"

definition link_response :: "string \<Rightarrow> string \<Rightarrow> 'a salsa_db_scheme \<Rightarrow> 'a salsa_db_scheme" where
  "link_response rid tid s =
     s\<lparr>salsa_responses := update_row sr_id rid (\<lambda>r. r\<lparr>sr_linked_ticket_id := Some tid\<rparr>) (salsa_responses s)\<rparr>"

definition submit_response ::
  "(string list \<Rightarrow> string list) \<Rightarrow> string \<Rightarrow> (string \<times> salsa_entry) list \<Rightarrow> string option \<Rightarrow>
   ('a salsa_db_scheme, salsa_response) py" where
  "submit_response walk cid answers uid = with_state (\<lambda>s.
     case by_key sc_id cid (salsa_checklists s) of
       None \<Rightarrow> throw (SalsaError (''Checklist '' @ cid @ '' not found''))
     | Some c \<Rightarrow>
         if \<not> sc_is_active c then throw (SalsaError (''Checklist '' @ sc_code c @ '' is inactive''))
         else
           bind take_uuid (\<lambda>rid.
             let valid_keys = walk (map item_key (sc_items c));
                 cleaned = map (\<lambda>k. (k, clean_answer (map_of answers k))) valid_keys;
                 failures = map fst (filter (\<lambda>(k, a). \<not> answer_ok a) cleaned);
                 r = \<lparr>sr_id = rid, sr_checklist_id = sc_id c, responded_by_user_id = uid,
                      responded_at = utcnow s, sr_answers = cleaned,
                      nonconformities_count = length failures, sr_linked_ticket_id = None\<rparr>
             in seq (modify (\<lambda>s. s\<lparr>salsa_responses := salsa_responses s @ [r]\<rparr>))
               (seq (record_entry ''salsa_response'' SUBMIT (Some rid)
                       [(''checklist_code'', JStr (sc_code c)), (''nonconformities'', JInt (int (length failures))),
                        (''failed_items'', JList (map JStr failures))] uid)
               (if failures \<noteq> [] \<and> truthy (sc_line_id c)
                then
                  bind (create_ticket (salsa_ticket c (or_empty (sc_line_id c)) failures rid uid)) (\<lambda>t.
                    seq (modify (link_response rid (ticket_id t)))
                    (ret (r\<lparr>sr_linked_ticket_id := Some (ticket_id t)\<rparr>)))
                else ret r))))"

subsection \<open>The audit contract\<close>

lemma keeps_submit_response [audited]: "keeps log_step (submit_response walk cid answers uid)"
  unfolding submit_response_def
  by (intro audited) (simp_all add: link_response_def)

interpretation salsa_submission: audited_operation "submit_response walk cid answers uid"
  for walk cid answers uid
  by unfold_locales (rule keeps_submit_response)

subsection \<open>Submitting\<close>

definition failed_keys :: "salsa_checklist \<Rightarrow> (string \<times> salsa_entry) list \<Rightarrow> string set" where
  "failed_keys c answers =
     {k \<in> item_key ` set (sc_items c). \<not> answer_ok (clean_answer (map_of answers k))}"

text \<open>What is stored before any ticket is opened.\<close>

definition stored_response ::
  "(string list \<Rightarrow> string list) \<Rightarrow> salsa_checklist \<Rightarrow> (string \<times> salsa_entry) list \<Rightarrow> string option \<Rightarrow>
   'a session_scheme \<Rightarrow> salsa_response" where
  "stored_response walk c answers uid s =
     (let cleaned = map (\<lambda>k. (k, clean_answer (map_of answers k))) (walk (map item_key (sc_items c)))
      in \<lparr>sr_id = gen_uuid s, sr_checklist_id = sc_id c, responded_by_user_id = uid,
          responded_at = utcnow s, sr_answers = cleaned,
          nonconformities_count = length (filter (\<lambda>(k, a). \<not> answer_ok a) cleaned),
          sr_linked_ticket_id = None\<rparr>)"

abbreviation failing :: "salsa_response \<Rightarrow> string list" where
  "failing r \<equiv> map fst (filter (\<lambda>(k, a). \<not> answer_ok a) (sr_answers r))"

definition after_response ::
  "(string list \<Rightarrow> string list) \<Rightarrow> salsa_checklist \<Rightarrow> (string \<times> salsa_entry) list \<Rightarrow> string option \<Rightarrow>
   'a salsa_db_scheme \<Rightarrow> 'a salsa_db_scheme" where
  "after_response walk c answers uid s =
     (let r = stored_response walk c answers uid s
      in snd (record_entry ''salsa_response'' SUBMIT (Some (gen_uuid s))
           [(''checklist_code'', JStr (sc_code c)), (''nonconformities'', JInt (int (nonconformities_count r))),
            (''failed_items'', JList (map JStr (failing r)))] uid
           (s\<lparr>uuid_next := Suc (uuid_next s), salsa_responses := salsa_responses s @ [r]\<rparr>)))"

lemma writable_responses [simp]:
  "writable (s\<lparr>salsa_responses := rs\<rparr>) = writable s"
  "writable (s\<lparr>salsa_responses := rs, uuid_next := n\<rparr>) = writable s"
  by (simp_all add: writable_def audit_update_allowed_def)

lemma after_response_simps:
  assumes "writable s"
  shows "writable (after_response walk c answers uid s)"
    "lines (after_response walk c answers uid s) = lines s"
    "tickets (after_response walk c answers uid s) = tickets s"
    "clock (after_response walk c answers uid s) = clock s"
    "salsa_responses (after_response walk c answers uid s) =
       salsa_responses s @ [stored_response walk c answers uid s]"
  using assms
  by (simp_all add: after_response_def Let_def record_entry_ok)
     (auto simp: writable_def audit_update_allowed_def)

lemma submit_response_unfold:
  assumes "writable s" "by_key sc_id cid (salsa_checklists s) = Some c" "sc_is_active c"
  shows "submit_response walk cid answers uid s =
    (let r = stored_response walk c answers uid s; s' = after_response walk c answers uid s
     in if failing r \<noteq> [] \<and> truthy (sc_line_id c)
        then bind (create_ticket (salsa_ticket c (or_empty (sc_line_id c)) (failing r) (gen_uuid s) uid)) (\<lambda>t.
               seq (modify (link_response (gen_uuid s) (ticket_id t)))
               (ret (r\<lparr>sr_linked_ticket_id := Some (ticket_id t)\<rparr>))) s'
        else (Inr r, s'))"
  using assms
  by (simp add: submit_response_def Let_def bind_Inr seq_Inr take_uuid_def record_entry_ok
      stored_response_def after_response_def utcnow_def filter_map)

lemma stored_response_facts:
  assumes walk: "distinct (walk (map item_key (sc_items c)))"
    "set (walk (map item_key (sc_items c))) = item_key ` set (sc_items c)"
  shows "map_of (sr_answers (stored_response walk c answers uid s)) =
      (\<lambda>k. if k \<in> item_key ` set (sc_items c) then Some (clean_answer (map_of answers k)) else None)"
    "set (failing (stored_response walk c answers uid s)) = failed_keys c answers"
    "nonconformities_count (stored_response walk c answers uid s) = card (failed_keys c answers)"
    "length (failing (stored_response walk c answers uid s)) = card (failed_keys c answers)"
    "sr_id (stored_response walk c answers uid s) = gen_uuid s"
    "sr_linked_ticket_id (stored_response walk c answers uid s) = None"
proof -
  let ?ks = "walk (map item_key (sc_items c))"
  let ?f = "\<lambda>k. clean_answer (map_of answers k)"
  have fail: "failing (stored_response walk c answers uid s) = filter (\<lambda>k. \<not> answer_ok (?f k)) ?ks"
    by (simp add: stored_response_def Let_def filter_map comp_def)
  have cnt: "nonconformities_count (stored_response walk c answers uid s) =
      length (failing (stored_response walk c answers uid s))"
    by (simp add: stored_response_def Let_def)
  show s: "set (failing (stored_response walk c answers uid s)) = failed_keys c answers"
    using walk(2) by (auto simp: fail failed_keys_def)
  have d: "distinct (failing (stored_response walk c answers uid s))"
    using walk(1) by (simp add: fail)
  show l: "length (failing (stored_response walk c answers uid s)) = card (failed_keys c answers)"
    using distinct_card [OF d] s by simp
  show "nonconformities_count (stored_response walk c answers uid s) = card (failed_keys c answers)"
    using l cnt by simp
  have "map_of (map (\<lambda>k. (k, ?f k)) ks) = (\<lambda>k. if k \<in> set ks then Some (?f k) else None)" for ks
    by (induction ks) (auto simp: fun_eq_iff)
  then show "map_of (sr_answers (stored_response walk c answers uid s)) =
      (\<lambda>k. if k \<in> item_key ` set (sc_items c) then Some (?f k) else None)"
    using walk(2) by (simp add: stored_response_def Let_def)
qed (simp_all add: stored_response_def Let_def)

text \<open>
  C11. Submitting a checklist. Whatever order Python walks the key set in, the stored response
  answers every item of the checklist and nothing else (a missing answer counts as failed), its
  nonconformity count is the number of failed items, and a ticket is opened exactly when an item
  failed and the checklist belongs to a line: one ticket on that line, high severity, hygiene,
  linked from the response. If that line is inactive or gone, TicketError is raised and the
  request leaves no response behind.
\<close>

theorem submit_response_correct:
  assumes "writable s" "by_key sc_id cid (salsa_checklists s) = Some c" "sc_is_active c"
    "generate_ticket_number s = Inr number" "number \<notin> ticket_number ` set (tickets s)"
    "gen_uuid s \<notin> sr_id ` set (salsa_responses s)"
    "distinct (walk (map item_key (sc_items c)))"
    "set (walk (map item_key (sc_items c))) = item_key ` set (sc_items c)"
  shows "case submit_response walk cid answers uid s of
      (Inr r, s') \<Rightarrow> salsa_responses s' = salsa_responses s @ [r] \<and>
        map_of (sr_answers r) =
          (\<lambda>k. if k \<in> item_key ` set (sc_items c) then Some (clean_answer (map_of answers k)) else None) \<and>
        nonconformities_count r = card (failed_keys c answers) \<and>
        (if failed_keys c answers = {} \<or> \<not> truthy (sc_line_id c)
         then tickets s' = tickets s \<and> sr_linked_ticket_id r = None
         else \<exists>t. tickets s' = tickets s @ [t] \<and> t_severity t = ''high'' \<and> t_category t = ''hygiene'' \<and>
                sc_line_id c = Some (t_line_id t) \<and> sr_linked_ticket_id r = Some (ticket_id t))
    | (Inl e, s') \<Rightarrow> failed_keys c answers \<noteq> {} \<and> truthy (sc_line_id c) \<and> (\<exists>msg. e = TicketError msg) \<and>
        (\<forall>l. by_key line_id (or_empty (sc_line_id c)) (lines s) = Some l \<longrightarrow> \<not> line_is_active l) \<and>
        salsa_responses (snd (in_request (submit_response walk cid answers uid) s)) = salsa_responses s"
proof -
  let ?r = "stored_response walk c answers uid s" and ?s = "after_response walk c answers uid s"
  let ?a = "salsa_ticket c (or_empty (sc_line_id c)) (failing ?r) (gen_uuid s) uid"
  note M = after_response_simps [OF assms(1), of walk c answers uid]
  note R = submit_response_unfold [OF assms(1-3), of walk answers uid]
  note S = stored_response_facts [where walk = walk and c = c and answers = answers and uid = uid and s = s, OF assms(7,8)]
  have line: "a_line_id ?a = or_empty (sc_line_id c)" by (simp add: salsa_ticket_def)
  have gen: "generate_ticket_number ?s = Inr number"
    using assms(4) generate_ticket_number_cong [OF M(4,3)] by simp
  have fe: "failing ?r = [] \<longleftrightarrow> failed_keys c answers = {}" by (metis S(2) set_empty)
  show ?thesis
  proof (cases "failed_keys c answers = {} \<or> \<not> truthy (sc_line_id c)")
    case True
    with fe have "submit_response walk cid answers uid s = (Inr ?r, ?s)" by (auto simp: R Let_def)
    with True M S show ?thesis by simp
  next
    case False
    with fe have go: "failing ?r \<noteq> []" "truthy (sc_line_id c)" by auto
    have run: "submit_response walk cid answers uid s = bind (create_ticket ?a) (\<lambda>t.
        seq (modify (link_response (gen_uuid s) (ticket_id t)))
        (ret (?r\<lparr>sr_linked_ticket_id := Some (ticket_id t)\<rparr>))) ?s"
      using go by (simp add: R Let_def)
    show ?thesis
    proof (cases "\<exists>l. by_key line_id (or_empty (sc_line_id c)) (lines s) = Some l \<and> line_is_active l")
      case bad: False
      then have "\<not> line_is_active l" if "by_key line_id (a_line_id ?a) (lines ?s) = Some l" for l
        using that by (auto simp: line M(2))
      then obtain msg where "create_ticket ?a ?s = (Inl (TicketError msg), ?s)"
        by (rule create_ticket_bad_line)
      then have "submit_response walk cid answers uid s = (Inl (TicketError msg), ?s)"
        by (simp add: run bind_Inl)
      with bad False go show ?thesis by (auto simp: in_request_def rollback_def)
    next
      case ok: True
      then obtain l where l: "by_key line_id (or_empty (sc_line_id c)) (lines s) = Some l" "line_is_active l" by blast
      let ?t = "new_ticket ?a number ?s (gen_uuid ?s)"
      obtain u where u: "create_ticket ?a ?s = (Inr ?t, u)" "tickets u = tickets s @ [?t]"
        "salsa_responses u = salsa_responses s @ [?r]"
        using create_ticket_ok [OF M(1) _ l(2) gen, of ?a] l(1) assms(5) M
        by (auto simp: line Let_def)
      define t' where "t' = ?t"
      define r' where "r' = ?r\<lparr>sr_linked_ticket_id := Some (ticket_id t')\<rparr>"
      define w where "w = link_response (gen_uuid s) (ticket_id t') u"
      have done': "submit_response walk cid answers uid s = (Inr r', w)"
        using u by (simp add: run bind_Inr r'_def w_def t'_def)
      have old: "update_row sr_id (gen_uuid s) f (salsa_responses s) = salsa_responses s" for f
        unfolding update_row_def using assms(6) by (intro map_idI) (auto simp: image_iff)
      have t: "t_severity t' = ''high''" "t_category t' = ''hygiene''" "sc_line_id c = Some (t_line_id t')"
        using go by (auto simp: t'_def new_ticket_def Let_def salsa_ticket_def truthy_def or_empty_def split: option.splits)
      have r: "map_of (sr_answers r') = map_of (sr_answers ?r)" "nonconformities_count r' = card (failed_keys c answers)"
        "sr_linked_ticket_id r' = Some (ticket_id t')"
        using S by (simp_all add: r'_def)
      have "salsa_responses w = salsa_responses s @ [r']"
        using old S(5) by (simp add: w_def r'_def link_response_def u(3) update_row_def)
      moreover have "tickets w = tickets s @ [t']" by (simp add: w_def link_response_def u(2) t'_def)
      ultimately show ?thesis
        unfolding done' using t r False S(1) by auto
    qed
  qed
qed

definition sample_checklist :: salsa_checklist where
  "sample_checklist = \<lparr>sc_id = ''q1'', sc_code = ''HYG'', sc_frequency = frequency_value DAILY,
     sc_line_id = Some ''L1'', sc_is_active = True,
     sc_items = [\<lparr>item_key = ''hands'', item_prompt_en = Some ''Hands washed?''\<rparr>]\<rparr>"

definition sample_salsa :: salsa_db where
  "sample_salsa = ticket_db.extend (sample_tickets SQLite []) (salsa_db.fields [sample_checklist] [])"

lemma sample_salsa_simps [simp]:
  "writable sample_salsa" "tickets sample_salsa = []" "lines sample_salsa = [sample_line]"
  "salsa_checklists sample_salsa = [sample_checklist]" "salsa_responses sample_salsa = []"
  by (simp_all add: sample_salsa_def ticket_db.defs salsa_db.defs sample_tickets_def
      writable_def audit_update_allowed_def)

lemma sample_salsa_number: "generate_ticket_number sample_salsa = Inr (ticket_prefix 2026 @ zpad 5 1)"
proof -
  have "this_year sample_salsa = this_year (sample_tickets SQLite [])"
    by (simp add: sample_salsa_def ticket_db.defs salsa_db.defs)
  then show ?thesis using sample_year [of SQLite "[]"] by (simp add: generate_ticket_number_def Let_def)
qed

theorem submit_response_correct_witness:
  "\<exists>r s' t. submit_response remdups ''q1'' [] None sample_salsa = (Inr r, s') \<and>
     nonconformities_count r = 1 \<and> tickets s' = [t] \<and> t_severity t = ''high''"
proof -
  have c: "by_key sc_id ''q1'' (salsa_checklists sample_salsa) = Some sample_checklist"
    "sc_is_active sample_checklist" "sc_line_id sample_checklist = Some ''L1''"
    by (simp_all add: by_key_def sample_checklist_def)
  have k: "failed_keys sample_checklist [] = {''hands''}"
    by (auto simp: failed_keys_def sample_checklist_def clean_answer_def)
  have l: "by_key line_id ''L1'' [sample_line] = Some sample_line" "line_is_active sample_line"
    by (simp_all add: by_key_def sample_line_def)
  have w: "truthy (Some ''L1'')" "or_empty (Some ''L1'') = ''L1''" by (simp_all add: truthy_def or_empty_def)
  show ?thesis
    using submit_response_correct [OF _ c(1,2) sample_salsa_number, where walk = remdups and answers = "[]" and uid = None]
      c k l w
    by (cases "submit_response remdups ''q1'' [] None sample_salsa") (auto split: sum.splits)
qed

end
