(* ===== verification/Views.thy ===== *)
theory Views
  imports Haccp Salsa
begin

text \<open>
  The state-changing views of app/blueprints/tickets.py, haccp.py and salsa.py: who may call
  them, what they catch, and when they commit. A form has been validated when the view runs; the
  rendering of a page is the response \<open>Page\<close>.
\<close>

text \<open>
  \<open>try: m; commit() except <p>: rollback(); flash()\<close>; another exception leaves the view and the
  teardown of the request rolls back.
\<close>

definition committing ::
  "(exc \<Rightarrow> bool) \<Rightarrow> ('a audit_db_scheme, 'b) py \<Rightarrow> ('b \<Rightarrow> response) \<Rightarrow> response \<Rightarrow> ('a audit_db_scheme, response) py" where
  "committing p m good bad = (\<lambda>s. case m s of
     (Inr x, s') \<Rightarrow> (Inr (good x), commit s')
   | (Inl e, s') \<Rightarrow> if p e then (Inr bad, rollback s s') else (Inl e, rollback s s'))"

fun is_ticket_error :: "exc \<Rightarrow> bool" where
  "is_ticket_error (TicketError m) = True"
| "is_ticket_error _ = False"

fun is_haccp_error :: "exc \<Rightarrow> bool" where
  "is_haccp_error (HACCPError m) = True"
| "is_haccp_error _ = False"

fun is_salsa_error :: "exc \<Rightarrow> bool" where
  "is_salsa_error (SalsaError m) = True"
| "is_salsa_error _ = False"

definition ticket_url :: "string \<Rightarrow> string" where
  "ticket_url tid = ''/tickets/'' @ tid"

subsection \<open>Tickets\<close>

definition tickets_create_post ::
  "string \<Rightarrow> string \<Rightarrow> string option \<Rightarrow> ticket_severity \<Rightarrow> ticket_category \<Rightarrow> string option \<Rightarrow>
   ('a ticket_db_scheme, response) py" where
  "tickets_create_post lid ttl descr sev cat lang =
     require_permission (perm_code TICKETS_CREATE) ''/tickets/new'' (\<lambda>u.
       committing is_ticket_error
         (create_ticket \<lparr>a_line_id = lid, a_title = ttl, a_description = descr, a_severity = sev,
            a_category = cat, a_source = MANUAL, a_created_by = Some (u_id u),
            a_description_lang = Some (if truthy lang then or_empty lang else language u), a_metadata = []\<rparr>)
         (\<lambda>t. Redirect (ticket_url (ticket_id t))) Page)"

definition tickets_comment_post :: "string \<Rightarrow> string \<Rightarrow> ('a ticket_db_scheme, response) py" where
  "tickets_comment_post tid comment =
     require_permission (perm_code TICKETS_VIEW) (ticket_url tid) (\<lambda>u. with_state (\<lambda>s.
       case by_key ticket_id tid (tickets s) of
         None \<Rightarrow> ret (Abort 404)
       | Some t \<Rightarrow>
           if \<not> has_permission u (perm_code TICKETS_CLASSIFY) s then ret (Abort 403)
           else committing (\<lambda>_. False) (add_comment tid (u_id u) comment) (\<lambda>_. Redirect (ticket_url tid)) Page))"

definition tickets_assign_post :: "string \<Rightarrow> string option \<Rightarrow> ('a ticket_db_scheme, response) py" where
  "tickets_assign_post tid assignee =
     require_permission (perm_code TICKETS_CLASSIFY) (ticket_url tid @ ''/assign'') (\<lambda>u. with_state (\<lambda>s.
       case by_key ticket_id tid (tickets s) of
         None \<Rightarrow> ret (Abort 404)
       | Some t \<Rightarrow>
           if \<not> truthy assignee
           then seq (modify (update_ticket tid (\<lambda>t. t\<lparr>assigned_to_user_id := None\<rparr>)))
                 (seq (modify commit) (ret (Redirect (ticket_url tid))))
           else committing is_ticket_error (assign_to tid (or_empty assignee) (Some (u_id u)))
                  (\<lambda>_. Redirect (ticket_url tid)) (Redirect (ticket_url tid))))"

definition tickets_transition_post :: "string \<Rightarrow> string \<Rightarrow> string option \<Rightarrow> ('a ticket_db_scheme, response) py" where
  "tickets_transition_post tid target comment =
     require_permission (perm_code TICKETS_CLASSIFY) (ticket_url tid @ ''/transition'') (\<lambda>u. with_state (\<lambda>s.
       case by_key ticket_id tid (tickets s) of
         None \<Rightarrow> ret (Abort 404)
       | Some t \<Rightarrow>
           (case status_of target of
              None \<Rightarrow> ret (Abort 400)
            | Some new_status \<Rightarrow>
                if new_status = CLOSED \<and> \<not> has_permission u (perm_code TICKETS_CLOSE) s then ret (Abort 403)
                else committing is_ticket_error (transition tid new_status (Some (u_id u)) comment)
                       (\<lambda>_. Redirect (ticket_url tid)) (Redirect (ticket_url tid)))))"

subsection \<open>Measurements and checklists\<close>

definition haccp_detail_post ::
  "(pyfloat \<Rightarrow> string) \<Rightarrow> string \<Rightarrow> pyfloat \<Rightarrow> string option \<Rightarrow> string option \<Rightarrow> ('a haccp_db_scheme, response) py" where
  "haccp_detail_post show_float cid v device memo =
     require_permission (perm_code CCP_MEASURE) (''/haccp/'' @ cid) (\<lambda>u. with_state (\<lambda>s.
       case by_key ccp_id cid (ccp_definitions s) of
         None \<Rightarrow> ret (Abort 404)
       | Some c \<Rightarrow>
           committing is_haccp_error
             (record_measurement show_float (ccp_id c) v (Some (u_id u)) (or_none (or_empty device)) (or_none (or_empty memo)))
             (\<lambda>_. Redirect (''/haccp/'' @ cid)) Page))"

text \<open>The answers of the form: for every item, its radio button and its comment.\<close>

definition form_answers :: "(string \<Rightarrow> string option) \<Rightarrow> salsa_item list \<Rightarrow> (string \<times> salsa_entry) list" where
  "form_answers form items =
     map (\<lambda>i. (item_key i,
               \<lparr>entry_ok = Some (JBool (form (''item__'' @ item_key i @ ''__ok'') = Some ''yes'')),
                entry_comment = Some (or_empty (form (''item__'' @ item_key i @ ''__comment'')))\<rparr>)) items"

definition salsa_fill_post ::
  "(string list \<Rightarrow> string list) \<Rightarrow> string \<Rightarrow> (string \<Rightarrow> string option) \<Rightarrow> ('a salsa_db_scheme, response) py" where
  "salsa_fill_post walk cid form =
     require_permission (perm_code SALSA_RESPOND) (''/salsa/'' @ cid) (\<lambda>u. with_state (\<lambda>s.
       case by_key sc_id cid (salsa_checklists s) of
         None \<Rightarrow> ret (Abort 404)
       | Some c \<Rightarrow>
           if \<not> sc_is_active c then ret (Abort 404)
           else committing is_salsa_error
                  (submit_response walk (sc_id c) (form_answers form (sc_items c)) (Some (u_id u)))
                  (\<lambda>_. Redirect ''/salsa/'') Page))"

subsection \<open>The audit contract\<close>

lemma keeps_committing [audited]:
  assumes "keeps log_step m"
  shows "keeps log_step (committing p m good bad)"
proof
  fix s
  have "log_step s (snd (m s))" using assms by (rule keepsD)
  then show "log_step s (snd (committing p m good bad s))"
    by (auto simp: committing_def commit_def rollback_def log_step_def log_wf_def
        split: prod.splits sum.splits)
qed

lemma keeps_permission [audited]:
  "(\<And>u. keeps log_step (view u)) \<Longrightarrow> keeps log_step (require_permission code path view)"
  by (rule keeps_require_permission)

interpretation ticket_assign_view: audited_operation "tickets_assign_post tid a" for tid a
  by unfold_locales (auto simp: tickets_assign_post_def intro!: audited)

interpretation ticket_transition_view: audited_operation "tickets_transition_post tid target c" for tid target c
  by unfold_locales (auto simp: tickets_transition_post_def intro!: audited)

interpretation haccp_view: audited_operation "haccp_detail_post sf cid v d n" for sf cid v d n
  by unfold_locales (auto simp: haccp_detail_post_def intro!: audited)

interpretation salsa_view: audited_operation "salsa_fill_post walk cid form" for walk cid form
  by unfold_locales (auto simp: salsa_fill_post_def intro!: audited)

subsection \<open>Who may change a ticket\<close>

lemma committing_tickets:
  "tickets (snd (committing p m good bad s)) \<noteq> tickets s \<Longrightarrow>
     \<exists>x s'. m s = (Inr x, s') \<and> tickets (snd (committing p m good bad s)) = tickets s'"
  by (auto simp: committing_def commit_def rollback_def split: prod.splits sum.splits if_splits)

lemma require_permission_tickets:
  assumes "tickets (snd (require_permission code path view s)) \<noteq> tickets s"
  obtains u where "current_user s = Some u" "has_permission u code s"
    "snd (require_permission code path view s) = snd (view u s)"
proof (cases "current_user s")
  case None
  with assms that show thesis by (simp add: require_permission_def)
next
  case (Some u)
  show thesis
  proof (cases "has_permission u code s")
    case True
    with Some that show thesis by (simp add: require_permission_def)
  next
    case False
    obtain r s' where r: "record_entry ''access'' DENIED None [(''required'', JStr code), (''path'', JStr path)] None s = (r, s')"
      "tickets s' = tickets s"
      using record_entry_frame(1) [of "''access''" DENIED None "[(''required'', JStr code), (''path'', JStr path)]" None s]
      by (metis prod.collapse)
    with Some False assms show thesis
      by (cases r) (simp_all add: require_permission_def seq_Inr seq_Inl commit_def)
  qed
qed

text \<open>
  C12. Moving a ticket needs the permission for it. Whatever is posted to the transition view, a
  ticket row changes only when the signed-in user's role carries tickets.classify, it is the
  addressed ticket that moves, along the transition table, and it becomes closed only when the
  role carries tickets.close too.
\<close>

theorem transition_view_authorised:
  assumes "tickets (snd (tickets_transition_post tid target c s)) \<noteq> tickets s"
  shows "\<exists>u t cur new. current_user s = Some u \<and> has_permission u ''tickets.classify'' s \<and>
    by_key ticket_id tid (tickets s) = Some t \<and> status t = status_value cur \<and>
    target = status_value new \<and> new \<in> set (TICKET_TRANSITIONS cur) \<and>
    tickets (snd (tickets_transition_post tid target c s)) =
      update_row ticket_id tid (apply_transition new (Some (u_id u)) (utcnow s)) (tickets s) \<and>
    (new = CLOSED \<longrightarrow> has_permission u ''tickets.close'' s)"
proof -
  obtain u where u: "current_user s = Some u" "has_permission u ''tickets.classify'' s"
    "snd (tickets_transition_post tid target c s) = snd ((case by_key ticket_id tid (tickets s) of
         None \<Rightarrow> ret (Abort 404)
       | Some t \<Rightarrow> (case status_of target of None \<Rightarrow> ret (Abort 400)
            | Some new_status \<Rightarrow>
                if new_status = CLOSED \<and> \<not> has_permission u ''tickets.close'' s then ret (Abort 403)
                else committing is_ticket_error (transition tid new_status (Some (u_id u)) c)
                       (\<lambda>_. Redirect (ticket_url tid)) (Redirect (ticket_url tid)))) s)"
    using assms unfolding tickets_transition_post_def perm_code.simps
    by (rule require_permission_tickets) (simp only: with_state_apply)
  from assms u(3) obtain t new where N: "by_key ticket_id tid (tickets s) = Some t" "status_of target = Some new"
    "new = CLOSED \<longrightarrow> has_permission u ''tickets.close'' s"
    "snd (tickets_transition_post tid target c s) =
       snd (committing is_ticket_error (transition tid new (Some (u_id u)) c)
              (\<lambda>_. Redirect (ticket_url tid)) (Redirect (ticket_url tid)) s)"
    by (auto split: option.splits if_splits)
  obtain x s' where run: "transition tid new (Some (u_id u)) c s = (Inr x, s')"
    "tickets (snd (tickets_transition_post tid target c s)) = tickets s'"
    using committing_tickets [of is_ticket_error "transition tid new (Some (u_id u)) c" _ _ s] assms N(4)
    by metis
  obtain t' cur where T: "by_key ticket_id tid (tickets s) = Some t'" "status t' = status_value cur"
    "new \<in> set (TICKET_TRANSITIONS cur)"
    "tickets s' = update_row ticket_id tid (apply_transition new (Some (u_id u)) (utcnow s)) (tickets s)"
    using run(1) by (rule transition_Inr)
  with u(1,2) N run(2) show ?thesis by (auto simp: status_of_Some)
qed

definition sample_request :: "ticket list \<Rightarrow> ticket_db" where
  "sample_request ts = (sample_tickets SQLite ts)
     \<lparr>request_context := Some \<lparr>remote_addr = None, user_agent_string = [], current_user_id = Some ''u1''\<rparr>,
      users := [sample_user None],
      roles := [\<lparr>role_id = ''r1'', role_code = ''qa'', role_permissions = [''tickets.classify'']\<rparr>]\<rparr>"

lemma sample_request_run:
  "tickets (snd (tickets_transition_post ''1'' ''assigned'' None (sample_request [sample_ticket ''1'' ''n'' NEW]))) =
     [apply_transition ASSIGNED (Some ''u1'') (utcnow (sample_request [])) (sample_ticket ''1'' ''n'' NEW)]"
proof -
  let ?s = "sample_request [sample_ticket ''1'' ''n'' NEW]"
  have u: "current_user ?s = Some (sample_user None)" "has_permission (sample_user None) ''tickets.classify'' ?s"
    "u_id (sample_user None) = ''u1''"
    by (simp_all add: current_user_def session_user_id_def sample_request_def by_key_def sample_user_def
        has_permission_def role_of_def role_has_permission_def)
  have w: "writable ?s" by (simp add: sample_request_def sample_tickets_def writable_def audit_update_allowed_def)
  have t: "tickets ?s = [sample_ticket ''1'' ''n'' NEW]" "by_key ticket_id ''1'' [sample_ticket ''1'' ''n'' NEW] = Some (sample_ticket ''1'' ''n'' NEW)"
    "status (sample_ticket ''1'' ''n'' NEW) = ''new''" "ticket_id (sample_ticket ''1'' ''n'' NEW) = ''1''"
    by (simp_all add: sample_request_def by_key_def sample_ticket_def)
  have st: "status_of ''assigned'' = Some ASSIGNED" "status_of ''new'' = Some NEW"
    using status_of_value [of ASSIGNED] status_of_value [of NEW] by simp_all
  have now: "utcnow ?s = utcnow (sample_request [])" by (simp add: sample_request_def utcnow_def sample_tickets_def)
  show ?thesis
    using u w by (simp add: tickets_transition_post_def require_permission_def t st committing_def transition_def
        seq_Inr bind_Inr record_entry_ok update_ticket_def update_row_def commit_def now)
qed

theorem transition_view_authorised_witness:
  "\<exists>u. current_user (sample_request [sample_ticket ''1'' ''n'' NEW]) = Some u \<and>
     has_permission u ''tickets.classify'' (sample_request [sample_ticket ''1'' ''n'' NEW])"
proof -
  have "tickets (snd (tickets_transition_post ''1'' ''assigned'' None (sample_request [sample_ticket ''1'' ''n'' NEW])))
      \<noteq> tickets (sample_request [sample_ticket ''1'' ''n'' NEW])"
    unfolding sample_request_run by (simp add: sample_request_def sample_ticket_def apply_transition_def)
  from transition_view_authorised [OF this] show ?thesis by blast
qed

end
