(* ===== verification/Jobs.thy ===== *)
theory Jobs
  imports Queue
begin

text \<open>
  The jobs the queues run (app/jobs/webhook.py, sms.py, email.py) and the dead-letter view over
  RQ's failed-job registries (app/services/dlq.py). The network is a parameter: name resolution,
  the classification of an address, and what a server answers; what a job does to the outside is
  the list of its effects, in order.
\<close>

subsection \<open>Effects\<close>

datatype effect =
    DrainRetries
  | HttpPost string json "(string \<times> string) list"
  | SmtpSend "string list" string string "string option"

type_synonym 'a job = "(exc + 'a) \<times> effect list"

subsection \<open>URLs\<close>

definition scheme_char :: "char \<Rightarrow> bool" where
  "scheme_char c \<longleftrightarrow> (let n = of_char (lower_char c) :: nat
     in 97 \<le> n \<and> n \<le> 122 \<or> is_digit c \<or> c \<in> {CHR ''+'', CHR ''-'', CHR ''.''})"

definition alpha_char :: "char \<Rightarrow> bool" where
  "alpha_char c \<longleftrightarrow> (let n = of_char (lower_char c) :: nat in 97 \<le> n \<and> n \<le> 122)"

text \<open>
  \<open>urlparse\<close>: leading blanks and control characters and every tab and newline are dropped; the
  scheme is what stands before the first colon when it has the form of a scheme; the network
  location follows two slashes, up to the next slash, question mark or hash.
\<close>

definition url_clean :: "string \<Rightarrow> string" where
  "url_clean u = filter (\<lambda>c. c \<notin> {CHR 0x09, CHR 0x0A, CHR 0x0D})
     (dropWhile (\<lambda>c. (of_char c :: nat) \<le> 32) u)"

definition url_split_scheme :: "string \<Rightarrow> string \<times> string" where
  "url_split_scheme u =
     (let (s, found, rest) = partition_on (CHR '':'') u
      in if found \<and> s \<noteq> [] \<and> alpha_char (hd s) \<and> list_all scheme_char s then (lower s, rest) else ([], u))"

definition url_scheme :: "string \<Rightarrow> string" where
  "url_scheme u = fst (url_split_scheme (url_clean u))"

definition url_netloc :: "string \<Rightarrow> string" where
  "url_netloc u =
     (let rest = snd (url_split_scheme (url_clean u))
      in if startswith rest ''//''
         then takeWhile (\<lambda>c. c \<notin> {CHR ''/'', CHR ''?'', CHR ''#''}) (drop 2 rest) else [])"

text \<open>\<open>parsed.hostname\<close>: without the user info and the port, in lower case.\<close>

definition url_hostname :: "string \<Rightarrow> string" where
  "url_hostname u =
     (let hostinfo = last (split_on (CHR ''@'') (url_netloc u))
      in lower (case hostinfo of
           [] \<Rightarrow> []
         | c # cs \<Rightarrow> if c = CHR ''['' then takeWhile (\<lambda>x. x \<noteq> CHR '']'') cs
                     else takeWhile (\<lambda>x. x \<noteq> CHR '':'') (c # cs)))"

subsection \<open>Webhooks\<close>

text \<open>What the ipaddress module says of an address.\<close>

record ip_flags =
  is_loopback :: bool
  is_link_local :: bool
  is_private :: bool
  is_reserved :: bool
  is_multicast :: bool
  is_unspecified :: bool

definition public_address :: "ip_flags \<Rightarrow> bool" where
  "public_address f \<longleftrightarrow> \<not> (is_loopback f \<or> is_link_local f \<or> is_private f \<or> is_reserved f \<or>
     is_multicast f \<or> is_unspecified f)"

text \<open>
  The network: \<open>getaddrinfo\<close> gives the addresses of a name or fails, \<open>ip_address\<close> classifies an
  address or raises ValueError, and a POST is answered by a status and a body, or fails.
\<close>

record network =
  getaddrinfo :: "string \<Rightarrow> string list option"
  ip_address_of :: "string \<Rightarrow> ip_flags option"
  http_post :: "string \<Rightarrow> json \<Rightarrow> (int \<times> string) option"
  smtp_accepts :: "string \<Rightarrow> int \<Rightarrow> bool"
  hmac_hex :: "string \<Rightarrow> json \<Rightarrow> string"

definition is_safe_outbound_host :: "network \<Rightarrow> string \<Rightarrow> bool" where
  "is_safe_outbound_host net hostname =
     (case getaddrinfo net hostname of
        None \<Rightarrow> False
      | Some infos \<Rightarrow> list_all (\<lambda>a. case ip_address_of net a of None \<Rightarrow> False | Some f \<Rightarrow> public_address f) infos)"

definition validate_outbound_url :: "network \<Rightarrow> bool \<Rightarrow> string \<Rightarrow> exc option" where
  "validate_outbound_url net allow_private url =
     (if url_scheme url \<notin> {''http'', ''https''}
      then Some (UnsafeWebhookURL (''unsupported scheme: '' @ url_scheme url))
      else if url_hostname url = [] then Some (UnsafeWebhookURL ''missing hostname'')
      else if allow_private then None
      else if \<not> is_safe_outbound_host net (url_hostname url)
      then Some (UnsafeWebhookURL (''host '' @ url_hostname url @ '' resolves to a non-routable address''))
      else None)"

definition webhook_headers :: "network \<Rightarrow> json \<Rightarrow> string option \<Rightarrow> int \<Rightarrow> (string \<times> string) list" where
  "webhook_headers net body secret now =
     [(''Content-Type'', ''application/json''), (''User-Agent'', ''qms-webhook/1.0'')] @
     (if truthy secret
      then [(''X-QMS-Signature'', ''sha256='' @ hmac_hex net (or_empty secret) body),
            (''X-QMS-Timestamp'', show_int (unix_seconds now))]
      else [])"

definition post_webhook ::
  "network \<Rightarrow> string \<Rightarrow> json \<Rightarrow> string option \<Rightarrow> bool \<Rightarrow> int \<Rightarrow> (int \<times> nat) job" where
  "post_webhook net url payload secret allow_private now =
     (case validate_outbound_url net allow_private url of
        Some e \<Rightarrow> (Inl e, [DrainRetries])
      | None \<Rightarrow>
          (let body = sort_keys payload;
               sent = [HttpPost url body (webhook_headers net body secret now)]
           in case http_post net url body of
                None \<Rightarrow> (Inl (ConnectionError url), sent)
              | Some (code, content) \<Rightarrow>
                  if 400 \<le> code \<and> code < 600 then (Inl (HTTPError url), sent)
                  else (Inr (code, length content), sent)))"

subsection \<open>SMS and email\<close>

definition SMS_MAX_BODY_CHARS :: nat where
  "SMS_MAX_BODY_CHARS = 1530"

definition sms_payload :: "string list \<Rightarrow> string \<Rightarrow> string \<Rightarrow> json" where
  "sms_payload recipients source body =
     JObj [(''messages'', JList (map (\<lambda>n. JObj [(''to'', JStr n), (''source'', JStr source),
        (''body'', JStr (take SMS_MAX_BODY_CHARS body))]) recipients))]"

definition send_sms ::
  "network \<Rightarrow> string list \<Rightarrow> string \<Rightarrow> string \<Rightarrow> string \<Rightarrow> string \<Rightarrow> string \<Rightarrow> (string list \<times> int) job" where
  "send_sms net recipients body username api_key source base_url =
     (let tos = filter (\<lambda>n. n \<noteq> []) (map strip recipients)
      in if tos = [] then (Inl (ValueError ''send_sms requires at least one recipient''), [])
         else if username = [] \<or> api_key = []
         then (Inl (ValueError ''send_sms requires ClickSend username + api_key''), [])
         else if body = [] then (Inl (ValueError ''send_sms requires a non-empty body''), [])
         else
           let payload = sms_payload tos source body;
               url = rstrip_char (CHR ''/'') base_url @ ''/sms/send'';
               sent = [HttpPost url payload []]
           in case http_post net url payload of
                None \<Rightarrow> (Inl (ConnectionError url), sent)
              | Some (code, answer) \<Rightarrow>
                  if 400 \<le> code \<and> code < 500 \<and> code \<noteq> 429
                  then (Inl (PermanentSMSError (''ClickSend rejected SMS ('' @ show_int code @ ''): '' @ take 200 answer)),
                        sent @ [DrainRetries])
                  else if 400 \<le> code \<and> code < 600 then (Inl (HTTPError url), sent)
                  else (Inr (tos, code), sent))"

text \<open>\<open>_redact_email\<close>, for the log lines.\<close>

definition redact_email :: "string \<Rightarrow> string" where
  "redact_email addr =
     (let (local_part, found, domain) = partition_on (CHR ''@'') addr
      in if domain = [] then ''***'' else take 1 local_part @ ''***@'' @ domain)"

definition send_email ::
  "network \<Rightarrow> string list \<Rightarrow> string \<Rightarrow> string \<Rightarrow> string option \<Rightarrow> string \<Rightarrow> int \<Rightarrow> string \<Rightarrow> (string list \<times> string) job" where
  "send_email net recipients subject body_text body_html host port sender =
     (if recipients = [] then (Inl (ValueError ''send_email requires at least one recipient''), [])
      else if sender = [] then (Inl (ValueError ''send_email requires a sender''), [])
      else if \<not> smtp_accepts net host port then (Inl (ConnectionError host), [])
      else (Inr (recipients, subject),
            [SmtpSend recipients subject body_text (or_none (or_empty body_html))]))"

subsection \<open>The outbound guard\<close>


definition sample_network :: network where
  "sample_network = \<lparr>getaddrinfo = (\<lambda>h. if h = ''ok.example'' then Some [''93.184.216.34''] else None),
     ip_address_of = (\<lambda>_. Some \<lparr>is_loopback = False, is_link_local = False, is_private = False,
        is_reserved = False, is_multicast = False, is_unspecified = False\<rparr>),
     http_post = (\<lambda>_ _. Some (200, ''ok'')), smtp_accepts = (\<lambda>_ _. True), hmac_hex = (\<lambda>_ _. ''sig'')\<rparr>"


subsection \<open>Dead letters\<close>

text \<open>A job as RQ stores it, and RQ's failed-job registries as an interface.\<close>

record rq_job =
  rj_id :: string
  rj_func_name :: "string option"
  rj_enqueued_at :: "pydt option"
  rj_ended_at :: "pydt option"
  rj_exc_info :: "string option"
  rj_kwargs :: "(string \<times> json) list"

record 'r rq =
  rq_failed :: "'r \<Rightarrow> string \<Rightarrow> string list"
  rq_fetch :: "'r \<Rightarrow> string \<Rightarrow> rq_job option"
  rq_requeue :: "string \<Rightarrow> string \<Rightarrow> 'r \<Rightarrow> 'r"
  rq_remove :: "string \<Rightarrow> string \<Rightarrow> 'r \<Rightarrow> 'r"

record failed_job_view =
  fv_id :: string
  fv_queue :: string
  fv_func_name :: string
  fv_enqueued_at :: "string option"
  fv_failed_at :: "string option"
  fv_exc_summary :: string
  fv_kwargs :: "(string \<times> json) list"

text \<open>\<open>dt.isoformat(timespec="seconds")\<close>.\<close>

definition iso_seconds :: "pydt \<Rightarrow> string" where
  "iso_seconds d = (case d of
     Aware t \<Rightarrow> isoformat (Aware (t - t mod us_second))
   | Naive t \<Rightarrow> isoformat (Naive (t - t mod us_second)))"

fun safe_value :: "json \<Rightarrow> json" where
  "safe_value (JStr v) = (if length v > 200 then JStr (take 200 v @ [CHR 0x85]) else JStr v)"
| "safe_value v = v"

definition from_job :: "rq_job \<Rightarrow> string \<Rightarrow> failed_job_view" where
  "from_job job queue_name =
     (let text = strip (or_empty (rj_exc_info job));
          summary = (if text = [] then [] else last (split_on (CHR 0x0A) text))
      in \<lparr>fv_id = rj_id job, fv_queue = queue_name, fv_func_name = or_empty (rj_func_name job),
          fv_enqueued_at = map_option iso_seconds (rj_enqueued_at job),
          fv_failed_at = map_option iso_seconds (rj_ended_at job),
          fv_exc_summary = take 500 summary,
          fv_kwargs = map (\<lambda>(k, v). (k, safe_value v)) (rj_kwargs job)\<rparr>)"

definition dlq_queues :: "string list" where
  "dlq_queues = [WEBHOOK_QUEUE, EMAIL_QUEUE, SMS_QUEUE]"

text \<open>\<open>out.sort(key=..., reverse=True)\<close> keeps equal keys in their order.\<close>

definition sort_desc :: "('a \<Rightarrow> 'k::linorder) \<Rightarrow> 'a list \<Rightarrow> 'a list" where
  "sort_desc key xs = rev (sort_key key (rev xs))"

definition list_failed :: "'r rq \<Rightarrow> 'r \<Rightarrow> failed_job_view list" where
  "list_failed rq r =
     sort_desc (\<lambda>v. or_empty (fv_failed_at v))
       (concat (map (\<lambda>q. List.map_filter (\<lambda>jid. map_option (\<lambda>job. from_job job q) (rq_fetch rq r jid))
                            (rq_failed rq r q)) dlq_queues))"

text \<open>\<open>_resolve\<close>: the first queue whose registry holds the job.\<close>

definition dlq_resolve :: "'r rq \<Rightarrow> 'r \<Rightarrow> string \<Rightarrow> exc + (rq_job \<times> string)" where
  "dlq_resolve rq r jid =
     (case find (\<lambda>q. jid \<in> set (rq_failed rq r q)) dlq_queues of
        None \<Rightarrow> Inl (NoSuchJobError (''Failed job '' @ jid @ '' not found''))
      | Some q \<Rightarrow> (case rq_fetch rq r jid of
                     None \<Rightarrow> Inl (NoSuchJobError jid)
                   | Some job \<Rightarrow> Inr (job, q)))"

definition get_failed :: "'r rq \<Rightarrow> 'r \<Rightarrow> string \<Rightarrow> exc + (rq_job \<times> string)" where
  "get_failed rq r jid = dlq_resolve rq r jid"

definition dlq_requeue :: "'r rq \<Rightarrow> string \<Rightarrow> ('r, rq_job) py" where
  "dlq_requeue rq jid = (\<lambda>r. case dlq_resolve rq r jid of
     Inl e \<Rightarrow> (Inl e, r)
   | Inr (job, q) \<Rightarrow>
       let r' = rq_requeue rq q jid r
       in case rq_fetch rq r' jid of
            None \<Rightarrow> (Inl (NoSuchJobError jid), r')
          | Some job' \<Rightarrow> (Inr job', r'))"

definition dlq_discard :: "'r rq \<Rightarrow> string \<Rightarrow> ('r, string) py" where
  "dlq_discard rq jid = (\<lambda>r. case dlq_resolve rq r jid of
     Inl e \<Rightarrow> (Inl e, r)
   | Inr (job, q) \<Rightarrow> (Inr q, rq_remove rq q jid r))"

definition dlq_counts :: "'r rq \<Rightarrow> 'r \<Rightarrow> (string \<times> nat) list" where
  "dlq_counts rq r = map (\<lambda>q. (q, length (rq_failed rq r q))) dlq_queues"

lemma sort_desc_sorted: "sorted_wrt (\<lambda>x y. key y \<le> key x) (sort_desc key xs)"
  using sorted_sort_key [of key "rev xs"] by (simp add: sort_desc_def sorted_wrt_rev sorted_wrt_map)

lemma set_sort_desc [simp]: "set (sort_desc key xs) = set xs"
  by (simp add: sort_desc_def)

text \<open>
  The dead-letter page shows every failed job and acts on the right queue. The list holds
  one line for each job of the three registries that still exists, newest failure first; and
  requeueing or discarding a job moves it out of the registry of the first queue that holds it,
  while an id no registry holds raises NoSuchJobError and changes nothing.
\<close>

theorem dead_letters_complete:
  "(\<forall>v. v \<in> set (list_failed rq r) \<longleftrightarrow>
      (\<exists>q\<in>set dlq_queues. \<exists>jid\<in>set (rq_failed rq r q). \<exists>job. rq_fetch rq r jid = Some job \<and> v = from_job job q)) \<and>
   sorted_wrt (\<lambda>v w. or_empty (fv_failed_at w) \<le> or_empty (fv_failed_at v)) (list_failed rq r) \<and>
   (case find (\<lambda>q. jid \<in> set (rq_failed rq r q)) dlq_queues of
      None \<Rightarrow> (\<exists>msg. dlq_requeue rq jid r = (Inl (NoSuchJobError msg), r) \<and>
                    dlq_discard rq jid r = (Inl (NoSuchJobError msg), r))
    | Some q \<Rightarrow> (case rq_fetch rq r jid of
         None \<Rightarrow> dlq_requeue rq jid r = (Inl (NoSuchJobError jid), r) \<and> dlq_discard rq jid r = (Inl (NoSuchJobError jid), r)
       | Some job \<Rightarrow> snd (dlq_requeue rq jid r) = rq_requeue rq q jid r \<and>
                      dlq_discard rq jid r = (Inr q, rq_remove rq q jid r)))"
proof (intro conjI)
  show "\<forall>v. v \<in> set (list_failed rq r) \<longleftrightarrow>
      (\<exists>q\<in>set dlq_queues. \<exists>jid\<in>set (rq_failed rq r q). \<exists>job. rq_fetch rq r jid = Some job \<and> v = from_job job q)"
    by (force simp: list_failed_def map_filter_def)
  show "sorted_wrt (\<lambda>v w. or_empty (fv_failed_at w) \<le> or_empty (fv_failed_at v)) (list_failed rq r)"
    unfolding list_failed_def by (rule sort_desc_sorted)
qed (auto simp: dlq_requeue_def dlq_discard_def dlq_resolve_def Let_def split: option.splits)

end
