(* ===== verification/Iso.thy ===== *)
theory Iso
  imports PyTime
begin

text \<open>
  Reading back what \<open>isoformat\<close> prints: \<open>datetime.fromisoformat\<close> on the extended format with
  seconds, an optional fraction of six digits and the offset +00:00, and \<open>date.fromisoformat\<close>
  on YYYY-MM-DD. Every string the program hands to them that it printed itself has this shape.
\<close>

definition digits_only :: "string \<Rightarrow> bool" where
  "digits_only s \<longleftrightarrow> s \<noteq> [] \<and> list_all is_digit s"

text \<open>A field of n digits at the front of a string, its value, and the rest.\<close>

definition field :: "nat \<Rightarrow> string \<Rightarrow> (int \<times> string) option" where
  "field n s = (if length s < n \<or> \<not> list_all is_digit (take n s) then None
                else Some (int (digits_val 0 (take n s)), drop n s))"

text \<open>A fixed text at the front.\<close>

definition expect :: "string \<Rightarrow> string \<Rightarrow> string option" where
  "expect p s = (if startswith s p then Some (drop (length p) s) else None)"

definition parse_date :: "string \<Rightarrow> (date \<times> string) option" where
  "parse_date s = Option.bind (field 4 s) (\<lambda>(y, s1). Option.bind (expect ''-'' s1) (\<lambda>s2.
     Option.bind (field 2 s2) (\<lambda>(m, s3). Option.bind (expect ''-'' s3) (\<lambda>s4.
     Option.bind (field 2 s4) (\<lambda>(d, s5).
       let dt = \<lparr>year = y, month = m, day = d\<rparr> in if valid_date dt then Some (dt, s5) else None)))))"

definition parse_time :: "string \<Rightarrow> (int \<times> string) option" where
  "parse_time s = Option.bind (field 2 s) (\<lambda>(h, s1). Option.bind (expect '':'' s1) (\<lambda>s2.
     Option.bind (field 2 s2) (\<lambda>(m, s3). Option.bind (expect '':'' s3) (\<lambda>s4.
     Option.bind (field 2 s4) (\<lambda>(sec, s5).
       let us = ((h * 60 + m) * 60 + sec) * us_second
       in if h < 24 \<and> m < 60 \<and> sec < 60
          then case expect ''.'' s5 of
                 None \<Rightarrow> Some (us, s5)
               | Some s6 \<Rightarrow> map_option (\<lambda>(f, s7). (us + f, s7)) (field 6 s6)
          else None)))))"

text \<open>\<open>date.fromisoformat(s)\<close>.\<close>

definition date_fromisoformat :: "string \<Rightarrow> date option" where
  "date_fromisoformat s = (case parse_date s of Some (d, []) \<Rightarrow> Some d | _ \<Rightarrow> None)"

text \<open>\<open>datetime.fromisoformat(s)\<close>: with the offset +00:00, or naive.\<close>

definition fromisoformat :: "string \<Rightarrow> pydt option" where
  "fromisoformat s = Option.bind (parse_date s) (\<lambda>(d, s1). Option.bind (expect ''T'' s1) (\<lambda>s2.
     Option.bind (parse_time s2) (\<lambda>(us, z).
       if z = ''+00:00'' then Some (Aware (at_time d us))
       else if z = [] then Some (Naive (at_time d us)) else None)))"

subsection \<open>Round trips\<close>

text \<open>The instants a datetime can hold.\<close>

definition in_calendar :: "int \<Rightarrow> bool" where
  "in_calendar t \<longleftrightarrow> 1 \<le> t div us_day \<and> valid_date (date_of t)"

lemma toordinal_pos: "valid_date d \<Longrightarrow> 1 \<le> toordinal d"
  using days_before_year_mono [of 1 "year d"] days_before_month_mono [of 1 "month d" "year d"]
  by (simp add: toordinal_def valid_date_def days_before_year_def)

lemma in_calendar_at_time: "valid_date d \<Longrightarrow> 0 \<le> us \<Longrightarrow> us < us_day \<Longrightarrow> in_calendar (at_time d us)"
  using toordinal_pos [of d] by (simp add: in_calendar_def date_of_at_time) (simp add: at_time_def us_day_def)

lemma field_zpad: "v < 10 ^ n \<Longrightarrow> 0 < n \<Longrightarrow> field n (zpad n v @ r) = Some (int v, r)"
  using length_zpad [of v n] zpad_all [of n v] digits_val_zpad [of n v]
  by (auto simp: field_def list_all_iff)

lemma expect_append [simp]: "expect p (p @ r) = Some r"
  by (simp add: expect_def)

lemma expect_Cons [simp]: "expect [c] (c # r) = Some r" "c \<noteq> d \<Longrightarrow> expect [d] (c # r) = None"
  by (simp_all add: expect_def)

lemma parse_date_iso:
  assumes "valid_date d"
  shows "parse_date (iso_date d @ r) = Some (d, r)"
proof -
  have v: "1 \<le> year d" "year d \<le> 9999" "1 \<le> month d" "month d \<le> 12" "1 \<le> day d" "day d \<le> 31"
    using assms days_in_month_bounds [of "year d" "month d"] by (auto simp: valid_date_def)
  have shape: "iso_date d @ r = zpad 4 (nat (year d)) @ ''-'' @ zpad 2 (nat (month d)) @ ''-'' @ zpad 2 (nat (day d)) @ r"
    by (simp add: iso_date_def)
  have fields: "field 4 (zpad 4 (nat (year d)) @ x) = Some (year d, x)"
    "field 2 (zpad 2 (nat (month d)) @ x) = Some (month d, x)"
    "field 2 (zpad 2 (nat (day d)) @ x) = Some (day d, x)" for x
    using v by (simp_all add: field_zpad)
  show ?thesis
    unfolding shape parse_date_def fields expect_append Option.bind.simps prod.case Let_def using assms by (cases d) simp
qed

lemma date_roundtrip: "valid_date d \<Longrightarrow> date_fromisoformat (iso_date d) = Some d"
  using parse_date_iso [of d "[]"] by (simp add: date_fromisoformat_def)

lemma parse_time_iso:
  assumes "0 \<le> us" "us < us_day" "r = [] \<or> hd r \<noteq> CHR ''.''"
  shows "parse_time (iso_time us @ r) = Some (us, r)"
proof -
  define s f h m sec where "s = us div us_second" and "f = us mod us_second"
    and "h = s div 3600" and "m = s mod 3600 div 60" and "sec = s mod 60"
  have s: "0 \<le> s" "s < 86400" using assms(1,2) by (auto simp: s_def us_second_def us_day_def)
  have f: "0 \<le> f" "f < 1000000" by (auto simp: f_def us_second_def)
  have us: "us = s * us_second + f" by (simp add: s_def f_def)
  have h: "0 \<le> h" "h < 24" using s by (auto simp: h_def)
  have m: "0 \<le> m" "m < 60" and sec: "0 \<le> sec" "sec < 60" by (auto simp: m_def sec_def)
  have "s = 3600 * h + s mod 3600" by (simp add: h_def)
  moreover have "s mod 3600 = 60 * m + s mod 3600 mod 60" unfolding m_def by (rule mult_div_mod_eq [symmetric])
  moreover have "s mod 3600 mod 60 = sec" by (simp add: sec_def mod_mod_cancel)
  ultimately have "(h * 60 + m) * 60 + sec = s" by simp
  then have total: "((h * 60 + m) * 60 + sec) * us_second + f = us" using us by simp
  define frac where "frac = (if f = 0 then [] else ''.'' @ zpad 6 (nat f))"
  have shape: "iso_time us @ r = zpad 2 (nat h) @ '':'' @ zpad 2 (nat m) @ '':'' @ zpad 2 (nat sec) @ frac @ r"
    by (simp add: iso_time_def Let_def s_def f_def h_def m_def sec_def frac_def)
  have fields: "field 2 (zpad 2 (nat h) @ x) = Some (h, x)" "field 2 (zpad 2 (nat m) @ x) = Some (m, x)"
    "field 2 (zpad 2 (nat sec) @ x) = Some (sec, x)" "field 6 (zpad 6 (nat f) @ x) = Some (f, x)" for x
    using h m sec f by (simp_all add: field_zpad)
  have frac: "(case expect ''.'' (frac @ r) of None \<Rightarrow> Some (us - f, frac @ r)
      | Some s6 \<Rightarrow> map_option (\<lambda>(g, s7). (us - f + g, s7)) (field 6 s6)) = Some (us, r)"
  proof (cases "f = 0")
    case True
    then show ?thesis using assms(3) by (cases r) (simp_all add: frac_def expect_def)
  next
    case False
    then have "expect ''.'' (frac @ r) = Some (zpad 6 (nat f) @ r)"
      using expect_append [of "''.''" "zpad 6 (nat f) @ r"] by (simp add: frac_def)
    then show ?thesis by (simp add: fields)
  qed
  have total': "((h * 60 + m) * 60 + sec) * us_second = us - f" using total by simp
  show ?thesis
    unfolding shape parse_time_def fields expect_append Option.bind.simps prod.case Let_def total'
    using h(2) m(2) sec(2) frac by simp
qed

lemma fromisoformat_isoformat:
  assumes "in_calendar t"
  shows "fromisoformat (isoformat_utc t) = Some (Aware t)"
proof -
  have "parse_time (iso_time (t mod us_day) @ ''+00:00'') = Some (t mod us_day, ''+00:00'')"
    by (intro parse_time_iso) (simp_all add: us_day_def)
  moreover have "at_time (date_of t) (t mod us_day) = t"
    using assms toordinal_fromordinal [of "t div us_day"]
    by (simp add: in_calendar_def at_time_def date_of_def)
  moreover have "parse_date (isoformat_utc t) = Some (date_of t, ''T'' @ iso_time (t mod us_day) @ ''+00:00'')"
    using assms parse_date_iso by (simp add: isoformat_utc_def in_calendar_def)
  ultimately show ?thesis by (simp add: fromisoformat_def)
qed

end
