(* ===== verification/TriggerState.thy ===== *)
theory TriggerState
  imports Queue Iso
begin

text \<open>
  Duration gating of triggers (app/services/trigger_state.py): the first-true timestamp of a
  trigger and scope kept under a Redis key with a time to live. The abstract machine \<open>gate\<close>
  keeps, per trigger and scope, the time the condition became true and the time that memory
  lapses; the code refines it.
\<close>

definition scope_name :: "string option \<Rightarrow> string" where
  "scope_name scope = (if truthy scope then or_empty scope else ''global'')"

definition state_key :: "string \<Rightarrow> string option \<Rightarrow> string" where
  "state_key trigger_id scope =
     ''trigger_state:'' @ trigger_id @ '':'' @ scope_name scope @ '':first_true''"

definition state_ttl :: "int \<Rightarrow> int" where
  "state_ttl duration = max (duration * 3) 60"

definition should_fire_with_duration ::
  "string \<Rightarrow> string option \<Rightarrow> int \<Rightarrow> ('a session_scheme, bool) py" where
  "should_fire_with_duration trigger_id scope duration = with_state (\<lambda>s.
     let now = clock s; key = state_key trigger_id scope
     in bind (redis_get key) (\<lambda>raw.
          case raw of
            None \<Rightarrow> seq (redis_write (SETEX now key (state_ttl duration) (isoformat_utc now))) (ret False)
          | Some v \<Rightarrow>
              (case fromisoformat v of
                 None \<Rightarrow> throw (ValueError ''Invalid isoformat string'')
               | Some (Naive t) \<Rightarrow> throw (TypeError ''offset-naive and offset-aware'')
               | Some (Aware first_true) \<Rightarrow>
                   if now - first_true \<ge> seconds duration
                   then seq (redis_write (DEL now key)) (ret True) else ret False)))"

definition reset_duration_state :: "string \<Rightarrow> string option \<Rightarrow> ('a session_scheme, unit) py" where
  "reset_duration_state trigger_id scope = with_state (\<lambda>s.
     redis_write (DEL (clock s) (state_key trigger_id scope)))"

lemma keeps_duration [audited]:
  "keeps log_step (should_fire_with_duration i sc d :: ('a audit_db_scheme, bool) py)"
  "keeps log_step (reset_duration_state i sc :: ('a audit_db_scheme, unit) py)"
proof -
  show "keeps log_step (should_fire_with_duration i sc d :: ('a audit_db_scheme, bool) py)"
    unfolding should_fire_with_duration_def Let_def
    by (intro audited) (auto intro!: audited split: option.splits pydt.splits)
  show "keeps log_step (reset_duration_state i sc :: ('a audit_db_scheme, unit) py)"
    unfolding reset_duration_state_def by (intro audited)
qed

subsection \<open>Readings\<close>

text \<open>
  One reading reaches a duration-gated trigger as in \<open>triggers.evaluate\<close>: the state is reset
  when the condition is false, and the gate is asked when it is true.
\<close>

record gate_reading =
  read_at :: int
  trig :: string
  rscope :: "string option"
  dur :: int
  holds :: bool

definition duration_step :: "gate_reading \<Rightarrow> ('a session_scheme, bool) py" where
  "duration_step r =
     (if \<not> holds r then seq (reset_duration_state (trig r) (rscope r)) (ret False)
      else should_fire_with_duration (trig r) (rscope r) (dur r))"

fun duration_run :: "gate_reading list \<Rightarrow> 'a session_scheme \<Rightarrow> (exc + bool) list \<times> 'a session_scheme" where
  "duration_run [] s = ([], s)"
| "duration_run (r # rs) s =
     (let (v, s1) = duration_step r (s\<lparr>clock := read_at r\<rparr>); (out, s2) = duration_run rs s1 in (v # out, s2))"

subsection \<open>The abstract gate\<close>

type_synonym gate_state = "(int \<times> int) option"

definition gate_id :: "gate_reading \<Rightarrow> string \<times> string" where
  "gate_id r = (trig r, scope_name (rscope r))"

definition gate :: "gate_reading \<Rightarrow> gate_state \<Rightarrow> bool \<times> gate_state" where
  "gate r st =
     (if \<not> holds r then (False, None)
      else case st of
             Some (first, until) \<Rightarrow>
               if until \<le> read_at r then (False, Some (read_at r, read_at r + seconds (state_ttl (dur r))))
               else if read_at r - first \<ge> seconds (dur r) then (True, None) else (False, st)
           | None \<Rightarrow> (False, Some (read_at r, read_at r + seconds (state_ttl (dur r)))))"

fun gates :: "gate_reading list \<Rightarrow> (string \<times> string \<Rightarrow> gate_state) \<Rightarrow> bool list" where
  "gates [] m = []"
| "gates (r # rs) m = (let (b, st) = gate r (m (gate_id r)) in b # gates rs (m(gate_id r := st)))"

text \<open>The gate of one trigger and scope on its own readings.\<close>

fun gate_alone :: "gate_reading list \<Rightarrow> gate_state \<Rightarrow> bool list" where
  "gate_alone [] st = []"
| "gate_alone (r # rs) st = (let (b, st') = gate r st in b # gate_alone rs st')"

lemma append_sep_eq:
  "c \<notin> set i \<Longrightarrow> c \<notin> set j \<Longrightarrow> i @ c # x = j @ c # y \<longleftrightarrow> i = j \<and> x = y"
proof (induction i arbitrary: j)
  case Nil
  then show ?case by (cases j) auto
next
  case (Cons a i)
  then show ?case by (cases j) auto
qed

lemma state_key_inj:
  assumes "CHR '':'' \<notin> set i" "CHR '':'' \<notin> set j"
  shows "state_key i sc = state_key j sc' \<longleftrightarrow> i = j \<and> scope_name sc = scope_name sc'"
  using append_sep_eq [OF assms, of "scope_name sc @ '':first_true''" "scope_name sc' @ '':first_true''"]
  by (simp add: state_key_def)

text \<open>What the Redis keys say, for the gates' states.\<close>

definition gate_rel :: "(string \<times> string \<Rightarrow> gate_state) \<Rightarrow> int \<Rightarrow> 'a session_scheme \<Rightarrow> bool" where
  "gate_rel m from s \<longleftrightarrow> r_up (redis s) \<and> redis_laws (r_get (redis s)) (r_count (redis s)) \<and>
     (\<forall>i sc now. CHR '':'' \<notin> set i \<longrightarrow> from \<le> now \<longrightarrow>
        r_get (redis s) (r_log (redis s)) now (state_key i sc) =
          (case m (i, scope_name sc) of
             None \<Rightarrow> None | Some (first, until) \<Rightarrow> if now < until then Some (isoformat_utc first) else None)) \<and>
     (\<forall>k first until. m k = Some (first, until) \<longrightarrow> in_calendar first)"

lemma gate_rel_clock [simp]: "gate_rel m from (s\<lparr>clock := t\<rparr>) = gate_rel m from s"
  by (simp add: gate_rel_def)

lemma gate_rel_mono: "gate_rel m from s \<Longrightarrow> from \<le> t \<Longrightarrow> gate_rel m t s"
  unfolding gate_rel_def by (meson order_trans)

lemma gate_rel_get:
  "gate_rel m from s \<Longrightarrow> from \<le> clock s \<Longrightarrow> CHR '':'' \<notin> set i \<Longrightarrow> redis_get (state_key i sc) s =
     (Inr (case m (i, scope_name sc) of
             None \<Rightarrow> None | Some (first, until) \<Rightarrow> if clock s < until then Some (isoformat_utc first) else None), s)"
  unfolding gate_rel_def redis_get_def redis_read_def by simp

lemma gate_rel_write: "gate_rel m from s \<Longrightarrow> redis_write c s = (Inr (), send_redis c s)"
  by (simp add: gate_rel_def redis_write_def)

lemma redis_lawsD:
  assumes "redis_laws get cnt"
  shows "t \<le> now \<Longrightarrow> get (h @ [SETEX t k ttl v]) now k = (if now < t + seconds ttl then Some v else None)"
    "get (h @ [DEL t k]) now k = None" "cmd_key c \<noteq> k \<Longrightarrow> get (h @ [c]) now k = get h now k"
  using assms unfolding redis_laws_def by simp_all

lemma gate_rel_del:
  assumes rel: "gate_rel m from s" and t: "from \<le> t" and i: "CHR '':'' \<notin> set i"
  shows "gate_rel (m((i, scope_name sc) := None)) t (send_redis (DEL t (state_key i sc)) s)"
proof -
  let ?s = "send_redis (DEL t (state_key i sc)) s"
  have laws: "redis_laws (r_get (redis s)) (r_count (redis s))" using rel by (simp add: gate_rel_def)
  have "r_get (redis s) (r_log (redis s) @ [DEL t (state_key i sc)]) now (state_key j sc') =
      (case (m((i, scope_name sc) := None)) (j, scope_name sc') of
         None \<Rightarrow> None | Some (first, until) \<Rightarrow> if now < until then Some (isoformat_utc first) else None)"
    if j: "CHR '':'' \<notin> set j" and now: "t \<le> now" for j sc' now
  proof (cases "j = i \<and> scope_name sc' = scope_name sc")
    case True
    then have "state_key j sc' = state_key i sc" by (simp add: state_key_def)
    then show ?thesis using True redis_lawsD(2) [OF laws] by simp
  next
    case False
    then have "state_key i sc \<noteq> state_key j sc'" using state_key_inj [OF i j] by auto
    then have "r_get (redis s) (r_log (redis s) @ [DEL t (state_key i sc)]) now (state_key j sc') =
        r_get (redis s) (r_log (redis s)) now (state_key j sc')"
      by (intro redis_lawsD(3) [OF laws]) simp
    with False rel t now j show ?thesis unfolding gate_rel_def by auto
  qed
  with rel show ?thesis unfolding gate_rel_def by (simp del: fun_upd_apply) (simp add: fun_upd_apply)
qed

lemma gate_rel_setex:
  assumes rel: "gate_rel m from s" and t: "from \<le> t" "in_calendar t" and i: "CHR '':'' \<notin> set i"
  shows "gate_rel (m((i, scope_name sc) := Some (t, t + seconds ttl))) t
           (send_redis (SETEX t (state_key i sc) ttl (isoformat_utc t)) s)"
proof -
  let ?c = "SETEX t (state_key i sc) ttl (isoformat_utc t)"
  have laws: "redis_laws (r_get (redis s)) (r_count (redis s))" using rel by (simp add: gate_rel_def)
  have "r_get (redis s) (r_log (redis s) @ [?c]) now (state_key j sc') =
      (case (m((i, scope_name sc) := Some (t, t + seconds ttl))) (j, scope_name sc') of
         None \<Rightarrow> None | Some (first, until) \<Rightarrow> if now < until then Some (isoformat_utc first) else None)"
    if j: "CHR '':'' \<notin> set j" and now: "t \<le> now" for j sc' now
  proof (cases "j = i \<and> scope_name sc' = scope_name sc")
    case True
    then have "state_key j sc' = state_key i sc" by (simp add: state_key_def)
    then show ?thesis using True redis_lawsD(1) [OF laws now] by simp
  next
    case False
    then have "state_key i sc \<noteq> state_key j sc'" using state_key_inj [OF i j] by auto
    then have "r_get (redis s) (r_log (redis s) @ [?c]) now (state_key j sc') =
        r_get (redis s) (r_log (redis s)) now (state_key j sc')"
      by (intro redis_lawsD(3) [OF laws]) simp
    with False rel t(1) now j show ?thesis unfolding gate_rel_def by auto
  qed
  with rel t(2) show ?thesis unfolding gate_rel_def by (simp del: fun_upd_apply) (simp add: fun_upd_apply)
qed

lemma gate_step:
  assumes rel: "gate_rel m from s" and t: "from \<le> read_at r" "in_calendar (read_at r)"
    and i: "CHR '':'' \<notin> set (trig r)"
  shows "fst (duration_step r (s\<lparr>clock := read_at r\<rparr>)) = Inr (fst (gate r (m (gate_id r))))"
    "gate_rel (m(gate_id r := snd (gate r (m (gate_id r))))) (read_at r)
       (snd (duration_step r (s\<lparr>clock := read_at r\<rparr>)))"
proof -
  define s0 where "s0 = s\<lparr>clock := read_at r\<rparr>"
  have rel0: "gate_rel m from s0" and now: "clock s0 = read_at r" using rel by (simp_all add: s0_def)
  note get = gate_rel_get [OF rel0 t(1) [folded now] i, of "rscope r", unfolded now]
  note writes = gate_rel_write [OF rel0]
  note del = gate_rel_del [OF rel0 t(1) i, of "rscope r"]
  note setex = gate_rel_setex [OF rel0 t i, of "rscope r" "state_ttl (dur r)"]
  have same: "gate_rel (m(gate_id r := m (gate_id r))) (read_at r) s0"
    using gate_rel_mono [OF rel0 t(1)] by simp
  have cal: "in_calendar first" if "m (gate_id r) = Some (first, until)" for first until
    using rel0 that unfolding gate_rel_def by blast
  have "fst (duration_step r s0) = Inr (fst (gate r (m (gate_id r)))) \<and>
    gate_rel (m(gate_id r := snd (gate r (m (gate_id r))))) (read_at r) (snd (duration_step r s0))"
  proof (cases "holds r")
    case False
    then show ?thesis using del writes
      by (simp add: duration_step_def gate_def reset_duration_state_def now gate_id_def seq_def bind_def)
  next
    case True
    show ?thesis
    proof (cases "m (gate_id r)")
      case None
      then show ?thesis using True setex writes get
        by (simp add: duration_step_def gate_def should_fire_with_duration_def now gate_id_def Let_def seq_def bind_def)
    next
      case (Some p)
      obtain first until where p: "p = (first, until)" by (cases p)
      have "fromisoformat (isoformat_utc first) = Some (Aware first)"
        using cal Some p by (intro fromisoformat_isoformat) simp
      then show ?thesis using True Some p setex writes get del same
        by (simp add: duration_step_def gate_def should_fire_with_duration_def now gate_id_def Let_def seq_def bind_def)
    qed
  qed
  then show "fst (duration_step r (s\<lparr>clock := read_at r\<rparr>)) = Inr (fst (gate r (m (gate_id r))))"
    "gate_rel (m(gate_id r := snd (gate r (m (gate_id r))))) (read_at r)
       (snd (duration_step r (s\<lparr>clock := read_at r\<rparr>)))"
    by (simp_all add: s0_def)
qed

lemma run_gates:
  assumes "gate_rel m from s" "sorted (map read_at rs)"
    "\<forall>r\<in>set rs. from \<le> read_at r \<and> in_calendar (read_at r) \<and> CHR '':'' \<notin> set (trig r)"
  shows "fst (duration_run rs s) = map Inr (gates rs m)"
  using assms
proof (induction rs arbitrary: s m "from")
  case (Cons r rs)
  have r: "from \<le> read_at r" "in_calendar (read_at r)" "CHR '':'' \<notin> set (trig r)" using Cons.prems(3) by auto
  define s' m' where "s' = snd (duration_step r (s\<lparr>clock := read_at r\<rparr>))"
    and "m' = m(gate_id r := snd (gate r (m (gate_id r))))"
  have "gate_rel m' (read_at r) s'"
    unfolding s'_def m'_def using gate_step(2) [OF Cons.prems(1) r] .
  then have "fst (duration_run rs s') = map Inr (gates rs m')"
    using Cons.prems(2,3) by (intro Cons.IH) auto
  moreover have "fst (duration_run (r # rs) s) =
      fst (duration_step r (s\<lparr>clock := read_at r\<rparr>)) # fst (duration_run rs s')"
    by (simp add: s'_def split_beta)
  moreover have "gates (r # rs) m = fst (gate r (m (gate_id r))) # gates rs m'"
    by (simp add: m'_def split_beta)
  ultimately show ?case using gate_step(1) [OF Cons.prems(1) r] by simp
qed simp

text \<open>The outputs one trigger and scope sees.\<close>

definition outputs_for :: "string \<times> string \<Rightarrow> gate_reading list \<Rightarrow> 'b list \<Rightarrow> 'b list" where
  "outputs_for k rs out = map snd (filter (\<lambda>(r, v). gate_id r = k) (zip rs out))"

definition readings_for :: "string \<times> string \<Rightarrow> gate_reading list \<Rightarrow> gate_reading list" where
  "readings_for k rs = filter (\<lambda>r. gate_id r = k) rs"

lemma outputs_for_gates: "outputs_for k rs (gates rs m) = gate_alone (readings_for k rs) (m k)"
proof (induction rs arbitrary: m)
  case (Cons r rs)
  define m' where "m' = m(gate_id r := snd (gate r (m (gate_id r))))"
  have "gates (r # rs) m = fst (gate r (m (gate_id r))) # gates rs m'"
    by (simp add: m'_def split_beta)
  moreover have "m' k = (if gate_id r = k then snd (gate r (m k)) else m k)" by (simp add: m'_def)
  moreover have "outputs_for k rs (gates rs m') = gate_alone (readings_for k rs) (m' k)" by (rule Cons.IH)
  ultimately show ?case by (simp add: outputs_for_def readings_for_def split_beta)
qed (simp add: outputs_for_def readings_for_def)

lemma outputs_for_map: "outputs_for k rs (map f out) = map f (outputs_for k rs out)"
proof -
  have "filter (\<lambda>(r, v). gate_id r = k) (zip rs (map f out)) =
      map (\<lambda>(r, v). (r, f v)) (filter (\<lambda>(r, v). gate_id r = k) (zip rs out))"
    by (simp add: zip_map2 filter_map comp_def case_prod_unfold)
  then show ?thesis by (simp add: outputs_for_def split_beta comp_def)
qed

definition gated_readings :: "gate_reading list \<Rightarrow> 'a session_scheme \<Rightarrow> bool" where
  "gated_readings rs s \<longleftrightarrow> r_up (redis s) \<and> redis_laws (r_get (redis s)) (r_count (redis s)) \<and>
     r_log (redis s) = [] \<and> sorted (map read_at rs) \<and>
     (\<forall>r\<in>set rs. in_calendar (read_at r) \<and> CHR '':'' \<notin> set (trig r))"

lemma run_alone:
  assumes "gated_readings rs s"
  shows "fst (duration_run rs s) = map Inr (gates rs (\<lambda>_. None))"
    "outputs_for k rs (fst (duration_run rs s)) = map Inr (gate_alone (readings_for k rs) None)"
proof -
  define from' where "from' = (if rs = [] then 0 else read_at (hd rs))"
  have "gate_rel (\<lambda>_. None) from' s"
    using assms unfolding gated_readings_def gate_rel_def redis_laws_def by simp
  moreover have "\<forall>r\<in>set rs. from' \<le> read_at r \<and> in_calendar (read_at r) \<and> CHR '':'' \<notin> set (trig r)"
    using assms by (cases rs) (auto simp: gated_readings_def from'_def)
  ultimately show run: "fst (duration_run rs s) = map Inr (gates rs (\<lambda>_. None))"
    using assms by (intro run_gates) (auto simp: gated_readings_def)
  show "outputs_for k rs (fst (duration_run rs s)) = map Inr (gate_alone (readings_for k rs) None)"
    unfolding run outputs_for_map outputs_for_gates ..
qed

subsection \<open>The abstract gate: safety and progress\<close>

fun gate_after :: "gate_reading list \<Rightarrow> gate_state \<Rightarrow> gate_state" where
  "gate_after [] st = st"
| "gate_after (r # rs) st = gate_after rs (snd (gate r st))"

lemma length_gate_alone [simp]: "length (gate_alone rs st) = length rs"
  by (induction rs arbitrary: st) (simp_all add: split_beta)

lemma gate_alone_append: "gate_alone (xs @ ys) st = gate_alone xs st @ gate_alone ys (gate_after xs st)"
  by (induction xs arbitrary: st) (simp_all add: split_beta)

text \<open>Every remembered first time is an earlier reading since which all readings held unfired.\<close>

lemma gate_after_since:
  "gate_after rs None = Some (first, until) \<Longrightarrow>
     \<exists>j<length rs. read_at (rs ! j) = first \<and> until = first + seconds (state_ttl (dur (rs ! j))) \<and>
       (\<forall>k. j \<le> k \<longrightarrow> k < length rs \<longrightarrow> holds (rs ! k) \<and> \<not> gate_alone rs None ! k)"
proof (induction rs arbitrary: first until rule: rev_induct)
  case (snoc r rs)
  have after: "gate_after (xs @ [r]) st = snd (gate r (gate_after xs st))" for xs st
    by (induction xs arbitrary: st) auto
  let ?st = "gate_after rs None"
  have out: "gate_alone (rs @ [r]) None = gate_alone rs None @ [fst (gate r ?st)]"
    by (simp add: gate_alone_append split_beta)
  from snoc.prems have st: "snd (gate r ?st) = Some (first, until)" by (simp add: after)
  have hold: "holds r" and nofire: "\<not> fst (gate r ?st)"
    using st by (auto simp: gate_def split: if_splits option.splits)
  show ?case
  proof (cases "?st = Some (first, until)")
    case True
    from snoc.IH [OF this] obtain j where "j < length rs" "read_at (rs ! j) = first"
      "until = first + seconds (state_ttl (dur (rs ! j)))"
      "\<forall>k. j \<le> k \<longrightarrow> k < length rs \<longrightarrow> holds (rs ! k) \<and> \<not> gate_alone rs None ! k" by blast
    with hold nofire show ?thesis
      by (intro exI [of _ j]) (auto simp: nth_append out less_Suc_eq)
  next
    case False
    with st have "first = read_at r" "until = first + seconds (state_ttl (dur r))"
      by (auto simp: gate_def split: if_splits option.splits)
    with hold nofire show ?thesis
      by (intro exI [of _ "length rs"]) (auto simp: nth_append out less_Suc_eq)
  qed
qed simp

lemma gate_alone_sound:
  assumes "i < length rs" "gate_alone rs None ! i"
  shows "\<exists>j<i. (\<forall>k. j \<le> k \<longrightarrow> k \<le> i \<longrightarrow> holds (rs ! k)) \<and> (\<forall>k. j \<le> k \<longrightarrow> k < i \<longrightarrow> \<not> gate_alone rs None ! k) \<and>
    seconds (dur (rs ! i)) \<le> read_at (rs ! i) - read_at (rs ! j) \<and>
    read_at (rs ! i) - read_at (rs ! j) < seconds (state_ttl (dur (rs ! j)))"
proof -
  let ?pre = "take i rs" and ?st = "gate_after (take i rs) None"
  have rs: "rs = ?pre @ rs ! i # drop (Suc i) rs" using assms(1) by (rule id_take_nth_drop)
  have out: "gate_alone rs None = gate_alone ?pre None @ gate_alone (rs ! i # drop (Suc i) rs) ?st"
    by (subst rs) (rule gate_alone_append)
  then have fire: "fst (gate (rs ! i) ?st)" using assms by (simp add: nth_append split_beta)
  then obtain first until where st: "?st = Some (first, until)" and h: "holds (rs ! i)"
    and u: "read_at (rs ! i) < until" "seconds (dur (rs ! i)) \<le> read_at (rs ! i) - first"
    by (auto simp: gate_def split: if_splits option.splits)
  from gate_after_since [OF st] assms(1) obtain j where j: "j < i" "read_at (rs ! j) = first"
    "until = first + seconds (state_ttl (dur (rs ! j)))"
    "\<forall>k. j \<le> k \<longrightarrow> k < i \<longrightarrow> holds (rs ! k) \<and> \<not> gate_alone ?pre None ! k" by auto
  have "gate_alone rs None ! k = gate_alone ?pre None ! k" if "k < i" for k
    using that assms(1) by (simp add: out nth_append)
  with j h u show ?thesis by (intro exI [of _ j]) (auto simp: le_less)
qed

text \<open>While the memory is alive and the readings keep coming, the gate fires in time.\<close>

lemma gate_alone_progress:
  assumes "st = Some (first, until)" "first + seconds (3 * d) \<le> until" "p < first + seconds d"
    "b < length rs" "\<forall>k\<le>b. holds (rs ! k) \<and> dur (rs ! k) = d"
    "read_at (rs ! 0) \<le> p + seconds (2 * d)"
    "\<forall>k<b. read_at (rs ! Suc k) \<le> read_at (rs ! k) + seconds (2 * d)"
    "first + seconds d \<le> read_at (rs ! b)"
  shows "\<exists>c\<le>b. gate_alone rs st ! c"
  using assms
proof (induction rs arbitrary: p b)
  case (Cons r rs)
  have r: "holds r" "dur r = d" "read_at r \<le> p + seconds (2 * d)" using Cons.prems(5,6) by auto
  have alive: "read_at r < until" using r(3) Cons.prems(2,3) by (simp add: seconds_def)
  show ?case
  proof (cases "seconds d \<le> read_at r - first")
    case True
    then have "gate_alone (r # rs) st ! 0" using r alive Cons.prems(1) by (simp add: gate_def split_beta)
    then show ?thesis by blast
  next
    case False
    then have same: "gate r st = (False, st)" using r alive Cons.prems(1) by (simp add: gate_def)
    have b: "b \<noteq> 0" using False Cons.prems(8) by (cases b) auto
    then obtain b' where b': "b = Suc b'" by (cases b) auto
    have "\<exists>c\<le>b'. gate_alone rs st ! c"
    proof (rule Cons.IH [OF Cons.prems(1,2)])
      show "read_at r < first + seconds d" using False by simp
      show "read_at (rs ! 0) \<le> read_at r + seconds (2 * d)" using Cons.prems(7) b' by auto
      show "\<forall>k<b'. read_at (rs ! Suc k) \<le> read_at (rs ! k) + seconds (2 * d)"
        using Cons.prems(7) b' by (metis Suc_less_eq nth_Cons_Suc)
      show "\<forall>k\<le>b'. holds (rs ! k) \<and> dur (rs ! k) = d"
        using Cons.prems(5) b' by (metis Suc_le_mono nth_Cons_Suc)
    qed (use Cons.prems(4,8) b' in auto)
    then obtain c where "c \<le> b'" "gate_alone rs st ! c" by blast
    then show ?thesis using same b' by (intro exI [of _ "Suc c"]) simp
  qed
qed simp

lemma gate_alone_fires:
  assumes d: "0 < d" and ks: "\<forall>r\<in>set ks. dur r = d" and srt: "sorted (map read_at ks)" and ab: "a \<le> b" "b < length ks"
    and hold: "\<forall>i. a \<le> i \<longrightarrow> i \<le> b \<longrightarrow> holds (ks ! i)"
    and gap: "\<forall>i. a \<le> i \<longrightarrow> i < b \<longrightarrow> read_at (ks ! Suc i) \<le> read_at (ks ! i) + seconds (2 * d)"
    and long: "read_at (ks ! a) + seconds d \<le> read_at (ks ! b)"
  shows "\<exists>c. a \<le> c \<and> c \<le> b \<and> gate_alone ks None ! c"
proof -
  let ?r = "ks ! a" and ?st = "gate_after (take a ks) None" and ?rest = "drop (Suc a) ks"
  define st' where "st' = snd (gate ?r ?st)"
  have a: "a < length ks" using ab by simp
  have pos: "0 < seconds d" using d by (simp add: seconds_def us_second_def)
  then have "a \<noteq> b" using long by auto
  then have ab': "a < b" using ab(1) by simp
  have dr: "dur (ks ! i) = d" if "i < length ks" for i using ks that by simp
  have ttl: "seconds (3 * d) \<le> seconds (state_ttl d)" by (simp add: seconds_def state_ttl_def us_second_def)
  have split: "ks = take a ks @ ?r # ?rest" using a by (rule id_take_nth_drop)
  have at_a: "gate_alone ks None ! a = fst (gate ?r ?st)"
    using a by (subst split) (simp add: gate_alone_append nth_append split_beta)
  have after_a: "gate_alone ks None ! (Suc (a + c)) = gate_alone ?rest st' ! c" for c
    using a by (subst split) (simp add: gate_alone_append nth_append split_beta st'_def)
  show ?thesis
  proof (cases "fst (gate ?r ?st)")
    case True
    then show ?thesis using at_a ab(1) by auto
  next
    case False
    have "\<exists>first until. st' = Some (first, until) \<and> first + seconds (3 * d) \<le> until \<and> first \<le> read_at ?r \<and>
        read_at ?r < first + seconds d"
    proof (cases "\<exists>first until. ?st = Some (first, until) \<and> read_at ?r < until")
      case True
      then obtain first until where st: "?st = Some (first, until)" "read_at ?r < until" by blast
      from gate_after_since [OF st(1)] obtain j where j: "j < a" "read_at (ks ! j) = first"
        "until = first + seconds (state_ttl (dur (ks ! j)))" using a by auto
      have "first \<le> read_at ?r" using sorted_nth_mono [OF srt, of j a] j a by simp
      moreover have "st' = ?st" "read_at ?r < first + seconds d"
        using False st hold ab dr [OF a] by (auto simp: st'_def gate_def split: if_splits)
      ultimately show ?thesis using st j dr ttl a by auto
    next
      case False
      then have "st' = Some (read_at ?r, read_at ?r + seconds (state_ttl d))"
        using hold ab dr [OF a] by (auto simp: st'_def gate_def split: option.splits)
      then show ?thesis using ttl pos by auto
    qed
    then obtain first until where st': "st' = Some (first, until)" "first + seconds (3 * d) \<le> until"
      "first \<le> read_at ?r" "read_at ?r < first + seconds d" by blast
    obtain b' where b': "b = Suc (a + b')" using ab' less_iff_Suc_add by auto
    have "\<exists>c\<le>b'. gate_alone ?rest st' ! c"
    proof (rule gate_alone_progress [OF st'(1,2,4)])
      show "b' < length ?rest" using ab b' by simp
      show "\<forall>k\<le>b'. holds (?rest ! k) \<and> dur (?rest ! k) = d" using ab b' hold dr by simp
      show "read_at (?rest ! 0) \<le> read_at ?r + seconds (2 * d)" using gap ab b' by simp
      show "\<forall>k<b'. read_at (?rest ! Suc k) \<le> read_at (?rest ! k) + seconds (2 * d)" using gap ab b' by simp
      show "first + seconds d \<le> read_at (?rest ! b')" using long st'(3) ab b' by simp
    qed
    then obtain c where c: "c \<le> b'" "gate_alone ?rest st' ! c" by blast
    then have "gate_alone ks None ! (Suc (a + c))" by (simp only: after_a)
    then show ?thesis using c(1) b' by (intro exI [of _ "Suc (a + c)"]) simp
  qed
qed

subsection \<open>Properties\<close>

text \<open>
  C15. The duration gate in Redis implements the abstract gate, and triggers do not interfere:
  for any time-ordered sequence of readings of any triggers and scopes, on a Redis that keeps
  its documented behaviour and holds no state yet, the answers given for one trigger and scope
  are those of its own abstract gate run on its own readings alone; no reading raises.
\<close>

theorem duration_gate_refines:
  assumes "gated_readings rs s"
  shows "outputs_for k rs (fst (duration_run rs s)) = map Inr (gate_alone (readings_for k rs) None) \<and>
    length (fst (duration_run rs s)) = length rs"
proof -
  have "length (gates rs m) = length rs" for m by (induction rs arbitrary: m) (simp_all add: split_beta)
  then show ?thesis using run_alone [OF assms] by simp
qed

definition gate_samples :: "gate_reading list" where
  "gate_samples = map (\<lambda>t. \<lparr>read_at = at_time \<lparr>year = 2026, month = 5, day = 2\<rparr> (seconds t), trig = ''t1'',
     rscope = Some ''line:A'', dur = 30, holds = True\<rparr>) [0, 20, 40]"

lemma gate_samples_ok: "gated_readings gate_samples sample_session"
proof -
  have cal: "in_calendar (at_time \<lparr>year = 2026, month = 5, day = 2\<rparr> (seconds t))" if "0 \<le> t" "t < 60" for t
    using that by (intro in_calendar_at_time)
      (simp_all add: valid_date_def days_in_month_def seconds_def us_day_def us_second_def)
  have "r_up (redis sample_session)" "r_log (redis sample_session) = []"
    "redis_laws (r_get (redis sample_session)) (r_count (redis sample_session))"
    using sample_redis_laws by (simp_all add: sample_session_def sample_redis_def)
  moreover have "sorted (map read_at gate_samples)" by (simp add: gate_samples_def at_time_def seconds_def us_second_def)
  ultimately show ?thesis using cal by (simp add: gated_readings_def gate_samples_def)
qed

theorem duration_gate_refines_witness:
  "outputs_for (''t1'', ''line:A'') gate_samples (fst (duration_run gate_samples sample_session)) =
     [Inr False, Inr False, Inr True]"
  using duration_gate_refines [OF gate_samples_ok, of "(''t1'', ''line:A'')"]
  by (simp add: gate_samples_def readings_for_def gate_id_def scope_name_def truthy_def or_empty_def
      gate_def at_time_def seconds_def us_day_def us_second_def state_ttl_def)

text \<open>
  C16. A gated trigger fires only after a sustained violation: when a reading makes it fire, an
  earlier reading of the same trigger and scope lies at least the configured duration back,
  every reading of the trigger and scope since then had the condition true, none of them fired
  it, and the earlier reading is younger than the time to live of its Redis key.
\<close>

theorem duration_gate_sound:
  assumes "gated_readings rs s" "i < length (readings_for k rs)"
    "outputs_for k rs (fst (duration_run rs s)) ! i = Inr True"
  shows "\<exists>j<i. (\<forall>n. j \<le> n \<longrightarrow> n \<le> i \<longrightarrow> holds (readings_for k rs ! n)) \<and>
    (\<forall>n. j \<le> n \<longrightarrow> n < i \<longrightarrow> outputs_for k rs (fst (duration_run rs s)) ! n = Inr False) \<and>
    seconds (dur (readings_for k rs ! i)) \<le> read_at (readings_for k rs ! i) - read_at (readings_for k rs ! j) \<and>
    read_at (readings_for k rs ! i) - read_at (readings_for k rs ! j) < seconds (state_ttl (dur (readings_for k rs ! j)))"
proof -
  note run = run_alone(2) [OF assms(1), of k]
  have "gate_alone (readings_for k rs) None ! i" using assms(2,3) unfolding run by simp
  from gate_alone_sound [OF assms(2) this] obtain j where j: "j < i"
    "\<forall>n. j \<le> n \<longrightarrow> n \<le> i \<longrightarrow> holds (readings_for k rs ! n)"
    "\<forall>n. j \<le> n \<longrightarrow> n < i \<longrightarrow> \<not> gate_alone (readings_for k rs) None ! n"
    "seconds (dur (readings_for k rs ! i)) \<le> read_at (readings_for k rs ! i) - read_at (readings_for k rs ! j)"
    "read_at (readings_for k rs ! i) - read_at (readings_for k rs ! j) < seconds (state_ttl (dur (readings_for k rs ! j)))"
    by blast
  have "outputs_for k rs (fst (duration_run rs s)) ! n = Inr False" if "j \<le> n" "n < i" for n
    using that j(3) assms(2) unfolding run by simp
  with j show ?thesis by blast
qed

theorem duration_gate_sound_witness:
  "\<exists>j<2. seconds 30 \<le> read_at (gate_samples ! 2) - read_at (gate_samples ! j)"
proof -
  have rf: "readings_for (''t1'', ''line:A'') gate_samples = gate_samples"
    by (simp add: gate_samples_def readings_for_def gate_id_def scope_name_def truthy_def or_empty_def)
  have out: "outputs_for (''t1'', ''line:A'') gate_samples (fst (duration_run gate_samples sample_session)) ! 2 = Inr True"
    using run_alone(2) [OF gate_samples_ok, of "(''t1'', ''line:A'')"] unfolding rf
    by (simp add: gate_samples_def gate_def at_time_def seconds_def us_day_def us_second_def state_ttl_def)
  have "2 < length (readings_for (''t1'', ''line:A'') gate_samples)" unfolding rf by (simp add: gate_samples_def)
  from duration_gate_sound [OF gate_samples_ok this out]
  obtain j where "j < 2" "seconds (dur (gate_samples ! 2)) \<le> read_at (gate_samples ! 2) - read_at (gate_samples ! j)"
    unfolding rf by blast
  moreover have "dur (gate_samples ! 2) = 30" by (simp add: gate_samples_def)
  ultimately show ?thesis by auto
qed

text \<open>
  C17. A sustained violation does fire: if the condition of a trigger with duration d holds at
  all its readings from one reading to another at least d seconds later, and no two consecutive
  ones are more than 2 d apart, then one of these readings fires the trigger. (With larger
  gaps the Redis key may expire between readings and the trigger never fires.)
\<close>

theorem sustained_violation_fires:
  assumes "gated_readings rs s" "0 < d" "\<forall>r\<in>set (readings_for k rs). dur r = d"
    "a \<le> b" "b < length (readings_for k rs)" "\<forall>i. a \<le> i \<longrightarrow> i \<le> b \<longrightarrow> holds (readings_for k rs ! i)"
    "\<forall>i. a \<le> i \<longrightarrow> i < b \<longrightarrow>
       read_at (readings_for k rs ! Suc i) \<le> read_at (readings_for k rs ! i) + seconds (2 * d)"
    "read_at (readings_for k rs ! a) + seconds d \<le> read_at (readings_for k rs ! b)"
  shows "\<exists>c. a \<le> c \<and> c \<le> b \<and> outputs_for k rs (fst (duration_run rs s)) ! c = Inr True"
proof -
  have "sorted (map read_at (readings_for k rs))"
    using assms(1) by (auto simp: gated_readings_def readings_for_def sorted_filter)
  from gate_alone_fires [OF assms(2,3) this assms(4-8)]
  obtain c where "a \<le> c" "c \<le> b" "gate_alone (readings_for k rs) None ! c" by blast
  then show ?thesis using assms(5) unfolding run_alone(2) [OF assms(1)] by (intro exI [of _ c]) simp
qed

theorem sustained_violation_fires_witness:
  "\<exists>c\<le>2. outputs_for (''t1'', ''line:A'') gate_samples (fst (duration_run gate_samples sample_session)) ! c = Inr True"
proof -
  have rf: "readings_for (''t1'', ''line:A'') gate_samples = gate_samples"
    by (simp add: gate_samples_def readings_for_def gate_id_def scope_name_def truthy_def or_empty_def)
  have "\<exists>c. 0 \<le> c \<and> c \<le> 2 \<and>
    outputs_for (''t1'', ''line:A'') gate_samples (fst (duration_run gate_samples sample_session)) ! c = Inr True"
  proof (rule sustained_violation_fires [OF gate_samples_ok, of 30], unfold rf)
    show "\<forall>i\<ge>0. i \<le> 2 \<longrightarrow> holds (gate_samples ! i)"
      by (simp add: gate_samples_def le_Suc_eq numeral_2_eq_2)
    show "\<forall>i\<ge>0. i < 2 \<longrightarrow> read_at (gate_samples ! Suc i) \<le> read_at (gate_samples ! i) + seconds (2 * 30)"
      by (simp add: gate_samples_def less_Suc_eq numeral_2_eq_2 at_time_def seconds_def us_second_def)
  qed (simp_all add: gate_samples_def at_time_def seconds_def us_second_def)
  then show ?thesis by blast
qed

end
