(* ===== verification/TrainingLinks.thy ===== *)
theory TrainingLinks
  imports Tickets
begin

text \<open>
  Magic-link tokens (app/services/training_links.py): enrolment id, expiry in unix seconds and
  an HMAC over both, separated by dots. HMAC-SHA256 in hexadecimal is the parameter \<open>H\<close>, a
  function of the key and the message; \<open>hexdigest\<close> states that it prints hexadecimal digits.
\<close>

definition hex_char :: "char \<Rightarrow> bool" where
  "hex_char c \<longleftrightarrow> c \<in> set ''0123456789abcdef''"

definition hexdigest :: "(string \<Rightarrow> string \<Rightarrow> string) \<Rightarrow> bool" where
  "hexdigest H \<longleftrightarrow> (\<forall>k m. H k m \<noteq> [] \<and> list_all hex_char (H k m))"

definition signing_key :: "app_config \<Rightarrow> exc + string" where
  "signing_key cfg =
     (if truthy (TRAINING_LINK_SIGNING_KEY cfg) then Inr (or_empty (TRAINING_LINK_SIGNING_KEY cfg))
      else if SECRET_KEY cfg \<noteq> [] then Inr (SECRET_KEY cfg)
      else Inl (RuntimeError ''TRAINING_LINK_SIGNING_KEY (or SECRET_KEY) must be set to issue training magic links''))"

definition token_body :: "string \<Rightarrow> int \<Rightarrow> string" where
  "token_body enrolment_id exp_unix = enrolment_id @ '':'' @ show_int exp_unix"

definition issue_token ::
  "(string \<Rightarrow> string \<Rightarrow> string) \<Rightarrow> app_config \<Rightarrow> string \<Rightarrow> pydt \<Rightarrow> exc + string" where
  "issue_token H cfg enrolment_id expires_at =
     (case expires_at of
        Naive t \<Rightarrow> Inl (ValueError ''expires_at must be timezone-aware'')
      | Aware t \<Rightarrow>
          let exp_unix = unix_seconds t
          in case signing_key cfg of
               Inl e \<Rightarrow> Inl e
             | Inr key \<Rightarrow> Inr (enrolment_id @ ''.'' @ show_int exp_unix @ ''.'' @ H key (token_body enrolment_id exp_unix)))"

definition verify_token ::
  "(string \<Rightarrow> string \<Rightarrow> string) \<Rightarrow> app_config \<Rightarrow> int \<Rightarrow> string \<Rightarrow> exc + string" where
  "verify_token H cfg now token =
     (case split_on (CHR ''.'') token of
        [enrolment_id, exp_str, sig] \<Rightarrow>
          (case python_int exp_str of
             None \<Rightarrow> Inl (InvalidToken ''bad expiry'')
           | Some exp_unix \<Rightarrow>
               (case signing_key cfg of
                  Inl e \<Rightarrow> Inl e
                | Inr key \<Rightarrow>
                    (case compare_digest (H key (token_body enrolment_id exp_unix)) sig of
                       Inl e \<Rightarrow> Inl e
                     | Inr ok \<Rightarrow>
                         if \<not> ok then Inl (InvalidToken ''bad signature'')
                         else if now - epoch_ordinal * us_day \<ge> seconds exp_unix then Inl (InvalidToken ''expired'')
                         else Inr enrolment_id)))
      | _ \<Rightarrow> Inl (InvalidToken ''malformed token''))"

lemma hex_char_not_dot [simp]: "\<not> hex_char (CHR ''.'')"
  by (simp add: hex_char_def)

lemma hex_no_dot: "list_all hex_char s \<Longrightarrow> CHR ''.'' \<notin> set s"
  by (auto simp: list_all_iff)

lemma hex_ascii: "list_all hex_char s \<Longrightarrow> ascii s"
proof -
  have "list_all (\<lambda>c. (of_char c :: nat) < 128) ''0123456789abcdef''" by simp
  then show "list_all hex_char s \<Longrightarrow> ascii s" unfolding hex_char_def ascii_def list_all_iff by blast
qed

lemma digits_no_dot: "CHR ''.'' \<notin> set (digits n)"
  using digits_all [of n] by (auto simp: is_digit_def simp del: digits.simps)

lemma show_int_no_dot: "CHR ''.'' \<notin> set (show_int i)"
  using digits_no_dot [of "nat i"] digits_no_dot [of "nat (- i)"]
  by (simp add: show_int_def del: digits.simps)

lemma split_three:
  assumes "c \<notin> set a" "c \<notin> set b" "c \<notin> set d"
  shows "split_on c (a @ c # b @ c # d) = [a, b, d]"
  using assms by (simp add: split_on_append split_on_no_sep)

lemma split_threeD:
  assumes "split_on c s = [a, b, d]"
  shows "s = a @ c # b @ c # d"
  using join_split [of c s] assms by simp

text \<open>What a token that verifies carries.\<close>

lemma verify_token_sound:
  assumes "verify_token H cfg now token = Inr eid"
  shows "\<exists>exp_str exp key. token = eid @ ''.'' @ exp_str @ ''.'' @ H key (token_body eid exp) \<and>
    python_int exp_str = Some exp \<and> signing_key cfg = Inr key \<and>
    now - epoch_ordinal * us_day < seconds exp"
proof -
  from assms obtain exp_str sig exp key where sp: "split_on (CHR ''.'') token = [eid, exp_str, sig]"
    and e: "python_int exp_str = Some exp" and k: "signing_key cfg = Inr key"
    and c: "compare_digest (H key (token_body eid exp)) sig = Inr True"
    and n: "now - epoch_ordinal * us_day < seconds exp"
    unfolding verify_token_def by (auto split: list.splits option.splits sum.splits if_splits)
  from c have "sig = H key (token_body eid exp)" by (rule compare_digest_True [symmetric])
  with split_threeD [OF sp] e k n show ?thesis by auto
qed

lemma verify_issue_token:
  assumes "hexdigest H" "CHR ''.'' \<notin> set eid" "0 \<le> unix_seconds t"
    "issue_token H cfg eid (Aware t) = Inr token" "now - epoch_ordinal * us_day < seconds (unix_seconds t)"
  shows "verify_token H cfg now token = Inr eid"
proof -
  obtain key where k: "signing_key cfg = Inr key"
    and tok: "token = eid @ ''.'' @ show_int (unix_seconds t) @ ''.'' @ H key (token_body eid (unix_seconds t))"
    using assms(4) by (auto simp: issue_token_def Let_def split: sum.splits)
  have hex: "list_all hex_char (H key (token_body eid (unix_seconds t)))"
    using assms(1) by (simp add: hexdigest_def)
  have "split_on (CHR ''.'') token =
      [eid, show_int (unix_seconds t), H key (token_body eid (unix_seconds t))]"
    unfolding tok using split_three [OF assms(2) show_int_no_dot hex_no_dot [OF hex]] by simp
  moreover have "python_int (show_int (unix_seconds t)) = Some (unix_seconds t)"
    using assms(3) python_int_show_nat [of "nat (unix_seconds t)"] by (simp add: show_int_def)
  ultimately show ?thesis
    using k assms(5) hex_ascii [OF hex] by (simp add: verify_token_def)
qed

end
