(* ===== verification/PyText.thy ===== *)
theory PyText
  imports PyTime
begin

text \<open>
  Text the services print: \<open>repr\<close> of a string, code points above U+00FF in the fixed Polish
  messages (written in UTF-8, as they are sent), and lookups in the bilingual columns.
\<close>

definition hex_digit :: "nat \<Rightarrow> char" where
  "hex_digit d = (if d < 10 then char_of (48 + d) else char_of (87 + d))"

definition repr_char :: "char \<Rightarrow> char \<Rightarrow> string" where
  "repr_char q c =
     (let n = of_char c :: nat
      in if c = q \<or> n = 92 then [CHR 0x5C, c]
         else if n = 10 then [CHR 0x5C, CHR ''n'']
         else if n = 13 then [CHR 0x5C, CHR ''r'']
         else if n = 9 then [CHR 0x5C, CHR ''t'']
         else if n < 32 \<or> (127 \<le> n \<and> n \<le> 160) \<or> n = 173
         then [CHR 0x5C, CHR ''x'', hex_digit (n div 16), hex_digit (n mod 16)]
         else [c])"

text \<open>\<open>repr(s)\<close>: single quotes unless the text has single and no double quotes.\<close>

definition py_repr :: "string \<Rightarrow> string" where
  "py_repr s =
     (let q = (if CHR 0x27 \<in> set s \<and> CHR 0x22 \<notin> set s then CHR 0x22 else CHR 0x27)
      in q # concat (map (repr_char q) s) @ [q])"

text \<open>A code point between U+0080 and U+FFFF in UTF-8.\<close>

definition utf8 :: "nat \<Rightarrow> string" where
  "utf8 n = (if n < 0x800 then [char_of (0xC0 + n div 64), char_of (0x80 + n mod 64)]
             else [char_of (0xE0 + n div 4096), char_of (0x80 + n div 64 mod 64), char_of (0x80 + n mod 64)])"

text \<open>A bilingual column, a dictionary from language codes to texts.\<close>

type_synonym texts = "(string \<times> string) list"

text \<open>\<open>(d or {}).get(lang) or default\<close>.\<close>

definition text_or :: "texts \<Rightarrow> string \<Rightarrow> string \<Rightarrow> string" where
  "text_or d lang fallback = (if truthy (map_of d lang) then or_empty (map_of d lang) else fallback)"

text \<open>The last \<open>n\<close> characters, \<open>s[-n:]\<close>.\<close>

definition suffix_of :: "nat \<Rightarrow> string \<Rightarrow> string" where
  "suffix_of n s = drop (length s - n) s"

end
