(* ===== verification/Training.thy ===== *)
theory Training
  imports TrainingLinks PyText
begin

text \<open>
  Training: the tables of app/models/training.py and the life of one enrolment in
  app/services/training.py: trainees, courses and their versions, issuing a magic link, taking
  and scoring the exam, the declaration and the certification. Objects the code mutates are
  named by their ids; objects it only reads are the rows themselves.
\<close>

subsection \<open>Enumerations\<close>

datatype enrolment_status = ISSUED | STARTED | SUBMITTED | EXPIRED | WITHDRAWN

fun enrolment_status_value :: "enrolment_status \<Rightarrow> string" where
  "enrolment_status_value ISSUED = ''issued''"
| "enrolment_status_value STARTED = ''started''"
| "enrolment_status_value SUBMITTED = ''submitted''"
| "enrolment_status_value EXPIRED = ''expired''"
| "enrolment_status_value WITHDRAWN = ''withdrawn''"

datatype enrolment_source = SRC_SCHEDULE | SRC_TRIGGER | SRC_MANUAL

fun enrolment_source_value :: "enrolment_source \<Rightarrow> string" where
  "enrolment_source_value SRC_SCHEDULE = ''schedule''"
| "enrolment_source_value SRC_TRIGGER = ''trigger''"
| "enrolment_source_value SRC_MANUAL = ''manual''"

datatype question_kind = SINGLE_CHOICE | MULTI_CHOICE | TRUE_FALSE

fun question_kind_value :: "question_kind \<Rightarrow> string" where
  "question_kind_value SINGLE_CHOICE = ''single_choice''"
| "question_kind_value MULTI_CHOICE = ''multi_choice''"
| "question_kind_value TRUE_FALSE = ''true_false''"

datatype notification_channel = SMS | EMAIL | BOTH

fun channel_value :: "notification_channel \<Rightarrow> string" where
  "channel_value SMS = ''sms''"
| "channel_value EMAIL = ''email''"
| "channel_value BOTH = ''both''"

subsection \<open>Tables\<close>

record trainee =
  tr_id :: string
  tr_employee_number :: "string option"
  tr_phone :: string
  tr_email :: "string option"
  tr_full_name :: string
  tr_role_code :: string
  tr_line_id :: "string option"
  tr_language :: string
  tr_is_active :: bool
  tr_channel :: string
  tr_user_id :: "string option"
  tr_updated_at :: pydt

record training_course =
  c_id :: string
  c_code :: string
  c_description :: "string option"
  c_is_active :: bool

record course_version =
  v_id :: string
  v_course_id :: string
  v_version :: int
  v_is_active :: bool
  v_title :: texts
  v_summary :: texts
  pass_threshold :: pyfloat
  validity_months :: int
  link_ttl_days :: int
  exam_time_limit_seconds :: "int option"

record training_module =
  m_id :: string
  m_version_id :: string
  m_order_index :: int
  m_title :: texts
  m_body_md :: texts

record training_question =
  q_id :: string
  q_version_id :: string
  q_order_index :: int
  q_prompt :: texts
  q_kind :: string

record answer_option =
  o_id :: string
  o_question_id :: string
  o_order_index :: int
  o_label :: texts
  o_is_correct :: bool

record training_assignment =
  as_id :: string
  as_course_id :: string
  as_role_code :: "string option"
  as_line_id :: "string option"
  recurrence_months :: int

record enrolment =
  e_id :: string
  e_trainee_id :: string
  e_version_id :: string
  magic_token :: string
  issued_at :: pydt
  expires_at :: pydt
  e_status :: string
  e_source :: string
  e_source_ref :: "string option"
  module_progress :: int
  reminder_3d_sent_at :: "pydt option"
  reminder_7d_sent_at :: "pydt option"
  reminder_final_sent_at :: "pydt option"

record attempt =
  at_id :: string
  at_enrolment_id :: string
  started_at :: pydt
  submitted_at :: "pydt option"
  score :: "pyfloat option"
  passed :: "bool option"
  at_payload :: json

record signed_declaration =
  d_id :: string
  d_attempt_id :: string
  typed_name :: string
  signature_png :: "string option"
  declaration_text :: string
  d_ip_address :: "string option"
  d_user_agent :: "string option"
  signed_at :: pydt

record certification =
  ct_id :: string
  ct_trainee_id :: string
  ct_course_id :: string
  ct_version_id :: string
  ct_attempt_id :: string
  ct_declaration_id :: string
  valid_from :: pydt
  valid_until :: pydt
  revoked_at :: "pydt option"

text \<open>HMAC-SHA256 in hexadecimal, of a key and a message, is the parameter \<open>hmac_hex\<close>.\<close>

record training_db = ticket_db +
  hmac_hex :: "string \<Rightarrow> string \<Rightarrow> string"
  trainees :: "trainee list"
  courses :: "training_course list"
  course_versions :: "course_version list"
  modules :: "training_module list"
  questions :: "training_question list"
  answer_options :: "answer_option list"
  assignments :: "training_assignment list"
  enrolments :: "enrolment list"
  attempts :: "attempt list"
  declarations :: "signed_declaration list"
  certifications :: "certification list"

definition active_version :: "string \<Rightarrow> 'a training_db_scheme \<Rightarrow> course_version option" where
  "active_version cid s =
     last_by v_version (filter (\<lambda>v. v_course_id v = cid \<and> v_is_active v) (course_versions s))"

text \<open>The relationships, in their order.\<close>

definition versions_of :: "string \<Rightarrow> 'a training_db_scheme \<Rightarrow> course_version list" where
  "versions_of cid s = sort_key v_version (filter (\<lambda>v. v_course_id v = cid) (course_versions s))"

definition modules_of :: "string \<Rightarrow> 'a training_db_scheme \<Rightarrow> training_module list" where
  "modules_of vid s = sort_key m_order_index (filter (\<lambda>m. m_version_id m = vid) (modules s))"

definition questions_of :: "string \<Rightarrow> 'a training_db_scheme \<Rightarrow> training_question list" where
  "questions_of vid s = sort_key q_order_index (filter (\<lambda>q. q_version_id q = vid) (questions s))"

definition options_of :: "string \<Rightarrow> 'a training_db_scheme \<Rightarrow> answer_option list" where
  "options_of qid s = sort_key o_order_index (filter (\<lambda>p. o_question_id p = qid) (answer_options s))"

definition assignments_of :: "string \<Rightarrow> 'a training_db_scheme \<Rightarrow> training_assignment list" where
  "assignments_of cid s = filter (\<lambda>a. as_course_id a = cid) (assignments s)"

definition attempt_of :: "string \<Rightarrow> 'a training_db_scheme \<Rightarrow> attempt option" where
  "attempt_of eid s = find (\<lambda>a. at_enrolment_id a = eid) (attempts s)"

definition update_enrolment :: "string \<Rightarrow> (enrolment \<Rightarrow> enrolment) \<Rightarrow> 'a training_db_scheme \<Rightarrow> 'a training_db_scheme" where
  "update_enrolment eid f s = s\<lparr>enrolments := update_row e_id eid f (enrolments s)\<rparr>"

definition update_attempt :: "string \<Rightarrow> (attempt \<Rightarrow> attempt) \<Rightarrow> 'a training_db_scheme \<Rightarrow> 'a training_db_scheme" where
  "update_attempt aid f s = s\<lparr>attempts := update_row at_id aid f (attempts s)\<rparr>"

subsection \<open>Dates\<close>

definition is_past :: "pydt \<Rightarrow> 'a session_scheme \<Rightarrow> bool" where
  "is_past dt s \<longleftrightarrow> instant dt \<le> clock s"

text \<open>\<open>_add_months\<close>: calendar months, the day clamped to the month's length.\<close>

definition add_months_date :: "date \<Rightarrow> int \<Rightarrow> date" where
  "add_months_date d months =
     (let total = month d - 1 + months;
          y = year d + total div 12;
          m = total mod 12 + 1
      in \<lparr>year = y, month = m, day = min (day d) (days_in_month y m)\<rparr>)"

definition add_months :: "int \<Rightarrow> int \<Rightarrow> exc + int" where
  "add_months t months =
     (let d = add_months_date (date_of t) months
      in if 1 \<le> year d \<and> year d \<le> 9999 then Inr (at_time d (t mod us_day))
         else Inl (ValueError ''year is out of range''))"

subsection \<open>Trainees and courses\<close>

record trainee_args =
  ta_phone :: string
  ta_full_name :: string
  ta_role_code :: string
  ta_line_id :: "string option"
  ta_language :: string
  ta_email :: "string option"
  ta_channel :: string
  ta_employee_number :: "string option"

text \<open>INSERT of a trainee: phone and employee number are unique, a NULL number aside.\<close>

definition insert_trainee :: "trainee \<Rightarrow> ('a training_db_scheme, unit) py" where
  "insert_trainee t = (\<lambda>s.
     if session_failed s then (Inl PendingRollbackError, s)
     else if tr_phone t \<in> tr_phone ` set (trainees s) \<or>
       (tr_employee_number t \<noteq> None \<and> tr_employee_number t \<in> tr_employee_number ` set (trainees s))
     then (Inl (IntegrityError ''trainees''), s\<lparr>session_failed := True\<rparr>)
     else (Inr (), s\<lparr>trainees := trainees s @ [t]\<rparr>))"

definition clean_employee_number :: "string option \<Rightarrow> string option" where
  "clean_employee_number n = (if truthy n then or_none (strip (or_empty n)) else n)"

definition new_trainee :: "trainee_args \<Rightarrow> string \<Rightarrow> pydt \<Rightarrow> trainee" where
  "new_trainee a i now =
     \<lparr>tr_id = i, tr_employee_number = clean_employee_number (ta_employee_number a),
      tr_phone = ta_phone a, tr_email = or_none (or_empty (ta_email a)),
      tr_full_name = ta_full_name a, tr_role_code = ta_role_code a, tr_line_id = ta_line_id a,
      tr_language = ta_language a, tr_is_active = True, tr_channel = ta_channel a,
      tr_user_id = None, tr_updated_at = now\<rparr>"

definition create_trainee :: "trainee_args \<Rightarrow> ('a training_db_scheme, trainee) py" where
  "create_trainee a = with_state (\<lambda>s.
     let number = clean_employee_number (ta_employee_number a)
     in if ta_phone a = [] \<or> ta_full_name a = [] \<or> ta_role_code a = []
        then throw (TrainingError ''phone, full_name, role_code are required'')
        else if ta_phone a \<in> tr_phone ` set (trainees s)
        then throw (TrainingError (''phone '' @ ta_phone a @ '' already registered''))
        else if ta_channel a \<notin> set (map channel_value [SMS, EMAIL, BOTH])
        then throw (TrainingError (''unknown notification_channel '' @ py_repr (ta_channel a)))
        else if truthy number \<and> number \<in> tr_employee_number ` set (trainees s)
        then throw (TrainingError (''employee_number '' @ py_repr (or_empty number) @ '' already registered''))
        else bind take_uuid (\<lambda>i.
          let t = new_trainee a i (utcnow s)
          in seq (insert_trainee t)
             (seq (record_entry ''trainee'' CREATE (Some i) [(''role_code'', JStr (ta_role_code a))] None)
                  (ret t))))"

definition get_course_by_code :: "string \<Rightarrow> 'a training_db_scheme \<Rightarrow> training_course option" where
  "get_course_by_code code s = find (\<lambda>c. c_code c = code) (courses s)"

definition create_course :: "string \<Rightarrow> string option \<Rightarrow> ('a training_db_scheme, training_course) py" where
  "create_course code desc = with_state (\<lambda>s.
     if get_course_by_code code s \<noteq> None
     then throw (TrainingError (''course '' @ code @ '' already exists''))
     else bind take_uuid (\<lambda>i.
       let c = \<lparr>c_id = i, c_code = code, c_description = desc, c_is_active = True\<rparr>
       in seq (modify (\<lambda>s. s\<lparr>courses := courses s @ [c]\<rparr>))
          (seq (record_entry ''training_course'' CREATE (Some i) [(''code'', JStr code)] None)
               (ret c))))"

definition add_course_version ::
  "string \<Rightarrow> texts \<Rightarrow> texts option \<Rightarrow> pyfloat option \<Rightarrow> int option \<Rightarrow> int option \<Rightarrow> int option \<Rightarrow>
   ('a training_db_scheme, course_version) py" where
  "add_course_version cid ttl summary threshold months ttl_days limit = with_state (\<lambda>s.
     let next_version = 1 + (case map v_version (versions_of cid s) of [] \<Rightarrow> 0 | n # ns \<Rightarrow> fold max ns n)
     in bind take_uuid (\<lambda>i.
       let v = \<lparr>v_id = i, v_course_id = cid, v_version = next_version, v_is_active = True,
                v_title = ttl,
                v_summary = (case summary of Some (x # xs) \<Rightarrow> x # xs | _ \<Rightarrow> [(''pl'', []), (''en'', [])]),
                pass_threshold = (case threshold of Some x \<Rightarrow> x
                  | None \<Rightarrow> TRAINING_DEFAULT_PASS_THRESHOLD (app_config s)),
                validity_months = (case months of Some n \<Rightarrow> if n = 0 then 12 else n | None \<Rightarrow> 12),
                link_ttl_days = (case ttl_days of Some n \<Rightarrow> n
                  | None \<Rightarrow> TRAINING_DEFAULT_LINK_TTL_DAYS (app_config s)),
                exam_time_limit_seconds = limit\<rparr>
       in seq (modify (\<lambda>s. s\<lparr>course_versions :=
                 map (\<lambda>w. if v_course_id w = cid then w\<lparr>v_is_active := False\<rparr> else w) (course_versions s) @ [v]\<rparr>))
          (seq (record_entry ''training_course'' CREATE_VERSION (Some cid) [(''version'', JInt next_version)] None)
               (ret v))))"

end
