(* ===== verification/UniqueInsert.thy ===== *)
theory UniqueInsert
  imports Prelude
begin

text \<open>
  The contract of an INSERT into a table with a unique key, as the tables of the database offer it
  to the services: a fresh key is stored at the end of the table, a known one is refused and fails
  the session, and a failed session refuses everything until it is rolled back. Every component
  interprets the locale on the INSERTs of its own tables.
\<close>

locale unique_insert =
  fixes ins :: "'r \<Rightarrow> ('s, unit) py" and rows :: "'s \<Rightarrow> 'r list" and key :: "'r \<Rightarrow> 'k" and failed :: "'s \<Rightarrow> bool"
  assumes ins_fresh: "\<not> failed s \<Longrightarrow> key r \<notin> key ` set (rows s) \<Longrightarrow>
      \<exists>t. ins r s = (Inr (), t) \<and> rows t = rows s @ [r] \<and> \<not> failed t"
    and ins_known: "\<not> failed s \<Longrightarrow> key r \<in> key ` set (rows s) \<Longrightarrow>
      \<exists>what t. ins r s = (Inl (IntegrityError what), t) \<and> rows t = rows s \<and> failed t"
    and ins_failed: "failed s \<Longrightarrow> ins r s = (Inl PendingRollbackError, s)"
begin

lemma ins_cases:
  obtains (stored) t where "\<not> failed s" "key r \<notin> key ` set (rows s)" "ins r s = (Inr (), t)" "rows t = rows s @ [r]" "\<not> failed t"
  | (refused) what t where "\<not> failed s" "key r \<in> key ` set (rows s)" "ins r s = (Inl (IntegrityError what), t)" "rows t = rows s" "failed t"
  | (broken) "failed s" "ins r s = (Inl PendingRollbackError, s)"
  using ins_fresh [of s r] ins_known [of s r] ins_failed [of s r] by blast

lemma ins_iff: "ins r s = (Inr x, t) \<Longrightarrow> \<not> failed s \<and> key r \<notin> key ` set (rows s) \<and> rows t = rows s @ [r] \<and> \<not> failed t"
  by (cases s r rule: ins_cases) auto

text \<open>Whatever happens, the keys of the table stay unique, and no row is lost.\<close>

lemma ins_unique: "distinct (map key (rows s)) \<Longrightarrow> distinct (map key (rows (snd (ins r s))))"
  by (cases s r rule: ins_cases) auto

lemma ins_grows: "\<exists>new. rows (snd (ins r s)) = rows s @ new"
  by (cases s r rule: ins_cases) auto

lemma keeps_unique: "keeps (\<lambda>s t. distinct (map key (rows s)) \<longrightarrow> distinct (map key (rows t))) (ins r)"
  by (rule keepsI) (use ins_unique in blast)

text \<open>A row that was stored is found by its key, and no other lookup changes.\<close>

lemma lookup_stored:
  assumes "ins r s = (Inr x, t)"
  shows "by_key key k (rows t) = (if k = key r then Some r else by_key key k (rows s))"
proof -
  have "key r \<notin> key ` set (rows s)" "rows t = rows s @ [r]" using ins_iff [OF assms] by simp_all
  moreover from this have "by_key key (key r) (rows s) = None" by (simp add: by_key_None)
  moreover have "by_key key k [r] = (if k = key r then Some r else None)" by (auto simp: by_key_def)
  ultimately show ?thesis by (auto simp: by_key_append split: option.split)
qed

text \<open>A loop of INSERTs succeeds exactly when the keys are new and differ, and stores all the rows in order.\<close>

lemma insert_all_iff:
  assumes "\<not> failed s"
  shows "(\<exists>t. for_each ins rs s = (Inr (), t) \<and> rows t = rows s @ rs \<and> \<not> failed t) \<longleftrightarrow>
    distinct (map key rs) \<and> key ` set rs \<inter> key ` set (rows s) = {}"
  using assms
proof (induction rs arbitrary: s)
  case Nil
  then show ?case by simp
next
  case (Cons r rs)
  show ?case
  proof (cases "key r \<in> key ` set (rows s)")
    case True
    then obtain what t where "ins r s = (Inl (IntegrityError what), t)" using ins_known [OF Cons.prems] by blast
    with True show ?thesis by (simp add: seq_Inl)
  next
    case False
    then obtain u where u: "ins r s = (Inr (), u)" "rows u = rows s @ [r]" "\<not> failed u"
      using ins_fresh [OF Cons.prems] by blast
    then show ?thesis using Cons.IH [OF u(3)] False by (auto simp: seq_Inr)
  qed
qed

end

end
