(* ===== verification/Enrolment.thy ===== *)
theory Enrolment
  imports Training UniqueInsert
begin

text \<open>
  One enrolment from the magic link to the certificate (app/services/training.py: enrol to
  record_declaration). Scores are exact quotients compared with the threshold as an exact
  decimal.
\<close>

subsection \<open>Issuing the link\<close>

text \<open>INSERT of an enrolment: the token column is unique.\<close>

definition insert_enrolment :: "enrolment \<Rightarrow> ('a training_db_scheme, unit) py" where
  "insert_enrolment e = (\<lambda>s.
     if session_failed s then (Inl PendingRollbackError, s)
     else if magic_token e \<in> magic_token ` set (enrolments s)
     then (Inl (IntegrityError ''training_enrolments.magic_token''), s\<lparr>session_failed := True\<rparr>)
     else (Inr (), s\<lparr>enrolments := enrolments s @ [e]\<rparr>))"

interpretation enrolment_rows: unique_insert insert_enrolment enrolments magic_token session_failed
  by unfold_locales (auto simp: insert_enrolment_def)

definition iso_day :: "pydt \<Rightarrow> string" where
  "iso_day dt = iso_date (date_of (instant dt))"

text \<open>Both a channel's value; an unknown value asks for neither.\<close>

definition wanted_channels :: "trainee \<Rightarrow> bool \<times> bool" where
  "wanted_channels t =
     (let channel = tr_channel t;
          has_email = (strip (or_empty (tr_email t)) \<noteq> []);
          want_sms = channel \<in> {channel_value SMS, channel_value BOTH};
          want_email = channel \<in> {channel_value EMAIL, channel_value BOTH}
      in if want_email \<and> \<not> has_email then (True, False) else (want_sms, want_email))"

text \<open>An enqueue whose failure is logged and reported as False.\<close>

definition best_effort :: "('s, string) py \<Rightarrow> ('s, bool) py" where
  "best_effort m = catch (bind m (\<lambda>_. ret True)) (\<lambda>_. True) (\<lambda>_. ret False)"

definition deliver_magic_link ::
  "trainee \<Rightarrow> string \<Rightarrow> string \<Rightarrow> string \<Rightarrow> pydt \<Rightarrow> ('a training_db_scheme, bool \<times> bool) py" where
  "deliver_magic_link t ttl link body expires =
     (let (want_sms, want_email) = wanted_channels t;
          newline = [CHR 0x0A];
          quote = [CHR 0x22];
          content = body @ newline @ newline @ ''Open the link on your phone to begin. '' @
            ''This link expires on '' @ iso_day expires @ ''.'' @ newline;
          html = ''<p>'' @ ttl @ '' training link</p>'' @
            ''<p><a href='' @ quote @ link @ quote @ ''>'' @ link @ ''</a></p>'' @
            ''<p>This link expires on '' @ iso_day expires @ ''.</p>''
      in bind (if want_sms then best_effort (enqueue_sms (JStr (tr_phone t)) body) else ret False)
         (\<lambda>sms_queued.
         bind (if want_email
               then best_effort (enqueue_email (jstr_opt (tr_email t)) (''[QMS] '' @ ttl) content (Some html))
               else ret False)
         (\<lambda>email_queued. ret (sms_queued, email_queued))))"

definition magic_link :: "string option \<Rightarrow> app_config \<Rightarrow> string \<Rightarrow> string" where
  "magic_link base_url cfg token =
     rstrip_char (CHR ''/'') (if truthy base_url then or_empty base_url else TRAINING_BASE_URL cfg) @
     ''/training/take/'' @ token"

definition new_enrolment ::
  "trainee \<Rightarrow> course_version \<Rightarrow> string \<Rightarrow> string option \<Rightarrow> 'a training_db_scheme \<Rightarrow> string \<Rightarrow> enrolment" where
  "new_enrolment t v src src_ref s i =
     \<lparr>e_id = i, e_trainee_id = tr_id t, e_version_id = v_id v, magic_token = [],
      issued_at = utcnow s, expires_at = Aware (clock s + days (link_ttl_days v)),
      e_status = enrolment_status_value ISSUED, e_source = src, e_source_ref = src_ref,
      module_progress = 0, reminder_3d_sent_at = None, reminder_7d_sent_at = None,
      reminder_final_sent_at = None\<rparr>"

text \<open>The second half of \<open>enrol\<close>: the audit entries around the delivery of the signed link.\<close>

definition send_enrolment_link ::
  "trainee \<Rightarrow> training_course \<Rightarrow> string \<Rightarrow> course_version \<Rightarrow> string option \<Rightarrow> enrolment \<Rightarrow>
   ('a training_db_scheme, enrolment) py" where
  "send_enrolment_link t c src v base_url e = with_state (\<lambda>s.
     let link = magic_link base_url (app_config s) (magic_token e);
         title_en = text_or (v_title v) ''en'' (c_code c);
         body = title_en @ '' training: '' @ link @ '' (expires '' @ iso_day (expires_at e) @ '')''
     in seq (record_entry ''training_enrolment'' TRAINING_ENROLLED (Some (e_id e))
              [(''trainee_id'', JStr (tr_id t)), (''course_id'', JStr (c_id c)),
               (''version'', JInt (v_version v)), (''source'', JStr src)] None)
        (bind (deliver_magic_link t title_en link body (expires_at e)) (\<lambda>(sms_queued, email_queued).
           seq (record_entry ''training_enrolment'' TRAINING_LINK_SENT (Some (e_id e))
              [(''phone_suffix'', JStr (suffix_of 4 (tr_phone t))),
               (''channel_requested'', JStr (tr_channel t)),
               (''sms_queued'', JBool sms_queued), (''email_queued'', JBool email_queued)] None)
           (ret e))))"

definition enrol ::
  "trainee \<Rightarrow> training_course \<Rightarrow> string \<Rightarrow> string option \<Rightarrow> string option \<Rightarrow>
   ('a training_db_scheme, enrolment) py" where
  "enrol t c src src_ref base_url = with_state (\<lambda>s.
     case active_version (c_id c) s of
       None \<Rightarrow> throw (TrainingError (''course '' @ c_code c @ '' has no active version''))
     | Some v \<Rightarrow>
         bind take_uuid (\<lambda>i.
         let e = new_enrolment t v src src_ref s i
         in seq (insert_enrolment e)
           (case issue_token (hmac_hex s) (app_config s) i (expires_at e) of
              Inl x \<Rightarrow> throw x
            | Inr token \<Rightarrow>
               seq (modify (update_enrolment i (\<lambda>e. e\<lparr>magic_token := token\<rparr>)))
                   (send_enrolment_link t c src v base_url (e\<lparr>magic_token := token\<rparr>)))))"

subsection \<open>Opening the link\<close>

text \<open>\<open>str(exc)\<close> of an InvalidToken contains ''expired'' only for that reason.\<close>

fun is_invalid_token :: "exc \<Rightarrow> bool" where
  "is_invalid_token (InvalidToken m) = True"
| "is_invalid_token _ = False"

definition get_enrolment_with_reason ::
  "string \<Rightarrow> 'a training_db_scheme \<Rightarrow> exc + (enrolment option \<times> string)" where
  "get_enrolment_with_reason token s =
     (case verify_token (hmac_hex s) (app_config s) (clock s) token of
        Inl e \<Rightarrow> if is_invalid_token e
                 then Inr (None, if e = InvalidToken ''expired'' then ''expired'' else ''invalid'')
                 else Inl e
      | Inr eid \<Rightarrow>
          (case by_key e_id eid (enrolments s) of
             None \<Rightarrow> Inr (None, ''invalid'')
           | Some e \<Rightarrow>
               if magic_token e \<noteq> token then Inr (None, ''expired'')
               else if is_past (expires_at e) s then Inr (None, ''expired'')
               else Inr (Some e, [])))"

definition get_enrolment_by_token :: "string \<Rightarrow> 'a training_db_scheme \<Rightarrow> exc + enrolment option" where
  "get_enrolment_by_token token s =
     (case get_enrolment_with_reason token s of Inl e \<Rightarrow> Inl e | Inr (e, reason) \<Rightarrow> Inr e)"

subsection \<open>The attempt\<close>

definition start_attempt :: "string \<Rightarrow> ('a training_db_scheme, attempt) py" where
  "start_attempt eid = with_state (\<lambda>s.
     case attempt_of eid s of
       Some a \<Rightarrow> ret a
     | None \<Rightarrow>
         seq (modify (update_enrolment eid (\<lambda>e. e\<lparr>e_status := enrolment_status_value STARTED\<rparr>)))
         (bind take_uuid (\<lambda>i.
           let a = \<lparr>at_id = i, at_enrolment_id = eid, started_at = utcnow s, submitted_at = None,
                    score = None, passed = None, at_payload = JNull\<rparr>
           in seq (modify (\<lambda>s. s\<lparr>attempts := attempts s @ [a]\<rparr>))
              (seq (record_entry ''training_attempt'' TRAINING_ATTEMPT_STARTED (Some i) [] None)
                   (ret a)))))"

definition correct_ids :: "string \<Rightarrow> 'a training_db_scheme \<Rightarrow> string set" where
  "correct_ids qid s = set (map o_id (filter o_is_correct (options_of qid s)))"

text \<open>Exact set equality with the correct options, of which there must be one.\<close>

definition is_right :: "'a training_db_scheme \<Rightarrow> (string \<times> string list) list \<Rightarrow> training_question \<Rightarrow> bool" where
  "is_right s answers q \<longleftrightarrow>
     (let selected = (case map_of answers (q_id q) of None \<Rightarrow> [] | Some xs \<Rightarrow> xs)
      in set selected = correct_ids (q_id q) s \<and> correct_ids (q_id q) s \<noteq> {})"

definition answer_snapshot :: "'a training_db_scheme \<Rightarrow> (string \<times> string list) list \<Rightarrow> training_question \<Rightarrow> json" where
  "answer_snapshot s answers q =
     (let selected = (case map_of answers (q_id q) of None \<Rightarrow> [] | Some xs \<Rightarrow> xs)
      in JObj [(''question_id'', JStr (q_id q)),
               (''selected_option_ids'', JList (map JStr (sort (remdups selected)))),
               (''is_correct'', JBool (is_right s answers q))])"

definition exam_score :: "'a training_db_scheme \<Rightarrow> (string \<times> string list) list \<Rightarrow> training_question list \<Rightarrow> rat" where
  "exam_score s answers qs = of_nat (length (filter (is_right s answers) qs)) / of_nat (length qs)"

text \<open>\<open>round(x, 4)\<close>: to four decimals, ties to even.\<close>

definition round4 :: "rat \<Rightarrow> rat" where
  "round4 x =
     (let y = x * 10000; f = floor y; r = y - of_int f
      in of_int (if r > 1 / 2 \<or> (r = 1 / 2 \<and> odd f) then f + 1 else f) / 10000)"

definition submit_attempt :: "string \<Rightarrow> (string \<times> string list) list \<Rightarrow> ('a training_db_scheme, attempt) py" where
  "submit_attempt eid answers =
     bind (start_attempt eid) (\<lambda>a. with_state (\<lambda>s.
       if submitted_at a \<noteq> None then throw (TrainingError ''attempt already submitted'')
       else case by_key e_id eid (enrolments s) of
         None \<Rightarrow> throw (RuntimeError ''instance is not present in the session'')
       | Some e \<Rightarrow>
          (case by_key v_id (e_version_id e) (course_versions s) of
             None \<Rightarrow> throw (TypeError ''NoneType'')
           | Some v \<Rightarrow>
              let qs = questions_of (v_id v) s
              in if qs = [] then throw (TrainingError ''course version has no questions'')
                 else
                   let sc = exam_score s answers qs;
                       ok = fle (pass_threshold v) (Fin sc);
                       a' = a\<lparr>submitted_at := Some (utcnow s), score := Some (Fin sc), passed := Some ok,
                              at_payload := JObj [(''answers'', JList (map (answer_snapshot s answers) qs)),
                                                  (''n_questions'', JInt (int (length qs)))]\<rparr>
                   in seq (modify (update_attempt (at_id a) (\<lambda>_. a')))
                     (seq (modify (update_enrolment eid (\<lambda>e. e\<lparr>e_status := enrolment_status_value SUBMITTED\<rparr>)))
                     (seq (record_entry ''training_attempt'' TRAINING_ATTEMPT_SUBMITTED (Some (at_id a))
                             [(''score'', JFloat (Fin (round4 sc))), (''passed'', JBool ok)] None)
                          (ret a'))))))"

subsection \<open>The declaration and the certificate\<close>

definition certify :: "attempt \<Rightarrow> string \<Rightarrow> ('a training_db_scheme, unit) py" where
  "certify a did = with_state (\<lambda>s.
     case by_key e_id (at_enrolment_id a) (enrolments s) of
       None \<Rightarrow> throw (TypeError ''NoneType'')
     | Some e \<Rightarrow>
        (case by_key v_id (e_version_id e) (course_versions s) of
           None \<Rightarrow> throw (TypeError ''NoneType'')
         | Some v \<Rightarrow>
            (case add_months (clock s) (validity_months v) of
               Inl x \<Rightarrow> throw x
             | Inr until \<Rightarrow>
                 bind take_uuid (\<lambda>i.
                   let cert = \<lparr>ct_id = i, ct_trainee_id = e_trainee_id e, ct_course_id = v_course_id v,
                               ct_version_id = v_id v, ct_attempt_id = at_id a, ct_declaration_id = did,
                               valid_from = utcnow s, valid_until = Aware until, revoked_at = None\<rparr>
                   in seq (modify (\<lambda>s. s\<lparr>certifications := certifications s @ [cert]\<rparr>))
                      (seq (record_entry ''training_certification'' TRAINING_CERTIFIED (Some i)
                              [(''course_id'', JStr (v_course_id v)), (''version'', JInt (v_version v)),
                               (''valid_until'', JStr (isoformat_utc until))] None)
                           (ret ()))))))"

definition record_declaration ::
  "string \<Rightarrow> string \<Rightarrow> string \<Rightarrow> string option \<Rightarrow> string option \<Rightarrow> string option \<Rightarrow>
   ('a training_db_scheme, signed_declaration) py" where
  "record_declaration aid name decl_text sig ip agent = with_state (\<lambda>s.
     case by_key at_id aid (attempts s) of
       None \<Rightarrow> throw (RuntimeError ''instance is not present in the session'')
     | Some a \<Rightarrow>
         if submitted_at a = None then throw (TrainingError ''attempt not yet submitted'')
         else if strip name = [] then throw (TrainingError ''typed_name is required'')
         else if aid \<in> d_attempt_id ` set (declarations s) then throw (TrainingError ''declaration already recorded'')
         else bind take_uuid (\<lambda>i.
           let d = \<lparr>d_id = i, d_attempt_id = aid, typed_name = strip name, signature_png = sig,
                    declaration_text = decl_text, d_ip_address = ip, d_user_agent = agent,
                    signed_at = utcnow s\<rparr>
           in seq (modify (\<lambda>s. s\<lparr>declarations := declarations s @ [d]\<rparr>))
             (seq (record_entry ''training_declaration'' TRAINING_DECLARED (Some i)
                     [(''typed_name'', JStr (strip name)), (''has_signature'', JBool (sig \<noteq> None))] None)
             (seq (if passed a = Some True then certify a i else ret ())
                  (ret d)))))"

end
