(* ===== verification/TrainingLife.thy ===== *)
theory TrainingLife
  imports Enrolment
begin

text \<open>
  What the training operations do: the audit contract, the tables after a successful call, and
  the properties of the magic link and of scoring.
\<close>

subsection \<open>Contracts\<close>

lemma keeps_log_inserts [audited]:
  "keeps log_step (insert_trainee t)" "keeps log_step (insert_enrolment e)"
  by (rule keepsI; auto simp: insert_trainee_def insert_enrolment_def log_step_def log_wf_def)+

lemma keeps_log_updates [audited]:
  "keeps log_step (modify (update_enrolment i f))" "keeps log_step (modify (update_attempt i g))"
  by (intro audited; simp add: update_enrolment_def update_attempt_def)+

lemma keeps_log_best_effort [audited]: "keeps log_step m \<Longrightarrow> keeps log_step (best_effort m)"
  unfolding best_effort_def by (intro audited)

lemma keeps_log_deliver [audited]: "keeps log_step (deliver_magic_link t ttl link body e)"
  unfolding deliver_magic_link_def Let_def by (intro audited)

lemma keeps_log_create [audited]:
  "keeps log_step (create_trainee a)" "keeps log_step (create_course code desc)"
  "keeps log_step (add_course_version cid ttl sm th mo dys limit)"
  unfolding create_trainee_def create_course_def add_course_version_def
  by (intro audited; simp)+

lemma keeps_log_enrol [audited]: "keeps log_step (enrol t c src ref base)"
  unfolding enrol_def send_enrolment_link_def Let_def by (intro audited)

lemma keeps_log_attempt [audited]:
  "keeps log_step (start_attempt eid)" "keeps log_step (submit_attempt eid answers)"
  unfolding submit_attempt_def start_attempt_def by (intro audited; simp)+

lemma keeps_log_declaration [audited]:
  "keeps log_step (certify a did)" "keeps log_step (record_declaration aid name dtext sig ip agent)"
  unfolding record_declaration_def certify_def by (intro audited; simp)+

interpretation enrolling: audited_operation "enrol t c src ref base" for t c src ref base
  by unfold_locales (rule keeps_log_enrol)

interpretation exam_submission: audited_operation "submit_attempt eid answers" for eid answers
  by unfold_locales (rule keeps_log_attempt)

interpretation declaring: audited_operation "record_declaration aid name dtext sig ip agent" for aid name dtext sig ip agent
  by unfold_locales (rule keeps_log_declaration)

lemma keeps_draws_training [drawing]:
  "keeps draws (insert_trainee t)" "keeps draws (insert_enrolment e)"
  "keeps draws (modify (update_enrolment i f))" "keeps draws (modify (update_attempt i g))"
  "keeps draws (enqueue q fn k :: ('a session_scheme, string) py)"
  by (rule keepsI; simp add: draws_def insert_trainee_def insert_enrolment_def update_enrolment_def
    update_attempt_def enqueue_def Let_def)+

lemma keeps_draws_deliver [drawing]: "keeps draws (deliver_magic_link t ttl link body e)"
  unfolding deliver_magic_link_def best_effort_def enqueue_sms_def enqueue_email_def Let_def
  by (intro drawing)

lemma keeps_draws_training_ops [drawing]:
  "keeps draws (create_trainee a)" "keeps draws (create_course code desc)"
  "keeps draws (add_course_version cid ttl sm th mo dys limit)" "keeps draws (enrol t c src ref base)"
  "keeps draws (start_attempt eid)" "keeps draws (submit_attempt eid answers)"
  "keeps draws (record_declaration aid name dtext sig ip agent)"
  unfolding create_trainee_def create_course_def add_course_version_def enrol_def send_enrolment_link_def submit_attempt_def
    start_attempt_def record_declaration_def certify_def
  by (intro drawing; simp)+

subsection \<open>Successful calls\<close>

text \<open>States that differ outside the training tables only.\<close>

definition same_training :: "'a training_db_scheme \<Rightarrow> 'a training_db_scheme \<Rightarrow> bool" where
  "same_training s t \<longleftrightarrow> trainees t = trainees s \<and> courses t = courses s \<and>
     course_versions t = course_versions s \<and> modules t = modules s \<and> questions t = questions s \<and>
     answer_options t = answer_options s \<and> assignments t = assignments s \<and> enrolments t = enrolments s \<and>
     attempts t = attempts s \<and> declarations t = declarations s \<and> certifications t = certifications s \<and>
     hmac_hex t = hmac_hex s \<and> app_config t = app_config s \<and> clock t = clock s \<and>
     uuid_at t = uuid_at s \<and> uuid_next t = uuid_next s"

lemma record_entry_same: "record_entry ty ac e d u s = (r, t) \<Longrightarrow> same_training s t"
  by (auto simp: record_entry_def same_training_def Let_def split: if_splits)

lemma best_effort_send:
  "\<exists>b q. best_effort (enqueue_sms x body) s = (Inr b, s\<lparr>queue := q\<rparr>)"
  "\<exists>b q. best_effort (enqueue_email y sub body html) s = (Inr b, s\<lparr>queue := q\<rparr>)"
  unfolding enqueue_sms_def enqueue_email_def
  by (cases "q_up (queue s)"; auto simp: best_effort_def catch_def bind_def enqueue_def Let_def
      intro: exI [of _ "queue s"])+

lemma same_training_refl [simp]: "same_training s s"
  by (simp add: same_training_def)

lemma same_training_trans: "same_training s t \<Longrightarrow> same_training t u \<Longrightarrow> same_training s u"
  by (simp add: same_training_def)

text \<open>Delivery never raises and only touches the queues.\<close>

lemma deliver_ok: "\<exists>b q. deliver_magic_link t ttl link body e s = (Inr b, s\<lparr>queue := q\<rparr>)"
proof -
  obtain ws we where w: "wanted_channels t = (ws, we)" by fastforce
  have two: "\<exists>b q. bind (if ws then m else ret False) (\<lambda>a. bind (if we then n else ret False) (\<lambda>b. ret (a, b))) s =
      (Inr b, s\<lparr>queue := q\<rparr>)"
    if m: "\<And>s. \<exists>b q. m s = (Inr b, s\<lparr>queue := q\<rparr>)" and n: "\<And>s. \<exists>b q. n s = (Inr b, s\<lparr>queue := q\<rparr>)"
    for m n :: "('a training_db_scheme, bool) py" and s
  proof -
    have m': "\<exists>b q. (if ws then m else ret False) s = (Inr b, s\<lparr>queue := q\<rparr>)" for s
      using m by (cases ws) (auto intro: exI [of _ "queue s"])
    have n': "\<exists>b q. (if we then n else ret False) s = (Inr b, s\<lparr>queue := q\<rparr>)" for s
      using n by (cases we) (auto intro: exI [of _ "queue s"])
    obtain b q where 1: "(if ws then m else ret False) s = (Inr b, s\<lparr>queue := q\<rparr>)" using m' by blast
    obtain b' q' where 2: "(if we then n else ret False) (s\<lparr>queue := q\<rparr>) = (Inr b', s\<lparr>queue := q\<rparr>\<lparr>queue := q'\<rparr>)"
      using n' by blast
    show ?thesis unfolding bind_def 1 prod.case sum.case 2 by auto
  qed
  show ?thesis
    unfolding deliver_magic_link_def w Let_def prod.case by (rule two; rule best_effort_send)
qed

lemma deliver_same:
  assumes "deliver_magic_link t ttl link body e s = (r, u)"
  shows "same_training s u \<and> (\<exists>b. r = Inr b)"
proof -
  obtain b q where "deliver_magic_link t ttl link body e s = (Inr b, s\<lparr>queue := q\<rparr>)" using deliver_ok by blast
  with assms show ?thesis by (auto simp: same_training_def)
qed

lemma writable_training [simp]:
  "writable (s\<lparr>enrolments := es\<rparr>) = writable s" "writable (s\<lparr>attempts := ats\<rparr>) = writable s"
  "writable (s\<lparr>certifications := cs\<rparr>) = writable s" "writable (s\<lparr>declarations := ds\<rparr>) = writable s"
  "writable (s\<lparr>uuid_next := n\<rparr>) = writable s" "writable (s\<lparr>queue := q\<rparr>) = writable s"
  "writable (s\<lparr>audit_log := al\<rparr>) = writable s" "writable (s\<lparr>audit_seq := i\<rparr>) = writable s"
  by (simp_all add: writable_def audit_update_allowed_def)

lemma send_link_ok:
  fixes s :: "'a training_db_scheme"
  assumes "writable s"
  shows "\<exists>s'. send_enrolment_link t c src v base e s = (Inr e, s') \<and> writable s'"
proof -
  define ent where "ent = with_checksum (json_hash s) (new_entry ''training_enrolment'' TRAINING_ENROLLED (Some (e_id e))
      [(''trainee_id'', JStr (tr_id t)), (''course_id'', JStr (c_id c)),
       (''version'', JInt (v_version v)), (''source'', JStr src)] None s)"
  define s1 where "s1 = s\<lparr>audit_log := audit_log s @ [ent], audit_seq := audit_seq s + 1\<rparr>"
  define link where "link = magic_link base (app_config s) (magic_token e)"
  define title_en where "title_en = text_or (v_title v) ''en'' (c_code c)"
  define body where "body = title_en @ '' training: '' @ link @ '' (expires '' @ iso_day (expires_at e) @ '')''"
  define K where "K = (\<lambda>(a, b). seq (record_entry ''training_enrolment'' TRAINING_LINK_SENT (Some (e_id e))
              [(''phone_suffix'', JStr (suffix_of 4 (tr_phone t))),
               (''channel_requested'', JStr (tr_channel t)),
               (''sms_queued'', JBool a), (''email_queued'', JBool b)] None) (ret e) :: ('a training_db_scheme, enrolment) py)"
  have "record_entry ''training_enrolment'' TRAINING_ENROLLED (Some (e_id e))
      [(''trainee_id'', JStr (tr_id t)), (''course_id'', JStr (c_id c)),
       (''version'', JInt (v_version v)), (''source'', JStr src)] None s = (Inr ent, s1)"
    using record_entry_ok [OF assms] by (simp only: ent_def s1_def)
  then have eq: "send_enrolment_link t c src v base e s = bind (deliver_magic_link t title_en link body (expires_at e)) K s1"
    unfolding send_enrolment_link_def with_state_apply Let_def link_def title_en_def body_def K_def by (rule seq_Inr)
  obtain r q where d: "deliver_magic_link t title_en link body (expires_at e) s1 = (Inr r, s1\<lparr>queue := q\<rparr>)"
    using deliver_ok by blast
  have w: "writable (s1\<lparr>queue := q\<rparr>)" using assms by (simp add: s1_def)
  obtain x y where "r = (x, y)" by (cases r)
  then have "K r (s1\<lparr>queue := q\<rparr>) = (Inr e, snd (K r (s1\<lparr>queue := q\<rparr>))) \<and> writable (snd (K r (s1\<lparr>queue := q\<rparr>)))"
    using w by (simp add: K_def seq_Inr record_entry_ok)
  then show ?thesis
    unfolding eq bind_Inr [where m = "deliver_magic_link t title_en link body (expires_at e)", OF d] by blast
qed

lemma take_uuid_Inr: "take_uuid s = (Inr i, t) \<longleftrightarrow> i = gen_uuid s \<and> t = s\<lparr>uuid_next := Suc (uuid_next s)\<rparr>"
  by (auto simp: take_uuid_def)

lemma modify_Inr: "modify f s = (Inr u, t) \<longleftrightarrow> t = f s"
  by auto

lemma same_training_congs:
  "same_training s t \<Longrightarrow> same_training (s\<lparr>enrolments := es\<rparr>) (t\<lparr>enrolments := es\<rparr>)"
  by (simp add: same_training_def)

lemma send_link_same:
  assumes "send_enrolment_link t c src v base e s = (Inr x, s')"
  shows "x = e \<and> same_training s s'"
  using assms
  by (auto simp: send_enrolment_link_def Let_def run_iff split: prod.splits
      dest!: record_entry_same deliver_same intro: same_training_trans)

lemma enrol_Inr:
  assumes "enrol t c src ref base s = (Inr e, s')"
  obtains v tok where "active_version (c_id c) s = Some v"
    "issue_token (hmac_hex s) (app_config s) (gen_uuid s) (Aware (clock s + days (link_ttl_days v))) = Inr tok"
    "e = (new_enrolment t v src ref s (gen_uuid s))\<lparr>magic_token := tok\<rparr>"
    "[] \<notin> magic_token ` set (enrolments s)"
    "same_training (s\<lparr>uuid_next := Suc (uuid_next s),
       enrolments := update_row e_id (gen_uuid s) (\<lambda>e. e\<lparr>magic_token := tok\<rparr>)
         (enrolments s @ [new_enrolment t v src ref s (gen_uuid s)])\<rparr>) s'"
proof -
  obtain v where v: "active_version (c_id c) s = Some v"
    using assms by (auto simp: enrol_def split: option.splits)
  define ne where "ne = new_enrolment t v src ref s (gen_uuid s)"
  define s1 where "s1 = s\<lparr>uuid_next := Suc (uuid_next s)\<rparr>"
  have ne: "magic_token ne = []" "expires_at ne = Aware (clock s + days (link_ttl_days v))"
    by (simp_all add: ne_def new_enrolment_def)
  from assms v obtain u s2 tok where ins: "insert_enrolment ne s1 = (Inr u, s2)"
    and tok: "issue_token (hmac_hex s) (app_config s) (gen_uuid s) (expires_at ne) = Inr tok"
    and rest: "send_enrolment_link t c src v base (ne\<lparr>magic_token := tok\<rparr>)
       (update_enrolment (gen_uuid s) (\<lambda>e. e\<lparr>magic_token := tok\<rparr>) s2) = (Inr e, s')"
    by (auto simp: enrol_def run_iff take_uuid_Inr ne_def [symmetric] s1_def [symmetric] Let_def split: sum.splits)
  from ins have s2: "s2 = s1\<lparr>enrolments := enrolments s @ [ne]\<rparr>" and fresh: "[] \<notin> magic_token ` set (enrolments s)"
    by (auto simp: insert_enrolment_def s1_def ne split: if_splits)
  note e = send_link_same [OF rest]
  show ?thesis
    using that [OF v tok [unfolded ne(2)] _ fresh] e unfolding s2 s1_def ne_def update_enrolment_def by simp
qed

lemma enrol_succeeds:
  assumes "writable s" "active_version (c_id c) s = Some v" "signing_key (app_config s) = Inr key"
    "[] \<notin> magic_token ` set (enrolments s)"
  shows "\<exists>e s'. enrol t c src ref base s = (Inr e, s') \<and> writable s'"
proof -
  define i where "i = gen_uuid s"
  define ne where "ne = new_enrolment t v src ref s i"
  define s1 where "s1 = s\<lparr>uuid_next := Suc (uuid_next s)\<rparr>"
  define s2 where "s2 = s1\<lparr>enrolments := enrolments s @ [ne]\<rparr>"
  have tk: "take_uuid s = (Inr i, s1)" by (simp add: take_uuid_def i_def s1_def)
  have ex: "expires_at ne = Aware (clock s + days (link_ttl_days v))" and mt: "magic_token ne = []"
    by (simp_all add: ne_def new_enrolment_def)
  obtain tok where tok: "issue_token (hmac_hex s) (app_config s) i (expires_at ne) = Inr tok"
    using assms(3) by (simp add: issue_token_def ex Let_def)
  have ins: "insert_enrolment ne s1 = (Inr (), s2)"
    using assms(1,4) by (simp add: insert_enrolment_def s1_def s2_def mt writable_def)
  have "writable (update_enrolment i (\<lambda>e. e\<lparr>magic_token := tok\<rparr>) s2)"
    using assms(1) by (simp add: update_enrolment_def s2_def s1_def)
  from send_link_ok [OF this] obtain s' where
    "send_enrolment_link t c src v base (ne\<lparr>magic_token := tok\<rparr>)
       (update_enrolment i (\<lambda>e. e\<lparr>magic_token := tok\<rparr>) s2) = (Inr (ne\<lparr>magic_token := tok\<rparr>), s')" "writable s'" by blast
  then show ?thesis
    using assms(2) tok by (simp add: enrol_def bind_Inr [where m = take_uuid, OF tk] Let_def
        seq_Inr [where m = "insert_enrolment ne", OF ins] ne_def [symmetric])
qed

lemma start_attempt_cases:
  assumes "start_attempt eid s = (Inr a, s')"
  obtains (old) "attempt_of eid s = Some a" "s' = s"
  | (new) "attempt_of eid s = None" "at_id a = gen_uuid s" "at_enrolment_id a = eid" "submitted_at a = None"
    "passed a = None" "score a = None"
    "same_training (s\<lparr>uuid_next := Suc (uuid_next s), attempts := attempts s @ [a],
       enrolments := update_row e_id eid (\<lambda>e. e\<lparr>e_status := ''started''\<rparr>) (enrolments s)\<rparr>) s'"
proof (cases "attempt_of eid s")
  case (Some b)
  with assms show ?thesis by (intro old) (auto simp: start_attempt_def)
next
  case None
  with assms show ?thesis
    by (intro new) (auto simp: start_attempt_def run_iff take_uuid_Inr modify_Inr Let_def update_enrolment_def
        gen_uuid_def dest!: record_entry_same simp: same_training_def)
qed

lemma submit_attempt_Inr:
  assumes "submit_attempt eid answers s = (Inr a, s')"
  obtains b s1 e v where "start_attempt eid s = (Inr b, s1)" "submitted_at b = None"
    "by_key e_id eid (enrolments s1) = Some e" "by_key v_id (e_version_id e) (course_versions s1) = Some v"
    "questions_of (v_id v) s1 \<noteq> []" "at_id a = at_id b" "at_enrolment_id a = at_enrolment_id b"
    "submitted_at a = Some (utcnow s1)"
    "score a = Some (Fin (exam_score s1 answers (questions_of (v_id v) s1)))"
    "passed a = Some (fle (pass_threshold v) (Fin (exam_score s1 answers (questions_of (v_id v) s1))))"
    "same_training (s1\<lparr>attempts := update_row at_id (at_id b) (\<lambda>_. a) (attempts s1),
       enrolments := update_row e_id eid (\<lambda>e. e\<lparr>e_status := ''submitted''\<rparr>) (enrolments s1)\<rparr>) s'"
proof -
  from assms obtain b s1 where st: "start_attempt eid s = (Inr b, s1)"
    by (auto simp: submit_attempt_def run_iff)
  from assms st obtain e v where ev: "submitted_at b = None"
    "by_key e_id eid (enrolments s1) = Some e" "by_key v_id (e_version_id e) (course_versions s1) = Some v"
    "questions_of (v_id v) s1 \<noteq> []"
    by (auto simp: submit_attempt_def run_iff Let_def split: if_splits option.splits)
  show ?thesis
    using assms st ev
    by (intro that [OF st ev])
      (auto simp: submit_attempt_def run_iff Let_def modify_Inr update_enrolment_def update_attempt_def
        dest!: record_entry_same simp: same_training_def)
qed

lemma certify_Inr:
  assumes "certify a did s = (Inr u, s')"
  obtains e v until where "by_key e_id (at_enrolment_id a) (enrolments s) = Some e"
    "by_key v_id (e_version_id e) (course_versions s) = Some v"
    "add_months (clock s) (validity_months v) = Inr until"
    "same_training (s\<lparr>uuid_next := Suc (uuid_next s), certifications := certifications s @
       [\<lparr>ct_id = gen_uuid s, ct_trainee_id = e_trainee_id e, ct_course_id = v_course_id v,
         ct_version_id = v_id v, ct_attempt_id = at_id a, ct_declaration_id = did,
         valid_from = utcnow s, valid_until = Aware until, revoked_at = None\<rparr>]\<rparr>) s'"
proof -
  from assms obtain e v until where ev: "by_key e_id (at_enrolment_id a) (enrolments s) = Some e"
    "by_key v_id (e_version_id e) (course_versions s) = Some v"
    "add_months (clock s) (validity_months v) = Inr until"
    by (auto simp: certify_def split: option.splits sum.splits)
  show ?thesis
    using assms ev
    by (intro that [OF ev])
      (auto simp: certify_def run_iff take_uuid_Inr modify_Inr Let_def gen_uuid_def utcnow_def
        dest!: record_entry_same simp: same_training_def)
qed

lemma record_declaration_Inr:
  assumes "record_declaration aid name dtext sig ip agent s = (Inr d, s')"
  obtains a s1 where "by_key at_id aid (attempts s) = Some a" "submitted_at a \<noteq> None" "strip name \<noteq> []"
    "aid \<notin> d_attempt_id ` set (declarations s)" "d_id d = gen_uuid s" "d_attempt_id d = aid"
    "typed_name d = strip name" "signature_png d = sig" "signed_at d = utcnow s"
    "same_training (s\<lparr>uuid_next := Suc (uuid_next s), declarations := declarations s @ [d]\<rparr>) s1"
    "if passed a = Some True then \<exists>u. certify a (d_id d) s1 = (Inr u, s') else s' = s1"
proof -
  from assms obtain a where a: "by_key at_id aid (attempts s) = Some a" "submitted_at a \<noteq> None" "strip name \<noteq> []"
    "aid \<notin> d_attempt_id ` set (declarations s)"
    by (auto simp: record_declaration_def split: option.splits if_splits)
  define i where "i = gen_uuid s"
  define d0 where "d0 = \<lparr>d_id = i, d_attempt_id = aid, typed_name = strip name, signature_png = sig,
    declaration_text = dtext, d_ip_address = ip, d_user_agent = agent, signed_at = utcnow s\<rparr>"
  define s0 where "s0 = s\<lparr>uuid_next := Suc (uuid_next s), declarations := declarations s @ [d0]\<rparr>"
  from a(2) obtain sub where sub: "submitted_at a = Some sub" by auto
  have tk: "take_uuid s = (Inr i, s\<lparr>uuid_next := Suc (uuid_next s)\<rparr>)" by (simp add: take_uuid_def i_def)
  have "record_declaration aid name dtext sig ip agent s =
      seq (record_entry ''training_declaration'' TRAINING_DECLARED (Some i)
            [(''typed_name'', JStr (strip name)), (''has_signature'', JBool (sig \<noteq> None))] None)
          (seq (if passed a = Some True then certify a i else ret ()) (ret d0)) s0"
    using a sub by (simp add: record_declaration_def bind_Inr [where m = take_uuid, OF tk] Let_def s0_def d0_def)
  with assms obtain r s1 where r: "record_entry ''training_declaration'' TRAINING_DECLARED (Some i)
      [(''typed_name'', JStr (strip name)), (''has_signature'', JBool (sig \<noteq> None))] None s0 = (Inr r, s1)"
    and c: "if passed a = Some True then \<exists>u. certify a i s1 = (Inr u, s') else s' = s1" and d: "d = d0"
    by (cases "passed a = Some True") (auto simp: run_iff)
  from record_entry_same [OF r] have "same_training s0 s1" .
  then show ?thesis using c d by (intro that [OF a, of s1]) (auto simp: d0_def s0_def i_def split: if_splits)
qed

subsection \<open>The magic link\<close>

lemma unix_seconds_le: "seconds (unix_seconds t) \<le> t - epoch_ordinal * us_day"
proof -
  define x where "x = t - epoch_ordinal * us_day"
  have "x = us_second * (x div us_second) + x mod us_second" "0 \<le> x mod us_second"
    by (simp_all add: us_second_def)
  then have "us_second * (x div us_second) \<le> x" by linarith
  then show ?thesis by (simp add: seconds_def unix_seconds_def x_def [symmetric] mult.commute)
qed

text \<open>
  C18. Only a live link opens an enrolment. When a token opens an enrolment, the token is the
  one stored in its row, its three parts are the enrolment's id, a readable expiry and the HMAC
  of both under the signing key, and neither the expiry in the token nor the one in the row has
  passed; and whatever the token, the answer is an enrolment, expired or invalid, or the
  TypeError of comparing a signature outside ASCII, or the RuntimeError of a missing key.
\<close>

theorem link_opens_only_live_enrolment:
  assumes "get_enrolment_with_reason token s = Inr (Some e, reason)"
  shows "e \<in> set (enrolments s) \<and> magic_token e = token \<and> reason = [] \<and> clock s < instant (expires_at e) \<and>
    (\<exists>exp_str exp key. token = e_id e @ ''.'' @ exp_str @ ''.'' @ hmac_hex s key (token_body (e_id e) exp) \<and>
       python_int exp_str = Some exp \<and> signing_key (app_config s) = Inr key \<and>
       clock s - epoch_ordinal * us_day < seconds exp)"
proof -
  from assms obtain eid where v: "verify_token (hmac_hex s) (app_config s) (clock s) token = Inr eid"
    and e: "by_key e_id eid (enrolments s) = Some e" "magic_token e = token" "\<not> is_past (expires_at e) s" "reason = []"
    unfolding get_enrolment_with_reason_def by (auto split: sum.splits option.splits if_splits)
  have "e_id e = eid" "e \<in> set (enrolments s)" using by_key_Some [OF e(1)] by auto
  with e verify_token_sound [OF v] show ?thesis by (auto simp: is_past_def)
qed

lemma issued_link:
  assumes "enrol t c src ref base s = (Inr e, s1)" "hexdigest (hmac_hex s)"
    "CHR ''.'' \<notin> set (gen_uuid s)" "0 \<le> unix_seconds (instant (expires_at e))"
    "gen_uuid s \<notin> e_id ` set (enrolments s)"
    "by_key e_id (e_id e) (enrolments s2) = by_key e_id (e_id e) (enrolments s1)"
    "hmac_hex s2 = hmac_hex s" "app_config s2 = app_config s"
    "clock s2 - epoch_ordinal * us_day < seconds (unix_seconds (instant (expires_at e)))"
  shows "get_enrolment_with_reason (magic_token e) s2 = Inr (Some e, [])"
proof -
  obtain v tok where tok:
    "issue_token (hmac_hex s) (app_config s) (gen_uuid s) (Aware (clock s + days (link_ttl_days v))) = Inr tok"
    and e: "e = (new_enrolment t v src ref s (gen_uuid s))\<lparr>magic_token := tok\<rparr>"
    and same: "same_training (s\<lparr>uuid_next := Suc (uuid_next s),
       enrolments := update_row e_id (gen_uuid s) (\<lambda>e. e\<lparr>magic_token := tok\<rparr>)
         (enrolments s @ [new_enrolment t v src ref s (gen_uuid s)])\<rparr>) s1"
    by (rule enrol_Inr [OF assms(1)])
  from same have s1: "enrolments s1 = update_row e_id (gen_uuid s) (\<lambda>e. e\<lparr>magic_token := tok\<rparr>)
         (enrolments s @ [new_enrolment t v src ref s (gen_uuid s)])" by (simp add: same_training_def)
  have id: "e_id e = gen_uuid s" and ex: "expires_at e = Aware (clock s + days (link_ttl_days v))" and mt: "magic_token e = tok"
    by (simp_all add: e new_enrolment_def)
  have "by_key e_id (gen_uuid s) (enrolments s) = None" using assms(5) by (simp add: by_key_None)
  then have row: "by_key e_id (gen_uuid s) (enrolments s1) = Some e"
    unfolding s1 by (simp add: by_key_update_same by_key_append e new_enrolment_def) (simp add: by_key_def)
  have "verify_token (hmac_hex s2) (app_config s2) (clock s2) tok = Inr (gen_uuid s)"
    using assms verify_issue_token [OF assms(2,3) _ tok] by (simp add: ex)
  moreover have "clock s2 < instant (expires_at e)"
    using unix_seconds_le [of "instant (expires_at e)"] assms(9) by simp
  ultimately show ?thesis
    using row assms(6) by (simp add: get_enrolment_with_reason_def id mt is_past_def)
qed

text \<open>
  C19. The link that enrol issues opens its enrolment. After a successful enrolment, in any
  later state whose row, configuration and HMAC are unchanged, the stored token returns that
  enrolment at every time before its expiry, counted in whole seconds as the token carries it.
\<close>

theorem issued_link_opens:
  assumes "enrol t c src ref base s = (Inr e, s1)" "hexdigest (hmac_hex s)"
    "CHR ''.'' \<notin> set (gen_uuid s)" "0 \<le> unix_seconds (instant (expires_at e))"
    "gen_uuid s \<notin> e_id ` set (enrolments s)"
    "by_key e_id (e_id e) (enrolments s2) = by_key e_id (e_id e) (enrolments s1)"
    "hmac_hex s2 = hmac_hex s" "app_config s2 = app_config s"
    "clock s2 - epoch_ordinal * us_day < seconds (unix_seconds (instant (expires_at e)))"
  shows "get_enrolment_with_reason (magic_token e) s2 = Inr (Some e, [])"
  using assms by (rule issued_link)

subsection \<open>Scoring\<close>

lemma find_update_row:
  "find P rows = Some b \<Longrightarrow> key b = k \<Longrightarrow> P a \<Longrightarrow> find P (update_row key k (\<lambda>_. a) rows) = Some a"
  by (induction rows) (auto simp: update_row_def split: if_splits)

lemma length_filter_all: "length xs = length (filter P xs) \<longleftrightarrow> list_all P xs"
proof (induction xs)
  case (Cons x xs)
  have "Suc (length xs) \<noteq> length (filter P xs)" using length_filter_le [of P xs] by linarith
  with Cons show ?case by simp
qed simp

lemma submit_attempt_again:
  "attempt_of eid s = Some a \<Longrightarrow> submitted_at a \<noteq> None \<Longrightarrow>
     submit_attempt eid answers s = (Inl (TrainingError ''attempt already submitted''), s)"
  by (auto simp: submit_attempt_def start_attempt_def bind_def)

lemma submit_attempt_ok:
  assumes "writable s" "attempt_of eid s = Some b" "submitted_at b = None"
    "by_key e_id eid (enrolments s) = Some e" "by_key v_id (e_version_id e) (course_versions s) = Some v"
    "questions_of (v_id v) s \<noteq> []"
  shows "\<exists>a s'. submit_attempt eid answers s = (Inr a, s')"
proof -
  have st: "start_attempt eid s = (Inr b, s)" using assms(2) by (simp add: start_attempt_def)
  show ?thesis
    using assms(1,3-6)
    by (simp add: submit_attempt_def bind_Inr [where m = "start_attempt eid", OF st] Let_def seq_Inr record_entry_ok
        update_attempt_def update_enrolment_def)
qed

lemma exam_scored_open:
  assumes "writable s" "attempt_of eid s = Some b" "submitted_at b = None"
    "by_key e_id eid (enrolments s) = Some e" "by_key v_id (e_version_id e) (course_versions s) = Some v"
    "questions_of (v_id v) s \<noteq> []"
  shows "\<exists>a s' sc. submit_attempt eid answers s = (Inr a, s') \<and>
    sc = of_nat (length (filter (\<lambda>q. set (case map_of answers (q_id q) of None \<Rightarrow> [] | Some xs \<Rightarrow> xs) =
             correct_ids (q_id q) s \<and> correct_ids (q_id q) s \<noteq> {}) (questions_of (v_id v) s))) /
         of_nat (length (questions_of (v_id v) s)) \<and>
    score a = Some (Fin sc) \<and> 0 \<le> sc \<and> sc \<le> 1 \<and>
    (sc = 1 \<longleftrightarrow> list_all (is_right s answers) (questions_of (v_id v) s)) \<and>
    passed a = Some (fle (pass_threshold v) (Fin sc)) \<and> submitted_at a = Some (utcnow s) \<and>
    map_option e_status (by_key e_id eid (enrolments s')) = Some ''submitted'' \<and> attempt_of eid s' = Some a \<and>
    (\<forall>answers'. submit_attempt eid answers' s' = (Inl (TrainingError ''attempt already submitted''), s'))"
proof -
  let ?qs = "questions_of (v_id v) s"
  obtain a s' where run: "submit_attempt eid answers s = (Inr a, s')" using submit_attempt_ok [OF assms] by blast
  have st: "start_attempt eid s = (Inr b, s)" using assms(2) by (simp add: start_attempt_def)
  obtain b' s1 e' v' where x: "start_attempt eid s = (Inr b', s1)"
    "by_key e_id eid (enrolments s1) = Some e'" "by_key v_id (e_version_id e') (course_versions s1) = Some v'"
    "at_id a = at_id b'" "at_enrolment_id a = at_enrolment_id b'" "submitted_at a = Some (utcnow s1)"
    "score a = Some (Fin (exam_score s1 answers (questions_of (v_id v') s1)))"
    "passed a = Some (fle (pass_threshold v') (Fin (exam_score s1 answers (questions_of (v_id v') s1))))"
    "same_training (s1\<lparr>attempts := update_row at_id (at_id b') (\<lambda>_. a) (attempts s1),
       enrolments := update_row e_id eid (\<lambda>e. e\<lparr>e_status := ''submitted''\<rparr>) (enrolments s1)\<rparr>) s'"
    by (rule submit_attempt_Inr [OF run])
  have same: "b' = b" "s1 = s" "e' = e" "v' = v" using x(1-3) st assms(4,5) by simp_all
  define sc where "sc = exam_score s answers ?qs"
  have le: "length (filter (is_right s answers) ?qs) \<le> length ?qs" by simp
  have n: "0 < length ?qs" using assms(6) by simp
  have one: "sc = 1 \<longleftrightarrow> list_all (is_right s answers) ?qs"
    using n length_filter_all [of ?qs "is_right s answers"] by (simp add: sc_def exam_score_def)
  have "at_enrolment_id b = eid" using assms(2) by (auto simp: attempt_of_def find_Some_iff)
  then have att: "attempt_of eid s' = Some a"
    using x(4,5,9) assms(2) find_update_row [of "\<lambda>a. at_enrolment_id a = eid" "attempts s" b at_id "at_id b" a]
    by (simp add: same same_training_def attempt_of_def)
  with att have again: "\<forall>answers'. submit_attempt eid answers' s' = (Inl (TrainingError ''attempt already submitted''), s')"
    using x(6) submit_attempt_again [of eid s' a] by blast
  have "map_option e_status (by_key e_id eid (enrolments s')) = Some ''submitted''"
    using x(9) assms(4) by (simp add: same same_training_def by_key_update_same)
  moreover have "0 \<le> sc" "sc \<le> 1" using n le by (simp_all add: sc_def exam_score_def)
  moreover have right: "(\<lambda>q. set (case map_of answers (q_id q) of None \<Rightarrow> [] | Some xs \<Rightarrow> xs) = correct_ids (q_id q) s \<and>
      correct_ids (q_id q) s \<noteq> {}) = is_right s answers"
    by (rule ext) (simp only: is_right_def Let_def)
  ultimately show ?thesis
    using run x(6-8) again one att unfolding right same sc_def exam_score_def by blast
qed

text \<open>
  The first submission starts the attempt: the row is new, the enrolment becomes started, and
  what the exam is scored against is untouched.
\<close>

lemma find_append_new: "find P xs = None \<Longrightarrow> P y \<Longrightarrow> find P (xs @ [y]) = Some y"
  by (induction xs) (auto split: if_splits)

lemma start_attempt_open:
  assumes "writable s" "\<forall>b. attempt_of eid s = Some b \<longrightarrow> submitted_at b = None" "by_key e_id eid (enrolments s) = Some e"
  obtains b s1 st where "start_attempt eid s = (Inr b, s1)" "writable s1"
    "attempt_of eid s1 = Some b" "submitted_at b = None" "by_key e_id eid (enrolments s1) = Some (e\<lparr>e_status := st\<rparr>)"
    "clock s1 = clock s" "course_versions s1 = course_versions s" "questions s1 = questions s"
    "answer_options s1 = answer_options s"
proof (cases "attempt_of eid s")
  case (Some b)
  with assms show ?thesis by (intro that [of b s "e_status e"]) (simp_all add: start_attempt_def)
next
  case None
  define s0 where "s0 = s\<lparr>enrolments := update_row e_id eid (\<lambda>e. e\<lparr>e_status := ''started''\<rparr>) (enrolments s),
    uuid_next := Suc (uuid_next s)\<rparr>"
  define a where "a = \<lparr>at_id = gen_uuid s, at_enrolment_id = eid, started_at = utcnow s, submitted_at = None,
    score = None, passed = None, at_payload = JNull\<rparr>"
  define u where "u = s0\<lparr>attempts := attempts s @ [a]\<rparr>"
  have w: "writable u" using assms(1) by (simp add: u_def s0_def)
  have g: "gen_uuid (update_enrolment eid f s) = gen_uuid s" "utcnow (update_enrolment eid f s) = utcnow s" for f
    by (simp_all add: update_enrolment_def gen_uuid_def utcnow_def)
  have "start_attempt eid s =
      seq (record_entry ''training_attempt'' TRAINING_ATTEMPT_STARTED (Some (gen_uuid s)) [] None) (ret a) u"
    using None
    by (simp add: start_attempt_def seq_def bind_def take_uuid_def g Let_def a_def u_def s0_def)
      (simp add: update_enrolment_def gen_uuid_def utcnow_def split: prod.split sum.split)
  then obtain r where run: "start_attempt eid s = (Inr a, u\<lparr>audit_log := audit_log u @ [r], audit_seq := audit_seq u + 1\<rparr>)"
    using seq_Inr [where m = "record_entry ''training_attempt'' TRAINING_ATTEMPT_STARTED (Some (gen_uuid s)) [] None" and n = "ret a",
        OF record_entry_ok [OF w]] by simp
  show ?thesis
    by (rule that [OF run])
      (use w None assms(3) in \<open>simp_all add: u_def s0_def a_def attempt_of_def find_append_new by_key_update_same\<close>)
qed

lemma exam_result:
  assumes "writable s" "\<forall>b. attempt_of eid s = Some b \<longrightarrow> submitted_at b = None"
    "by_key e_id eid (enrolments s) = Some e" "by_key v_id (e_version_id e) (course_versions s) = Some v"
    "questions_of (v_id v) s \<noteq> []"
  shows "\<exists>a s' sc. submit_attempt eid answers s = (Inr a, s') \<and>
    sc = of_nat (length (filter (\<lambda>q. set (case map_of answers (q_id q) of None \<Rightarrow> [] | Some xs \<Rightarrow> xs) =
             correct_ids (q_id q) s \<and> correct_ids (q_id q) s \<noteq> {}) (questions_of (v_id v) s))) /
         of_nat (length (questions_of (v_id v) s)) \<and>
    score a = Some (Fin sc) \<and> 0 \<le> sc \<and> sc \<le> 1 \<and>
    (sc = 1 \<longleftrightarrow> list_all (is_right s answers) (questions_of (v_id v) s)) \<and>
    passed a = Some (fle (pass_threshold v) (Fin sc)) \<and> submitted_at a = Some (utcnow s) \<and>
    map_option e_status (by_key e_id eid (enrolments s')) = Some ''submitted'' \<and> attempt_of eid s' = Some a \<and>
    (\<forall>answers'. submit_attempt eid answers' s' = (Inl (TrainingError ''attempt already submitted''), s'))"
proof -
  obtain b s1 st where st: "start_attempt eid s = (Inr b, s1)" "writable s1" "attempt_of eid s1 = Some b"
    "submitted_at b = None" "by_key e_id eid (enrolments s1) = Some (e\<lparr>e_status := st\<rparr>)"
    and same: "clock s1 = clock s" "course_versions s1 = course_versions s" "questions s1 = questions s"
      "answer_options s1 = answer_options s"
    using assms(1-3) by (rule start_attempt_open)
  have "submit_attempt eid answers s = submit_attempt eid answers s1"
    using st(1,3) by (simp add: submit_attempt_def bind_def start_attempt_def)
  moreover have q: "questions_of vid s1 = questions_of vid s" "correct_ids qid s1 = correct_ids qid s" for vid qid
    by (simp_all add: questions_of_def correct_ids_def options_of_def same)
  moreover have "is_right s1 answers = is_right s answers" by (rule ext) (simp add: is_right_def q)
  ultimately show ?thesis
    using exam_scored_open [OF st(2-5), of v answers] assms(4,5) by (simp add: same utcnow_def)
qed

text \<open>
  C20. An exam is scored as the share of questions answered exactly. The first submission for an
  enrolment on a version with questions succeeds: the score is the number of questions whose
  selected set equals the non-empty set of correct options, over the number of questions, so
  between 0 and 1 and 1 exactly when every answer is right; the attempt passes exactly when the
  score reaches the version's threshold; the attempt is stored and the enrolment becomes
  submitted; and submitting again, with whatever answers, raises TrainingError and changes
  nothing.
\<close>

theorem exam_scored:
  assumes "writable s" "\<forall>b. attempt_of eid s = Some b \<longrightarrow> submitted_at b = None"
    "by_key e_id eid (enrolments s) = Some e" "by_key v_id (e_version_id e) (course_versions s) = Some v"
    "questions_of (v_id v) s \<noteq> []"
  shows "\<exists>a s' sc. submit_attempt eid answers s = (Inr a, s') \<and>
    sc = of_nat (length (filter (\<lambda>q. set (case map_of answers (q_id q) of None \<Rightarrow> [] | Some xs \<Rightarrow> xs) =
             correct_ids (q_id q) s \<and> correct_ids (q_id q) s \<noteq> {}) (questions_of (v_id v) s))) /
         of_nat (length (questions_of (v_id v) s)) \<and>
    score a = Some (Fin sc) \<and> 0 \<le> sc \<and> sc \<le> 1 \<and>
    (sc = 1 \<longleftrightarrow> list_all (is_right s answers) (questions_of (v_id v) s)) \<and>
    passed a = Some (fle (pass_threshold v) (Fin sc)) \<and> submitted_at a = Some (utcnow s) \<and>
    map_option e_status (by_key e_id eid (enrolments s')) = Some ''submitted'' \<and> attempt_of eid s' = Some a \<and>
    (\<forall>answers'. submit_attempt eid answers' s' = (Inl (TrainingError ''attempt already submitted''), s'))"
  using assms by (rule exam_result)

subsection \<open>Declaring\<close>

lemma record_entry_runs:
  fixes s :: "'a training_db_scheme"
  assumes "writable s"
  obtains r t where "record_entry ty ac e d u s = (Inr r, t)" "writable t" "same_training s t"
proof -
  have run: "record_entry ty ac e d u s = (Inr (with_checksum (json_hash s) (new_entry ty ac e d u s)),
      s\<lparr>audit_log := audit_log s @ [with_checksum (json_hash s) (new_entry ty ac e d u s)], audit_seq := audit_seq s + 1\<rparr>)"
    by (rule record_entry_ok [OF assms])
  show ?thesis by (rule that [OF run]) (use assms record_entry_same [OF run] in simp_all)
qed

lemma certify_ok:
  assumes "writable s" "by_key e_id (at_enrolment_id a) (enrolments s) = Some e"
    "by_key v_id (e_version_id e) (course_versions s) = Some v" "add_months (clock s) (validity_months v) = Inr u"
  shows "\<exists>s'. certify a did s = (Inr (), s')"
proof -
  define c where "c = \<lparr>ct_id = gen_uuid s, ct_trainee_id = e_trainee_id e, ct_course_id = v_course_id v,
    ct_version_id = v_id v, ct_attempt_id = at_id a, ct_declaration_id = did,
    valid_from = utcnow s, valid_until = Aware u, revoked_at = None\<rparr>"
  define s1 where "s1 = s\<lparr>uuid_next := Suc (uuid_next s), certifications := certifications s @ [c]\<rparr>"
  have "writable s1" using assms(1) by (simp add: s1_def)
  then obtain r t where "record_entry ''training_certification'' TRAINING_CERTIFIED (Some (gen_uuid s))
    [(''course_id'', JStr (v_course_id v)), (''version'', JInt (v_version v)), (''valid_until'', JStr (isoformat_utc u))] None s1 = (Inr r, t)"
    by (rule record_entry_runs)
  then have "certify a did s = (Inr (), t)"
    using assms(2-4) by (simp add: certify_def seq_def bind_def take_uuid_def Let_def s1_def c_def)
  then show ?thesis by blast
qed

lemma record_declaration_ok:
  assumes "writable s" "by_key at_id aid (attempts s) = Some a" "submitted_at a \<noteq> None" "strip name \<noteq> []"
    "aid \<notin> d_attempt_id ` set (declarations s)"
    "by_key e_id (at_enrolment_id a) (enrolments s) = Some e" "by_key v_id (e_version_id e) (course_versions s) = Some v"
    "add_months (clock s) (validity_months v) = Inr u"
  shows "\<exists>d s'. record_declaration aid name dtext sig ip agent s = (Inr d, s')"
proof -
  define d where "d = \<lparr>d_id = gen_uuid s, d_attempt_id = aid, typed_name = strip name, signature_png = sig,
    declaration_text = dtext, d_ip_address = ip, d_user_agent = agent, signed_at = utcnow s\<rparr>"
  define s1 where "s1 = s\<lparr>uuid_next := Suc (uuid_next s), declarations := declarations s @ [d]\<rparr>"
  from assms(3) obtain sub where sub: "submitted_at a = Some sub" by auto
  have "writable s1" using assms(1) by (simp add: s1_def)
  then obtain r t where r: "record_entry ''training_declaration'' TRAINING_DECLARED (Some (gen_uuid s))
      [(''typed_name'', JStr (strip name)), (''has_signature'', JBool (sig \<noteq> None))] None s1 = (Inr r, t)"
    and t: "writable t" "same_training s1 t" by (rule record_entry_runs)
  have "\<exists>s'. certify a (gen_uuid s) t = (Inr (), s')"
    by (rule certify_ok [OF t(1)]) (use t(2) assms(6-8) in \<open>simp_all add: same_training_def s1_def\<close>)
  then obtain s' where c: "certify a (gen_uuid s) t = (Inr (), s')" by blast
  have "record_declaration aid name dtext sig ip agent s = (Inr d, if passed a = Some True then s' else t)"
    using assms(2,4,5) sub r c
    by (simp add: record_declaration_def seq_def bind_def take_uuid_def Let_def s1_def [symmetric] d_def [symmetric])
  then show ?thesis by blast
qed

lemma declaration_result:
  assumes "writable s" "by_key at_id aid (attempts s) = Some a" "submitted_at a \<noteq> None" "strip name \<noteq> []"
    "aid \<notin> d_attempt_id ` set (declarations s)"
    "by_key e_id (at_enrolment_id a) (enrolments s) = Some e" "by_key v_id (e_version_id e) (course_versions s) = Some v"
    "add_months (clock s) (validity_months v) = Inr u"
  shows "\<exists>d s'. record_declaration aid name dtext sig ip agent s = (Inr d, s') \<and>
    declarations s' = declarations s @ [d] \<and> d_attempt_id d = aid \<and> typed_name d = strip name \<and>
    signature_png d = sig \<and> signed_at d = utcnow s \<and>
    (if passed a = Some True
     then \<exists>c. certifications s' = certifications s @ [c] \<and> ct_trainee_id c = e_trainee_id e \<and>
       ct_course_id c = v_course_id v \<and> ct_version_id c = v_id v \<and> ct_attempt_id c = aid \<and>
       ct_declaration_id c = d_id d \<and> valid_from c = utcnow s \<and> valid_until c = Aware u \<and> revoked_at c = None
     else certifications s' = certifications s) \<and>
    (\<forall>name dtext sig ip agent. \<exists>m. record_declaration aid name dtext sig ip agent s' = (Inl (TrainingError m), s'))"
proof -
  obtain d s' where run: "record_declaration aid name dtext sig ip agent s = (Inr d, s')"
    using record_declaration_ok [OF assms] by blast
  obtain a' s1 where a': "by_key at_id aid (attempts s) = Some a'" "d_attempt_id d = aid"
    "typed_name d = strip name" "signature_png d = sig" "signed_at d = utcnow s"
    and s1: "same_training (s\<lparr>uuid_next := Suc (uuid_next s), declarations := declarations s @ [d]\<rparr>) s1"
    and c: "if passed a' = Some True then \<exists>u. certify a' (d_id d) s1 = (Inr u, s') else s' = s1"
    by (rule record_declaration_Inr [OF run]) blast
  have [simp]: "a' = a" using a'(1) assms(2) by simp
  have aid: "at_id a = aid" using by_key_Some [OF assms(2)] by simp
  have frame: "attempts s1 = attempts s" "enrolments s1 = enrolments s" "course_versions s1 = course_versions s" "clock s1 = clock s"
    "declarations s1 = declarations s @ [d]" "certifications s1 = certifications s"
    using s1 by (simp_all add: same_training_def)
  have cert: "\<exists>c. certifications s' = certifications s @ [c] \<and> ct_trainee_id c = e_trainee_id e \<and>
       ct_course_id c = v_course_id v \<and> ct_version_id c = v_id v \<and> ct_attempt_id c = aid \<and>
       ct_declaration_id c = d_id d \<and> valid_from c = utcnow s \<and> valid_until c = Aware u \<and> revoked_at c = None"
    and decls: "declarations s' = declarations s @ [d] \<and> attempts s' = attempts s" if p: "passed a = Some True"
  proof -
    from c p obtain x where x: "certify a (d_id d) s1 = (Inr x, s')" by auto
    show "\<exists>c. certifications s' = certifications s @ [c] \<and> ct_trainee_id c = e_trainee_id e \<and>
       ct_course_id c = v_course_id v \<and> ct_version_id c = v_id v \<and> ct_attempt_id c = aid \<and>
       ct_declaration_id c = d_id d \<and> valid_from c = utcnow s \<and> valid_until c = Aware u \<and> revoked_at c = None"
      "declarations s' = declarations s @ [d] \<and> attempts s' = attempts s"
      by (rule certify_Inr [OF x]; use assms(6-8) in \<open>simp add: frame same_training_def aid utcnow_def\<close>)+
  qed
  have rows: "declarations s' = declarations s @ [d]" "attempts s' = attempts s"
    using decls c by (cases "passed a = Some True"; simp add: frame)+
  have again: "\<exists>m. record_declaration aid n dt sg i g s' = (Inl (TrainingError m), s')" for n dt sg i g
    using assms(2,3) a'(2) by (auto simp: record_declaration_def rows)
  show ?thesis using run rows a'(2-5) cert c again by (auto simp: frame)
qed

text \<open>
  A declaration certifies a passed attempt, once. For a submitted attempt without a
  declaration and a name that is not blank, the declaration is stored with the stripped name at
  the present time; when the attempt passed, exactly one certification is added, for the
  enrolment's trainee and the version's course, valid from now until the version's validity in
  calendar months; a failed attempt gets none. Declaring again, whatever the input, raises
  TrainingError and changes nothing.
\<close>

theorem declaration_certifies:
  assumes "writable s" "by_key at_id aid (attempts s) = Some a" "submitted_at a \<noteq> None" "strip name \<noteq> []"
    "aid \<notin> d_attempt_id ` set (declarations s)"
    "by_key e_id (at_enrolment_id a) (enrolments s) = Some e" "by_key v_id (e_version_id e) (course_versions s) = Some v"
    "add_months (clock s) (validity_months v) = Inr u"
  shows "\<exists>d s'. record_declaration aid name dtext sig ip agent s = (Inr d, s') \<and>
    declarations s' = declarations s @ [d] \<and> d_attempt_id d = aid \<and> typed_name d = strip name \<and>
    signature_png d = sig \<and> signed_at d = utcnow s \<and>
    (if passed a = Some True
     then \<exists>c. certifications s' = certifications s @ [c] \<and> ct_trainee_id c = e_trainee_id e \<and>
       ct_course_id c = v_course_id v \<and> ct_version_id c = v_id v \<and> ct_attempt_id c = aid \<and>
       ct_declaration_id c = d_id d \<and> valid_from c = utcnow s \<and> valid_until c = Aware u \<and> revoked_at c = None
     else certifications s' = certifications s) \<and>
    (\<forall>name dtext sig ip agent. \<exists>m. record_declaration aid name dtext sig ip agent s' = (Inl (TrainingError m), s'))"
  using assms by (rule declaration_result)

subsection \<open>A small database\<close>

definition sample_trainee :: trainee where
  "sample_trainee = \<lparr>tr_id = ''T1'', tr_employee_number = Some ''7'', tr_phone = ''+48500100200'', tr_email = None,
     tr_full_name = ''Anna'', tr_role_code = ''baker'', tr_line_id = Some ''L1'', tr_language = ''en'',
     tr_is_active = True, tr_channel = ''both'', tr_user_id = None, tr_updated_at = Aware 0\<rparr>"

definition sample_course :: training_course where
  "sample_course = \<lparr>c_id = ''C1'', c_code = ''HYG'', c_description = None, c_is_active = True\<rparr>"

definition sample_version :: course_version where
  "sample_version = \<lparr>v_id = ''V1'', v_course_id = ''C1'', v_version = 1, v_is_active = True,
     v_title = [(''en'', ''Hygiene'')], v_summary = [], pass_threshold = Fin (1 / 2), validity_months = 12,
     link_ttl_days = 7, exam_time_limit_seconds = None\<rparr>"

definition sample_option :: "string \<Rightarrow> string \<Rightarrow> bool \<Rightarrow> answer_option" where
  "sample_option i q ok = \<lparr>o_id = i, o_question_id = q, o_order_index = 0, o_label = [], o_is_correct = ok\<rparr>"

definition sample_question :: "string \<Rightarrow> int \<Rightarrow> training_question" where
  "sample_question q n = \<lparr>q_id = q, q_version_id = ''V1'', q_order_index = n, q_prompt = [], q_kind = ''single_choice''\<rparr>"

definition sample_training :: "trainee list \<Rightarrow> training_db" where
  "sample_training ts =
     \<lparr>clock = at_time \<lparr>year = 2026, month = 5, day = 2\<rparr> 0, uuid_at = digits, uuid_next = 0,
      request_context = None, dialect = SQLite, session_failed = False,
      queue = sample_queue, redis = sample_redis, json_hash = (\<lambda>_. ''h''), immutable_trigger = True,
      audit_redact_ok = False, audit_log = [], audit_seq = 0, app_config = sample_config, users = [], roles = [],
      lines = [], pipelines = [], pipeline_stages = [], tickets = [], ticket_events = [],
      hmac_hex = (\<lambda>_ _. ''0f''), trainees = ts, courses = [sample_course], course_versions = [sample_version],
      modules = [], questions = [sample_question ''q1'' 0, sample_question ''q2'' 1],
      answer_options = [sample_option ''a'' ''q1'' True, sample_option ''b'' ''q1'' False, sample_option ''c'' ''q2'' True],
      assignments = [\<lparr>as_id = ''A1'', as_course_id = ''C1'', as_role_code = Some ''baker'', as_line_id = None,
                     recurrence_months = 12\<rparr>],
      enrolments = [], attempts = [], declarations = [], certifications = []\<rparr>"

lemma sample_training_simps [simp]:
  "writable (sample_training ts)" "trainees (sample_training ts) = ts" "enrolments (sample_training ts) = []"
  "attempts (sample_training ts) = []" "declarations (sample_training ts) = []" "certifications (sample_training ts) = []"
  "courses (sample_training ts) = [sample_course]" "course_versions (sample_training ts) = [sample_version]"
  "uuid_at (sample_training ts) = digits" "uuid_next (sample_training ts) = 0"
  "hmac_hex (sample_training ts) = (\<lambda>_ _. ''0f'')" "app_config (sample_training ts) = sample_config"
  "clock (sample_training ts) = at_time \<lparr>year = 2026, month = 5, day = 2\<rparr> 0"
  "gen_uuid (sample_training ts) = ''0''"
  by (simp_all add: sample_training_def writable_def audit_update_allowed_def gen_uuid_def)
     (code_simp)

lemma sample_active: "active_version ''C1'' (sample_training ts) = Some sample_version"
  by (simp add: active_version_def sample_version_def last_by_def)

lemma sample_key: "signing_key sample_config = Inr ''secret''"
  by (simp add: signing_key_def sample_config_def truthy_def)

lemma sample_ordinal: "toordinal \<lparr>year = 2026, month = 5, day = 2\<rparr> = 739738"
  by code_simp

definition sample_issued :: training_db where
  "sample_issued = snd (enrol sample_trainee sample_course ''manual'' None None (sample_training [sample_trainee]))"

lemma sample_enrol:
  "\<exists>e. enrol sample_trainee sample_course ''manual'' None None (sample_training [sample_trainee]) = (Inr e, sample_issued)"
proof -
  obtain e s' where "enrol sample_trainee sample_course ''manual'' None None (sample_training [sample_trainee]) = (Inr e, s')"
    using enrol_succeeds [of "sample_training [sample_trainee]" sample_course sample_version "''secret''"]
      sample_active [of "[sample_trainee]"] sample_key
    by (simp add: sample_course_def) blast
  then show ?thesis by (auto simp: sample_issued_def)
qed

lemma sample_issued:
  obtains e where "enrol sample_trainee sample_course ''manual'' None None (sample_training [sample_trainee]) =
      (Inr e, sample_issued)"
    "expires_at e = Aware (clock (sample_training [sample_trainee]) + days 7)"
    "hmac_hex sample_issued = (\<lambda>_ _. ''0f'')" "app_config sample_issued = sample_config"
    "clock sample_issued = clock (sample_training [sample_trainee])"
proof -
  let ?s = "sample_training [sample_trainee]"
  obtain e where e: "enrol sample_trainee sample_course ''manual'' None None ?s = (Inr e, sample_issued)"
    using sample_enrol by blast
  obtain v tok where v: "active_version (c_id sample_course) ?s = Some v"
    and en: "e = (new_enrolment sample_trainee v ''manual'' None ?s (gen_uuid ?s))\<lparr>magic_token := tok\<rparr>"
    and same: "same_training (?s\<lparr>uuid_next := Suc (uuid_next ?s),
       enrolments := update_row e_id (gen_uuid ?s) (\<lambda>e. e\<lparr>magic_token := tok\<rparr>)
         (enrolments ?s @ [new_enrolment sample_trainee v ''manual'' None ?s (gen_uuid ?s)])\<rparr>) sample_issued"
    by (rule enrol_Inr [OF e])
  from v have "v = sample_version" using sample_active [of "[sample_trainee]"] by (simp add: sample_course_def)
  then have "expires_at e = Aware (clock ?s + days 7)"
    by (simp add: en new_enrolment_def sample_version_def)
  with e same show ?thesis by (intro that) (simp_all add: same_training_def)
qed

lemma sample_times:
  "0 \<le> unix_seconds (clock (sample_training ts) + days 7)"
  "clock (sample_training ts) - epoch_ordinal * us_day < seconds (unix_seconds (clock (sample_training ts) + days 7))"
  by (simp_all add: at_time_def sample_ordinal unix_seconds_def days_def us_day_def us_second_def
      epoch_ordinal_def seconds_def)

lemma sample_hex: "hexdigest (\<lambda>_ _. ''0f'')"
  by (simp add: hexdigest_def hex_char_def)

theorem issued_link_opens_witness:
  "\<exists>e. get_enrolment_with_reason (magic_token e) sample_issued = Inr (Some e, [])"
proof -
  obtain e where e: "enrol sample_trainee sample_course ''manual'' None None (sample_training [sample_trainee]) =
      (Inr e, sample_issued)"
    "expires_at e = Aware (clock (sample_training [sample_trainee]) + days 7)"
    "hmac_hex sample_issued = (\<lambda>_ _. ''0f'')" "app_config sample_issued = sample_config"
    "clock sample_issued = clock (sample_training [sample_trainee])"
    by (rule sample_issued)
  have "get_enrolment_with_reason (magic_token e) sample_issued = Inr (Some e, [])"
    by (rule issued_link_opens [OF e(1)]) (use e(2-5) sample_times sample_hex in simp_all)
  then show ?thesis by blast
qed

theorem link_opens_only_live_enrolment_witness:
  "\<exists>e\<in>set (enrolments sample_issued). clock sample_issued < instant (expires_at e)"
proof -
  obtain e where e: "enrol sample_trainee sample_course ''manual'' None None (sample_training [sample_trainee]) =
      (Inr e, sample_issued)"
    "expires_at e = Aware (clock (sample_training [sample_trainee]) + days 7)"
    "hmac_hex sample_issued = (\<lambda>_ _. ''0f'')" "app_config sample_issued = sample_config"
    "clock sample_issued = clock (sample_training [sample_trainee])"
    by (rule sample_issued)
  have "get_enrolment_with_reason (magic_token e) sample_issued = Inr (Some e, [])"
    by (rule issued_link [OF e(1)]) (use e(2-5) sample_times sample_hex in simp_all)
  from link_opens_only_live_enrolment [OF this] show ?thesis by blast
qed

definition sample_attempt :: attempt where
  "sample_attempt = \<lparr>at_id = ''X1'', at_enrolment_id = ''E1'', started_at = Aware 0, submitted_at = None,
     score = None, passed = None, at_payload = JNull\<rparr>"

definition sample_enrolment :: enrolment where
  "sample_enrolment = \<lparr>e_id = ''E1'', e_trainee_id = ''T1'', e_version_id = ''V1'', magic_token = ''tok'',
     issued_at = Aware 0, expires_at = Aware 0, e_status = ''started'', e_source = ''manual'', e_source_ref = None,
     module_progress = 0, reminder_3d_sent_at = None, reminder_7d_sent_at = None, reminder_final_sent_at = None\<rparr>"

definition sample_taking :: training_db where
  "sample_taking = (sample_training [sample_trainee])\<lparr>enrolments := [sample_enrolment]\<rparr>"

lemma sample_questions:
  "questions (sample_training ts) = [sample_question ''q1'' 0, sample_question ''q2'' 1]"
  "answer_options (sample_training ts) =
     [sample_option ''a'' ''q1'' True, sample_option ''b'' ''q1'' False, sample_option ''c'' ''q2'' True]"
  by (simp_all add: sample_training_def)

lemma sample_taking_simps:
  "writable sample_taking" "attempt_of ''E1'' sample_taking = None" "by_key e_id ''E1'' (enrolments sample_taking) = Some sample_enrolment"
  "by_key v_id (e_version_id sample_enrolment) (course_versions sample_taking) = Some sample_version"
  "questions_of (v_id sample_version) sample_taking = [sample_question ''q1'' 0, sample_question ''q2'' 1]"
  "correct_ids ''q1'' sample_taking = {''a''}" "correct_ids ''q2'' sample_taking = {''c''}"
  unfolding sample_taking_def
  by (simp_all add: attempt_of_def sample_attempt_def sample_enrolment_def sample_version_def
      by_key_def questions_of_def correct_ids_def options_of_def sample_questions sample_question_def sample_option_def)

definition sample_submitted :: training_db where
  "sample_submitted = (sample_training [sample_trainee])\<lparr>enrolments := [sample_enrolment],
     attempts := [sample_attempt\<lparr>submitted_at := Some (Aware 0), score := Some (Fin 1), passed := Some True\<rparr>]\<rparr>"

lemma sample_next_year:
  "add_months (clock (sample_training ts)) 12 = Inr (at_time \<lparr>year = 2027, month = 5, day = 2\<rparr> 0)"
  by simp code_simp

theorem declaration_certifies_witness:
  "\<exists>d s'. record_declaration ''X1'' '' Anna '' ''I declare'' None None None sample_submitted = (Inr d, s') \<and>
     typed_name d = ''Anna'' \<and> map valid_until (certifications s') = [Aware (at_time \<lparr>year = 2027, month = 5, day = 2\<rparr> 0)]"
proof -
  have x: "writable sample_submitted"
    "by_key at_id ''X1'' (attempts sample_submitted) =
       Some (sample_attempt\<lparr>submitted_at := Some (Aware 0), score := Some (Fin 1), passed := Some True\<rparr>)"
    "''X1'' \<notin> d_attempt_id ` set (declarations sample_submitted)" "certifications sample_submitted = []"
    "by_key e_id ''E1'' (enrolments sample_submitted) = Some sample_enrolment"
    "by_key v_id ''V1'' (course_versions sample_submitted) = Some sample_version"
    "clock sample_submitted = clock (sample_training [])"
    unfolding sample_submitted_def
    by (simp_all add: by_key_def sample_attempt_def sample_enrolment_def sample_version_def)
  have n: "strip '' Anna '' = ''Anna''" by code_simp
  show ?thesis
    using declaration_certifies [OF x(1,2) _ _ x(3), of "'' Anna ''" sample_enrolment sample_version
        "at_time \<lparr>year = 2027, month = 5, day = 2\<rparr> 0" "''I declare''" None None None] x n sample_next_year [of "[]"]
    by (auto simp: sample_attempt_def sample_enrolment_def sample_version_def)
qed

theorem exam_scored_witness:
  "\<exists>a s'. submit_attempt ''E1'' [(''q1'', [''a'']), (''q2'', [''b''])] sample_taking = (Inr a, s') \<and>
     score a = Some (Fin (1 / 2)) \<and> passed a = Some True"
  using exam_scored [of sample_taking "''E1''" sample_enrolment sample_version "[(''q1'', [''a'']), (''q2'', [''b''])]"] sample_taking_simps
  by (auto simp: sample_question_def fle_def sample_version_def)

end
