(* ===== verification/Compliance.thy ===== *)
theory Compliance
  imports TrainingLife
begin

text \<open>
  Who must be trained (app/services/training.py): matching of assignments, the state of a cell
  of the compliance matrix, detection of trainees due for re-certification, and the bulk loader
  of the matrix. The loader's dictionaries are association lists and maps.
\<close>

datatype compliance_state = NOT_REQUIRED | EXTRA | VALID | DUE_SOON | IN_FLIGHT | OVERDUE

fun compliance_value :: "compliance_state \<Rightarrow> string" where
  "compliance_value NOT_REQUIRED = ''not_required''"
| "compliance_value EXTRA = ''extra''"
| "compliance_value VALID = ''valid''"
| "compliance_value DUE_SOON = ''due_soon''"
| "compliance_value IN_FLIGHT = ''in_flight''"
| "compliance_value OVERDUE = ''overdue''"

definition BLOCKING_STATES :: "compliance_state list" where
  "BLOCKING_STATES = [OVERDUE]"

definition assignment_matches :: "training_assignment \<Rightarrow> trainee \<Rightarrow> bool" where
  "assignment_matches a t \<longleftrightarrow>
     (as_role_code a = None \<or> as_role_code a = Some (tr_role_code t)) \<and>
     (as_line_id a = None \<or> as_line_id a = tr_line_id t)"

definition before_days :: "pydt \<Rightarrow> int \<Rightarrow> pydt" where
  "before_days dt n = (case dt of Naive t \<Rightarrow> Naive (t - days n) | Aware t \<Rightarrow> Aware (t - days n))"

definition compliance_state_of ::
  "bool \<Rightarrow> certification option \<Rightarrow> bool \<Rightarrow> 'a auth_db_scheme \<Rightarrow> compliance_state" where
  "compliance_state_of is_required cert has_in_flight s =
     (if has_in_flight then IN_FLIGHT
      else
        let cert_valid = (case cert of None \<Rightarrow> False | Some c \<Rightarrow> \<not> is_past (valid_until c) s)
        in if \<not> is_required then (if cert_valid then EXTRA else NOT_REQUIRED)
           else case cert of
                  None \<Rightarrow> OVERDUE
                | Some c \<Rightarrow>
                    if is_past (valid_until c) s then OVERDUE
                    else if is_past (before_days (valid_until c) (TRAINING_RECERT_LEAD_DAYS (app_config s))) s
                    then DUE_SOON else VALID)"

subsection \<open>Re-certification\<close>

definition latest_certification :: "string \<Rightarrow> string \<Rightarrow> 'a training_db_scheme \<Rightarrow> certification option" where
  "latest_certification tid cid s =
     last_by (\<lambda>c. instant (valid_until c))
       (filter (\<lambda>c. ct_trainee_id c = tid \<and> ct_course_id c = cid \<and> revoked_at c = None) (certifications s))"

definition open_states :: "string list" where
  "open_states = [enrolment_status_value ISSUED, enrolment_status_value STARTED]"

text \<open>Open enrolments of a trainee, joined with their version's course.\<close>

definition version_course :: "enrolment \<Rightarrow> 'a training_db_scheme \<Rightarrow> string option" where
  "version_course e s = map_option v_course_id (by_key v_id (e_version_id e) (course_versions s))"

definition open_enrolments :: "string \<Rightarrow> string \<Rightarrow> 'a training_db_scheme \<Rightarrow> enrolment list" where
  "open_enrolments tid cid s =
     filter (\<lambda>e. version_course e s = Some cid \<and> e_trainee_id e = tid \<and> e_status e \<in> set open_states \<and>
                 instant (expires_at e) > clock s) (enrolments s)"

definition has_open_enrolment :: "string \<Rightarrow> string \<Rightarrow> 'a training_db_scheme \<Rightarrow> bool" where
  "has_open_enrolment tid cid s \<longleftrightarrow> open_enrolments tid cid s \<noteq> []"

definition is_due_for_recert :: "trainee \<Rightarrow> string \<Rightarrow> 'a training_db_scheme \<Rightarrow> bool" where
  "is_due_for_recert t cid s =
     (if has_open_enrolment (tr_id t) cid s then False
      else case latest_certification (tr_id t) cid s of
             None \<Rightarrow> True
           | Some c \<Rightarrow> is_past (before_days (valid_until c) (TRAINING_RECERT_LEAD_DAYS (app_config s))) s)"

text \<open>
  \<open>trainees_due_for_course\<close>: the loop over the assignments stops at the first that matches,
  whether or not the trainee was due; a trainee id is added once.
\<close>

fun first_match :: "(training_assignment \<Rightarrow> bool) \<Rightarrow> training_assignment list \<Rightarrow> bool" where
  "first_match P [] = False"
| "first_match P (a # as) = (if \<not> P a then first_match P as else True)"

fun due_loop :: "training_assignment list \<Rightarrow> string \<Rightarrow> 'a training_db_scheme \<Rightarrow> trainee list \<Rightarrow>
    trainee list \<Rightarrow> string list \<Rightarrow> trainee list" where
  "due_loop as cid s [] out seen = out"
| "due_loop as cid s (t # ts) out seen =
     (if first_match (\<lambda>a. assignment_matches a t \<and> tr_id t \<notin> set seen) as \<and> is_due_for_recert t cid s
      then due_loop as cid s ts (out @ [t]) (tr_id t # seen)
      else due_loop as cid s ts out seen)"

definition trainees_due_for_course :: "string \<Rightarrow> 'a training_db_scheme \<Rightarrow> trainee list" where
  "trainees_due_for_course cid s =
     (if by_key c_id cid (courses s) = None \<or> assignments_of cid s = [] then []
      else due_loop (assignments_of cid s) cid s (filter tr_is_active (trainees s)) [] [])"

subsection \<open>The matrix\<close>

record matrix_filter =
  f_line_id :: "string option"
  f_role_code :: "string option"
  f_line_ids :: "string list"
  f_role_codes :: "string list"
  blocked_only :: bool

record matrix_kpis =
  blocked :: nat
  overdue_courses :: nat
  due_soon :: nat
  in_flight :: nat

record compliance_matrix =
  mx_trainees :: "trainee list"
  mx_courses :: "training_course list"
  mx_states :: "((string \<times> string) \<times> compliance_state) list"
  mx_certs :: "string \<times> string \<Rightarrow> certification option"
  mx_cleared :: "(string \<times> bool) list"
  mx_kpis :: matrix_kpis

definition filter_set :: "string option \<Rightarrow> string list \<Rightarrow> string list" where
  "filter_set one many = (if truthy one then [or_empty one] else []) @ filter (\<lambda>x. x \<noteq> []) many"

definition matrix_trainees :: "matrix_filter \<Rightarrow> 'a training_db_scheme \<Rightarrow> trainee list" where
  "matrix_trainees f s =
     (let line_set = filter_set (f_line_id f) (f_line_ids f);
          role_set = filter_set (f_role_code f) (f_role_codes f)
      in sort_key tr_full_name
           (filter (\<lambda>t. tr_is_active t \<and> (line_set = [] \<or> (\<exists>l\<in>set line_set. tr_line_id t = Some l)) \<and>
                        (role_set = [] \<or> tr_role_code t \<in> set role_set)) (trainees s)))"

definition matrix_courses :: "'a training_db_scheme \<Rightarrow> training_course list" where
  "matrix_courses s = sort_key c_code (filter c_is_active (courses s))"

text \<open>Certifications in ascending order of validity: the last one of a pair wins.\<close>

definition cert_by :: "string list \<Rightarrow> string list \<Rightarrow> 'a training_db_scheme \<Rightarrow> string \<times> string \<Rightarrow> certification option" where
  "cert_by tids cids s =
     fold (\<lambda>c m. m((ct_trainee_id c, ct_course_id c) := Some c))
       (sort_key (\<lambda>c. instant (valid_until c))
         (filter (\<lambda>c. ct_trainee_id c \<in> set tids \<and> ct_course_id c \<in> set cids \<and> revoked_at c = None)
           (certifications s))) (\<lambda>_. None)"

definition open_pairs :: "string list \<Rightarrow> string list \<Rightarrow> 'a training_db_scheme \<Rightarrow> (string \<times> string) list" where
  "open_pairs tids cids s =
     concat (map (\<lambda>e. case version_course e s of
                        Some cid \<Rightarrow> if e_trainee_id e \<in> set tids \<and> cid \<in> set cids \<and> e_status e \<in> set open_states \<and>
                                      instant (expires_at e) > clock s
                                    then [(e_trainee_id e, cid)] else []
                      | None \<Rightarrow> []) (enrolments s))"

definition required :: "string \<Rightarrow> trainee \<Rightarrow> 'a training_db_scheme \<Rightarrow> bool" where
  "required cid t s \<longleftrightarrow> list_ex (\<lambda>a. assignment_matches a t) (assignments_of cid s)"

definition matrix_cells ::
  "trainee list \<Rightarrow> training_course list \<Rightarrow> 'a training_db_scheme \<Rightarrow> ((string \<times> string) \<times> compliance_state) list" where
  "matrix_cells ts cs s =
     (let tids = map tr_id ts; cids = map c_id cs
      in concat (map (\<lambda>c. map (\<lambda>t.
           ((tr_id t, c_id c),
            compliance_state_of (required (c_id c) t s) (cert_by tids cids s (tr_id t, c_id c))
              ((tr_id t, c_id c) \<in> set (open_pairs tids cids s)) s)) ts) cs))"

definition matrix_cleared ::
  "trainee list \<Rightarrow> training_course list \<Rightarrow> ((string \<times> string) \<times> compliance_state) list \<Rightarrow> (string \<times> bool) list" where
  "matrix_cleared ts cs states =
     map (\<lambda>t. (tr_id t, \<not> list_ex (\<lambda>c. case map_of states (tr_id t, c_id c) of
                                          None \<Rightarrow> False | Some st \<Rightarrow> st \<in> set BLOCKING_STATES) cs)) ts"

definition build_compliance_matrix :: "matrix_filter \<Rightarrow> 'a training_db_scheme \<Rightarrow> compliance_matrix" where
  "build_compliance_matrix f s =
     (let ts = matrix_trainees f s; cs = matrix_courses s
      in if ts = [] \<or> cs = []
         then \<lparr>mx_trainees = ts, mx_courses = cs, mx_states = [], mx_certs = (\<lambda>_. None),
               mx_cleared = map (\<lambda>t. (tr_id t, True)) ts,
               mx_kpis = \<lparr>blocked = 0, overdue_courses = 0, due_soon = 0, in_flight = 0\<rparr>\<rparr>
         else
           let states = matrix_cells ts cs s;
               cleared = matrix_cleared ts cs states;
               visible = (if blocked_only f then filter (\<lambda>t. map_of cleared (tr_id t) = Some False) ts else ts);
               vis = (\<lambda>tid. \<not> blocked_only f \<or> tid \<in> set (map tr_id visible));
               states' = filter (\<lambda>(k, st). vis (fst k)) states;
               cleared' = filter (\<lambda>(tid, b). vis tid) cleared
           in \<lparr>mx_trainees = visible, mx_courses = cs, mx_states = states',
               mx_certs = (\<lambda>k. if vis (fst k) then cert_by (map tr_id ts) (map c_id cs) s k else None),
               mx_cleared = cleared',
               mx_kpis =
                 \<lparr>blocked = length (filter (\<lambda>(tid, b). \<not> b) cleared'),
                  overdue_courses = card (set (map (snd \<circ> fst) (filter (\<lambda>(k, st). st = OVERDUE) states'))),
                  due_soon = length (filter (\<lambda>(k, st). st = DUE_SOON) states'),
                  in_flight = length (filter (\<lambda>(k, st). st = IN_FLIGHT) states')\<rparr>\<rparr>)"

subsection \<open>The bulk loader agrees with the single lookups\<close>

lemma fold_last:
  "fold (\<lambda>c m. m(key c := Some c)) xs m k =
     (case rev (filter (\<lambda>c. key c = k) xs) of [] \<Rightarrow> m k | c # _ \<Rightarrow> Some c)"
proof (induction xs arbitrary: m)
  case (Cons x xs)
  then show ?case using Cons.IH [of "m(key x := Some x)"] by (auto split: list.splits)
qed simp

lemma cert_by_latest:
  assumes "tid \<in> set tids" "cid \<in> set cids"
  shows "cert_by tids cids s (tid, cid) = latest_certification tid cid s"
proof -
  have "filter (\<lambda>c. (ct_trainee_id c, ct_course_id c) = (tid, cid)) (sort_key (\<lambda>c. instant (valid_until c))
      (filter (\<lambda>c. ct_trainee_id c \<in> set tids \<and> ct_course_id c \<in> set cids \<and> revoked_at c = None) (certifications s))) =
    sort_key (\<lambda>c. instant (valid_until c)) (filter (\<lambda>c. (ct_trainee_id c \<in> set tids \<and> ct_course_id c \<in> set cids \<and>
      revoked_at c = None) \<and> (ct_trainee_id c, ct_course_id c) = (tid, cid)) (certifications s))"
    by (simp only: filter_sort filter_filter)
  also have "\<dots> = sort_key (\<lambda>c. instant (valid_until c))
      (filter (\<lambda>c. ct_trainee_id c = tid \<and> ct_course_id c = cid \<and> revoked_at c = None) (certifications s))"
    using assms by (intro arg_cong [where f = "sort_key _"] filter_cong) auto
  finally have "filter (\<lambda>c. (ct_trainee_id c, ct_course_id c) = (tid, cid)) (sort_key (\<lambda>c. instant (valid_until c))
      (filter (\<lambda>c. ct_trainee_id c \<in> set tids \<and> ct_course_id c \<in> set cids \<and> revoked_at c = None) (certifications s))) =
    sort_key (\<lambda>c. instant (valid_until c))
      (filter (\<lambda>c. ct_trainee_id c = tid \<and> ct_course_id c = cid \<and> revoked_at c = None) (certifications s))" .
  then show ?thesis
    unfolding cert_by_def fold_last [where key = "\<lambda>c. (ct_trainee_id c, ct_course_id c)"] latest_certification_def last_by_def
    by (simp only:)
qed

lemma open_pairs_iff:
  assumes "tid \<in> set tids" "cid \<in> set cids"
  shows "(tid, cid) \<in> set (open_pairs tids cids s) \<longleftrightarrow> has_open_enrolment tid cid s"
  using assms unfolding open_pairs_def has_open_enrolment_def open_enrolments_def filter_empty_conv
  by (fastforce split: option.splits if_splits)

text \<open>One cell, by the single lookups.\<close>

definition cell_state :: "trainee \<Rightarrow> string \<Rightarrow> 'a training_db_scheme \<Rightarrow> compliance_state" where
  "cell_state t cid s =
     compliance_state_of (required cid t s) (latest_certification (tr_id t) cid s) (has_open_enrolment (tr_id t) cid s) s"

lemma matrix_cells_eq:
  "matrix_cells ts cs s = concat (map (\<lambda>c. map (\<lambda>t. ((tr_id t, c_id c), cell_state t (c_id c) s)) ts) cs)"
  unfolding matrix_cells_def Let_def cell_state_def
  by (intro arg_cong [where f = concat] map_cong refl) (simp add: cert_by_latest open_pairs_iff)

lemma map_of_unique:
  assumes "(k, v) \<in> set xs" "\<And>v'. (k, v') \<in> set xs \<Longrightarrow> v' = v"
  shows "map_of xs k = Some v"
proof -
  obtain v' where "map_of xs k = Some v'" using weak_map_of_SomeI [OF assms(1)] by blast
  with map_of_SomeD [OF this] assms(2) show ?thesis by blast
qed

lemma map_of_cells:
  assumes "inj_on tr_id (set ts)" "t \<in> set ts" "c \<in> set cs"
  shows "map_of (matrix_cells ts cs s) (tr_id t, c_id c) = Some (cell_state t (c_id c) s)"
proof (rule map_of_unique)
  show "((tr_id t, c_id c), cell_state t (c_id c) s) \<in> set (matrix_cells ts cs s)"
    using assms(2,3) by (auto simp: matrix_cells_eq)
  fix v assume "((tr_id t, c_id c), v) \<in> set (matrix_cells ts cs s)"
  then obtain t' c' where x: "t' \<in> set ts" "c' \<in> set cs" "tr_id t = tr_id t'" "c_id c = c_id c'" "v = cell_state t' (c_id c') s"
    by (simp add: matrix_cells_eq image_iff) metis
  from inj_onD [OF assms(1) x(3) assms(2) x(1)] x(4,5) show "v = cell_state t (c_id c) s" by simp
qed

lemma map_of_cleared:
  assumes "inj_on tr_id (set ts)" "t \<in> set ts"
  shows "map_of (matrix_cleared ts cs (matrix_cells ts cs s)) (tr_id t) =
    Some (\<forall>c\<in>set cs. cell_state t (c_id c) s \<noteq> OVERDUE)"
proof (intro map_of_unique)
  have cell: "(\<not> list_ex (\<lambda>c. case map_of (matrix_cells ts cs s) (tr_id u, c_id c) of
      None \<Rightarrow> False | Some st \<Rightarrow> st \<in> set BLOCKING_STATES) cs) \<longleftrightarrow> (\<forall>c\<in>set cs. cell_state u (c_id c) s \<noteq> OVERDUE)"
    if "u \<in> set ts" for u
  proof -
    have "(case map_of (matrix_cells ts cs s) (tr_id u, c_id c) of
        None \<Rightarrow> False | Some st \<Rightarrow> st \<in> set BLOCKING_STATES) \<longleftrightarrow> cell_state u (c_id c) s = OVERDUE" if "c \<in> set cs" for c
      using map_of_cells [OF assms(1) \<open>u \<in> set ts\<close> that, of s] by (simp add: BLOCKING_STATES_def)
    then show ?thesis by (simp add: list_ex_iff)
  qed
  show "(tr_id t, \<forall>c\<in>set cs. cell_state t (c_id c) s \<noteq> OVERDUE) \<in> set (matrix_cleared ts cs (matrix_cells ts cs s))"
    using assms(2) cell [OF assms(2)] unfolding matrix_cleared_def by auto
  show "v = (\<forall>c\<in>set cs. cell_state t (c_id c) s \<noteq> OVERDUE)"
    if "(tr_id t, v) \<in> set (matrix_cleared ts cs (matrix_cells ts cs s))" for v
  proof -
    from that have "(tr_id t, v) \<in> (\<lambda>t. (tr_id t, \<not> list_ex (\<lambda>c. case map_of (matrix_cells ts cs s) (tr_id t, c_id c) of
         None \<Rightarrow> False | Some st \<Rightarrow> st \<in> set BLOCKING_STATES) cs)) ` set ts"
      by (simp only: matrix_cleared_def set_map)
    then show ?thesis
    proof (rule imageE)
      fix u assume u: "(tr_id t, v) = (tr_id u, \<not> list_ex (\<lambda>c. case map_of (matrix_cells ts cs s) (tr_id u, c_id c) of
         None \<Rightarrow> False | Some st \<Rightarrow> st \<in> set BLOCKING_STATES) cs)" "u \<in> set ts"
      then have "tr_id t = tr_id u" by (simp only: prod.inject)
      from inj_onD [OF assms(1) this assms(2) u(2)] u(1) cell [OF assms(2)] show ?thesis by simp
    qed
  qed
qed

lemma first_match_ex: "first_match P as \<longleftrightarrow> list_ex P as"
  by (induction as) auto

lemma due_loop_set:
  "distinct (map tr_id ts) \<Longrightarrow> tr_id ` set ts \<inter> set seen = {} \<Longrightarrow>
     set (due_loop as cid s ts out seen) =
       set out \<union> {t \<in> set ts. list_ex (\<lambda>a. assignment_matches a t) as \<and> is_due_for_recert t cid s}"
  by (induction as cid s ts out seen rule: due_loop.induct) (auto simp: first_match_ex list_ex_iff)

lemma trainees_due_iff:
  assumes "distinct (map tr_id (trainees s))" "c \<in> set (courses s)"
  shows "t \<in> set (trainees_due_for_course (c_id c) s) \<longleftrightarrow>
    t \<in> set (trainees s) \<and> tr_is_active t \<and> required (c_id c) t s \<and> is_due_for_recert t (c_id c) s"
proof -
  have "by_key c_id (c_id c) (courses s) \<noteq> None" using assms(2) by (auto simp: by_key_None)
  moreover have "distinct (map tr_id (filter tr_is_active (trainees s)))" using assms(1) by (simp add: distinct_map_filter)
  ultimately show ?thesis
    by (auto simp: trainees_due_for_course_def due_loop_set required_def)
qed

lemma is_past_before: "0 \<le> n \<Longrightarrow> is_past dt s \<Longrightarrow> is_past (before_days dt n) s"
  by (cases dt) (simp_all add: is_past_def before_days_def days_def us_day_def)

lemma due_iff_state:
  assumes "0 \<le> TRAINING_RECERT_LEAD_DAYS (app_config s)"
  shows "required cid t s \<and> is_due_for_recert t cid s \<longleftrightarrow> cell_state t cid s \<in> {OVERDUE, DUE_SOON}"
  using is_past_before [OF assms]
  by (auto simp: is_due_for_recert_def cell_state_def compliance_state_of_def Let_def split: option.splits)

text \<open>
  C21. The compliance dashboard, the clearance of workers and the scheduler agree. For every
  visible worker and active course the matrix built in bulk shows the state the single lookups
  give; the scheduler finds the worker due for the course exactly when that state is overdue or
  due soon; and the worker is cleared exactly when no active course is overdue.
\<close>

theorem matrix_agrees_with_scheduler:
  assumes "distinct (map tr_id (trainees s))" "0 \<le> TRAINING_RECERT_LEAD_DAYS (app_config s)" "\<not> blocked_only f"
    "t \<in> set (matrix_trainees f s)" "c \<in> set (courses s)" "c_is_active c"
  shows "map_of (mx_states (build_compliance_matrix f s)) (tr_id t, c_id c) = Some (cell_state t (c_id c) s) \<and>
    (t \<in> set (trainees_due_for_course (c_id c) s) \<longleftrightarrow> cell_state t (c_id c) s \<in> {OVERDUE, DUE_SOON}) \<and>
    map_of (mx_cleared (build_compliance_matrix f s)) (tr_id t) =
      Some (\<forall>c'\<in>set (matrix_courses s). cell_state t (c_id c') s \<noteq> OVERDUE)"
proof -
  let ?ts = "matrix_trainees f s" and ?cs = "matrix_courses s"
  have inj: "inj_on tr_id (set ?ts)"
    using assms(1) by (auto simp: matrix_trainees_def Let_def distinct_map intro: inj_on_subset)
  have c: "c \<in> set ?cs" using assms(5,6) by (simp add: matrix_courses_def)
  have t: "t \<in> set (trainees s)" "tr_is_active t" using assms(4) by (auto simp: matrix_trainees_def Let_def)
  have ne: "?ts \<noteq> []" "?cs \<noteq> []" using assms(4) c by auto
  have "mx_states (build_compliance_matrix f s) = matrix_cells ?ts ?cs s"
    "mx_cleared (build_compliance_matrix f s) = matrix_cleared ?ts ?cs (matrix_cells ?ts ?cs s)"
    using ne assms(3) by (simp_all add: build_compliance_matrix_def Let_def)
  then show ?thesis
    using map_of_cells [OF inj assms(4) c] map_of_cleared [OF inj assms(4)]
      trainees_due_iff [OF assms(1,5)] due_iff_state [OF assms(2)] t by auto
qed

theorem matrix_agrees_with_scheduler_witness:
  "map_of (mx_cleared (build_compliance_matrix \<lparr>f_line_id = None, f_role_code = None, f_line_ids = [],
      f_role_codes = [], blocked_only = False\<rparr> (sample_training [sample_trainee]))) ''T1'' = Some False"
proof -
  let ?s = "sample_training [sample_trainee]"
  have as: "assignments_of ''C1'' (sample_training ts) = [\<lparr>as_id = ''A1'', as_course_id = ''C1'', as_role_code = Some ''baker'',
      as_line_id = None, recurrence_months = 12\<rparr>]" for ts
    by (simp add: assignments_of_def sample_training_def)
  have "cell_state sample_trainee ''C1'' ?s = OVERDUE"
    by (simp add: cell_state_def compliance_state_of_def required_def as assignment_matches_def sample_trainee_def
        has_open_enrolment_def open_enrolments_def latest_certification_def)
  moreover have "matrix_courses ?s = [sample_course]" by (simp add: matrix_courses_def sample_course_def)
  moreover have "0 \<le> TRAINING_RECERT_LEAD_DAYS (app_config ?s)" by (simp add: sample_config_def)
  moreover have "sample_trainee \<in> set (matrix_trainees \<lparr>f_line_id = None, f_role_code = None, f_line_ids = [],
      f_role_codes = [], blocked_only = False\<rparr> ?s)"
    by (simp add: matrix_trainees_def filter_set_def truthy_def sample_trainee_def)
  moreover have "c_id sample_course = ''C1''" "tr_id sample_trainee = ''T1''" "c_is_active sample_course"
    by (simp_all add: sample_course_def sample_trainee_def)
  ultimately show ?thesis
    using matrix_agrees_with_scheduler [of ?s "\<lparr>f_line_id = None, f_role_code = None, f_line_ids = [],
      f_role_codes = [], blocked_only = False\<rparr>" sample_trainee sample_course] by simp
qed

end
