(* ===== verification/PyFormat.thy ===== *)
theory PyFormat
  imports PyJson PyText
begin

text \<open>
  \<open>str\<close> and \<open>repr\<close> of JSON values, and \<open>str.format\<close> with keyword arguments. The text of a
  floating-point number is a parameter, and so are the fields that ask for more than a name
  (an attribute, an index, a conversion or a format specification).
\<close>

subsection \<open>Printing values\<close>

fun jrepr :: "(pyfloat \<Rightarrow> string) \<Rightarrow> json \<Rightarrow> string" where
  "jrepr sf JNull = ''None''"
| "jrepr sf (JBool b) = (if b then ''True'' else ''False'')"
| "jrepr sf (JInt i) = show_int i"
| "jrepr sf (JFloat x) = sf x"
| "jrepr sf (JStr s) = py_repr s"
| "jrepr sf (JList xs) = ''['' @ join_with '', '' (map (jrepr sf) xs) @ '']''"
| "jrepr sf (JObj d) = ''{'' @ join_with '', '' (map (\<lambda>(k, v). py_repr k @ '': '' @ jrepr sf v) d) @ ''}''"

definition py_str :: "(pyfloat \<Rightarrow> string) \<Rightarrow> json \<Rightarrow> string" where
  "py_str sf v = (case v of JStr s \<Rightarrow> s | _ \<Rightarrow> jrepr sf v)"

subsection \<open>Format strings\<close>

text \<open>The text of a field, up to the brace that closes it, and what follows.\<close>

fun take_field :: "nat \<Rightarrow> string \<Rightarrow> (string \<times> string) option" where
  "take_field d [] = None"
| "take_field d (c # r) =
     (if c = CHR ''}'' \<and> d = 0 then Some ([], r)
      else map_option (\<lambda>(f, rest). (c # f, rest))
        (take_field (if c = CHR ''{'' then d + 1 else if c = CHR ''}'' then d - 1 else d) r))"

lemma take_field_shorter [termination_simp]: "take_field d r = Some (f, rest) \<Longrightarrow> length rest < length r"
proof (induction d r arbitrary: f rest rule: take_field.induct)
  case (2 d c r)
  then show ?case by (fastforce split: if_splits)
qed simp

lemma take_field_append: "take_field d r = Some (f, rest) \<Longrightarrow> r = f @ CHR ''}'' # rest"
  by (induction d r arbitrary: f rest rule: take_field.induct) (auto split: if_splits)

definition plain_field :: "string \<Rightarrow> bool" where
  "plain_field f \<longleftrightarrow> set f \<inter> set ''!:.[{'' = {}"

definition render_field ::
  "(pyfloat \<Rightarrow> string) \<Rightarrow> (string \<Rightarrow> (string \<times> json) list \<Rightarrow> exc + string) \<Rightarrow> (string \<times> json) list \<Rightarrow> string \<Rightarrow> exc + string" where
  "render_field sf special ctx f =
     (if \<not> plain_field f then special f ctx
      else if list_all is_digit f then Inl (IndexError ''Replacement index out of range'')
      else case map_of ctx f of None \<Rightarrow> Inl (KeyError f) | Some v \<Rightarrow> Inr (py_str sf v))"

definition prepend :: "string \<Rightarrow> exc + string \<Rightarrow> exc + string" where
  "prepend p r = (case r of Inl e \<Rightarrow> Inl e | Inr t \<Rightarrow> Inr (p @ t))"

fun py_format ::
  "(pyfloat \<Rightarrow> string) \<Rightarrow> (string \<Rightarrow> (string \<times> json) list \<Rightarrow> exc + string) \<Rightarrow> (string \<times> json) list \<Rightarrow> string \<Rightarrow> exc + string" where
  "py_format sf special ctx [] = Inr []"
| "py_format sf special ctx (c # r) =
     (if c = CHR ''}''
      then (case r of
              d # r' \<Rightarrow> if d = CHR ''}'' then prepend ''}'' (py_format sf special ctx r')
                        else Inl (ValueError ''Single } encountered in format string'')
            | [] \<Rightarrow> Inl (ValueError ''Single } encountered in format string''))
      else if c = CHR ''{'' \<and> take 1 r = ''{'' then prepend ''{'' (py_format sf special ctx (tl r))
      else if c = CHR ''{''
      then (case take_field 0 r of
              None \<Rightarrow> Inl (ValueError ''expected } before end of string'')
            | Some (f, rest) \<Rightarrow>
                (case render_field sf special ctx f of
                   Inl e \<Rightarrow> Inl e
                 | Inr t \<Rightarrow> prepend t (py_format sf special ctx rest)))
      else prepend [c] (py_format sf special ctx r))"

text \<open>A text without braces is its own format.\<close>

lemma format_plain: "set t \<inter> set ''{}'' = {} \<Longrightarrow> py_format sf special ctx t = Inr t"
  by (induction t) (auto simp: prepend_def)

end
