(* ===== verification/Triggers.thy ===== *)
theory Triggers
  imports TriggerState Compliance PyFormat
begin

text \<open>
  The trigger engine (app/models/triggers.py, app/services/triggers.py): conditions over a
  payload, duration gating, dry runs, and the responders of a trigger. A payload, a condition and
  a responder's configuration are JSON dictionaries. Rows are read in table order; the text of a
  float, of an exotic format field and of a library's exception are parameters of the state.
\<close>

subsection \<open>Tables\<close>

datatype responder_type =
    NOTIFY_IN_APP | CREATE_TICKET | ESCALATE | WEBHOOK | EMAIL_RESPONDER | SMS_RESPONDER | SEND_TRAINING_LINK

fun responder_type_value :: "responder_type \<Rightarrow> string" where
  "responder_type_value NOTIFY_IN_APP = ''notify_in_app''"
| "responder_type_value CREATE_TICKET = ''create_ticket''"
| "responder_type_value ESCALATE = ''escalate''"
| "responder_type_value WEBHOOK = ''webhook''"
| "responder_type_value EMAIL_RESPONDER = ''email''"
| "responder_type_value SMS_RESPONDER = ''sms''"
| "responder_type_value SEND_TRAINING_LINK = ''send_training_link''"

text \<open>\<open>ResponderType(s)\<close>.\<close>

definition responder_type_of :: "string \<Rightarrow> responder_type option" where
  "responder_type_of s = find (\<lambda>t. responder_type_value t = s)
     [NOTIFY_IN_APP, CREATE_TICKET, ESCALATE, WEBHOOK, EMAIL_RESPONDER, SMS_RESPONDER, SEND_TRAINING_LINK]"

record trigger =
  tg_id :: string
  tg_code :: string
  tg_name :: texts
  tg_scope :: "string option"
  tg_condition :: dict
  tg_severity :: string
  tg_is_active :: bool
  dry_run :: bool

record responder =
  rs_id :: string
  rs_code :: string
  rs_name :: texts
  rs_type :: string
  rs_config :: dict
  rs_is_active :: bool

record trigger_responder =
  link_trigger_id :: string
  link_responder_id :: string
  link_order_index :: int

record trigger_execution =
  ex_id :: int
  ex_trigger_id :: string
  fired_at :: pydt
  ex_payload :: json
  success :: bool
  responder_results :: json
  linked_ticket_id :: "json option"

record in_app_notification =
  n_user_id :: json
  n_role_code :: json
  n_severity :: string
  n_title :: string
  n_body :: "string option"
  related_entity_type :: string
  related_entity_id :: string
  n_created_at :: pydt
  read_at_time :: "pydt option"

record trigger_db = training_db +
  show_float :: "pyfloat \<Rightarrow> string"
  special_field :: "string \<Rightarrow> dict \<Rightarrow> exc + string"
  library_text :: "exc \<Rightarrow> string"
  triggers :: "trigger list"
  responders :: "responder list"
  trigger_responders :: "trigger_responder list"
  trigger_executions :: "trigger_execution list"
  execution_seq :: int
  notifications :: "in_app_notification list"

text \<open>\<open>Trigger.responders\<close>: the rows of the association, in table order.\<close>

definition responders_of :: "string \<Rightarrow> 'a trigger_db_scheme \<Rightarrow> responder list" where
  "responders_of tid s =
     filter (\<lambda>r. \<exists>l\<in>set (trigger_responders s). link_trigger_id l = tid \<and> link_responder_id l = rs_id r) (responders s)"

subsection \<open>Conditions\<close>

text \<open>The operators of \<open>_OPERATORS\<close>; None is the TypeError of comparing unordered values.\<close>

definition operator_of :: "string \<Rightarrow> (json \<Rightarrow> json \<Rightarrow> bool option) option" where
  "operator_of op = map_of
     [(''=='', \<lambda>a b. Some (jeq a b)), (''!='', \<lambda>a b. Some (\<not> jeq a b)), (''<'', jlt), (''<='', jle),
      (''>'', \<lambda>a b. jlt b a), (''>='', \<lambda>a b. jle b a)] op"

definition scope_matches :: "string option \<Rightarrow> json \<Rightarrow> bool" where
  "scope_matches trigger_scope payload_scope =
     (if \<not> truthy trigger_scope then True else payload_scope = JStr (or_empty trigger_scope))"

fun hashable :: "json \<Rightarrow> bool" where
  "hashable (JList xs) = False"
| "hashable (JObj d) = False"
| "hashable _ = True"

definition unhashable_error :: exc where
  "unhashable_error = TypeError ''unhashable type''"

text \<open>A key that is not a string is in neither dictionary.\<close>

definition evaluate_condition :: "dict \<Rightarrow> dict \<Rightarrow> exc + bool" where
  "evaluate_condition cond payload =
     (let metric = jget_or_null ''metric'' cond; op = jget_or_null ''operator'' cond;
          threshold = jget_or_null ''value'' cond
      in if metric = JNull then Inr False
         else if \<not> hashable op then Inl unhashable_error
         else case (case op of JStr o1 \<Rightarrow> operator_of o1 | _ \<Rightarrow> None) of
                None \<Rightarrow> Inr False
              | Some f \<Rightarrow>
                  if \<not> hashable metric then Inl unhashable_error
                  else (case (case metric of JStr m \<Rightarrow> jget m payload | _ \<Rightarrow> None) of
                          None \<Rightarrow> Inr False
                        | Some v \<Rightarrow> Inr (f v threshold = Some True)))"

definition duration_of :: "dict \<Rightarrow> exc + int" where
  "duration_of cond =
     (let d = jget_or_null ''duration_seconds'' cond in if jtruthy d then json_int d else Inr 0)"

subsection \<open>Responders\<close>

text \<open>\<open>_interpolate\<close>: a KeyError, IndexError or ValueError falls back to the raw template.\<close>

fun keeps_template :: "exc \<Rightarrow> bool" where
  "keeps_template (KeyError m) = True"
| "keeps_template (IndexError m) = True"
| "keeps_template (ValueError m) = True"
| "keeps_template _ = False"

definition interpolate :: "'a trigger_db_scheme \<Rightarrow> json \<Rightarrow> dict \<Rightarrow> trigger \<Rightarrow> exc + string" where
  "interpolate s template payload t =
     (if \<not> jtruthy template then Inr []
      else case template of
             JStr f \<Rightarrow>
               let ctx = jset ''severity'' (JStr (tg_severity t)) (jset ''trigger_code'' (JStr (tg_code t)) payload)
               in (case py_format (show_float s) (special_field s) ctx f of
                     Inr r \<Rightarrow> Inr r
                   | Inl e \<Rightarrow> if keeps_template e then Inr f else Inl e)
           | _ \<Rightarrow> Inl (AttributeError ''format''))"

text \<open>In-app notifications: one row per recipient; an entry that is not a dictionary ends the loop.\<close>

definition add_notification :: "trigger \<Rightarrow> string \<Rightarrow> string \<Rightarrow> json \<Rightarrow> ('a trigger_db_scheme, unit) py" where
  "add_notification t ttl body r =
     (case r of
        JObj d \<Rightarrow> modify (\<lambda>s. s\<lparr>notifications := notifications s @
          [\<lparr>n_user_id = jget_or_null ''user_id'' d, n_role_code = jget_or_null ''role_code'' d,
            n_severity = tg_severity t, n_title = take 200 ttl, n_body = or_none (take 2000 body),
            related_entity_type = ''trigger'', related_entity_id = tg_id t, n_created_at = utcnow s,
            read_at_time = None\<rparr>]\<rparr>)
      | _ \<Rightarrow> throw (AttributeError ''get''))"

fun elements_of :: "json \<Rightarrow> exc + json list" where
  "elements_of (JList xs) = Inr xs"
| "elements_of (JStr s) = Inr (map (\<lambda>c. JStr [c]) s)"
| "elements_of (JObj d) = Inr (map (\<lambda>(k, v). JStr k) d)"
| "elements_of _ = Inl (TypeError ''object is not iterable'')"

definition notify_in_app :: "dict \<Rightarrow> trigger \<Rightarrow> dict \<Rightarrow> ('a trigger_db_scheme, dict) py" where
  "notify_in_app cfg t payload = with_state (\<lambda>s.
     let recipients = json_or (jget_or_null ''recipients'' cfg) (JList [])
     in bind (lift (interpolate s (jget_or (JStr ''Trigger fired'') ''title'' cfg) payload t)) (\<lambda>ttl.
        bind (lift (interpolate s (jget_or (JStr []) ''body'' cfg) payload t)) (\<lambda>body.
        bind (lift (elements_of recipients)) (\<lambda>rs.
          seq (for_each (add_notification t ttl body) rs)
         (seq flush (ret [(''notifications_created'', JInt (int (length rs)))]))))))"

definition responder_ticket :: "trigger \<Rightarrow> dict \<Rightarrow> string \<Rightarrow> string \<Rightarrow> string \<Rightarrow> ticket_severity \<Rightarrow> ticket_args" where
  "responder_ticket t payload lid ttl descr sev =
     \<lparr>a_line_id = lid, a_title = take 200 ttl, a_description = Some descr, a_severity = sev, a_category = OTHER,
      a_source = (if jget ''source'' payload = Some (JStr ''iot'') then IOT else API),
      a_created_by = None, a_description_lang = None,
      a_metadata = [(''trigger_code'', JStr (tg_code t)), (''payload'', JObj payload)]\<rparr>"

definition ticket_responder :: "dict \<Rightarrow> trigger \<Rightarrow> dict \<Rightarrow> ('a trigger_db_scheme, dict) py" where
  "ticket_responder cfg t payload = with_state (\<lambda>s.
     let lid = json_or (jget_or_null ''line_id'' cfg) (jget_or_null ''line_id'' payload)
     in if \<not> jtruthy lid then throw (TriggerError ''create_ticket responder requires line_id'')
        else bind (lift (interpolate s (jget_or (JStr (''Auto: '' @ tg_code t)) ''title'' cfg) payload t)) (\<lambda>ttl.
             bind (lift (interpolate s (jget_or (JStr []) ''description'' cfg) payload t)) (\<lambda>descr.
               case severity_of (tg_severity t) of
                 None \<Rightarrow> throw (ValueError (py_repr (tg_severity t) @ '' is not a valid TicketSeverity''))
               | Some sev \<Rightarrow>
                   if \<not> hashable lid then throw unhashable_error
                   else bind (create_ticket (responder_ticket t payload (py_str (show_float s) lid) ttl descr sev)) (\<lambda>tk.
                     ret [(''ticket_id'', JStr (ticket_id tk)), (''ticket_number'', JStr (ticket_number tk))]))))"

definition escalate_responder :: "dict \<Rightarrow> trigger \<Rightarrow> dict \<Rightarrow> ('a trigger_db_scheme, dict) py" where
  "escalate_responder cfg t payload = with_state (\<lambda>s.
     let tid = json_or (jget_or_null ''ticket_id'' payload) (jget_or_null ''ticket_id'' cfg)
     in if \<not> jtruthy tid then throw (TriggerError ''escalate responder requires ticket_id in payload or config'')
        else if \<not> hashable tid then throw unhashable_error
        else case (case tid of JStr i \<Rightarrow> by_key ticket_id i (tickets s) | _ \<Rightarrow> None) of
               None \<Rightarrow> throw (TriggerError (''Ticket '' @ py_str (show_float s) tid @ '' not found''))
             | Some tk \<Rightarrow>
                 (case status_of (status tk) of
                    None \<Rightarrow> throw (ValueError (py_repr (status tk) @ '' is not a valid TicketStatus''))
                  | Some current \<Rightarrow>
                      if ESCALATED \<notin> set (TICKET_TRANSITIONS current)
                      then ret [(''escalated_ticket_id'', tid), (''skipped'', JBool True),
                                (''reason'', JStr ''ineligible_status''), (''current_status'', JStr (status tk))]
                      else bind (transition (ticket_id tk) ESCALATED None (Some ''Auto-escalated by trigger''))
                             (\<lambda>_. ret [(''escalated_ticket_id'', tid)])))"

definition webhook_responder :: "dict \<Rightarrow> trigger \<Rightarrow> dict \<Rightarrow> ('a trigger_db_scheme, dict) py" where
  "webhook_responder cfg t payload =
     (let url = jget_or_null ''url'' cfg
      in if \<not> jtruthy url then throw (TriggerError ''webhook responder requires url'')
         else bind (enqueue_webhook url
                      (JObj [(''trigger_code'', JStr (tg_code t)), (''severity'', JStr (tg_severity t)), (''payload'', JObj payload)])
                      (jget_or_null ''secret'' cfg))
                (\<lambda>i. ret [(''queued_webhook'', url), (''job_id'', JStr i)]))"

text \<open>\<open>cfg.get("to") or cfg.get("recipients") or []\<close>, a single string as a list of one.\<close>

definition responder_recipients :: "dict \<Rightarrow> json" where
  "responder_recipients cfg =
     (case json_or (jget_or_null ''to'' cfg) (json_or (jget_or_null ''recipients'' cfg) (JList [])) of
        JStr s \<Rightarrow> JList [JStr s] | v \<Rightarrow> v)"

definition email_responder :: "dict \<Rightarrow> trigger \<Rightarrow> dict \<Rightarrow> ('a trigger_db_scheme, dict) py" where
  "email_responder cfg t payload = with_state (\<lambda>s.
     let addrs = responder_recipients cfg
     in if \<not> jtruthy addrs then throw (TriggerError ''email responder requires to (list or string)'')
        else bind (lift (interpolate s (jget_or (JStr (''[QMS] Trigger '' @ tg_code t)) ''subject'' cfg) payload t)) (\<lambda>subject.
             bind (lift (interpolate s (jget_or (jget_or (JStr []) ''body'' cfg) ''body_text'' cfg) payload t)) (\<lambda>body_text.
             bind (lift (interpolate s (jget_or (JStr []) ''body_html'' cfg) payload t)) (\<lambda>body_html.
             bind (enqueue_email addrs (take 998 subject) body_text (or_none body_html)) (\<lambda>i.
               ret [(''queued_email'', addrs), (''job_id'', JStr i)])))))"

definition sms_responder :: "dict \<Rightarrow> trigger \<Rightarrow> dict \<Rightarrow> ('a trigger_db_scheme, dict) py" where
  "sms_responder cfg t payload = with_state (\<lambda>s.
     let addrs = responder_recipients cfg
     in if \<not> jtruthy addrs then throw (TriggerError ''sms responder requires to (list or string)'')
        else bind (lift (interpolate s (jget_or (JStr []) ''body'' cfg) payload t)) (\<lambda>body.
          if body = [] then throw (TriggerError ''sms responder requires body'')
          else bind (enqueue_sms addrs body) (\<lambda>i. ret [(''queued_sms'', addrs), (''job_id'', JStr i)])))"

text \<open>The loop over the candidates, counting the links issued.\<close>

definition issue_link_step :: "training_course \<Rightarrow> string \<Rightarrow> int \<Rightarrow> trainee \<Rightarrow> ('a trigger_db_scheme, int) py" where
  "issue_link_step c tgid n t = with_state (\<lambda>s.
     if has_open_enrolment (tr_id t) (c_id c) s then ret n
     else bind (enrol t c (enrolment_source_value SRC_TRIGGER) (Some tgid) None) (\<lambda>_. ret (n + 1)))"

definition training_audience :: "dict \<Rightarrow> dict \<Rightarrow> 'a trigger_db_scheme \<Rightarrow> trainee list" where
  "training_audience audience payload s =
     (let role_filter = jget_or_null ''role_code'' audience;
          line_scoped = jtruthy (jget_or_null ''line_scoped'' audience);
          lid = (if line_scoped then jget_or_null ''line_id'' payload else JNull)
      in filter (\<lambda>t. tr_is_active t \<and> (jtruthy role_filter \<longrightarrow> role_filter = JStr (tr_role_code t)) \<and>
           (line_scoped \<and> jtruthy lid \<longrightarrow> lid = jstr_opt (tr_line_id t))) (trainees s))"

definition training_link_responder :: "dict \<Rightarrow> trigger \<Rightarrow> dict \<Rightarrow> ('a trigger_db_scheme, dict) py" where
  "training_link_responder cfg t payload = with_state (\<lambda>s.
     let code = jget_or_null ''course_code'' cfg; audience = json_or (jget_or_null ''audience'' cfg) (JObj [])
     in if \<not> jtruthy code then throw (TriggerError ''send_training_link responder requires course_code'')
        else case (case code of JStr i \<Rightarrow> get_course_by_code i s | _ \<Rightarrow> None) of
               None \<Rightarrow> throw (TriggerError (''course '' @ py_str (show_float s) code @ '' not found''))
             | Some c \<Rightarrow>
                 (case audience of
                    JObj d \<Rightarrow>
                      bind (foldM (issue_link_step c (tg_id t)) 0 (training_audience d payload s)) (\<lambda>n.
                        ret [(''trainees_issued'', JInt n), (''course_code'', code)])
                  | _ \<Rightarrow> throw (AttributeError ''get'')))"

definition dispatch_responder :: "responder \<Rightarrow> trigger \<Rightarrow> dict \<Rightarrow> ('a trigger_db_scheme, dict) py" where
  "dispatch_responder r t payload =
     (let cfg = rs_config r
      in case responder_type_of (rs_type r) of
           None \<Rightarrow> throw (ValueError (py_repr (rs_type r) @ '' is not a valid ResponderType''))
         | Some NOTIFY_IN_APP \<Rightarrow> notify_in_app cfg t payload
         | Some CREATE_TICKET \<Rightarrow> ticket_responder cfg t payload
         | Some ESCALATE \<Rightarrow> escalate_responder cfg t payload
         | Some WEBHOOK \<Rightarrow> webhook_responder cfg t payload
         | Some EMAIL_RESPONDER \<Rightarrow> email_responder cfg t payload
         | Some SMS_RESPONDER \<Rightarrow> sms_responder cfg t payload
         | Some SEND_TRAINING_LINK \<Rightarrow> training_link_responder cfg t payload)"

subsection \<open>Firing\<close>

text \<open>\<open>str(exc)\<close>: the message of the program's own errors; a library's text is a parameter.\<close>

fun exc_text :: "(exc \<Rightarrow> string) \<Rightarrow> exc \<Rightarrow> string" where
  "exc_text lib (TicketError m) = m"
| "exc_text lib (TriggerError m) = m"
| "exc_text lib (TrainingError m) = m"
| "exc_text lib (RuntimeError m) = m"
| "exc_text lib (ValueError m) = m"
| "exc_text lib (KeyError m) = py_repr m"
| "exc_text lib e = lib e"

record fire_state =
  fs_results :: dict
  fs_ok :: bool
  fs_ticket :: json

text \<open>One responder: its outcome, or the error that replaces it.\<close>

definition fire_step :: "trigger \<Rightarrow> dict \<Rightarrow> fire_state \<Rightarrow> responder \<Rightarrow> ('a trigger_db_scheme, fire_state) py" where
  "fire_step t payload st r =
     (if \<not> rs_is_active r then ret st
      else catch
        (bind (dispatch_responder r t payload) (\<lambda>outcome.
           let new = jget_or_null ''ticket_id'' outcome
           in ret \<lparr>fs_results = jset (rs_code r) (JObj ((''ok'', JBool True) # outcome)) (fs_results st),
                   fs_ok = fs_ok st,
                   fs_ticket = (if jtruthy new \<and> \<not> jtruthy (fs_ticket st) then new else fs_ticket st)\<rparr>))
        (\<lambda>_. True)
        (\<lambda>e. with_state (\<lambda>s. ret \<lparr>fs_results = jset (rs_code r)
               (JObj [(''ok'', JBool False), (''error'', JStr (exc_text (library_text s) e))]) (fs_results st),
             fs_ok = False, fs_ticket = fs_ticket st\<rparr>)))"

text \<open>\<open>session.add(execution); session.flush()\<close>: the row and its number.\<close>

definition insert_execution :: "string \<Rightarrow> json \<Rightarrow> json \<Rightarrow> ('a trigger_db_scheme, trigger_execution) py" where
  "insert_execution tid payload results = (\<lambda>s.
     if session_failed s then (Inl PendingRollbackError, s)
     else let x = \<lparr>ex_id = execution_seq s + 1, ex_trigger_id = tid, fired_at = utcnow s, ex_payload = payload,
                   success = True, responder_results = results, linked_ticket_id = None\<rparr>
          in (Inr x, s\<lparr>trigger_executions := trigger_executions s @ [x], execution_seq := execution_seq s + 1\<rparr>))"

definition fire :: "trigger \<Rightarrow> dict \<Rightarrow> ('a trigger_db_scheme, trigger_execution) py" where
  "fire t payload =
     bind (insert_execution (tg_id t) (JObj payload) (JObj [])) (\<lambda>x. with_state (\<lambda>s.
     bind (foldM (fire_step t payload) \<lparr>fs_results = [], fs_ok = True, fs_ticket = JNull\<rparr> (responders_of (tg_id t) s)) (\<lambda>st.
       let x' = x\<lparr>responder_results := JObj (fs_results st), success := fs_ok st,
                  linked_ticket_id := (if fs_ticket st = JNull then None else Some (fs_ticket st))\<rparr>
       in seq (modify (\<lambda>s. s\<lparr>trigger_executions := update_row ex_id (ex_id x) (\<lambda>_. x') (trigger_executions s)\<rparr>))
         (seq (record_entry ''trigger'' FIRE (Some (tg_id t))
                 [(''trigger_code'', JStr (tg_code t)), (''payload'', JObj payload),
                  (''responder_results'', JObj (fs_results st)), (''dry_run'', JBool (dry_run t))] None)
         (seq flush (ret x'))))))"

definition fire_dry :: "trigger \<Rightarrow> dict \<Rightarrow> ('a trigger_db_scheme, unit) py" where
  "fire_dry t payload =
     seq (insert_execution (tg_id t) (JObj (jset ''_dry_run'' (JBool True) payload)) (JObj [(''dry_run'', JBool True)]))
    (seq (record_entry ''trigger'' FIRE_DRY_RUN (Some (tg_id t)) [(''payload'', JObj payload)] None)
         flush)"

text \<open>The scope as it enters the state's key: \<open>scope or "global"\<close> in an f-string.\<close>

definition scope_arg :: "'a trigger_db_scheme \<Rightarrow> json \<Rightarrow> string option" where
  "scope_arg s scope = (if jtruthy scope then Some (py_str (show_float s) scope) else None)"

text \<open>Whether a trigger in scope fires, with the state of its duration kept in Redis.\<close>

definition trigger_holds :: "trigger \<Rightarrow> dict \<Rightarrow> ('a trigger_db_scheme, bool) py" where
  "trigger_holds t payload = with_state (\<lambda>s.
     let scope = scope_arg s (jget_or_null ''scope'' payload)
     in bind (lift (evaluate_condition (tg_condition t) payload)) (\<lambda>condition_true.
        bind (lift (duration_of (tg_condition t))) (\<lambda>duration.
          if duration > 0
          then if \<not> condition_true then seq (reset_duration_state (tg_id t) scope) (ret False)
               else should_fire_with_duration (tg_id t) scope duration
          else ret condition_true)))"

definition evaluate_step :: "dict \<Rightarrow> trigger_execution list \<Rightarrow> trigger \<Rightarrow> ('a trigger_db_scheme, trigger_execution list) py" where
  "evaluate_step payload fired t =
     (if \<not> scope_matches (tg_scope t) (jget_or_null ''scope'' payload) then ret fired
      else bind (trigger_holds t payload) (\<lambda>holds.
        if \<not> holds then ret fired
        else if dry_run t then seq (fire_dry t payload) (ret fired)
        else bind (fire t payload) (\<lambda>x. ret (fired @ [x]))))"

definition evaluate :: "dict \<Rightarrow> ('a trigger_db_scheme, trigger_execution list) py" where
  "evaluate payload = with_state (\<lambda>s. foldM (evaluate_step payload) [] (filter tg_is_active (triggers s)))"

end
