(* ===== verification/TriggerLife.thy ===== *)
theory TriggerLife
  imports Triggers TicketLife "HOL-Library.Sublist"
begin

text \<open>
  What the trigger engine promises: responders are isolated from each other, and an evaluation
  fires exactly the triggers that match, dry runs without effects.
\<close>

subsection \<open>The audit contract\<close>

lemma keeps_log_lift [audited]: "keeps log_step (lift r :: ('a audit_db_scheme, 'b) py)"
  unfolding lift_def by (intro audited)

lemma keeps_log_flush [audited]: "keeps log_step (flush :: ('a audit_db_scheme, unit) py)"
  unfolding flush_def by (intro audited)

lemma keeps_json:
  "(\<And>b. keeps R (f1 b)) \<Longrightarrow> keeps R n \<Longrightarrow> (\<And>i. keeps R (f2 i)) \<Longrightarrow> (\<And>x. keeps R (f3 x)) \<Longrightarrow>
   (\<And>s. keeps R (f4 s)) \<Longrightarrow> (\<And>xs. keeps R (f5 xs)) \<Longrightarrow> (\<And>d. keeps R (f6 d)) \<Longrightarrow>
   keeps R (case v of JNull \<Rightarrow> n | JBool b \<Rightarrow> f1 b | JInt i \<Rightarrow> f2 i | JFloat x \<Rightarrow> f3 x | JStr s \<Rightarrow> f4 s
      | JList xs \<Rightarrow> f5 xs | JObj d \<Rightarrow> f6 d)"
  by (cases v) simp_all

lemma keeps_log_notify [audited]: "keeps log_step (add_notification t ttl body r)"
  unfolding add_notification_def by (intro keeps_json audited; simp)

lemma keeps_log_responders [audited]:
  "keeps log_step (notify_in_app cfg t payload)" "keeps log_step (ticket_responder cfg t payload)"
  "keeps log_step (escalate_responder cfg t payload)" "keeps log_step (webhook_responder cfg t payload)"
  "keeps log_step (email_responder cfg t payload)" "keeps log_step (sms_responder cfg t payload)"
  "keeps log_step (training_link_responder cfg t payload)"
  unfolding notify_in_app_def ticket_responder_def escalate_responder_def webhook_responder_def email_responder_def
    sms_responder_def training_link_responder_def issue_link_step_def
  by (intro audited keeps_json [where R = log_step])+

lemma keeps_log_dispatch [audited]: "keeps log_step (dispatch_responder r t payload)"
  unfolding dispatch_responder_def
  by (intro audited) (auto intro: audited split: option.splits responder_type.splits)

lemma keeps_log_fire [audited]:
  "keeps log_step (fire t payload)" "keeps log_step (fire_dry t payload)" "keeps log_step (evaluate payload)"
proof -
  have i: "keeps log_step (insert_execution tid p res)" for tid p res
    by (rule keepsI) (auto simp: insert_execution_def Let_def log_step_def log_wf_def)
  have u: "keeps log_step (modify (\<lambda>s. s\<lparr>trigger_executions := f s\<rparr>))" for f
    by (intro audited; simp)
  show f: "keeps log_step (fire t payload)" for t payload unfolding fire_def fire_step_def by (intro audited i u)
  show d: "keeps log_step (fire_dry t payload)" for t payload unfolding fire_dry_def by (intro audited i)
  show "keeps log_step (evaluate payload)"
    unfolding evaluate_def evaluate_step_def trigger_holds_def by (intro audited f d)
qed

interpretation trigger_evaluation: audited_operation "evaluate payload" for payload
  by unfold_locales (rule keeps_log_fire)

subsection \<open>What a responder leaves alone\<close>

text \<open>The dialect, the trigger tables and the executions, whatever the outcome.\<close>

definition same_site :: "'a trigger_db_scheme \<Rightarrow> 'a trigger_db_scheme \<Rightarrow> bool" where
  "same_site s t \<longleftrightarrow> dialect t = dialect s \<and> immutable_trigger t = immutable_trigger s \<and>
     audit_redact_ok t = audit_redact_ok s \<and> trigger_executions t = trigger_executions s \<and>
     execution_seq t = execution_seq s \<and> triggers t = triggers s \<and> responders t = responders s \<and>
     trigger_responders t = trigger_responders s \<and> clock t = clock s"

named_theorems sited

lemma same_site_refl: "reflp same_site" and same_site_trans: "transp same_site"
  by (auto simp: reflp_def transp_def same_site_def)

lemmas same_site_rules [sited] =
  keeps_ret [OF same_site_refl] keeps_throw [OF same_site_refl] keeps_bind [OF same_site_trans]
  keeps_seq [OF same_site_trans] keeps_catch [OF same_site_trans]
  keeps_for_each [OF same_site_refl same_site_trans] keeps_foldM [OF same_site_refl same_site_trans]
  keeps_if [where R = same_site] keeps_option [where R = same_site] keeps_sum [where R = same_site]
  keeps_list [where R = same_site] keeps_prod [where R = same_site] keeps_let [where R = same_site]
  keeps_with_state [where R = same_site] keeps_json [where R = same_site]

lemma keeps_site_rows [sited]:
  "keeps same_site (record_entry ty ac e d u)" "keeps same_site take_uuid" "keeps same_site (insert_ticket tk)"
  "keeps same_site (modify (update_ticket tid f))" "keeps same_site (insert_enrolment en)"
  "keeps same_site (modify (update_enrolment i g))" "keeps same_site (enqueue q fn kw)"
  "keeps same_site (redis_write c)" "keeps same_site (redis_get k)"
  by (rule keepsI; auto simp: same_site_def record_entry_def take_uuid_def insert_ticket_def update_ticket_def
      insert_enrolment_def update_enrolment_def enqueue_def redis_write_def redis_get_def send_redis_def Let_def)+

lemma keeps_site_modify [sited]:
  "keeps same_site (modify (\<lambda>s. s\<lparr>ticket_events := ev s\<rparr>))" "keeps same_site (modify (\<lambda>s. s\<lparr>notifications := ns s\<rparr>))"
  by (rule keepsI; simp add: same_site_def)+

lemma keeps_site_base [sited]:
  "keeps same_site (lift r)" "keeps same_site flush" "keeps same_site (add_event ev)"
  "keeps same_site (enqueue_webhook url p sec)" "keeps same_site (enqueue_email addrs sub b h)" "keeps same_site (enqueue_sms addrs b)"
  "keeps same_site (best_effort (enqueue_sms addrs b))" "keeps same_site (best_effort (enqueue_email addrs sub b h))"
  unfolding lift_def flush_def add_event_def enqueue_webhook_def enqueue_email_def enqueue_sms_def best_effort_def
  by (intro sited)+

lemma keeps_site_services [sited]:
  "keeps same_site (create_ticket a)" "keeps same_site (transition tid new uid cm)"
  "keeps same_site (enrol tr c src ref base)"
  unfolding create_ticket_def transition_def enrol_def send_enrolment_link_def deliver_magic_link_def
  by (intro sited)+

lemma keeps_site_responders [sited]:
  "keeps same_site (add_notification t ttl body r)" "keeps same_site (notify_in_app cfg t payload)"
  "keeps same_site (ticket_responder cfg t payload)" "keeps same_site (escalate_responder cfg t payload)"
  "keeps same_site (webhook_responder cfg t payload)" "keeps same_site (email_responder cfg t payload)"
  "keeps same_site (sms_responder cfg t payload)" "keeps same_site (training_link_responder cfg t payload)"
  unfolding add_notification_def notify_in_app_def ticket_responder_def escalate_responder_def webhook_responder_def
    email_responder_def sms_responder_def training_link_responder_def issue_link_step_def
  by (intro sited)+

lemma keeps_site_dispatch [sited]: "keeps same_site (dispatch_responder r t payload)"
  unfolding dispatch_responder_def
  by (intro sited) (auto intro: sited split: option.splits responder_type.splits)

lemma keeps_site_holds [sited]: "keeps same_site (trigger_holds t payload)"
  unfolding trigger_holds_def should_fire_with_duration_def reset_duration_state_def
  by (intro sited) (auto intro!: sited split: option.splits pydt.splits)

subsection \<open>Firing\<close>

lemma record_entry_failed: "session_failed s \<Longrightarrow> record_entry ty ac e d u s = (Inl PendingRollbackError, s)"
  by (simp add: record_entry_def)

text \<open>What the catch-all around a responder leaves in the results.\<close>

lemma fire_step_active:
  assumes "rs_is_active r"
  obtains d ok st' where "fire_step t payload st r s = (Inr st', snd (dispatch_responder r t payload s))"
    "fs_results st' = jset (rs_code r) (JObj d) (fs_results st)" "jget ''ok'' d = Some (JBool ok)"
    "fs_ok st' = (fs_ok st \<and> ok)" "ok = (\<exists>out. fst (dispatch_responder r t payload s) = Inr out)"
proof (cases "dispatch_responder r t payload s")
  case (Pair res u)
  then show ?thesis
  proof (cases res)
    case (Inl e)
    with Pair assms show ?thesis
      by (intro that [of _ _ False]) (auto simp: fire_step_def catch_def bind_def jget_def)
  next
    case (Inr out)
    define new where "new = jget_or_null ''ticket_id'' out"
    define st1 where "st1 = \<lparr>fs_results = jset (rs_code r) (JObj ((''ok'', JBool True) # out)) (fs_results st),
        fs_ok = fs_ok st, fs_ticket = (if jtruthy new \<and> \<not> jtruthy (fs_ticket st) then new else fs_ticket st)\<rparr>"
    have "fire_step t payload st r s = (Inr st1, u)"
      using Pair Inr assms by (simp add: fire_step_def catch_def bind_def Let_def new_def st1_def)
    with Pair Inr show ?thesis
      by (intro that [where st' = st1 and d = "(''ok'', JBool True) # out" and ok = True]) (simp_all add: jget_def st1_def)
  qed
qed

lemma jset_new: "k \<notin> fst ` set d \<Longrightarrow> jset k v d = d @ [(k, v)]"
  by (induction d) auto

definition entry_ok :: "string \<times> json \<Rightarrow> bool" where
  "entry_ok kv \<longleftrightarrow> (case snd kv of JObj d \<Rightarrow> jget ''ok'' d = Some (JBool True) | _ \<Rightarrow> False)"

lemma fire_loop:
  assumes "distinct (map rs_code rs)" "fst ` set (fs_results st) \<inter> rs_code ` set rs = {}"
    "fs_ok st = list_all entry_ok (fs_results st)"
  shows "\<exists>st' s'. foldM (fire_step t payload) st rs s = (Inr st', s') \<and> same_site s s' \<and>
    map fst (fs_results st') = map fst (fs_results st) @ map rs_code (filter rs_is_active rs) \<and>
    fs_ok st' = list_all entry_ok (fs_results st')"
  using assms
proof (induction rs arbitrary: st s)
  case Nil
  then show ?case by (simp add: same_site_def)
next
  case (Cons r rs)
  show ?case
  proof (cases "rs_is_active r")
    case False
    then have "fire_step t payload st r s = (Inr st, s)" by (simp add: fire_step_def)
    then show ?thesis using Cons.IH [of st s] Cons.prems False by (simp add: bind_def)
  next
    case True
    obtain d ok st1 where st1: "fire_step t payload st r s = (Inr st1, snd (dispatch_responder r t payload s))"
      "fs_results st1 = jset (rs_code r) (JObj d) (fs_results st)" "jget ''ok'' d = Some (JBool ok)" "fs_ok st1 = (fs_ok st \<and> ok)"
      by (rule fire_step_active [OF True, of t payload st s])
    have new: "fs_results st1 = fs_results st @ [(rs_code r, JObj d)]"
      using Cons.prems(2) st1(2) by (auto simp: jset_new)
    have site: "same_site s (snd (dispatch_responder r t payload s))" by (rule keepsD) (rule keeps_site_dispatch)
    have "entry_ok (rs_code r, JObj d) = ok" using st1(3) by (simp add: entry_ok_def)
    then have "fs_ok st1 = list_all entry_ok (fs_results st1)" using Cons.prems(3) st1(4) by (simp add: new)
    then obtain st' s' where "foldM (fire_step t payload) st1 rs (snd (dispatch_responder r t payload s)) = (Inr st', s')"
      "same_site (snd (dispatch_responder r t payload s)) s'"
      "map fst (fs_results st') = map fst (fs_results st1) @ map rs_code (filter rs_is_active rs)"
      "fs_ok st' = list_all entry_ok (fs_results st')"
      using Cons.IH [of st1 "snd (dispatch_responder r t payload s)"] Cons.prems(1,2) by (auto simp: new)
    then show ?thesis using True st1(1) site by (auto simp: bind_def new same_site_def)
  qed
qed

lemma update_last: "\<forall>r\<in>set rows. key r \<noteq> k \<Longrightarrow> key x = k \<Longrightarrow> update_row key k f (rows @ [x]) = rows @ [f x]"
  by (induction rows) (auto simp: update_row_def)

lemma fire_result:
  assumes "\<not> session_failed s" "dialect s = SQLite" "distinct (map rs_code (responders_of (tg_id t) s))"
    "\<forall>x\<in>set (trigger_executions s). ex_id x \<le> execution_seq s" "fire t payload s = (r, s')"
  shows "case r of
      Inl e \<Rightarrow> e = PendingRollbackError \<and> session_failed s'
    | Inr x \<Rightarrow> trigger_executions s' = trigger_executions s @ [x] \<and> execution_seq s' = execution_seq s + 1 \<and>
        ex_trigger_id x = tg_id t \<and> ex_id x = execution_seq s + 1 \<and> \<not> session_failed s' \<and> dialect s' = SQLite \<and>
        triggers s' = triggers s \<and> responders s' = responders s \<and> trigger_responders s' = trigger_responders s \<and>
        (\<exists>d. responder_results x = JObj d \<and> map fst d = map rs_code (filter rs_is_active (responders_of (tg_id t) s)) \<and>
           success x = list_all entry_ok d)"
proof -
  define x where "x = \<lparr>ex_id = execution_seq s + 1, ex_trigger_id = tg_id t, fired_at = utcnow s, ex_payload = JObj payload,
    success = True, responder_results = JObj [], linked_ticket_id = None\<rparr>"
  define s1 where "s1 = s\<lparr>trigger_executions := trigger_executions s @ [x], execution_seq := execution_seq s + 1\<rparr>"
  have ins: "insert_execution (tg_id t) (JObj payload) (JObj []) s = (Inr x, s1)"
    using assms(1) by (simp add: insert_execution_def x_def s1_def Let_def)
  define rs where "rs = responders_of (tg_id t) s"
  have rs: "responders_of (tg_id t) s1 = rs" by (simp add: rs_def responders_of_def s1_def)
  obtain st s2 where loop: "foldM (fire_step t payload) \<lparr>fs_results = [], fs_ok = True, fs_ticket = JNull\<rparr> rs s1 = (Inr st, s2)"
    and site: "same_site s1 s2" and keys: "map fst (fs_results st) = map rs_code (filter rs_is_active rs)"
    and ok: "fs_ok st = list_all entry_ok (fs_results st)"
    using fire_loop [of rs "\<lparr>fs_results = [], fs_ok = True, fs_ticket = JNull\<rparr>" t payload s1] assms(3) by (auto simp: rs_def)
  define x' where "x' = x\<lparr>responder_results := JObj (fs_results st), success := fs_ok st,
    linked_ticket_id := (if fs_ticket st = JNull then None else Some (fs_ticket st))\<rparr>"
  define s3 where "s3 = s2\<lparr>trigger_executions := update_row ex_id (ex_id x) (\<lambda>_. x') (trigger_executions s2)\<rparr>"
  define ent where "ent = (record_entry ''trigger'' FIRE (Some (tg_id t))
    [(''trigger_code'', JStr (tg_code t)), (''payload'', JObj payload),
     (''responder_results'', JObj (fs_results st)), (''dry_run'', JBool (dry_run t))] None :: ('a trigger_db_scheme, audit_row) py)"
  have run: "fire t payload s = seq ent (seq flush (ret x')) s3"
    unfolding fire_def bind_Inr [where m = "insert_execution (tg_id t) (JObj payload) (JObj [])", OF ins] with_state_apply rs
      bind_Inr [where m = "foldM (fire_step t payload) \<lparr>fs_results = [], fs_ok = True, fs_ticket = JNull\<rparr> rs", OF loop]
    by (simp add: Let_def x'_def [symmetric] ent_def s3_def seq_def bind_def)
  have "\<forall>r\<in>set (trigger_executions s). ex_id r \<noteq> execution_seq s + 1" using assms(4) by fastforce
  then have rows: "trigger_executions s3 = trigger_executions s @ [x']"
    using site by (simp add: s3_def same_site_def s1_def x_def update_last)
  have frame: "dialect s3 = SQLite" "execution_seq s3 = execution_seq s + 1" "triggers s3 = triggers s"
    "responders s3 = responders s" "trigger_responders s3 = trigger_responders s"
    using site assms(2) by (simp_all add: s3_def same_site_def s1_def)
  show ?thesis
  proof (cases "session_failed s3")
    case True
    then have "fire t payload s = (Inl PendingRollbackError, s3)" by (simp add: run seq_def bind_def ent_def record_entry_failed)
    then have "r = Inl PendingRollbackError" "s' = s3" using assms(5) by simp_all
    with True show ?thesis by simp
  next
    case False
    then have "writable s3" by (simp add: writable_def audit_update_allowed_def frame)
    then obtain e where "ent s3 = (Inr e, s3\<lparr>audit_log := audit_log s3 @ [e], audit_seq := audit_seq s3 + 1\<rparr>)"
      unfolding ent_def using record_entry_ok by blast
    then have "fire t payload s = (Inr x', s3\<lparr>audit_log := audit_log s3 @ [e], audit_seq := audit_seq s3 + 1\<rparr>)"
      using False by (simp add: run seq_def bind_def flush_def)
    then have "r = Inr x'" "s' = s3\<lparr>audit_log := audit_log s3 @ [e], audit_seq := audit_seq s3 + 1\<rparr>" using assms(5) by simp_all
    then show ?thesis using False rows frame keys ok by (simp add: x'_def x_def rs_def)
  qed
qed

subsection \<open>Evaluating\<close>

text \<open>What a dry run and the duration state leave alone: everything a responder could have done.\<close>

definition no_effect :: "'a trigger_db_scheme \<Rightarrow> 'a trigger_db_scheme \<Rightarrow> bool" where
  "no_effect s t \<longleftrightarrow> queue t = queue s \<and> tickets t = tickets s \<and> ticket_events t = ticket_events s \<and>
     notifications t = notifications s \<and> enrolments t = enrolments s"

text \<open>A healthy session on SQLite, unique responder codes and numbered executions.\<close>

definition engine_ready :: "'a trigger_db_scheme \<Rightarrow> bool" where
  "engine_ready s \<longleftrightarrow> \<not> session_failed s \<and> dialect s = SQLite \<and> distinct (map rs_code (responders s)) \<and>
     (\<forall>x\<in>set (trigger_executions s). ex_id x \<le> execution_seq s)"

definition matches :: "dict \<Rightarrow> trigger \<Rightarrow> bool" where
  "matches payload t \<longleftrightarrow> scope_matches (tg_scope t) (jget_or_null ''scope'' payload) \<and>
     evaluate_condition (tg_condition t) payload = Inr True"

definition gated :: "trigger \<Rightarrow> bool" where
  "gated t \<longleftrightarrow> (case duration_of (tg_condition t) of Inl e \<Rightarrow> True | Inr d \<Rightarrow> d > 0)"

text \<open>The duration state only lives in Redis.\<close>

definition redis_changes :: "'a session_scheme \<Rightarrow> 'a session_scheme \<Rightarrow> bool" where
  "redis_changes s t \<longleftrightarrow> (\<exists>rd. t = s\<lparr>redis := rd\<rparr>)"

lemma redis_changes_refl: "reflp redis_changes" and redis_changes_trans: "transp redis_changes"
  unfolding reflp_def transp_def redis_changes_def
  by (metis session.surjective session.update_convs(8)) auto

lemma redis_same [simp]: "redis_changes s s"
  using redis_changes_refl by (rule reflpD)

lemma holds_redis: "redis_changes s (snd (trigger_holds t payload s))"
proof -
  have g: "keeps redis_changes (redis_get k)" and w: "keeps redis_changes (redis_write c)" for k c
    by (rule keepsI; simp add: redis_get_def redis_write_def; auto simp: redis_changes_def send_redis_def)+
  note rules = g w keeps_ret [OF redis_changes_refl] keeps_throw [OF redis_changes_refl]
    keeps_bind [OF redis_changes_trans] keeps_seq [OF redis_changes_trans] keeps_if [where R = redis_changes]
    keeps_option [where R = redis_changes] keeps_sum [where R = redis_changes] keeps_let [where R = redis_changes]
    keeps_with_state [where R = redis_changes]
  have "keeps redis_changes (trigger_holds t payload)"
    unfolding trigger_holds_def should_fire_with_duration_def reset_duration_state_def lift_def
    by (intro rules) (auto intro!: rules split: option.splits pydt.splits)
  then show ?thesis by (rule keepsD)
qed

lemma holds_cases:
  assumes "trigger_holds t payload s = (Inr b, s')" "scope_matches (tg_scope t) (jget_or_null ''scope'' payload)"
  shows "b \<Longrightarrow> matches payload t" "matches payload t \<Longrightarrow> \<not> gated t \<Longrightarrow> b"
  using assms
  by (auto simp: trigger_holds_def lift_def bind_def Let_def matches_def gated_def seq_def
      split: sum.splits if_splits prod.splits)

lemma fire_dry_result:
  assumes "\<not> session_failed s" "dialect s = SQLite"
  obtains x s' where "fire_dry t payload s = (Inr (), s')" "trigger_executions s' = trigger_executions s @ [x]"
    "ex_trigger_id x = tg_id t" "ex_id x = execution_seq s + 1" "execution_seq s' = execution_seq s + 1"
    "\<not> session_failed s'" "dialect s' = SQLite" "responders s' = responders s" "trigger_responders s' = trigger_responders s"
    "no_effect s s'"
proof -
  define x where "x = \<lparr>ex_id = execution_seq s + 1, ex_trigger_id = tg_id t, fired_at = utcnow s,
    ex_payload = JObj (jset ''_dry_run'' (JBool True) payload), success = True,
    responder_results = JObj [(''dry_run'', JBool True)], linked_ticket_id = None\<rparr>"
  define s1 where "s1 = s\<lparr>trigger_executions := trigger_executions s @ [x], execution_seq := execution_seq s + 1\<rparr>"
  define ent where "ent = (record_entry ''trigger'' FIRE_DRY_RUN (Some (tg_id t)) [(''payload'', JObj payload)] None
    :: ('a trigger_db_scheme, audit_row) py)"
  have "writable s1" using assms by (simp add: s1_def writable_def audit_update_allowed_def)
  then obtain e where e: "ent s1 = (Inr e, s1\<lparr>audit_log := audit_log s1 @ [e], audit_seq := audit_seq s1 + 1\<rparr>)"
    unfolding ent_def using record_entry_ok by blast
  have "fire_dry t payload s = seq ent flush s1"
    using assms(1) by (simp add: fire_dry_def insert_execution_def seq_def bind_def x_def s1_def ent_def Let_def)
  then have "fire_dry t payload s = (Inr (), s1\<lparr>audit_log := audit_log s1 @ [e], audit_seq := audit_seq s1 + 1\<rparr>)"
    using e assms(1) by (simp add: seq_def bind_def flush_def s1_def)
  then show ?thesis
    by (rule that [of _ x]) (use assms in \<open>simp_all add: s1_def x_def no_effect_def\<close>)
qed

lemma ready_responders: "engine_ready s \<Longrightarrow> distinct (map rs_code (responders_of tid s))"
  by (simp add: engine_ready_def responders_of_def distinct_map_filter)

lemma engine_ready_redis [simp]: "engine_ready (s\<lparr>redis := rd\<rparr>) = engine_ready s"
  by (simp add: engine_ready_def)

lemma evaluate_step_cases:
  assumes "engine_ready s" "evaluate_step payload fired t s = (Inr xs, s')"
  obtains (skipped) "xs = fired" "\<not> (matches payload t \<and> \<not> gated t)" "redis_changes s s'"
  | (fired) y where "matches payload t" "ex_trigger_id y = tg_id t" "xs = fired @ (if dry_run t then [] else [y])"
      "trigger_executions s' = trigger_executions s @ [y]" "engine_ready s'" "dry_run t \<longrightarrow> no_effect s s'"
proof (cases "scope_matches (tg_scope t) (jget_or_null ''scope'' payload)")
  case False
  with assms(2) show ?thesis
    by (intro skipped) (auto simp: evaluate_step_def matches_def redis_changes_def intro: exI [of _ "redis s"])
next
  case True
  with assms(2) obtain b s1 where h: "trigger_holds t payload s = (Inr b, s1)"
    by (cases "trigger_holds t payload s") (auto simp: evaluate_step_def bind_def split: sum.splits)
  obtain rd where s1: "s1 = s\<lparr>redis := rd\<rparr>" using holds_redis [of s t payload] h by (auto simp: redis_changes_def)
  have ready: "engine_ready s1" using assms(1) by (simp add: s1)
  show ?thesis
  proof (cases b)
    case False
    with True h assms(2) holds_cases(2) [OF h True] show ?thesis
      by (intro skipped) (auto simp: evaluate_step_def bind_def s1 redis_changes_def)
  next
    case b: True
    have m: "matches payload t" using holds_cases(1) [OF h True] b by simp
    show ?thesis
    proof (cases "dry_run t")
      case dry: True
      obtain x s2 where x: "fire_dry t payload s1 = (Inr (), s2)" "trigger_executions s2 = trigger_executions s1 @ [x]"
        "ex_trigger_id x = tg_id t" "ex_id x = execution_seq s1 + 1" "execution_seq s2 = execution_seq s1 + 1"
        "\<not> session_failed s2" "dialect s2 = SQLite" "responders s2 = responders s1" "trigger_responders s2 = trigger_responders s1"
        "no_effect s1 s2"
      proof -
        have "\<not> session_failed s1" "dialect s1 = SQLite" using ready by (simp_all add: engine_ready_def)
        then show ?thesis using that by (rule fire_dry_result)
      qed
      have "xs = fired" "s' = s2" using assms(2) True h b dry x(1) by (auto simp: evaluate_step_def bind_def seq_def)
      moreover have "engine_ready s2" using ready x by (fastforce simp: engine_ready_def)
      ultimately show ?thesis using m x dry by (intro fired [of x]) (auto simp: s1 no_effect_def)
    next
      case live: False
      obtain r s2 where f: "fire t payload s1 = (r, s2)" by fastforce
      have run: "evaluate_step payload fired t s = (case r of Inl e \<Rightarrow> (Inl e, s2) | Inr x \<Rightarrow> (Inr (fired @ [x]), s2))"
        using True h b live f by (simp add: evaluate_step_def bind_def split: sum.split)
      with assms(2) obtain x where x: "r = Inr x" "xs = fired @ [x]" "s' = s2" by (cases r) auto
      have "\<not> session_failed s1" "dialect s1 = SQLite" "\<forall>x\<in>set (trigger_executions s1). ex_id x \<le> execution_seq s1"
        using ready by (simp_all add: engine_ready_def)
      from fire_result [OF this(1,2) ready_responders [OF ready] this(3) f]
      have "trigger_executions s2 = trigger_executions s1 @ [x]" "execution_seq s2 = execution_seq s1 + 1"
        "ex_trigger_id x = tg_id t" "ex_id x = execution_seq s1 + 1" "\<not> session_failed s2" "dialect s2 = SQLite"
        "responders s2 = responders s1" by (simp_all add: x(1))
      moreover from this have "engine_ready s2" using ready by (fastforce simp: engine_ready_def)
      ultimately show ?thesis using m x live by (intro fired [of x]) (simp_all add: s1)
    qed
  qed
qed

lemma no_effect_redis: "redis_changes s t \<Longrightarrow> no_effect s t"
  by (auto simp: redis_changes_def no_effect_def)

lemma no_effect_trans: "no_effect s t \<Longrightarrow> no_effect t u \<Longrightarrow> no_effect s u"
  by (simp add: no_effect_def)

lemma evaluate_loop:
  assumes "engine_ready s" "foldM (evaluate_step payload) done0 ts s = (Inr xs, s')"
  shows "\<exists>us ys. subseq us (filter (matches payload) ts) \<and> trigger_executions s' = trigger_executions s @ ys \<and>
    map ex_trigger_id ys = map tg_id us \<and> (\<forall>t\<in>set ts. matches payload t \<and> \<not> gated t \<longrightarrow> t \<in> set us) \<and>
    map ex_trigger_id xs = map ex_trigger_id done0 @ map tg_id (filter (\<lambda>t. \<not> dry_run t) us) \<and>
    (list_all dry_run us \<longrightarrow> no_effect s s')"
  using assms
proof (induction ts arbitrary: done0 s)
  case Nil
  then show ?case by (auto simp: no_effect_def)
next
  case (Cons t ts)
  from Cons.prems(2) obtain done1 s1 where step: "evaluate_step payload done0 t s = (Inr done1, s1)"
    and rest: "foldM (evaluate_step payload) done1 ts s1 = (Inr xs, s')"
    by (auto simp: bind_def split: prod.splits sum.splits)
  from Cons.prems(1) step show ?case
  proof (cases rule: evaluate_step_cases)
    case skipped
    from skipped(3) have "engine_ready s1" "trigger_executions s1 = trigger_executions s"
      using Cons.prems(1) by (auto simp: redis_changes_def)
    from Cons.IH [OF this(1) rest] this(2) obtain us ys where u: "subseq us (filter (matches payload) ts)"
      "trigger_executions s' = trigger_executions s @ ys" "map ex_trigger_id ys = map tg_id us"
      "\<forall>t\<in>set ts. matches payload t \<and> \<not> gated t \<longrightarrow> t \<in> set us"
      "map ex_trigger_id xs = map ex_trigger_id done1 @ map tg_id (filter (\<lambda>t. \<not> dry_run t) us)"
      "list_all dry_run us \<longrightarrow> no_effect s1 s'" by auto
    have "no_effect s s1" using skipped(3) by (rule no_effect_redis)
    with u skipped show ?thesis by (intro exI [of _ us] exI [of _ ys]) (auto intro: no_effect_trans)
  next
    case (fired y)
    from Cons.IH [OF fired(5) rest] fired(4) obtain us ys where u: "subseq us (filter (matches payload) ts)"
      "trigger_executions s' = trigger_executions s @ [y] @ ys" "map ex_trigger_id ys = map tg_id us"
      "\<forall>t\<in>set ts. matches payload t \<and> \<not> gated t \<longrightarrow> t \<in> set us"
      "map ex_trigger_id xs = map ex_trigger_id done1 @ map tg_id (filter (\<lambda>t. \<not> dry_run t) us)"
      "list_all dry_run us \<longrightarrow> no_effect s1 s'" by auto
    with fired show ?thesis
      by (intro exI [of _ "t # us"] exI [of _ "y # ys"]) (auto intro: no_effect_trans)
  qed
qed

text \<open>
  C25. An evaluation fires exactly the triggers that match. When an evaluation returns, the
  executions it wrote belong, in order, to some of the active triggers whose scope and condition
  match the payload; none of the matching triggers without a duration is left out; the
  executions returned are those of the triggers that are not dry runs; and when only dry runs
  fired, no job, ticket, notification or enrolment was created.
\<close>

theorem evaluate_fires_matching:
  assumes "\<not> session_failed s" "dialect s = SQLite" "distinct (map rs_code (responders s))"
    "\<forall>x\<in>set (trigger_executions s). ex_id x \<le> execution_seq s" "evaluate payload s = (Inr xs, s')"
  shows "\<exists>us ys. subseq us (filter (matches payload) (filter tg_is_active (triggers s))) \<and>
    trigger_executions s' = trigger_executions s @ ys \<and> map ex_trigger_id ys = map tg_id us \<and>
    (\<forall>t\<in>set (triggers s). tg_is_active t \<and> matches payload t \<and> \<not> gated t \<longrightarrow> t \<in> set us) \<and>
    map ex_trigger_id xs = map tg_id (filter (\<lambda>t. \<not> dry_run t) us) \<and>
    (list_all dry_run us \<longrightarrow> queue s' = queue s \<and> tickets s' = tickets s \<and> ticket_events s' = ticket_events s \<and>
       notifications s' = notifications s \<and> enrolments s' = enrolments s)"
proof -
  have "engine_ready s" using assms(1-4) by (simp add: engine_ready_def)
  from evaluate_loop [OF this, of payload "[]" "filter tg_is_active (triggers s)" xs s'] assms(5)
  show ?thesis by (auto simp: evaluate_def no_effect_def)
qed

text \<open>
  C26. A failing responder does not stop the others. On a healthy session firing a trigger
  either returns its execution, whose results have one entry for every active responder in
  order, whatever the others did, and which is a success exactly when no entry reports an error;
  or it raises PendingRollbackError, and only because a responder left the database session
  failed (a violated constraint), which isolation does not cover.
\<close>

theorem fire_isolates_responders:
  assumes "\<not> session_failed s" "dialect s = SQLite" "distinct (map rs_code (responders s))"
    "\<forall>x\<in>set (trigger_executions s). ex_id x \<le> execution_seq s" "fire t payload s = (r, s')"
  shows "case r of
      Inl e \<Rightarrow> e = PendingRollbackError \<and> session_failed s'
    | Inr x \<Rightarrow> trigger_executions s' = trigger_executions s @ [x] \<and> ex_trigger_id x = tg_id t \<and>
        (\<exists>d. responder_results x = JObj d \<and> map fst d = map rs_code (filter rs_is_active (responders_of (tg_id t) s)) \<and>
           success x = (\<forall>kv\<in>set d. \<exists>o1. snd kv = JObj o1 \<and> jget ''ok'' o1 = Some (JBool True)))"
proof -
  have "engine_ready s" using assms(1-4) by (simp add: engine_ready_def)
  note fire_result [OF assms(1,2) ready_responders [OF this] assms(4,5)]
  moreover have "entry_ok kv = (\<exists>o1. snd kv = JObj o1 \<and> jget ''ok'' o1 = Some (JBool True))" for kv
    by (auto simp: entry_ok_def split: json.splits)
  ultimately show ?thesis by (cases r) (auto simp: list_all_def)
qed

subsection \<open>A small engine\<close>

definition sample_trigger :: trigger where
  "sample_trigger = \<lparr>tg_id = ''G1'', tg_code = ''HOT'', tg_name = [], tg_scope = Some ''line:A'',
     tg_condition = [(''metric'', JStr ''temperature''), (''operator'', JStr ''>''), (''value'', JInt 220)],
     tg_severity = ''high'', tg_is_active = True, dry_run = False\<rparr>"

definition sample_dry :: trigger where
  "sample_dry = sample_trigger\<lparr>tg_id := ''G2'', tg_code := ''DRY'', dry_run := True\<rparr>"

definition sample_responder :: "string \<Rightarrow> string \<Rightarrow> dict \<Rightarrow> responder" where
  "sample_responder i ty cfg =
     \<lparr>rs_id = i, rs_code = i, rs_name = [], rs_type = ty, rs_config = cfg, rs_is_active = True\<rparr>"

definition sample_engine :: trigger_db where
  "sample_engine = training_db.extend (sample_training [])
     \<lparr>show_float = (\<lambda>_. ''1.0''), special_field = (\<lambda>f d. Inl (ValueError f)), library_text = (\<lambda>_. ''error''),
      triggers = [sample_trigger, sample_dry],
      responders = [sample_responder ''r1'' ''sms'' [], sample_responder ''r2'' ''notify_in_app''
        [(''recipients'', JList [JObj [(''role_code'', JStr ''qa'')]])]],
      trigger_responders = [\<lparr>link_trigger_id = ''G1'', link_responder_id = ''r1'', link_order_index = 0\<rparr>,
        \<lparr>link_trigger_id = ''G1'', link_responder_id = ''r2'', link_order_index = 1\<rparr>],
      trigger_executions = [], execution_seq = 0, notifications = []\<rparr>"

definition sample_reading :: dict where
  "sample_reading = [(''metric'', JStr ''temperature''), (''temperature'', JFloat (Fin 230)), (''scope'', JStr ''line:A'')]"

lemma sample_engine_simps [simp]:
  "\<not> session_failed sample_engine" "dialect sample_engine = SQLite" "trigger_executions sample_engine = []"
  "execution_seq sample_engine = 0" "triggers sample_engine = [sample_trigger, sample_dry]"
  "distinct (map rs_code (responders sample_engine))" "map rs_code (responders_of ''G1'' sample_engine) = [''r1'', ''r2'']"
  "list_all rs_is_active (responders sample_engine)"
  by (simp_all add: sample_engine_def training_db.extend_def sample_training_def responders_of_def sample_responder_def)

lemma sample_matches: "matches sample_reading sample_trigger" "matches sample_reading sample_dry"
  "\<not> gated sample_trigger" "\<not> gated sample_dry" "tg_is_active sample_trigger" "tg_is_active sample_dry"
  by (simp_all add: matches_def gated_def sample_dry_def sample_trigger_def sample_reading_def scope_matches_def
      evaluate_condition_def operator_of_def duration_of_def jget_or_null_def jget_def truthy_def or_empty_def Let_def)

theorem fire_isolates_responders_witness:
  "case fst (fire sample_trigger sample_reading sample_engine) of
     Inl e \<Rightarrow> e = PendingRollbackError
   | Inr x \<Rightarrow> \<exists>d. responder_results x = JObj d \<and> map fst d = [''r1'', ''r2'']"
proof -
  obtain r s' where f: "fire sample_trigger sample_reading sample_engine = (r, s')" by fastforce
  have id: "tg_id sample_trigger = ''G1''" by (simp add: sample_trigger_def)
  have "filter rs_is_active (responders_of ''G1'' sample_engine) = responders_of ''G1'' sample_engine"
    using sample_engine_simps(8) by (auto simp: responders_of_def list_all_iff intro!: filter_cong)
  with fire_isolates_responders [OF _ _ _ _ f] show ?thesis by (cases r) (auto simp: f id)
qed

lemma sample_dry_run:
  "\<exists>s'. evaluate sample_reading (sample_engine\<lparr>triggers := [sample_dry]\<rparr>) = (Inr [], s')"
proof -
  let ?s = "sample_engine\<lparr>triggers := [sample_dry]\<rparr>"
  have "\<not> session_failed ?s" "dialect ?s = SQLite" by simp_all
  then obtain x s' where "fire_dry sample_dry sample_reading ?s = (Inr (), s')" by (rule fire_dry_result)
  moreover have "evaluate_condition (tg_condition sample_dry) sample_reading = Inr True"
    "duration_of (tg_condition sample_dry) = Inr 0" "scope_matches (tg_scope sample_dry) (jget_or_null ''scope'' sample_reading)"
    "dry_run sample_dry" "tg_is_active sample_dry"
    using sample_matches(2) by (simp_all add: matches_def duration_of_def sample_dry_def sample_trigger_def jget_or_null_def)
  ultimately show ?thesis
    by (simp add: evaluate_def evaluate_step_def trigger_holds_def lift_def bind_def seq_def)
qed

theorem evaluate_fires_matching_witness:
  "\<exists>s'. evaluate sample_reading (sample_engine\<lparr>triggers := [sample_dry]\<rparr>) = (Inr [], s') \<and>
     map ex_trigger_id (trigger_executions s') = [''G2''] \<and> notifications s' = []"
proof -
  obtain s' where e: "evaluate sample_reading (sample_engine\<lparr>triggers := [sample_dry]\<rparr>) = (Inr [], s')"
    using sample_dry_run by blast
  have "dry_run sample_dry" "tg_id sample_dry = ''G2''" by (simp_all add: sample_dry_def)
  moreover have "notifications sample_engine = []" by (simp add: sample_engine_def training_db.extend_def)
  moreover obtain us ys where u: "subseq us [sample_dry]" "trigger_executions s' = ys" "map ex_trigger_id ys = map tg_id us"
    "sample_dry \<in> set us" "list_all dry_run us \<longrightarrow> notifications s' = notifications sample_engine"
    using evaluate_fires_matching [OF _ _ _ _ e] by (auto simp: sample_matches)
  moreover from u(1,4) have "us = [sample_dry]"
    by (cases us) (auto split: if_splits)
  ultimately show ?thesis using e by auto
qed

end
