(* ===== verification/JsonText.thy ===== *)
theory JsonText
  imports PyJson PyText
begin

text \<open>
  Reading numbers and JSON from text, as \<open>float(s)\<close> and \<open>json.loads\<close> do, and printing JSON as
  \<open>json.dumps\<close> does. A float is the exact value of its decimal notation, infinite when it is out
  of range; an escaped code point above U+00FF becomes its UTF-8 form. The parser checks that
  every nested call consumed something before it goes on, which it always has, so that its
  recursion is on the length of the text; Python's limits on nesting depth and on the digits of
  an integer are not modelled.
\<close>

subsection \<open>Numbers\<close>

definition pow10 :: "int \<Rightarrow> rat" where
  "pow10 e = (if e \<ge> 0 then 10 ^ nat e else 1 / 10 ^ nat (- e))"

text \<open>Half a unit in the last place above the largest finite double: from there on a value rounds to infinity.\<close>

definition float_limit :: rat where
  "float_limit = 2 ^ 1024 - 2 ^ 970"

definition to_float :: "rat \<Rightarrow> pyfloat" where
  "to_float x = (if x \<ge> float_limit then PosInf else if x \<le> - float_limit then NegInf else Fin x)"

definition decimal_value :: "bool \<Rightarrow> string \<Rightarrow> string \<Rightarrow> int \<Rightarrow> pyfloat" where
  "decimal_value neg whole fraction e =
     (let x = of_nat (digits_val 0 (whole @ fraction)) * pow10 (e - int (length fraction))
      in to_float (if neg then - x else x))"

text \<open>\<open>float(i)\<close> of an integer: OverflowError instead of an infinity.\<close>

definition float_of_int :: "int \<Rightarrow> exc + pyfloat" where
  "float_of_int i = (case to_float (of_int i) of Fin x \<Rightarrow> Inr (Fin x)
                                             | _ \<Rightarrow> Inl (OverflowError ''int too large to convert to float''))"

text \<open>A digit part: digits with single underscores between them; the digits alone.\<close>

definition digit_part :: "string \<Rightarrow> string option" where
  "digit_part s = (case int_digits 0 False s of None \<Rightarrow> None | Some n \<Rightarrow> Some (filter is_digit s))"

definition split_first :: "(char \<Rightarrow> bool) \<Rightarrow> string \<Rightarrow> string \<times> string option" where
  "split_first P s = (takeWhile (\<lambda>c. \<not> P c) s, case dropWhile (\<lambda>c. \<not> P c) s of [] \<Rightarrow> None | c # r \<Rightarrow> Some r)"

definition signed :: "string \<Rightarrow> bool \<times> string" where
  "signed s = (case s of [] \<Rightarrow> (False, []) | c # r \<Rightarrow> if c = CHR ''-'' then (True, r) else if c = CHR ''+'' then (False, r) else (False, s))"

definition optional_digits :: "string \<Rightarrow> string option" where
  "optional_digits s = (if s = [] then Some [] else digit_part s)"

definition exponent_of :: "string option \<Rightarrow> int option" where
  "exponent_of ex =
     (case ex of
        None \<Rightarrow> Some 0
      | Some t \<Rightarrow> (let (neg, ds) = signed t
                  in map_option (\<lambda>d. if neg then - int (digits_val 0 d) else int (digits_val 0 d)) (digit_part ds)))"

text \<open>The unsigned floating-point number of \<open>float(s)\<close>: a point with digits on at least one side, an exponent.\<close>

definition float_number :: "bool \<Rightarrow> string \<Rightarrow> pyfloat option" where
  "float_number neg s =
     (let (mantissa, ex) = split_first (\<lambda>c. c \<in> set ''eE'') s;
          (whole, fraction) = split_first (\<lambda>c. c = CHR ''.'') mantissa
      in case (optional_digits whole, optional_digits (or_empty fraction), exponent_of ex) of
           (Some w, Some f, Some e) \<Rightarrow> if w = [] \<and> f = [] then None else Some (decimal_value neg w f e)
         | _ \<Rightarrow> None)"

text \<open>\<open>float(s)\<close>; None is the ValueError.\<close>

definition python_float :: "string \<Rightarrow> pyfloat option" where
  "python_float s =
     (let (neg, t) = signed (strip s); w = lower t
      in if w \<in> {''inf'', ''infinity''} then Some (if neg then NegInf else PosInf)
         else if w = ''nan'' then Some NaN
         else float_number neg t)"

subsection \<open>Strings of JSON\<close>

definition json_space :: "char \<Rightarrow> bool" where
  "json_space c \<longleftrightarrow> c \<in> {CHR '' '', CHR 0x09, CHR 0x0A, CHR 0x0D}"

definition skip_space :: "string \<Rightarrow> string" where
  "skip_space s = dropWhile json_space s"

definition hex_val :: "char \<Rightarrow> nat option" where
  "hex_val c =
     (let n = of_char c :: nat
      in if is_digit c then Some (digit_val c)
         else if 97 \<le> n \<and> n \<le> 102 then Some (n - 87) else if 65 \<le> n \<and> n \<le> 70 then Some (n - 55) else None)"

text \<open>Four hexadecimal digits.\<close>

fun hex4 :: "string \<Rightarrow> (nat \<times> string) option" where
  "hex4 (a # b # c # d # r) =
     (case (hex_val a, hex_val b, hex_val c, hex_val d) of
        (Some a', Some b', Some c', Some d') \<Rightarrow> Some (((a' * 16 + b') * 16 + c') * 16 + d', r)
      | _ \<Rightarrow> None)"
| "hex4 _ = None"

definition utf8_of :: "nat \<Rightarrow> string" where
  "utf8_of n =
     (if n < 0x100 then [char_of n] else if n < 0x10000 then utf8 n
      else [char_of (0xF0 + n div 262144), char_of (0x80 + n div 4096 mod 64),
            char_of (0x80 + n div 64 mod 64), char_of (0x80 + n mod 64)])"

definition simple_escape :: "char \<Rightarrow> string option" where
  "simple_escape c = map_of
     [(CHR 0x22, [CHR 0x22]), (CHR 0x5C, [CHR 0x5C]), (CHR ''/'', ''/''), (CHR ''b'', [CHR 0x08]),
      (CHR ''f'', [CHR 0x0C]), (CHR ''n'', [CHR 0x0A]), (CHR ''r'', [CHR 0x0D]), (CHR ''t'', [CHR 0x09])] c"

text \<open>The code point of an escape: a high surrogate takes a low one that follows it.\<close>

definition unicode_escape :: "string \<Rightarrow> (nat \<times> string) option" where
  "unicode_escape r =
     (case hex4 r of
        None \<Rightarrow> None
      | Some (n, r1) \<Rightarrow>
          (if 0xD800 \<le> n \<and> n \<le> 0xDBFF \<and> take 2 r1 = [CHR 0x5C, CHR ''u'']
           then (case hex4 (drop 2 r1) of
                   None \<Rightarrow> None
                 | Some (m, r2) \<Rightarrow>
                     if 0xDC00 \<le> m \<and> m \<le> 0xDFFF then Some (0x10000 + (n - 0xD800) * 1024 + (m - 0xDC00), r2)
                     else Some (n, r1))
           else Some (n, r1)))"

lemma hex4_shorter: "hex4 r = Some (n, r') \<Longrightarrow> length r' < length r"
  by (cases r rule: hex4.cases) (auto split: option.splits)

lemma unicode_escape_shorter [termination_simp]:
  assumes "unicode_escape r = Some (n, r')" shows "length r' < length r"
proof -
  from assms obtain m r1 where 1: "hex4 r = Some (m, r1)" by (auto simp: unicode_escape_def split: option.splits)
  have "length r' \<le> length r1"
    using assms 1 hex4_shorter [of "drop 2 r1"]
    by (auto simp: unicode_escape_def split: option.splits if_splits)
  with hex4_shorter [OF 1] show ?thesis by simp
qed

text \<open>After the opening quote: the string and what follows its closing quote.\<close>

fun json_string :: "string \<Rightarrow> (string \<times> string) option" where
  "json_string [] = None"
| "json_string (c # r) =
     (if c = CHR 0x22 then Some ([], r)
      else if (of_char c :: nat) < 32 then None
      else if c \<noteq> CHR 0x5C then map_option (\<lambda>(t, u). (c # t, u)) (json_string r)
      else (case r of
              [] \<Rightarrow> None
            | d # r1 \<Rightarrow>
                (if d = CHR ''u''
                 then (case unicode_escape r1 of
                         None \<Rightarrow> None
                       | Some (n, r2) \<Rightarrow> map_option (\<lambda>(t, u). (utf8_of n @ t, u)) (json_string r2))
                 else (case simple_escape d of
                         None \<Rightarrow> None
                       | Some e \<Rightarrow> map_option (\<lambda>(t, u). (e @ t, u)) (json_string r1)))))"

subsection \<open>Values of JSON\<close>

text \<open>The number at the start: an int, or a float when there is a fraction or an exponent.\<close>

definition json_number :: "string \<Rightarrow> (json \<times> string) option" where
  "json_number s =
     (let (neg, r0) = (case s of c # r \<Rightarrow> if c = CHR ''-'' then (True, r) else (False, s) | [] \<Rightarrow> (False, []));
          run = takeWhile is_digit r0;
          whole = (if take 1 run = ''0'' then ''0'' else run);
          r1 = drop (length whole) r0;
          fraction = (case r1 of c # r \<Rightarrow> if c = CHR ''.'' then takeWhile is_digit r else [] | [] \<Rightarrow> []);
          r2 = (if fraction = [] then r1 else drop (1 + length fraction) r1);
          ex = (case r2 of
                  c # r \<Rightarrow> if c \<in> set ''eE''
                           then (let (en, t) = signed r; ds = takeWhile is_digit t
                                 in if ds = [] then None else Some (en, ds, drop (length ds) t))
                           else None
                | [] \<Rightarrow> None)
      in if whole = [] then None
         else case ex of
                Some (en, ds, r3) \<Rightarrow>
                  Some (JFloat (decimal_value neg whole fraction (if en then - int (digits_val 0 ds) else int (digits_val 0 ds))), r3)
              | None \<Rightarrow>
                  if fraction = [] then Some (JInt (if neg then - int (digits_val 0 whole) else int (digits_val 0 whole)), r2)
                  else Some (JFloat (decimal_value neg whole fraction 0), r2))"

definition json_words :: "(string \<times> json) list" where
  "json_words = [(''null'', JNull), (''true'', JBool True), (''false'', JBool False), (''NaN'', JFloat NaN),
                 (''Infinity'', JFloat PosInf), (''-Infinity'', JFloat NegInf)]"

definition json_word :: "string \<Rightarrow> (json \<times> string) option" where
  "json_word s = (case find (\<lambda>(w, v). startswith s w) json_words of
                    None \<Rightarrow> None | Some (w, v) \<Rightarrow> Some (v, drop (length w) s))"

lemma skip_space_le [simp]: "length (skip_space s) \<le> length s"
  by (simp add: skip_space_def length_dropWhile_le)

lemma skip_space_consD:
  assumes "skip_space s = c # r" shows "length r < length s"
  using skip_space_le [of s] assms by simp

text \<open>
  A value, the elements of an array after \<open>[\<close> or a comma, and the pairs of an object after its
  opening brace or a comma.
\<close>

function (sequential) json_value :: "string \<Rightarrow> (json \<times> string) option" and
  json_elements :: "string \<Rightarrow> (json list \<times> string) option" and
  json_pairs :: "string \<Rightarrow> ((string \<times> json) list \<times> string) option" where
  "json_value s =
     (case s of
        [] \<Rightarrow> None
      | c # r \<Rightarrow>
          (if c = CHR 0x22 then map_option (\<lambda>(t, u). (JStr t, u)) (json_string r)
           else if c = CHR ''['' then
             (case skip_space r of
                d # r1 \<Rightarrow> if d = CHR '']'' then Some (JList [], r1)
                          else map_option (\<lambda>(xs, u). (JList xs, u)) (json_elements (skip_space r))
              | [] \<Rightarrow> None)
           else if c = CHR ''{'' then
             (case skip_space r of
                d # r1 \<Rightarrow> if d = CHR ''}'' then Some (JObj [], r1)
                          else map_option (\<lambda>(ps, u). (JObj (fold (\<lambda>(k, v) d. jset k v d) ps []), u)) (json_pairs (skip_space r))
              | [] \<Rightarrow> None)
           else (case json_word s of Some x \<Rightarrow> Some x | None \<Rightarrow> json_number s)))"
| "json_elements s =
     (case json_value s of
        None \<Rightarrow> None
      | Some (v, r) \<Rightarrow>
          (case skip_space r of
             [] \<Rightarrow> None
           | c # r1 \<Rightarrow>
               (if c = CHR '']'' then Some ([v], r1)
                else if c = CHR '','' \<and> length (skip_space r1) < length s
                then map_option (\<lambda>(xs, u). (v # xs, u)) (json_elements (skip_space r1))
                else None)))"
| "json_pairs s =
     (case s of
        [] \<Rightarrow> None
      | q # r \<Rightarrow>
          (if q \<noteq> CHR 0x22 then None
           else (case json_string r of
                   None \<Rightarrow> None
                 | Some (k, r1) \<Rightarrow>
                     (case skip_space r1 of
                        [] \<Rightarrow> None
                      | c # r2 \<Rightarrow>
                          (if c \<noteq> CHR '':'' \<or> \<not> length (skip_space r2) < length s then None
                           else (case json_value (skip_space r2) of
                                   None \<Rightarrow> None
                                 | Some (v, r3) \<Rightarrow>
                                     (case skip_space r3 of
                                        [] \<Rightarrow> None
                                      | d # r4 \<Rightarrow>
                                          (if d = CHR ''}'' then Some ([(k, v)], r4)
                                           else if d = CHR '','' \<and> length (skip_space r4) < length s
                                           then map_option (\<lambda>(ps, u). ((k, v) # ps, u)) (json_pairs (skip_space r4))
                                           else None))))))))"
  by pat_completeness auto

termination
  by (relation "measures [\<lambda>x. case x of Inl s \<Rightarrow> length s | Inr (Inl s) \<Rightarrow> length s | Inr (Inr s) \<Rightarrow> length s,
      \<lambda>x. case x of Inl s \<Rightarrow> 0 | _ \<Rightarrow> 1]")
    (auto simp: le_imp_less_Suc dest: skip_space_consD)

declare json_value.simps [simp del] json_elements.simps [simp del] json_pairs.simps [simp del]

text \<open>\<open>json.loads(s)\<close>; None is the JSONDecodeError.\<close>

definition json_loads :: "string \<Rightarrow> json option" where
  "json_loads s =
     (case json_value (skip_space s) of
        None \<Rightarrow> None
      | Some (v, r) \<Rightarrow> if skip_space r = [] then Some v else None)"

subsection \<open>Printing\<close>

definition hex4_of :: "nat \<Rightarrow> string" where
  "hex4_of n = [hex_digit (n div 4096 mod 16), hex_digit (n div 256 mod 16), hex_digit (n div 16 mod 16), hex_digit (n mod 16)]"

text \<open>One character of a string, ASCII only.\<close>

definition json_char :: "char \<Rightarrow> string" where
  "json_char c =
     (case map_of [(CHR 0x22, CHR 0x22), (CHR 0x5C, CHR 0x5C), (CHR 0x0A, CHR ''n''), (CHR 0x0D, CHR ''r''),
                   (CHR 0x09, CHR ''t''), (CHR 0x0C, CHR ''f''), (CHR 0x08, CHR ''b'')] c of
        Some e \<Rightarrow> [CHR 0x5C, e]
      | None \<Rightarrow> let n = of_char c :: nat
                in if 32 \<le> n \<and> n \<le> 126 then [c] else [CHR 0x5C, CHR ''u''] @ hex4_of n)"

definition json_quote :: "string \<Rightarrow> string" where
  "json_quote s = CHR 0x22 # concat (map json_char s) @ [CHR 0x22]"

fun json_float :: "(pyfloat \<Rightarrow> string) \<Rightarrow> pyfloat \<Rightarrow> string" where
  "json_float sf NaN = ''NaN''"
| "json_float sf PosInf = ''Infinity''"
| "json_float sf NegInf = ''-Infinity''"
| "json_float sf x = sf x"

text \<open>\<open>json.dumps(v)\<close>; \<open>sf\<close> prints a finite float.\<close>

fun json_dumps :: "(pyfloat \<Rightarrow> string) \<Rightarrow> json \<Rightarrow> string" where
  "json_dumps sf JNull = ''null''"
| "json_dumps sf (JBool b) = (if b then ''true'' else ''false'')"
| "json_dumps sf (JInt i) = show_int i"
| "json_dumps sf (JFloat x) = json_float sf x"
| "json_dumps sf (JStr s) = json_quote s"
| "json_dumps sf (JList xs) = CHR ''['' # join_with '', '' (map (json_dumps sf) xs) @ '']''"
| "json_dumps sf (JObj d) = CHR ''{'' # join_with '', '' (map (\<lambda>(k, v). json_quote k @ '': '' @ json_dumps sf v) d) @ ''}''"

subsection \<open>What is printed reads back\<close>

lemma hex_val_digit [simp]:
  assumes "d < 16" shows "hex_val (hex_digit d) = Some d"
proof -
  define c where "c = hex_digit d"
  have c: "(of_char c :: nat) = (if d < 10 then 48 + d else 87 + d)"
    using assms by (simp add: c_def hex_digit_def)
  have "hex_val c = Some d"
    using assms by (cases "d < 10") (simp_all add: hex_val_def is_digit_def digit_val_def c)
  then show ?thesis by (simp add: c_def)
qed

lemma hex4_digits:
  "a < 16 \<Longrightarrow> b < 16 \<Longrightarrow> c < 16 \<Longrightarrow> d < 16 \<Longrightarrow>
   hex4 ([hex_digit a, hex_digit b, hex_digit c, hex_digit d] @ r) = Some (((a * 16 + b) * 16 + c) * 16 + d, r)"
  by simp

lemma hex4_hex4_of:
  assumes "n < 65536" shows "hex4 (hex4_of n @ r) = Some (n, r)"
proof -
  have "n div 256 = n div 16 div 16" "n div 4096 = n div 16 div 16 div 16"
    by (simp_all flip: div_mult2_eq)
  moreover have "n div 4096 < 16" using assms by simp
  moreover have "16 * (m div 16) + m mod 16 = m" for m :: nat by simp
  ultimately have "((n div 4096 mod 16 * 16 + n div 256 mod 16) * 16 + n div 16 mod 16) * 16 + n mod 16 = n"
    by (simp only: mod_less mult.commute [of _ 16])
  moreover have "m mod 16 < 16" for m :: nat by simp
  ultimately show ?thesis
    using hex4_digits [of "n div 4096 mod 16" "n div 256 mod 16" "n div 16 mod 16" "n mod 16" r]
    by (simp only: hex4_of_def simp_thms)
qed

lemma json_string_char: "json_string (json_char c @ r) = map_option (\<lambda>(t, u). (c # t, u)) (json_string r)"
proof (cases "map_of [(CHR 0x22, CHR 0x22), (CHR 0x5C, CHR 0x5C), (CHR 0x0A, CHR ''n''), (CHR 0x0D, CHR ''r''),
                   (CHR 0x09, CHR ''t''), (CHR 0x0C, CHR ''f''), (CHR 0x08, CHR ''b'')] c")
  case (Some e)
  then show ?thesis
    by (auto simp: json_char_def simple_escape_def split: if_splits)
next
  case None
  define n where "n = (of_char c :: nat)"
  have c: "c = char_of n" "n < 256" by (simp_all add: n_def)
  show ?thesis
  proof (cases "32 \<le> n \<and> n \<le> 126")
    case True
    with None show ?thesis by (auto simp: json_char_def n_def [symmetric] Let_def split: if_splits)
  next
    case False
    have "unicode_escape (hex4_of n @ r) = Some (n, r)"
      using c(2) by (simp add: unicode_escape_def hex4_hex4_of)
    moreover have "json_char c = [CHR 0x5C, CHR ''u''] @ hex4_of n"
      unfolding json_char_def None n_def [symmetric] Let_def option.case if_not_P [OF False] by (rule refl)
    ultimately show ?thesis using c by (simp add: utf8_of_def)
  qed
qed

lemma json_string_quoted: "json_string (concat (map json_char s) @ CHR 0x22 # r) = Some (s, r)"
  by (induction s) (simp_all add: json_string_char)

text \<open>What may follow a number without becoming part of it.\<close>

definition number_end :: "string \<Rightarrow> bool" where
  "number_end r \<longleftrightarrow> (case r of [] \<Rightarrow> True | c # r' \<Rightarrow> \<not> is_digit c \<and> c \<notin> set ''.eE'')"

text \<open>A text of a float that reads back as the float.\<close>

definition float_text :: "string \<Rightarrow> rat \<Rightarrow> bool" where
  "float_text t x \<longleftrightarrow> (\<exists>c t'. t = c # t' \<and> \<not> json_space c \<and> c \<noteq> CHR '']'') \<and>
     (\<forall>r. number_end r \<longrightarrow> json_value (t @ r) = Some (JFloat (Fin x), r))"

text \<open>Dictionaries with distinct keys whose floats are printed readably.\<close>

fun printable :: "(pyfloat \<Rightarrow> string) \<Rightarrow> json \<Rightarrow> bool" where
  "printable sf (JFloat (Fin x)) = float_text (sf (Fin x)) x"
| "printable sf (JList xs) = (\<forall>x\<in>set xs. printable sf x)"
| "printable sf (JObj d) = (distinct (map fst d) \<and> (\<forall>p\<in>set d. printable sf (snd p)))"
| "printable sf _ = True"

lemma skip_space_start [simp]: "\<not> json_space c \<Longrightarrow> skip_space (c # r) = c # r"
  by (simp add: skip_space_def)

lemma skip_space_blank [simp]: "skip_space (CHR '' '' # r) = skip_space r"
  by (simp add: skip_space_def json_space_def)

lemma not_space [simp]:
  "\<not> json_space (CHR '','')" "\<not> json_space (CHR '':'')" "\<not> json_space (CHR '']'')" "\<not> json_space (CHR ''}'')" "\<not> json_space (CHR 0x22)"
  by (simp_all add: json_space_def)

lemma number_end_simps [simp]:
  "number_end []" "number_end (CHR '','' # r)" "number_end (CHR '']'' # r)" "number_end (CHR ''}'' # r)"
  by (simp_all add: number_end_def is_digit_def)

lemma digit_char_zero: "d < 10 \<Longrightarrow> digit_char d = CHR ''0'' \<longleftrightarrow> d = 0"
proof -
  assume "d < 10"
  then have "(of_char (digit_char d) :: nat) = 48 + d" by (simp add: digit_char_def)
  moreover have "(of_char (CHR ''0'') :: nat) = 48" by simp
  ultimately show ?thesis by (metis add_cancel_right_right char_of_char)
qed

lemma digits_lead: "0 < n \<Longrightarrow> take 1 (digits n) \<noteq> ''0''"
proof (induction n rule: digits.induct)
  case (1 n)
  show ?case
  proof (cases "n < 10")
    case True
    then show ?thesis using 1 digit_char_zero [of n] by (simp add: digits.simps [of n])
  next
    case False
    moreover have "digits (n div 10) \<noteq> []" by (subst digits.simps) simp
    ultimately show ?thesis using 1 by (subst digits.simps) (cases "digits (n div 10)", auto)
  qed
qed

lemma json_number_digits:
  assumes "number_end r"
  shows "json_number (digits n @ r) = Some (JInt (int n), r)"
    "json_number (CHR ''-'' # digits n @ r) = Some (JInt (- int n), r)"
proof -
  have d: "\<forall>c\<in>set (digits n). is_digit c" by (rule digits_all)
  have t: "takeWhile is_digit (digits n @ r) = digits n"
    using assms d by (cases r) (auto simp: number_end_def takeWhile_append2)
  have w: "(if take 1 (digits n) = ''0'' then ''0'' else digits n) = digits n"
    using digits_lead [of n] by (cases "n = 0") (auto simp: digit_char_def digits.simps [of 0])
  have ne: "digits n \<noteq> []" by (subst digits.simps) simp
  then obtain c cs where c: "digits n = c # cs" by (cases "digits n") auto
  then have "c \<noteq> CHR ''-''" using d by (auto simp: is_digit_def)
  then have s: "(case digits n @ r of c # r' \<Rightarrow> if c = CHR ''-'' then (True, r') else (False, digits n @ r) | [] \<Rightarrow> (False, []))
      = (False, digits n @ r)" by (simp add: c)
  have r: "(case r of c # r' \<Rightarrow> if c = CHR ''.'' then takeWhile is_digit r' else [] | [] \<Rightarrow> []) = []"
    "(case r of c # r' \<Rightarrow> if c \<in> set ''eE'' then f r' else None | [] \<Rightarrow> None) = None" for f :: "string \<Rightarrow> (bool \<times> string \<times> string) option"
    using assms by (auto simp: number_end_def split: list.splits)
  show "json_number (digits n @ r) = Some (JInt (int n), r)"
    unfolding json_number_def s Let_def case_prod_conv t w by (simp add: r ne digits_val_digits del: list.case)
  show "json_number (CHR ''-'' # digits n @ r) = Some (JInt (- int n), r)"
    unfolding json_number_def Let_def case_prod_conv list.case if_P [OF refl] t w
    by (simp add: r ne digits_val_digits)
qed

lemma json_word_none:
  assumes "c \<noteq> CHR ''n''" "c \<noteq> CHR ''t''" "c \<noteq> CHR ''f''" "c \<noteq> CHR ''N''" "c \<noteq> CHR ''I''"
    "c = CHR ''-'' \<Longrightarrow> \<exists>d r'. r = d # r' \<and> d \<noteq> CHR ''I''"
  shows "json_word (c # r) = None"
  using assms by (auto simp: json_word_def json_words_def)

lemma digits_start: "\<exists>c cs. digits n = c # cs \<and> is_digit c"
  using digits_all [of n] by (cases "digits n") (auto simp: digits.simps [of n] split: if_splits)

lemma json_value_int:
  assumes "number_end r" shows "json_value (show_int i @ r) = Some (JInt i, r)"
proof (cases "i < 0")
  case True
  obtain c cs where c: "digits (nat (- i)) = c # cs" "is_digit c" using digits_start by blast
  then have "json_word (CHR ''-'' # digits (nat (- i)) @ r) = None"
    by (intro json_word_none) (auto simp: is_digit_def)
  then show ?thesis using True json_number_digits(2) [OF assms, of "nat (- i)"]
    by (simp add: show_int_def json_value.simps)
next
  case False
  obtain c cs where c: "digits (nat i) = c # cs" "is_digit c" using digits_start by blast
  have w: "json_word (c # cs @ r) = None"
    using c(2) by (intro json_word_none) (auto simp: is_digit_def)
  have "c \<noteq> CHR 0x22" "c \<noteq> CHR ''[''" "c \<noteq> CHR ''{''" using c(2) by (auto simp: is_digit_def)
  then show ?thesis using False json_number_digits(1) [OF assms, of "nat i"] w
    by (simp add: show_int_def json_value.simps c(1))
qed

lemma json_value_words:
  "json_value (''null'' @ r) = Some (JNull, r)" "json_value (''true'' @ r) = Some (JBool True, r)"
  "json_value (''false'' @ r) = Some (JBool False, r)" "json_value (''NaN'' @ r) = Some (JFloat NaN, r)"
  "json_value (''Infinity'' @ r) = Some (JFloat PosInf, r)" "json_value (''-Infinity'' @ r) = Some (JFloat NegInf, r)"
  by (simp_all add: json_value.simps json_word_def json_words_def)

lemma json_value_str: "json_value (json_quote s @ r) = Some (JStr s, r)"
  by (simp add: json_value.simps json_quote_def json_string_quoted)

lemma fold_jset_distinct:
  assumes "distinct (map fst e @ map fst d)"
  shows "fold (\<lambda>(k, v) d. jset k v d) d e = e @ d"
  using assms
proof (induction d arbitrary: e)
  case (Cons p d)
  obtain k v where p: "p = (k, v)" by fastforce
  have "jset k v e = e @ [(k, v)]" using Cons.prems by (induction e) (auto simp: p)
  then show ?case using Cons by (simp add: p)
qed simp

lemma json_dumps_start:
  assumes "printable sf v"
  shows "\<exists>c t. json_dumps sf v = c # t \<and> \<not> json_space c \<and> c \<noteq> CHR '']''"
proof (cases v)
  case (JInt i)
  obtain c cs where "digits (nat \<bar>i\<bar>) = c # cs" "is_digit c" using digits_start by blast
  moreover from this(2) have "\<not> json_space c" "c \<noteq> CHR '']''" by (auto simp: json_space_def is_digit_def)
  ultimately show ?thesis using JInt by (cases "i < 0") (simp_all add: show_int_def json_space_def)
next
  case (JFloat x)
  then show ?thesis using assms by (cases x) (auto simp: float_text_def json_space_def)
qed (auto simp: json_quote_def json_space_def)

lemma json_elements_dumps:
  assumes "xs \<noteq> []" "\<And>x. x \<in> set xs \<Longrightarrow> printable sf x"
    "\<And>x r. x \<in> set xs \<Longrightarrow> number_end r \<Longrightarrow> json_value (json_dumps sf x @ r) = Some (x, r)"
  shows "json_elements (join_with '', '' (map (json_dumps sf) xs) @ '']'' @ r) = Some (xs, r)"
  using assms
proof (induction xs)
  case (Cons x xs)
  show ?case
  proof (cases xs)
    case Nil
    then show ?thesis using Cons.prems(3) [of x \<open>'']'' @ r\<close>] by (simp add: json_elements.simps [of "json_dumps sf x @ _"])
  next
    case (Cons y ys)
    define rest where "rest = join_with '', '' (map (json_dumps sf) xs) @ '']'' @ r"
    have IH: "json_elements rest = Some (xs, r)"
      unfolding rest_def using Cons Cons.prems(2,3) by (intro Cons.IH) auto
    obtain c t where c: "json_dumps sf y = c # t" "\<not> json_space c"
      using json_dumps_start [of sf y] Cons.prems(2) [of y] Cons by auto
    then have skip: "skip_space rest = rest" by (cases ys) (simp_all add: rest_def Cons)
    have whole: "join_with '', '' (map (json_dumps sf) (x # xs)) @ '']'' @ r = json_dumps sf x @ '', '' @ rest"
      by (simp add: Cons rest_def)
    show ?thesis
      unfolding whole using Cons.prems(3) [of x "('', '' @ rest)"]
      by (simp add: json_elements.simps [of "json_dumps sf x @ _"] skip IH less_Suc_eq_le)
  qed
qed simp

lemma json_pairs_dumps:
  assumes "d \<noteq> []" "\<And>p. p \<in> set d \<Longrightarrow> printable sf (snd p)"
    "\<And>p r. p \<in> set d \<Longrightarrow> number_end r \<Longrightarrow> json_value (json_dumps sf (snd p) @ r) = Some (snd p, r)"
  shows "json_pairs (join_with '', '' (map (\<lambda>(k, v). json_quote k @ '': '' @ json_dumps sf v) d) @ ''}'' @ r) = Some (d, r)"
  using assms
proof (induction d)
  case (Cons p d)
  obtain k v where p: "p = (k, v)" by fastforce
  obtain c t where c: "json_dumps sf v = c # t" "\<not> json_space c"
    using json_dumps_start [of sf v] Cons.prems(2) [of p] p by auto
  have val: "json_value (c # t @ r) = Some (v, r)" if "number_end r" for r
    using Cons.prems(3) [of p r] that by (simp add: p c)
  show ?case
  proof (cases d)
    case Nil
    then show ?thesis using c val [of "(''}'' @ r)"]
      by (simp add: p json_quote_def json_pairs.simps [of "CHR 0x22 # _"] json_string_quoted)
  next
    case (Cons q e)
    define rest where "rest = join_with '', '' (map (\<lambda>(k, v). json_quote k @ '': '' @ json_dumps sf v) d) @ ''}'' @ r"
    have IH: "json_pairs rest = Some (d, r)"
      unfolding rest_def using Cons Cons.prems(2,3) by (intro Cons.IH) auto
    have skip: "skip_space rest = rest" by (cases e; cases q) (simp_all add: rest_def Cons json_quote_def)
    have whole: "join_with '', '' (map (\<lambda>(k, v). json_quote k @ '': '' @ json_dumps sf v) (p # d)) @ ''}'' @ r
        = CHR 0x22 # concat (map json_char k) @ CHR 0x22 # '': '' @ json_dumps sf v @ '', '' @ rest"
      by (simp add: Cons rest_def p json_quote_def)
    show ?thesis
      unfolding whole using c val [of "('', '' @ rest)"]
      by (simp add: p json_pairs.simps [of "CHR 0x22 # _"] json_string_quoted skip IH less_Suc_eq_le)
  qed
qed simp

text \<open>Reading back what \<open>json.dumps\<close> printed.\<close>

lemma json_value_dumps:
  "printable sf v \<Longrightarrow> number_end r \<Longrightarrow> json_value (json_dumps sf v @ r) = Some (v, r)"
proof (induction v arbitrary: r)
  case (JFloat x)
  then show ?case using json_value_words [of r] by (cases x) (simp_all add: float_text_def)
next
  case (JList xs)
  show ?case
  proof (cases xs)
    case Nil
    then show ?thesis by (simp add: json_value.simps)
  next
    case (Cons x ys)
    obtain c t where c: "json_dumps sf x = c # t" "\<not> json_space c" "c \<noteq> CHR '']''"
      using json_dumps_start [of sf x] JList.prems Cons by auto
    obtain t' where t: "join_with '', '' (map (json_dumps sf) xs) @ '']'' @ r = c # t'"
      using c by (cases ys) (simp_all add: Cons)
    have "json_elements (c # t') = Some (xs, r)"
      unfolding t [symmetric] using JList Cons by (intro json_elements_dumps) auto
    then show ?thesis using c t by (simp add: json_value.simps [of "CHR ''['' # _"])
  qed
next
  case (JObj d)
  show ?case
  proof (cases d)
    case Nil
    then show ?thesis by (simp add: json_value.simps)
  next
    case (Cons p e)
    obtain t' where t: "join_with '', '' (map (\<lambda>(k, v). json_quote k @ '': '' @ json_dumps sf v) d) @ ''}'' @ r = CHR 0x22 # t'"
      by (cases e; cases p) (simp_all add: Cons json_quote_def)
    have "json_pairs (CHR 0x22 # t') = Some (d, r)"
      unfolding t [symmetric]
    proof (rule json_pairs_dumps)
      fix q u assume "q \<in> set d" "number_end u"
      then show "json_value (json_dumps sf (snd q) @ u) = Some (snd q, u)"
        using JObj.IH [of q "snd q" u] JObj.prems(1) by (auto simp: snds.simps)
    qed (use Cons JObj.prems(1) in auto)
    then show ?thesis using t JObj.prems(1) fold_jset_distinct [of "[]" d]
      by (simp add: json_value.simps [of "CHR ''{'' # _"])
  qed
qed (use json_value_words json_value_int json_value_str in \<open>simp_all\<close>)

lemma json_loads_dumps: "printable sf v \<Longrightarrow> json_loads (json_dumps sf v) = Some v"
  using json_value_dumps [of sf v "[]"] json_dumps_start [of sf v]
  by (auto simp: json_loads_def skip_space_def)

end
