(* ===== verification/RateLimit.thy ===== *)
theory RateLimit
  imports Queue
begin

text \<open>
  The fixed-window limiter of app/services/ratelimit.py on Redis counters, its use as a view
  decorator, and the authentication of the REST API (app/blueprints/api.py), which is limited
  before the signature is checked.
\<close>

text \<open>\<open>_ident_for_request\<close>: the left-most X-Forwarded-For entry, else the peer.\<close>

definition ident_for_request :: "string option \<Rightarrow> string option \<Rightarrow> string" where
  "ident_for_request xff remote =
     (if truthy xff then strip (hd (split_on (CHR '','') (or_empty xff)))
      else if truthy remote then or_empty remote else ''unknown'')"

definition ratelimit_key :: "string \<Rightarrow> string \<Rightarrow> int \<Rightarrow> string" where
  "ratelimit_key bucket ident window_index =
     ''qms:ratelimit:'' @ bucket @ '':'' @ ident @ '':'' @ show_int window_index"

definition count_of :: "'a session_scheme \<Rightarrow> int \<Rightarrow> string \<Rightarrow> int" where
  "count_of s now k = r_count (redis s) (r_log (redis s)) now k"

text \<open>\<open>check\<close>: allowed, remaining, retry after; open when Redis is down.\<close>

definition rate_check ::
  "string \<Rightarrow> string \<Rightarrow> int \<Rightarrow> int \<Rightarrow> 'a session_scheme \<Rightarrow> (bool \<times> int \<times> int) \<times> 'a session_scheme" where
  "rate_check bucket ident max_requests window_seconds s =
     (if \<not> r_up (redis s) then ((True, max_requests, window_seconds), s)
      else
        let now = unix_seconds (clock s);
            window_index = now div window_seconds;
            key = ratelimit_key bucket ident window_index;
            s1 = send_redis (INCR (clock s) key) s;
            count = count_of s1 (clock s) key;
            s2 = (if count = 1 then send_redis (EXPIRE (clock s) key window_seconds) s1 else s1)
        in ((count \<le> max_requests, max 0 (max_requests - count), (window_index + 1) * window_seconds - now), s2))"

text \<open>The view decorator: the response, or 429 with its Retry-After.\<close>

datatype 'v limited = Limited int | Served 'v "int option"

definition rate_limit ::
  "bool \<Rightarrow> string \<Rightarrow> string \<Rightarrow> int \<Rightarrow> int \<Rightarrow> ('a session_scheme \<Rightarrow> 'v \<times> 'a session_scheme) \<Rightarrow>
   'a session_scheme \<Rightarrow> 'v limited \<times> 'a session_scheme" where
  "rate_limit enabled bucket ident max_requests window_seconds view s =
     (if \<not> enabled then (let (v, s') = view s in (Served v None, s'))
      else
        let ((allowed, remaining, retry_after), s1) = rate_check bucket ident max_requests window_seconds s
        in if \<not> allowed then (Limited retry_after, s1)
           else let (v, s') = view s1 in (Served v (Some remaining), s'))"

subsection \<open>The API\<close>

text \<open>\<open>_verify_signature\<close>: HMAC-SHA256 over the raw body is the parameter \<open>hmac\<close>.\<close>

definition verify_signature ::
  "(string \<Rightarrow> string \<Rightarrow> string) \<Rightarrow> app_config \<Rightarrow> string \<Rightarrow> string \<Rightarrow> string \<Rightarrow> exc + bool" where
  "verify_signature hmac cfg api_key signature body =
     (let secret = map_of (API_KEYS cfg) api_key
      in if \<not> truthy secret \<or> signature = [] then Inr False
         else compare_digest (hmac (or_empty secret) body) signature)"

datatype api_gate = Pass | TooManyRequests int | Unauthorized

definition api_before_request ::
  "(string \<Rightarrow> string \<Rightarrow> string) \<Rightarrow> string option \<Rightarrow> string option \<Rightarrow> string \<Rightarrow> string \<Rightarrow> string \<Rightarrow>
   ('a auth_db_scheme, api_gate) py" where
  "api_before_request hmac xff remote api_key signature body = (\<lambda>s.
     let ((allowed, remaining, retry_after), s1) =
        (if RATELIMIT_ENABLED (app_config s)
         then rate_check ''api'' (ident_for_request xff remote) (RATELIMIT_API_MAX (app_config s)) 60 s
         else ((True, 0, 0), s))
     in if \<not> allowed then (Inr (TooManyRequests retry_after), s1)
        else case verify_signature hmac (app_config s) api_key signature body of
               Inl e \<Rightarrow> (Inl e, s1)
             | Inr ok \<Rightarrow> (Inr (if ok then Pass else Unauthorized), s1))"

text \<open>
  A signature header with a character outside ASCII is an uncaught TypeError, not a 401.
\<close>

lemma api_signature_type_error:
  assumes "map_of (API_KEYS cfg) key = Some sec" "sec \<noteq> []" "\<not> ascii sig"
  shows "\<exists>m. verify_signature hmac cfg key sig body = Inl (TypeError m)"
  using assms by (auto simp: verify_signature_def compare_digest_def truthy_def ascii_def)

subsection \<open>One window\<close>

text \<open>Calls of the limiter for several clients, each at its time; what each of them was told.\<close>

fun rate_run :: "string \<Rightarrow> int \<Rightarrow> int \<Rightarrow> (int \<times> string) list \<Rightarrow> 'a session_scheme \<Rightarrow> (string \<times> bool) list \<times> 'a session_scheme" where
  "rate_run bucket mx w [] s = ([], s)"
| "rate_run bucket mx w ((t, i) # calls) s =
     (let ((ok, rest), s1) = rate_check bucket i mx w (s\<lparr>clock := t\<rparr>);
          (out, s2) = rate_run bucket mx w calls s1
      in ((i, ok) # out, s2))"

definition in_window :: "int \<Rightarrow> int \<Rightarrow> int \<Rightarrow> bool" where
  "in_window w idx t \<longleftrightarrow> unix_seconds t div w = idx"

lemma key_inj: "ratelimit_key b i idx = ratelimit_key b j idx \<longleftrightarrow> i = j"
  by (simp add: ratelimit_key_def)

lemma window_span:
  assumes "in_window w idx t" "in_window w idx t'" "0 < w"
  shows "t' < t + seconds w"
proof -
  define a b where "a = unix_seconds t" and "b = unix_seconds t'"
  have ab: "a div w = b div w" using assms(1,2) by (simp add: in_window_def a_def b_def)
  have bd: "a = w * (a div w) + a mod w" "b = w * (b div w) + b mod w"
    "0 \<le> a mod w" "b mod w < w" using assms(3) by auto
  have "w * (a div w) = w * (b div w)" using ab by simp
  with bd have "b < a + w" by linarith
  then have "b + 1 \<le> a + w" by simp
  then have "(b + 1) * 1000000 \<le> (a + w) * 1000000" by simp
  moreover have "t - epoch_ordinal * us_day \<ge> a * 1000000"
    "t' - epoch_ordinal * us_day < (b + 1) * 1000000"
    by (simp_all add: a_def b_def unix_seconds_def us_second_def)
  ultimately show ?thesis by (simp add: seconds_def us_second_def algebra_simps)
qed

text \<open>The counters of a window, for the clients' calls so far.\<close>

definition counters ::
  "string \<Rightarrow> int \<Rightarrow> int \<Rightarrow> int \<Rightarrow> (string \<Rightarrow> int) \<Rightarrow> 'a session_scheme \<Rightarrow> bool" where
  "counters bucket w idx from n s \<longleftrightarrow> r_up (redis s) \<and>
     redis_laws (r_get (redis s)) (r_count (redis s)) \<and>
     (\<forall>i now. from \<le> now \<longrightarrow> in_window w idx now \<longrightarrow>
        count_of s now (ratelimit_key bucket i idx) = n i) \<and> (\<forall>i. 0 \<le> n i)"

lemma cmd_keys [simp]:
  "cmd_key (INCR t k) = k" "cmd_key (EXPIRE t k d) = k"
  by simp_all

lemma count_send_other:
  "redis_laws (r_get (redis s)) (r_count (redis s)) \<Longrightarrow> cmd_key c \<noteq> k \<Longrightarrow>
     count_of (send_redis c s) now k = count_of s now k"
  unfolding count_of_def send_redis_def redis_laws_def by simp

lemma count_send_expire:
  assumes "redis_laws (r_get (redis s)) (r_count (redis s))" "t \<le> now" "now < t + seconds w"
  shows "count_of (send_redis (EXPIRE t k w) s) now k = count_of s now k"
  using assms unfolding count_of_def send_redis_def redis_laws_def by simp

lemma rate_check_step:
  assumes inv: "counters bucket w idx from n s" and t: "from \<le> t" "in_window w idx t" and w: "0 < w"
  shows "fst (fst (rate_check bucket i mx w (s\<lparr>clock := t\<rparr>))) = (n i + 1 \<le> mx)"
    "counters bucket w idx t (n(i := n i + 1)) (snd (rate_check bucket i mx w (s\<lparr>clock := t\<rparr>)))"
proof -
  let ?s = "s\<lparr>clock := t\<rparr>" and ?k = "ratelimit_key bucket i idx"
  let ?s1 = "send_redis (INCR t ?k) ?s"
  let ?s2 = "send_redis (EXPIRE t ?k w) ?s1"
  from inv have up: "r_up (redis s)" and laws: "redis_laws (r_get (redis s)) (r_count (redis s))"
    and cnt: "\<And>j now. from \<le> now \<Longrightarrow> in_window w idx now \<Longrightarrow> count_of s now (ratelimit_key bucket j idx) = n j"
    and nn: "\<And>j. 0 \<le> n j"
    unfolding counters_def by auto
  have idx: "unix_seconds t div w = idx" using t(2) by (simp add: in_window_def)
  have incr: "count_of ?s1 now ?k = n i + 1" if "t \<le> now" "in_window w idx now" for now
  proof (cases "n i = 0")
    case True
    then have "count_of s t ?k = 0" using cnt [OF t] by simp
    then show ?thesis using laws True unfolding redis_laws_def count_of_def send_redis_def by simp
  next
    case False
    then have "0 < count_of s now ?k" using cnt [of now i] that t(1) nn [of i] by simp
    moreover have "count_of s now ?k = n i" using cnt [of now i] that t(1) by simp
    ultimately show ?thesis
      using laws that(1) unfolding redis_laws_def count_of_def send_redis_def by simp
  qed
  have laws1: "redis_laws (r_get (redis ?s1)) (r_count (redis ?s1))"
    and laws2: "redis_laws (r_get (redis ?s2)) (r_count (redis ?s2))" and up1: "r_up (redis ?s1)" "r_up (redis ?s2)"
    using laws up by (simp_all add: send_redis_def)
  have one: "count_of ?s1 t ?k = n i + 1" using incr t(2) by simp
  have run: "rate_check bucket i mx w ?s =
      ((n i + 1 \<le> mx, max 0 (mx - (n i + 1)), (idx + 1) * w - unix_seconds t),
       if n i + 1 = 1 then ?s2 else ?s1)"
    using up idx one by (simp add: rate_check_def Let_def)
  then show "fst (fst (rate_check bucket i mx w ?s)) = (n i + 1 \<le> mx)" by simp
  have other1: "count_of ?s1 now (ratelimit_key bucket j idx) = n j"
    if "j \<noteq> i" "t \<le> now" "in_window w idx now" for j now
    using that cnt [of now j] t(1) laws count_send_other [of s "INCR t ?k" "ratelimit_key bucket j idx" now]
    by (simp add: key_inj count_of_def send_redis_def)
  have exp: "count_of ?s2 now ?k = n i + 1" if "t \<le> now" "in_window w idx now" for now
  proof -
    have "now < t + seconds w" using window_span [OF t(2) that(2) w] .
    with laws1 that(1) have "count_of ?s2 now ?k = count_of ?s1 now ?k" by (rule count_send_expire)
    with incr that show ?thesis by simp
  qed
  have other2: "count_of ?s2 now (ratelimit_key bucket j idx) = n j"
    if "j \<noteq> i" "t \<le> now" "in_window w idx now" for j now
    using other1 [OF that] count_send_other [OF laws1, of "EXPIRE t ?k w" "ratelimit_key bucket j idx" now] that(1)
    by (simp add: key_inj)
  show "counters bucket w idx t (n(i := n i + 1)) (snd (rate_check bucket i mx w ?s))"
    unfolding run counters_def using laws1 laws2 up1 incr other1 exp other2 nn
    by (auto intro: order_trans [OF nn])
qed

text \<open>Which call of a client it is, and what the limiter must answer.\<close>

fun answers :: "int \<Rightarrow> (string \<Rightarrow> int) \<Rightarrow> (int \<times> string) list \<Rightarrow> (string \<times> bool) list" where
  "answers mx n [] = []"
| "answers mx n ((t, i) # calls) = (i, n i + 1 \<le> mx) # answers mx (n(i := n i + 1)) calls"

lemma rate_run_answers:
  assumes "counters bucket w idx from n s" "0 < w" "sorted (map fst calls)"
    "\<forall>(t, i)\<in>set calls. from \<le> t \<and> in_window w idx t"
  shows "fst (rate_run bucket mx w calls s) = answers mx n calls"
  using assms
proof (induction calls arbitrary: s n "from")
  case (Cons c calls)
  obtain t i where c: "c = (t, i)" by (cases c)
  have t: "from \<le> t" "in_window w idx t" using Cons.prems(4) c by auto
  let ?r = "rate_check bucket i mx w (s\<lparr>clock := t\<rparr>)"
  note step = rate_check_step [OF Cons.prems(1) t Cons.prems(2), of i mx]
  have calls: "\<forall>(t', j)\<in>set calls. t \<le> t' \<and> in_window w idx t'" using Cons.prems(3,4) by (auto simp: c)
  define n' s' ok where "n' = n(i := n i + 1)" and "s' = snd ?r" and "ok = fst (fst ?r)"
  have "fst (rate_run bucket mx w calls s') = answers mx n' calls"
    unfolding n'_def s'_def
    using Cons.prems(3) calls by (intro Cons.IH [OF step(2) Cons.prems(2)]) (simp_all add: c)
  moreover have "fst (rate_run bucket mx w (c # calls) s) = (i, ok) # fst (rate_run bucket mx w calls s')"
    by (simp add: c s'_def ok_def split_beta)
  moreover have "ok = (n i + 1 \<le> mx)" using step(1) by (simp add: ok_def)
  ultimately show ?case by (simp add: c n'_def [symmetric])
qed simp

lemma answers_count:
  "0 \<le> n i \<Longrightarrow> int (length (filter (\<lambda>(j, ok). j = i \<and> ok) (answers mx n calls))) \<le> max 0 (mx - n i)"
proof (induction calls arbitrary: n)
  case (Cons c calls)
  obtain t j where c: "c = (t, j)" by (cases c)
  define n' where "n' = n(j := n j + 1)"
  have n': "n' i = (if j = i then n i + 1 else n i)" by (simp add: n'_def)
  have "int (length (filter (\<lambda>(j, ok). j = i \<and> ok) (answers mx n' calls))) \<le> max 0 (mx - n' i)"
    using Cons.prems n' by (intro Cons.IH) simp
  then show ?case using Cons.prems n' unfolding c answers.simps n'_def [symmetric]
    by (auto split: if_splits)
qed simp

lemma answers_fair:
  "int (length (filter (\<lambda>c. snd c = i) calls)) \<le> mx - n i \<Longrightarrow> \<forall>(j, ok)\<in>set (answers mx n calls). j = i \<longrightarrow> ok"
proof (induction calls arbitrary: n)
  case (Cons c calls)
  obtain t j where c: "c = (t, j)" by (cases c)
  define n' where "n' = n(j := n j + 1)"
  have n': "n' i = (if j = i then n i + 1 else n i)" by (simp add: n'_def)
  have "\<forall>(j, ok)\<in>set (answers mx n' calls). j = i \<longrightarrow> ok"
    using Cons.prems n' by (intro Cons.IH) (auto simp: c split: if_splits)
  then show ?case using Cons.prems unfolding c answers.simps n'_def [symmetric]
    by (auto split: if_splits)
qed simp



end
