(* ===== verification/Ingest.thy ===== *)
theory Ingest
  imports TriggerLife JsonText RateLimit
begin

text \<open>
  How readings reach the trigger engine: MQTT messages (app/mqtt/bridge.py) and the REST API
  (app/blueprints/api.py). A payload is the decoded text of a message or a body.
\<close>

subsection \<open>MQTT messages\<close>

definition number_value :: "json \<Rightarrow> json option" where
  "number_value v = (case v of JInt i \<Rightarrow> Some (JInt i) | JFloat x \<Rightarrow> Some (JFloat x) | _ \<Rightarrow> None)"

text \<open>The value of a message: a number, the \<open>value\<close> of an object or the metric's own key, or bare text.\<close>

definition message_value :: "string \<Rightarrow> string \<Rightarrow> json option" where
  "message_value metric raw =
     (case json_loads raw of
        Some (JObj d) \<Rightarrow>
          (let candidate = jget_or_null ''value'' d
           in number_value (if candidate = JNull then jget_or_null metric d else candidate))
      | Some v \<Rightarrow> number_value v
      | None \<Rightarrow> map_option JFloat (python_float raw))"

text \<open>\<open>float(value)\<close> of a number.\<close>

definition as_float :: "json \<Rightarrow> exc + pyfloat" where
  "as_float v = (case v of JInt i \<Rightarrow> float_of_int i | JFloat x \<Rightarrow> Inr x | _ \<Rightarrow> Inl (TypeError ''float() argument''))"

text \<open>The dictionary display; a later key overwrites an equal earlier one.\<close>

definition reading_of :: "string \<Rightarrow> string \<Rightarrow> string \<Rightarrow> pyfloat \<Rightarrow> dict" where
  "reading_of line device metric x =
     fold (\<lambda>(k, v) d. jset k v d)
       [(''metric'', JStr metric), (metric, JFloat x), (''scope'', JStr (''line:'' @ line)),
        (''line_code'', JStr line), (''device_id'', JStr device), (''source'', JStr ''iot'')] []"

text \<open>None is a message that is dropped; the error is the one \<open>parse_message\<close> lets out.\<close>

definition parse_message :: "string \<Rightarrow> string \<Rightarrow> exc + dict option" where
  "parse_message topic payload =
     (case split_on (CHR ''/'') topic of
        [first, line, device, metric] \<Rightarrow>
          (if first \<noteq> ''factory'' \<or> line = [] \<or> device = [] \<or> metric = [] then Inr None
           else let raw = strip payload
                in if raw = [] then Inr None
                   else case message_value metric raw of
                          None \<Rightarrow> Inr None
                        | Some v \<Rightarrow> (case as_float v of
                                       Inl e \<Rightarrow> Inl e
                                     | Inr x \<Rightarrow> Inr (Some (reading_of line device metric x))))
      | _ \<Rightarrow> Inr None)"

text \<open>\<open>reading["line_id"] = line.id\<close>, when the line of that code exists.\<close>

definition with_line :: "json \<Rightarrow> dict \<Rightarrow> 'a ticket_db_scheme \<Rightarrow> dict" where
  "with_line code r s =
     (case (case code of JStr c \<Rightarrow> by_key line_code c (lines s) | _ \<Rightarrow> None) of
        None \<Rightarrow> r
      | Some l \<Rightarrow> jset ''line_id'' (JStr (line_id l)) r)"

text \<open>A failed evaluation rolls back and counts as no trigger fired.\<close>

definition evaluate_in_context :: "dict \<Rightarrow> ('a trigger_db_scheme, int) py" where
  "evaluate_in_context parsed = with_state (\<lambda>s.
     catch (bind (in_request (evaluate (with_line (jget_or_null ''line_code'' parsed) parsed s)))
              (\<lambda>fired. ret (int (length fired))))
       (\<lambda>_. True) (\<lambda>_. ret 0))"

definition handle_message :: "string \<Rightarrow> string \<Rightarrow> ('a trigger_db_scheme, int) py" where
  "handle_message topic payload =
     (case parse_message topic payload of
        Inl e \<Rightarrow> throw e
      | Inr None \<Rightarrow> ret 0
      | Inr (Some parsed) \<Rightarrow> evaluate_in_context parsed)"

subsection \<open>The REST API\<close>

datatype api_response = ApiOk json | ApiError int string

fun substring :: "string \<Rightarrow> string \<Rightarrow> bool" where
  "substring p [] = (p = [])"
| "substring p (c # s) = (startswith (c # s) p \<or> substring p s)"

text \<open>\<open>"metric" in payload\<close>, for a payload that is true in a condition.\<close>

definition metric_in :: "json \<Rightarrow> exc + bool" where
  "metric_in payload =
     (case payload of
        JObj d \<Rightarrow> Inr (jget ''metric'' d \<noteq> None)
      | JList xs \<Rightarrow> Inr (\<exists>x\<in>set xs. jeq (JStr ''metric'') x)
      | JStr s \<Rightarrow> Inr (substring ''metric'' s)
      | _ \<Rightarrow> Inl (TypeError ''argument is not iterable''))"

definition fired_entry :: "'a trigger_db_scheme \<Rightarrow> trigger_execution \<Rightarrow> exc + json" where
  "fired_entry s x =
     (case by_key tg_id (ex_trigger_id x) (triggers s) of
        None \<Rightarrow> Inl (AttributeError ''code'')
      | Some t \<Rightarrow> Inr (JObj [(''trigger_code'', JStr (tg_code t)),
                             (''ticket_id'', case linked_ticket_id x of None \<Rightarrow> JNull | Some i \<Rightarrow> i),
                             (''responder_results'', responder_results x)]))"

fun fired_entries :: "'a trigger_db_scheme \<Rightarrow> trigger_execution list \<Rightarrow> exc + json list" where
  "fired_entries s [] = Inr []"
| "fired_entries s (x # xs) =
     (case fired_entry s x of
        Inl e \<Rightarrow> Inl e
      | Inr v \<Rightarrow> (case fired_entries s xs of Inl e \<Rightarrow> Inl e | Inr vs \<Rightarrow> Inr (v # vs)))"

text \<open>
  The view: \<open>get_json(silent=True) or {}\<close>, the guard, the evaluation and its commit. A payload
  that is not a dictionary has no \<open>get\<close>: the AttributeError ends in a server error.
\<close>

definition post_measurement :: "bool \<Rightarrow> string \<Rightarrow> ('a trigger_db_scheme, api_response) py" where
  "post_measurement is_json body =
     (let payload = (case (if is_json then json_loads body else None) of
                       None \<Rightarrow> JObj [] | Some v \<Rightarrow> json_or v (JObj []))
      in case metric_in payload of
           Inl e \<Rightarrow> throw e
         | Inr False \<Rightarrow> ret (ApiError 400 ''metric required'')
         | Inr True \<Rightarrow>
             (case payload of
                JObj d \<Rightarrow>
                  bind (in_request (evaluate d)) (\<lambda>fired. with_state (\<lambda>s.
                  bind (lift (fired_entries s fired)) (\<lambda>es.
                    ret (ApiOk (JObj [(''ok'', JBool True), (''triggers_fired'', JList es)])))))
              | _ \<Rightarrow> throw (AttributeError ''get'')))"

definition api_health :: api_response where
  "api_health = ApiOk (JObj [(''ok'', JBool True)])"

text \<open>A request to the API: the limiter and the signature come before the view.\<close>

definition api_request ::
  "(string \<Rightarrow> string \<Rightarrow> string) \<Rightarrow> string option \<Rightarrow> string option \<Rightarrow> string \<Rightarrow> string \<Rightarrow> string \<Rightarrow>
   ('a trigger_db_scheme, api_response) py \<Rightarrow> ('a trigger_db_scheme, api_response) py" where
  "api_request hmac xff remote api_key signature body view =
     bind (api_before_request hmac xff remote api_key signature body) (\<lambda>g.
       case g of
         Pass \<Rightarrow> view
       | TooManyRequests n \<Rightarrow> ret (ApiError 429 ''rate_limited'')
       | Unauthorized \<Rightarrow> ret (ApiError 401 ''unauthorized''))"

subsection \<open>What is accepted\<close>

definition FIXED_KEYS :: "string list" where
  "FIXED_KEYS = [''metric'', ''scope'', ''line_code'', ''device_id'', ''source'']"

lemma split_on_four:
  assumes "split_on c s = [a, b, d, e]"
  shows "s = a @ c # b @ c # d @ c # e \<and> (\<forall>w\<in>{a, b, d, e}. c \<notin> set w)"
  using join_split [of c s] split_on_pieces [of c s] by (simp add: assms)

lemma parse_message_Some:
  assumes "parse_message topic payload = Inr (Some r)"
  obtains line device metric v x where "split_on (CHR ''/'') topic = [''factory'', line, device, metric]"
    "line \<noteq> []" "device \<noteq> []" "metric \<noteq> []" "message_value metric (strip payload) = Some v" "as_float v = Inr x"
    "r = reading_of line device metric x"
  using assms unfolding parse_message_def Let_def
  by (auto split: list.splits if_splits option.splits sum.splits intro: that)

lemma reading_of_fixed:
  "jget ''scope'' (reading_of line device metric x) = Some (JStr (''line:'' @ line))"
  "jget ''line_code'' (reading_of line device metric x) = Some (JStr line)"
  "jget ''device_id'' (reading_of line device metric x) = Some (JStr device)"
  "jget ''source'' (reading_of line device metric x) = Some (JStr ''iot'')"
  by (simp_all add: reading_of_def jget_def map_of_jset del: jset.simps)

lemma reading_of_metric:
  "jget ''metric'' (reading_of line device metric x) = Some (if metric = ''metric'' then JFloat x else JStr metric)"
  "metric \<notin> set FIXED_KEYS \<Longrightarrow> jget metric (reading_of line device metric x) = Some (JFloat x)"
  by (auto simp: reading_of_def jget_def map_of_jset FIXED_KEYS_def simp del: jset.simps)

lemma keys_jset: "fst ` set (jset k v d) = insert k (fst ` set d)"
proof (induction d)
  case (Cons p d)
  then show ?case by (cases p) (simp add: insert_commute)
qed simp

lemma distinct_jset: "distinct (map fst d) \<Longrightarrow> distinct (map fst (jset k v d))"
proof (induction d)
  case (Cons p d)
  obtain k' v' where p: "p = (k', v')" by fastforce
  have "k' \<noteq> k \<Longrightarrow> k' \<notin> fst ` set (jset k v d)" using Cons.prems by (simp add: keys_jset p)
  with Cons show ?case by (auto simp: p)
qed simp

lemma operators_on_numbers:
  "operator_of op = Some f \<Longrightarrow> f (JFloat x) (JFloat y) \<noteq> None"
  by (auto simp: operator_of_def jle_def split: if_splits)

text \<open>
  C27. Every message the MQTT bridge accepts has a topic of the documented form, and becomes a
  dictionary with distinct keys whose scope, line, device and source are strings. When the
  metric's name is none of the fixed keys its value is a float, and every comparison with a
  numeric threshold on that metric is defined and compares the two numbers; a metric called
  like a fixed key is overwritten, or overwrites the name of the metric.
\<close>

theorem reading_well_typed:
  assumes "parse_message topic payload = Inr (Some r)"
  shows "\<exists>line device metric x. topic = join_with ''/'' [''factory'', line, device, metric] \<and>
    (\<forall>w\<in>{line, device, metric}. w \<noteq> [] \<and> CHR ''/'' \<notin> set w) \<and> distinct (map fst r) \<and>
    (\<exists>v. message_value metric (strip payload) = Some v \<and> as_float v = Inr x) \<and>
    jget ''scope'' r = Some (JStr (''line:'' @ line)) \<and> jget ''line_code'' r = Some (JStr line) \<and>
    jget ''device_id'' r = Some (JStr device) \<and> jget ''source'' r = Some (JStr ''iot'') \<and>
    jget ''metric'' r = Some (if metric = ''metric'' then JFloat x else JStr metric) \<and>
    (metric \<notin> set FIXED_KEYS \<longrightarrow> jget metric r = Some (JFloat x) \<and>
      (\<forall>op f y. operator_of op = Some f \<longrightarrow> f (JFloat x) (JFloat y) \<noteq> None \<and>
         evaluate_condition [(''metric'', JStr metric), (''operator'', JStr op), (''value'', JFloat y)] r
           = Inr (f (JFloat x) (JFloat y) = Some True)))"
proof -
  obtain line device metric v x where r: "split_on (CHR ''/'') topic = [''factory'', line, device, metric]"
    "line \<noteq> []" "device \<noteq> []" "metric \<noteq> []" "message_value metric (strip payload) = Some v" "as_float v = Inr x"
    "r = reading_of line device metric x"
    by (rule parse_message_Some [OF assms])
  have d: "distinct (map fst r)" by (simp add: r(7) reading_of_def distinct_jset del: jset.simps)
  have e: "evaluate_condition [(''metric'', JStr metric), (''operator'', JStr op), (''value'', JFloat y)] r
      = Inr (f (JFloat x) (JFloat y) = Some True)"
    if "metric \<notin> set FIXED_KEYS" "operator_of op = Some f" for op f y
    using that reading_of_metric(2) [OF that(1), of line device x]
    by (simp add: evaluate_condition_def jget_or_null_def r(7))
  note parts = r(2-6) split_on_four [OF r(1)] d e reading_of_fixed [of line device metric x, folded r(7)]
    reading_of_metric(1) [of line device metric x, folded r(7)] reading_of_metric(2) [of metric line device x, folded r(7)]
  show ?thesis
    by (rule exI [of _ line], rule exI [of _ device], rule exI [of _ metric], rule exI [of _ x])
      (use parts operators_on_numbers in simp)
qed

lemma parsed_sample:
  "parse_message ''factory/A/oven/temp'' (CHR 0x7B # ''\"value\": 232}'')
    = Inr (Some (reading_of ''A'' ''oven'' ''temp'' (Fin 232)))" (is "parse_message ?t ?p = Inr (Some ?r)")
proof -
  have json: "json_loads ?p = Some (JObj [(''value'', JInt 232)])" by code_simp
  have small: "float_of_int 232 = Inr (Fin 232)" by (simp add: float_of_int_def to_float_def float_limit_def)
  have strip: "strip ?p = ?p" by (simp add: strip_def lstrip_def rstrip_def str_py_space_def)
  have "message_value ''temp'' ?p = Some (JInt 232)"
    by (simp add: message_value_def json jget_or_null_def number_value_def)
  then show ?thesis
    unfolding parse_message_def strip Let_def by (simp add: as_float_def small)
qed

theorem reading_well_typed_witness:
  "\<exists>r. parse_message ''factory/A/oven/temp'' (CHR 0x7B # ''\"value\": 232}'') = Inr (Some r) \<and>
     jget ''scope'' r = Some (JStr ''line:A'') \<and>
     (\<forall>y. evaluate_condition [(''metric'', JStr ''temp''), (''operator'', JStr ''>''), (''value'', JFloat (Fin y))] r = Inr (y < 232))"
proof -
  let ?r = "reading_of ''A'' ''oven'' ''temp'' (Fin 232)"
  have keys: "jget ''scope'' ?r = Some (JStr ''line:A'')" "jget ''metric'' ?r = Some (JStr ''temp'')" "jget ''temp'' ?r = Some (JFloat (Fin 232))"
    by (simp_all add: reading_of_def jget_def)
  obtain metric x where m: "jget ''metric'' ?r = Some (if metric = ''metric'' then JFloat x else JStr metric)"
    "metric \<notin> set FIXED_KEYS \<Longrightarrow> jget metric ?r = Some (JFloat x)"
    "\<And>op f y. metric \<notin> set FIXED_KEYS \<Longrightarrow> operator_of op = Some f \<Longrightarrow>
       evaluate_condition [(''metric'', JStr metric), (''operator'', JStr op), (''value'', JFloat y)] ?r
         = Inr (f (JFloat x) (JFloat y) = Some True)"
    using reading_well_typed [OF parsed_sample] by blast
  have metric: "metric = ''temp''" using m(1) keys(2) by (auto split: if_splits)
  then have x: "x = Fin 232" using m(2) keys(3) by (simp add: FIXED_KEYS_def)
  show ?thesis
    using parsed_sample keys(1) m(3) [of "(''>'')" "\<lambda>a b. jlt b a" "Fin _"] by (simp add: metric x FIXED_KEYS_def operator_of_def)
qed

end
