(* ===== verification/Streams.thy ===== *)
theory Streams
  imports Ingest
begin

text \<open>
  The Redis stream between the MQTT bridge and the trigger worker (app/services/stream.py,
  app/workers/trigger_worker.py). The stream is its entries in order of their numbers, the last
  number delivered to the consumer group, and the numbers delivered and not acknowledged. How
  many of the oldest entries an approximate \<open>MAXLEN\<close> evicts is a function of the length.
\<close>

subsection \<open>The stream\<close>

type_synonym fields = "(string \<times> string) list"

record stream =
  st_up :: bool
  st_entries :: "(nat \<times> fields) list"
  st_seq :: nat
  st_group :: "nat option"
  st_pending :: "nat list"
  st_evict :: "nat \<Rightarrow> nat"

definition MAX_LEN :: nat where
  "MAX_LEN = 100000"

definition DEFAULT_BATCH :: nat where
  "DEFAULT_BATCH = 16"

definition redis_down :: exc where
  "redis_down = ConnectionError ''redis''"

text \<open>XADD.\<close>

definition xadd :: "fields \<Rightarrow> stream \<Rightarrow> (exc + nat) \<times> stream" where
  "xadd f st =
     (if \<not> st_up st then (Inl redis_down, st)
      else let i = st_seq st + 1; es = st_entries st @ [(i, f)]
           in (Inr i, st\<lparr>st_entries := drop (st_evict st (length es)) es, st_seq := i\<rparr>))"

text \<open>XGROUP CREATE at \<open>0\<close>; an existing group answers BUSYGROUP, which is tolerated.\<close>

definition ensure_consumer_group :: "stream \<Rightarrow> (exc + unit) \<times> stream" where
  "ensure_consumer_group st =
     (if \<not> st_up st then (Inl redis_down, st)
      else case st_group st of
             Some l \<Rightarrow> (Inr (), st)
           | None \<Rightarrow> (Inr (), st\<lparr>st_group := Some 0\<rparr>))"

text \<open>The entries after the last one delivered.\<close>

definition unread :: "stream \<Rightarrow> (nat \<times> fields) list" where
  "unread st = filter (\<lambda>e. (case st_group st of None \<Rightarrow> 0 | Some l \<Rightarrow> l) < fst e) (st_entries st)"

text \<open>XREADGROUP with \<open>>\<close>: the first unread entries, which become pending.\<close>

definition xreadgroup :: "nat \<Rightarrow> stream \<Rightarrow> (exc + (nat \<times> fields) list) \<times> stream" where
  "xreadgroup batch st =
     (if \<not> st_up st then (Inl redis_down, st)
      else let es = take batch (unread st)
           in (Inr es, if es = [] then st
                       else st\<lparr>st_group := Some (fst (last es)), st_pending := st_pending st @ map fst es\<rparr>))"

definition xack :: "nat \<Rightarrow> stream \<Rightarrow> (exc + unit) \<times> stream" where
  "xack i st = (if \<not> st_up st then (Inl redis_down, st) else (Inr (), st\<lparr>st_pending := removeAll i (st_pending st)\<rparr>))"

subsection \<open>Publishing\<close>

definition publish_reading :: "(pyfloat \<Rightarrow> string) \<Rightarrow> dict \<Rightarrow> stream \<Rightarrow> (exc + nat) \<times> stream" where
  "publish_reading sf r = xadd [(''payload'', json_dumps sf (JObj r))]"

text \<open>\<open>enqueue_message\<close>: the number of the entry, or None for a dropped message or a failed publish.\<close>

definition enqueue_message :: "(pyfloat \<Rightarrow> string) \<Rightarrow> string \<Rightarrow> string \<Rightarrow> stream \<Rightarrow> (exc + nat option) \<times> stream" where
  "enqueue_message sf topic payload st =
     (case parse_message topic payload of
        Inl e \<Rightarrow> (Inl e, st)
      | Inr None \<Rightarrow> (Inr None, st)
      | Inr (Some parsed) \<Rightarrow>
          (case publish_reading sf parsed st of
             (Inl e, st') \<Rightarrow> (Inr None, st')
           | (Inr i, st') \<Rightarrow> (Inr (Some i), st')))"

text \<open>\<open>on_message\<close>: onto the stream, or evaluated in the bridge; a message is handled for its effect.\<close>

definition on_message ::
  "bool \<Rightarrow> string \<Rightarrow> string \<Rightarrow> stream \<times> 'a trigger_db_scheme \<Rightarrow> (exc + unit) \<times> stream \<times> 'a trigger_db_scheme" where
  "on_message use_stream topic payload = (\<lambda>(st, s).
     if use_stream
     then (case enqueue_message (show_float s) topic payload st of
             (Inl e, st') \<Rightarrow> (Inl e, st', s) | (Inr i, st') \<Rightarrow> (Inr (), st', s))
     else (case handle_message topic payload s of
             (Inl e, s') \<Rightarrow> (Inl e, st, s') | (Inr n, s') \<Rightarrow> (Inr (), st, s')))"

subsection \<open>Consuming\<close>

text \<open>The handler of one entry: its payload field, read and handled.\<close>

definition handle_entry :: "(json \<Rightarrow> ('s, 'b) py) \<Rightarrow> fields \<Rightarrow> ('s, 'b) py" where
  "handle_entry handler f =
     (case map_of f ''payload'' of
        None \<Rightarrow> throw (KeyError ''payload'')
      | Some payload \<Rightarrow> (case json_loads payload of
                           None \<Rightarrow> throw (ValueError ''JSONDecodeError'')
                         | Some reading \<Rightarrow> handler reading))"

text \<open>One entry inside the loop's catch-all: acknowledged only when its handler returned.\<close>

definition deliver :: "(json \<Rightarrow> ('s, 'b) py) \<Rightarrow> nat \<times> fields \<Rightarrow> nat \<times> stream \<times> 's \<Rightarrow> nat \<times> stream \<times> 's" where
  "deliver handler e = (\<lambda>(n, st, s).
     case handle_entry handler (snd e) s of
       (Inl x, s') \<Rightarrow> (n, st, s')
     | (Inr v, s') \<Rightarrow> (case xack (fst e) st of (Inl x, st') \<Rightarrow> (n, st', s') | (Inr u, st') \<Rightarrow> (n + 1, st', s')))"

text \<open>
  The loop of \<open>consume\<close> after the group is ensured, for at most \<open>k\<close> rounds: None when it is still
  running after them. An error of Redis when reading leaves the loop.
\<close>

fun consume_loop ::
  "nat \<Rightarrow> bool \<Rightarrow> nat \<Rightarrow> (json \<Rightarrow> ('s, 'b) py) \<Rightarrow> nat \<times> stream \<times> 's \<Rightarrow> (exc + nat) option \<times> stream \<times> 's" where
  "consume_loop 0 once batch handler (n, st, s) = (None, st, s)"
| "consume_loop (Suc k) once batch handler (n, st, s) =
     (case xreadgroup batch st of
        (Inl e, st1) \<Rightarrow> (Some (Inl e), st1, s)
      | (Inr es, st1) \<Rightarrow>
          (case fold (deliver handler) es (n, st1, s) of
             (n', st2, s') \<Rightarrow>
               if once then (Some (Inr n'), st2, s') else consume_loop k once batch handler (n', st2, s')))"

definition consume ::
  "nat \<Rightarrow> bool \<Rightarrow> nat \<Rightarrow> (json \<Rightarrow> ('s, 'b) py) \<Rightarrow> stream \<times> 's \<Rightarrow> (exc + nat) option \<times> stream \<times> 's" where
  "consume k once batch handler = (\<lambda>(st, s).
     case ensure_consumer_group st of
       (Inl e, st1) \<Rightarrow> (Some (Inl e), st1, s)
     | (Inr u, st1) \<Rightarrow> consume_loop k once batch handler (0, st1, s))"

subsection \<open>The trigger worker\<close>

text \<open>\<open>process_reading\<close>: the failed evaluation is rolled back and raised again.\<close>

definition process_reading :: "json \<Rightarrow> ('a trigger_db_scheme, int) py" where
  "process_reading reading =
     (case reading of
        JObj d \<Rightarrow> with_state (\<lambda>s.
          let code = jget_or_null ''line_code'' d;
              r = (if jtruthy code \<and> jget ''line_id'' d = None then with_line code d s else d)
          in bind (in_request (evaluate r)) (\<lambda>fired. ret (int (length fired))))
      | _ \<Rightarrow> throw (AttributeError ''get''))"

text \<open>\<open>run\<close>, for \<open>k\<close> rounds of the loop.\<close>

definition worker_run :: "nat \<Rightarrow> stream \<times> 'a trigger_db_scheme \<Rightarrow> (exc + nat) option \<times> stream \<times> 'a trigger_db_scheme" where
  "worker_run k = consume k False DEFAULT_BATCH process_reading"

subsection \<open>Delivery\<close>

text \<open>Entries in order of their numbers; what is pending was delivered.\<close>

definition stream_ok :: "stream \<Rightarrow> bool" where
  "stream_ok st \<longleftrightarrow> st_up st \<and> sorted_wrt (<) (map fst (st_entries st)) \<and>
     (\<forall>e\<in>set (st_entries st). 0 < fst e \<and> fst e \<le> st_seq st) \<and> distinct (st_pending st) \<and>
     (case st_group st of None \<Rightarrow> st_pending st = [] | Some l \<Rightarrow> l \<le> st_seq st \<and> (\<forall>i\<in>set (st_pending st). i \<le> l))"

text \<open>Handling entries one after the other: the numbers of those that failed, and the final state.\<close>

fun handle_all :: "(json \<Rightarrow> ('s, 'b) py) \<Rightarrow> (nat \<times> fields) list \<Rightarrow> 's \<Rightarrow> nat list \<times> 's" where
  "handle_all h [] s = ([], s)"
| "handle_all h (e # es) s =
     (case handle_entry h (snd e) s of
        (Inl x, s') \<Rightarrow> (case handle_all h es s' of (f, s2) \<Rightarrow> (fst e # f, s2))
      | (Inr v, s') \<Rightarrow> handle_all h es s')"

lemma handle_all_append:
  "handle_all h (es @ es') s =
     (case handle_all h es s of (f, s1) \<Rightarrow> case handle_all h es' s1 of (f', s2) \<Rightarrow> (f @ f', s2))"
  by (induction es arbitrary: s) (auto split: prod.splits sum.splits)

lemma handle_all_failed:
  assumes "handle_all h es s = (f, s')"
  shows "set f \<subseteq> fst ` set es" "length f \<le> length es" "distinct (map fst es) \<Longrightarrow> distinct f"
proof -
  have "set f \<subseteq> fst ` set es \<and> length f \<le> length es \<and> (distinct (map fst es) \<longrightarrow> distinct f)"
    using assms
  proof (induction es arbitrary: s f)
    case (Cons e es)
    then show ?case by (fastforce split: prod.splits sum.splits)
  qed simp
  then show "set f \<subseteq> fst ` set es" "length f \<le> length es" "distinct (map fst es) \<Longrightarrow> distinct f" by auto
qed

lemma deliver_all:
  assumes "st_up st" "st_pending st = P @ map fst es" "distinct (st_pending st)" "handle_all h es s = (f, s')"
  shows "fold (deliver h) es (n, st, s) = (n + length es - length f, st\<lparr>st_pending := P @ f\<rparr>, s')"
  using assms
proof (induction es arbitrary: P n st s f)
  case (Cons e es)
  obtain r s1 where e: "handle_entry h (snd e) s = (r, s1)" by fastforce
  show ?case
  proof (cases r)
    case (Inl x)
    obtain f' where f': "handle_all h es s1 = (f', s')" "f = fst e # f'"
      using Cons.prems(4) by (auto simp: e Inl split: prod.splits)
    have "fold (deliver h) es (n, st, s1) = (n + length es - length f', st\<lparr>st_pending := (P @ [fst e]) @ f'\<rparr>, s')"
      using Cons.prems f' by (intro Cons.IH) auto
    moreover have "deliver h e (n, st, s) = (n, st, s1)" by (simp add: deliver_def e Inl)
    ultimately show ?thesis using f' by simp
  next
    case (Inr v)
    have f: "handle_all h es s1 = (f, s')" using Cons.prems(4) by (simp add: e Inr)
    let ?st = "st\<lparr>st_pending := P @ map fst es\<rparr>"
    have "removeAll (fst e) (st_pending st) = P @ map fst es" using Cons.prems(2,3) by simp
    then have "deliver h e (n, st, s) = (n + 1, ?st, s1)"
      using Cons.prems(1) by (simp add: deliver_def e Inr xack_def)
    moreover have "fold (deliver h) es (n + 1, ?st, s1) = (n + 1 + length es - length f, ?st\<lparr>st_pending := P @ f\<rparr>, s')"
      using Cons.prems f by (intro Cons.IH) auto
    ultimately show ?thesis by simp
  qed
qed simp

lemma filter_after:
  assumes "sorted_wrt (<) (map fst xs)" "take b (filter (\<lambda>e. l < fst e) xs) = es" "es \<noteq> []"
  shows "filter (\<lambda>e. fst (last es) < fst e) xs = drop b (filter (\<lambda>e. (l :: nat) < fst e) xs)"
proof -
  let ?u = "filter (\<lambda>e. l < fst e) xs"
  have u: "?u = es @ drop b ?u" using assms(2) by (metis append_take_drop_id)
  have "sorted_wrt (<) (map fst ?u)"
    using assms(1) by (simp add: sorted_wrt_map sorted_wrt_filter)
  then have s: "sorted_wrt (<) (map fst es @ map fst (drop b ?u))" by (metis u map_append)
  have "last es \<in> set ?u" using last_in_set [OF assms(3)] u by (metis Un_iff set_append)
  then have "l < fst (last es)" by simp
  then have "filter (\<lambda>e. fst (last es) < fst e) xs = filter (\<lambda>e. fst (last es) < fst e) ?u"
    by (auto simp: filter_filter intro!: filter_cong)
  also have "\<dots> = filter (\<lambda>e. fst (last es) < fst e) es @ filter (\<lambda>e. fst (last es) < fst e) (drop b ?u)"
    by (subst u) simp
  also have "filter (\<lambda>e. fst (last es) < fst e) es = []"
  proof -
    have "sorted_wrt (<) (map fst (butlast es @ [last es]))" using s assms(3) by (simp add: sorted_wrt_append)
    then have "\<forall>e\<in>set (butlast es @ [last es]). \<not> fst (last es) < fst e" by (auto simp: sorted_wrt_append)
    then show ?thesis using assms(3) by (simp add: filter_empty_conv)
  qed
  also have "filter (\<lambda>e. fst (last es) < fst e) (drop b ?u) = drop b ?u"
    using s assms(3) by (auto simp: sorted_wrt_append filter_id_conv)
  finally show ?thesis by simp
qed

lemma unread_sorted: "stream_ok st \<Longrightarrow> sorted_wrt (<) (map fst (unread st))"
  by (simp add: stream_ok_def unread_def sorted_wrt_map sorted_wrt_filter)

text \<open>One round: the next entries are handled in order, the failed ones stay pending.\<close>

lemma round_correct:
  assumes "stream_ok st" "st_group st \<noteq> None" "handle_all h (take b (unread st)) s = (f, s')"
  obtains st1 st2 where "xreadgroup b st = (Inr (take b (unread st)), st1)"
    "fold (deliver h) (take b (unread st)) (n, st1, s) = (n + length (take b (unread st)) - length f, st2, s')"
    "stream_ok st2" "st_group st2 \<noteq> None" "unread st2 = drop b (unread st)" "st_pending st2 = st_pending st @ f"
    "st_entries st2 = st_entries st"
proof -
  define es where "es = take b (unread st)"
  show ?thesis
  proof (cases "es = []")
    case True
    then have "f = []" "s' = s" using assms(3) by (auto simp: es_def)
    moreover have "drop b (unread st) = unread st" using True by (cases b) (simp_all add: es_def)
    moreover have "take b (unread st) = []" using True by (simp only: es_def)
    moreover have "xreadgroup b st = (Inr [], st)" using True assms(1) by (simp add: xreadgroup_def stream_ok_def es_def Let_def)
    ultimately show ?thesis
      using assms(1,2) by (intro that [of st st]) auto
  next
    case False
    obtain l where l: "st_group st = Some l" using assms(2) by auto
    have u: "unread st = filter (\<lambda>e. l < fst e) (st_entries st)" by (simp add: unread_def l)
    define st1 where "st1 = st\<lparr>st_group := Some (fst (last es)), st_pending := st_pending st @ map fst es\<rparr>"
    have read: "xreadgroup b st = (Inr es, st1)"
      using assms(1) False by (simp add: xreadgroup_def stream_ok_def es_def [symmetric] st1_def)
    have sorted: "sorted_wrt (<) (map fst es)"
      using unread_sorted [OF assms(1)] by (simp add: es_def sorted_wrt_map take_map [symmetric] sorted_wrt_take)
    have mem: "\<forall>e\<in>set es. e \<in> set (st_entries st) \<and> l < fst e"
      using u by (auto simp: es_def dest: in_set_takeD)
    have old: "\<forall>i\<in>set (st_pending st). i \<le> l" using assms(1) by (simp add: stream_ok_def l)
    have dis: "distinct (st_pending st @ map fst es)"
      using assms(1) sorted mem old by (fastforce simp: stream_ok_def strict_sorted_iff)
    define st2 where "st2 = st1\<lparr>st_pending := st_pending st @ f\<rparr>"
    have fold: "fold (deliver h) es (n, st1, s) = (n + length es - length f, st2, s')"
      unfolding st2_def using assms(1,3) dis by (intro deliver_all) (simp_all add: stream_ok_def st1_def es_def)
    note ff = handle_all_failed [OF assms(3) [folded es_def]]
    have top: "\<forall>i\<in>fst ` set es. i \<le> fst (last es)"
    proof -
      have "sorted_wrt (<) (map fst (butlast es @ [last es]))" using sorted False by simp
      then have "\<forall>e\<in>set (butlast es @ [last es]). fst e \<le> fst (last es)" by (auto simp: sorted_wrt_append less_imp_le)
      then show ?thesis using False by simp
    qed
    have "last es \<in> set es" using False by simp
    with mem have last: "l < fst (last es)" "last es \<in> set (st_entries st)" by auto
    have "distinct f" using ff(3) sorted by (simp add: strict_sorted_iff)
    then have "distinct (st_pending st @ f)" using ff(1) dis by auto
    moreover have "\<forall>i\<in>set (st_pending st @ f). i \<le> fst (last es)"
      using old last(1) top ff(1) by fastforce
    ultimately have ok: "stream_ok st2"
      using assms(1) last(2) by (auto simp: stream_ok_def st2_def st1_def)
    have "unread st2 = filter (\<lambda>e. fst (last es) < fst e) (st_entries st)"
      by (simp add: unread_def st2_def st1_def)
    then have "unread st2 = drop b (unread st)"
      using filter_after [OF _ _ False, of "st_entries st" b l] assms(1)
      by (simp add: u [symmetric] es_def [symmetric] stream_ok_def)
    then show ?thesis
      using read fold ok that [of st1 st2] by (simp add: es_def [symmetric] st2_def st1_def)
  qed
qed

text \<open>\<open>k\<close> rounds of the endless loop.\<close>

lemma rounds_correct:
  assumes "stream_ok st" "st_group st \<noteq> None" "handle_all h (take (k * b) (unread st)) s = (f, s')"
  shows "\<exists>st'. consume_loop k False b h (n, st, s) = (None, st', s') \<and> stream_ok st' \<and>
    unread st' = drop (k * b) (unread st) \<and> st_pending st' = st_pending st @ f \<and> st_entries st' = st_entries st"
  using assms
proof (induction k arbitrary: n st s f)
  case (Suc k)
  obtain f1 s1 where 1: "handle_all h (take b (unread st)) s = (f1, s1)" by fastforce
  obtain st1 st2 where r: "xreadgroup b st = (Inr (take b (unread st)), st1)"
    "fold (deliver h) (take b (unread st)) (n, st1, s) = (n + length (take b (unread st)) - length f1, st2, s1)"
    "stream_ok st2" "st_group st2 \<noteq> None" "unread st2 = drop b (unread st)" "st_pending st2 = st_pending st @ f1"
    "st_entries st2 = st_entries st"
    by (rule round_correct [OF Suc.prems(1,2) 1])
  have "take (Suc k * b) (unread st) = take b (unread st) @ take (k * b) (unread st2)"
    by (simp add: r(5) take_add)
  then obtain f2 where 2: "handle_all h (take (k * b) (unread st2)) s1 = (f2, s')" "f = f1 @ f2"
    using Suc.prems(3) 1 by (auto simp: handle_all_append split: prod.splits)
  let ?n = "n + length (take b (unread st)) - length f1"
  obtain st' where st': "consume_loop k False b h (?n, st2, s1) = (None, st', s')" "stream_ok st'"
    "unread st' = drop (k * b) (unread st2)" "st_pending st' = st_pending st2 @ f2" "st_entries st' = st_entries st2"
    using Suc.IH [OF r(3,4) 2(1)] by blast
  have "consume_loop (Suc k) False b h (n, st, s) = (None, st', s')"
    using r(1,2) st'(1) by simp
  moreover have "drop (k * b) (drop b (unread st)) = drop (Suc k * b) (unread st)" by (simp add: add.commute)
  ultimately show ?case using st' r(5-7) 2(2) by (intro exI [of _ st']) (simp del: drop_drop)
qed simp

lemma ensure_ok:
  assumes "stream_ok st"
  obtains st1 where "ensure_consumer_group st = (Inr (), st1)" "stream_ok st1" "st_group st1 \<noteq> None"
    "unread st1 = unread st" "st_pending st1 = st_pending st" "st_entries st1 = st_entries st"
proof (cases "st_group st")
  case None
  show ?thesis
    by (rule that [of "st\<lparr>st_group := Some 0\<rparr>"])
      (use assms None in \<open>simp_all add: ensure_consumer_group_def stream_ok_def unread_def\<close>)
next
  case (Some l)
  show ?thesis
    by (rule that [of st]) (use assms Some in \<open>simp_all add: ensure_consumer_group_def stream_ok_def\<close>)
qed

lemma consume_correct:
  assumes "stream_ok st"
  shows "(case handle_all h (take (k * batch) (unread st)) s of (f, s') \<Rightarrow>
      \<exists>st'. consume k False batch h (st, s) = (None, st', s') \<and> unread st' = drop (k * batch) (unread st) \<and>
        st_pending st' = st_pending st @ f \<and> st_entries st' = st_entries st) \<and>
    (case handle_all h (take batch (unread st)) s of (f, s') \<Rightarrow>
      \<exists>st'. consume 1 True batch h (st, s) = (Some (Inr (length (take batch (unread st)) - length f)), st', s') \<and>
        unread st' = drop batch (unread st) \<and> st_pending st' = st_pending st @ f)"
proof -
  obtain st1 where e: "ensure_consumer_group st = (Inr (), st1)" "stream_ok st1" "st_group st1 \<noteq> None"
    "unread st1 = unread st" "st_pending st1 = st_pending st" "st_entries st1 = st_entries st"
    by (rule ensure_ok [OF assms])
  have run: "consume n once batch h (st, s) = consume_loop n once batch h (0, st1, s)" for n once
    by (simp add: consume_def e(1))
  obtain f s' where 1: "handle_all h (take (k * batch) (unread st)) s = (f, s')" by fastforce
  obtain g s1 where 2: "handle_all h (take batch (unread st1)) s = (g, s1)" by fastforce
  obtain st2 st3 where r: "xreadgroup batch st1 = (Inr (take batch (unread st1)), st2)"
    "fold (deliver h) (take batch (unread st1)) (0, st2, s) = (0 + length (take batch (unread st1)) - length g, st3, s1)"
    "unread st3 = drop batch (unread st1)" "st_pending st3 = st_pending st1 @ g"
    using round_correct [OF e(2,3) 2, of 0] by metis
  have "consume 1 True batch h (st, s) = (Some (Inr (length (take batch (unread st)) - length g)), st3, s1)"
    using r(1,2) by (simp add: run e(4))
  moreover obtain st' where "consume_loop k False batch h (0, st1, s) = (None, st', s')"
    "unread st' = drop (k * batch) (unread st1)" "st_pending st' = st_pending st1 @ f" "st_entries st' = st_entries st1"
    using rounds_correct [OF e(2,3) 1 [folded e(4)], of 0] by blast
  ultimately show ?thesis using 1 2 e(4-6) r(3,4) run [of k False] by auto
qed

text \<open>
  C28. The consumer hands every unread entry of the stream to its handler exactly once, in
  order, whatever the handler does: after \<open>k\<close> rounds of the endless loop the first \<open>k * batch\<close>
  unread entries have been handled, the others are unread, and the loop is still running. An
  entry whose handler failed stays pending and is not unread: no later round delivers it again.
  A call with \<open>once\<close> returns after one batch with the number of entries acknowledged.
\<close>

theorem stream_delivers_once:
  assumes "stream_ok st"
  shows "(case handle_all h (take (k * batch) (unread st)) s of (f, s') \<Rightarrow>
      \<exists>st'. consume k False batch h (st, s) = (None, st', s') \<and> unread st' = drop (k * batch) (unread st) \<and>
        st_pending st' = st_pending st @ f \<and> st_entries st' = st_entries st) \<and>
    (case handle_all h (take batch (unread st)) s of (f, s') \<Rightarrow>
      \<exists>st'. consume 1 True batch h (st, s) = (Some (Inr (length (take batch (unread st)) - length f)), st', s') \<and>
        unread st' = drop batch (unread st) \<and> st_pending st' = st_pending st @ f)"
  using assms by (rule consume_correct)

lemma set_jset: "set (jset k v d) \<subseteq> insert (k, v) (set d)"
  by (induction d) (auto split: if_splits)

text \<open>
  A reading survives the stream: a message the bridge accepts on a healthy stream that is
  not full, with nothing unread, is handed to the consumer's handler as exactly the dictionary
  the bridge parsed, and leaves nothing unread; the call counts it when the handler returned.
  The hypothesis is that a finite float among its values is printed so that it reads back.
\<close>

theorem reading_survives_stream:
  assumes "parse_message topic payload = Inr (Some r)" "stream_ok st" "unread st = []" "0 < batch"
    "\<forall>x. JFloat (Fin x) \<in> snd ` set r \<longrightarrow> float_text (sf (Fin x)) x"
    "st_evict st (length (st_entries st) + 1) = 0"
  shows "\<exists>i st1 st2. enqueue_message sf topic payload st = (Inr (Some i), st1) \<and>
    consume 1 True batch h (st1, s) =
      (Some (Inr (if \<not> isl (fst (h (JObj r) s)) then 1 else 0)), st2, snd (h (JObj r) s)) \<and> unread st2 = []"
proof -
  obtain line device metric v x where r: "r = reading_of line device metric x"
    by (rule parse_message_Some [OF assms(1)])
  have d: "distinct (map fst r)" by (simp add: r reading_of_def distinct_jset del: jset.simps)
  have "printable sf (snd p)" if "p \<in> set r" for p
  proof -
    have "snd p \<in> {JStr metric, JFloat x, JStr (''line:'' @ line), JStr line, JStr device, JStr ''iot''}"
      using that unfolding r reading_of_def
      by (auto simp del: jset.simps dest!: subsetD [OF set_jset])
    moreover have "x = Fin y \<Longrightarrow> snd p = JFloat x \<Longrightarrow> float_text (sf (Fin y)) y" for y
      using assms(5) that by (metis image_eqI)
    ultimately show ?thesis by (cases x) auto
  qed
  with d have p: "json_loads (json_dumps sf (JObj r)) = Some (JObj r)" by (intro json_loads_dumps) simp
  define i where "i = st_seq st + 1"
  define f where "f = [(''payload'', json_dumps sf (JObj r))]"
  define st1 where "st1 = st\<lparr>st_entries := st_entries st @ [(i, f)], st_seq := i\<rparr>"
  have pub: "enqueue_message sf topic payload st = (Inr (Some i), st1)"
  proof -
    have "xadd f st = (Inr i, st1)"
      using assms(2,6) by (simp add: xadd_def Let_def st1_def i_def stream_ok_def)
    then show ?thesis
      by (simp only: enqueue_message_def assms(1) publish_reading_def f_def sum.case option.case prod.case)
  qed
  have ok: "stream_ok st1"
  proof -
    have "\<forall>e\<in>set (st_entries st). 0 < fst e \<and> fst e < i" using assms(2) by (auto simp: stream_ok_def i_def)
    then show ?thesis
      using assms(2) by (cases "st_group st") (auto simp: stream_ok_def st1_def i_def sorted_wrt_append)
  qed
  have u: "unread st1 = [(i, f)]"
  proof -
    have "(case st_group st of None \<Rightarrow> 0 | Some l \<Rightarrow> l) < i"
      using assms(2) by (cases "st_group st") (simp_all add: i_def stream_ok_def)
    then show ?thesis using assms(3) by (simp add: unread_def st1_def)
  qed
  have h: "handle_entry h f = h (JObj r)" by (simp add: handle_entry_def f_def p del: json_dumps.simps)
  have t: "take batch (unread st1) = [(i, f)]" using assms(4) by (cases batch) (simp_all add: u)
  define ok1 where "ok1 = (\<not> isl (fst (h (JObj r) s)))"
  have all: "handle_all h (take batch (unread st1)) s = (if ok1 then [] else [i], snd (h (JObj r) s))"
    by (cases "h (JObj r) s"; cases "fst (h (JObj r) s)") (simp_all add: t h ok1_def)
  obtain st2 where c: "consume 1 True batch h (st1, s) =
      (Some (Inr (length (take batch (unread st1)) - length (if ok1 then [] else [i]))), st2, snd (h (JObj r) s))"
    "unread st2 = drop batch (unread st1)"
    using conjunct2 [OF consume_correct [OF ok, where h = h and k = 1 and batch = batch and s = s], unfolded all case_prod_conv] by blast
  have "length (take batch (unread st1)) - length (if ok1 then [] else [i]) = (if ok1 then 1 else 0)" by (simp only: t) simp
  moreover have "unread st2 = []" using c(2) assms(4) by (cases batch) (simp_all add: u)
  ultimately show ?thesis using pub c(1) by (intro exI [of _ i] exI [of _ st1] exI [of _ st2]) (simp add: ok1_def)
qed

subsection \<open>A small stream\<close>

definition sample_stream :: stream where
  "sample_stream = \<lparr>st_up = True, st_entries = [], st_seq = 0, st_group = None, st_pending = [], st_evict = (\<lambda>n. n - MAX_LEN)\<rparr>"

definition sample_backlog :: stream where
  "sample_backlog = sample_stream\<lparr>st_entries := [(1, []), (2, [(''payload'', ''null'')]), (3, [(''payload'', ''1'')])], st_seq := 3\<rparr>"

definition log_handler :: "json \<Rightarrow> (json list, unit) py" where
  "log_handler v = (if v = JNull then throw (AttributeError ''get'') else modify (\<lambda>xs. xs @ [v]))"

text \<open>Of three entries the first two fail, and are pending after the stream was drained.\<close>

theorem stream_delivers_once_witness:
  "\<exists>st'. consume 2 False 16 log_handler (sample_backlog, []) = (None, st', [JInt 1]) \<and>
     unread st' = [] \<and> st_pending st' = [1, 2]"
proof -
  have ok: "stream_ok sample_backlog" by (simp add: stream_ok_def sample_backlog_def sample_stream_def)
  have u: "unread sample_backlog = st_entries sample_backlog"
    by (simp add: unread_def sample_backlog_def sample_stream_def)
  have "json_loads ''null'' = Some JNull" "json_loads ''1'' = Some (JInt 1)" by code_simp+
  then have "handle_all log_handler (take (2 * 16) (unread sample_backlog)) [] = ([1, 2], [JInt 1])"
    by (simp add: u) (simp add: sample_backlog_def sample_stream_def handle_entry_def log_handler_def)
  with stream_delivers_once [OF ok, where h = log_handler and k = 2 and batch = 16 and s = "[]"] u show ?thesis
    by (auto simp: sample_backlog_def sample_stream_def)
qed

theorem reading_survives_stream_witness:
  "\<exists>i st1 st2 r. enqueue_message (\<lambda>_. ''232.0'') ''factory/A/oven/temp'' (CHR 0x7B # ''\"value\": 232}'') sample_stream = (Inr (Some i), st1) \<and>
     consume 1 True 16 log_handler (st1, []) = (Some (Inr 1), st2, [JObj r]) \<and> unread st2 = []"
proof -
  have "decimal_value False ''232'' ''0'' 0 = Fin 232"
    by (simp add: decimal_value_def pow10_def to_float_def float_limit_def digit_val_def)
  then have num: "number_end u \<Longrightarrow> json_value (''232.0'' @ u) = Some (JFloat (Fin 232), u)" for u
    by (cases u) (auto simp: json_value.simps json_word_def json_words_def json_number_def is_digit_def number_end_def Let_def)
  then have readable: "float_text ''232.0'' 232" by (simp add: float_text_def json_space_def)
  have ok: "stream_ok sample_stream" "unread sample_stream = []" "st_evict sample_stream (length (st_entries sample_stream) + 1) = 0"
    by (simp_all add: stream_ok_def sample_stream_def unread_def MAX_LEN_def)
  have "\<forall>x. JFloat (Fin x) \<in> snd ` set (reading_of ''A'' ''oven'' ''temp'' (Fin 232)) \<longrightarrow> float_text ''232.0'' x"
    using readable by (auto simp: reading_of_def)
  from reading_survives_stream [OF parsed_sample ok(1,2) _ this ok(3), where batch = 16 and h = log_handler and s = "[]"]
  show ?thesis by (fastforce simp: log_handler_def)
qed

end
