(* ===== verification/Certificates.thy ===== *)
theory Certificates
  imports TrainingLife
begin

text \<open>
  The invariant of the training tables: one attempt per enrolment, one declaration per attempt,
  and every certification traces back to a passed attempt, its signed declaration and the
  trainee it was issued to. Every operation keeps it on every outcome, exceptions included.
\<close>

subsection \<open>The invariant\<close>

definition passed_ok :: "'a training_db_scheme \<Rightarrow> attempt \<Rightarrow> enrolment \<Rightarrow> course_version \<Rightarrow> bool" where
  "passed_ok s a e v \<longleftrightarrow> e \<in> set (enrolments s) \<and> by_key v_id (e_version_id e) (course_versions s) = Some v \<and>
     at_enrolment_id a = e_id e \<and> submitted_at a \<noteq> None \<and>
     (\<exists>x. score a = Some (Fin x) \<and> fle (pass_threshold v) (Fin x))"

definition cert_ok :: "'a training_db_scheme \<Rightarrow> certification \<Rightarrow> bool" where
  "cert_ok s c \<longleftrightarrow> (\<exists>a\<in>set (attempts s). \<exists>d\<in>set (declarations s). \<exists>e v.
     passed a = Some True \<and> passed_ok s a e v \<and>
     ct_attempt_id c = at_id a \<and> ct_declaration_id c = d_id d \<and> d_attempt_id d = at_id a \<and> typed_name d \<noteq> [] \<and>
     ct_trainee_id c = e_trainee_id e \<and> ct_version_id c = v_id v \<and> ct_course_id c = v_course_id v \<and>
     (\<exists>t u. valid_from c = Aware t \<and> valid_until c = Aware u \<and> add_months t (validity_months v) = Inr u))"

definition drawn :: "'a session_scheme \<Rightarrow> string set" where
  "drawn s = uuid_at s ` {..<uuid_next s}"

definition training_wf :: "'a training_db_scheme \<Rightarrow> bool" where
  "training_wf s \<longleftrightarrow> inj (uuid_at s) \<and>
     distinct (map e_id (enrolments s)) \<and> e_id ` set (enrolments s) \<subseteq> drawn s \<and>
     distinct (map at_id (attempts s)) \<and> at_id ` set (attempts s) \<subseteq> drawn s \<and>
     distinct (map at_enrolment_id (attempts s)) \<and>
     distinct (map d_id (declarations s)) \<and> d_id ` set (declarations s) \<subseteq> drawn s \<and>
     distinct (map d_attempt_id (declarations s)) \<and> d_attempt_id ` set (declarations s) \<subseteq> at_id ` set (attempts s) \<and>
     distinct (map ct_declaration_id (certifications s)) \<and>
     (\<forall>a\<in>set (attempts s). passed a = Some True \<longrightarrow> (\<exists>e v. passed_ok s a e v)) \<and>
     (\<forall>c\<in>set (certifications s). cert_ok s c)"

lemma training_wf_cong:
  "same_training s t \<Longrightarrow> training_wf t = training_wf s"
  by (simp add: same_training_def training_wf_def cert_ok_def passed_ok_def drawn_def)

lemma training_wf_record [simp]: "training_wf (snd (record_entry ty ac e d u s)) = training_wf s"
  by (rule training_wf_cong) (rule record_entry_same [OF prod.collapse [symmetric]])

lemma fresh_id: "inj (uuid_at s) \<Longrightarrow> gen_uuid s \<notin> drawn s"
  by (auto simp: drawn_def gen_uuid_def inj_eq)

lemma drawn_Suc [simp]: "drawn (s\<lparr>uuid_next := Suc (uuid_next s)\<rparr>) = insert (gen_uuid s) (drawn s)"
  by (auto simp: drawn_def gen_uuid_def lessThan_Suc)

lemma drawn_frame [simp]:
  "drawn (s\<lparr>enrolments := es\<rparr>) = drawn s" "drawn (s\<lparr>attempts := ats\<rparr>) = drawn s"
  "drawn (s\<lparr>declarations := ds\<rparr>) = drawn s" "drawn (s\<lparr>certifications := cs\<rparr>) = drawn s"
  "drawn (s\<lparr>course_versions := vs\<rparr>) = drawn s"
  by (simp_all add: drawn_def)

subsection \<open>Writes that keep it\<close>

text \<open>Enrolments may change in every column but their id, trainee and version.\<close>

definition row_safe :: "(enrolment \<Rightarrow> enrolment) \<Rightarrow> bool" where
  "row_safe f \<longleftrightarrow> (\<forall>e. e_id (f e) = e_id e \<and> e_trainee_id (f e) = e_trainee_id e \<and> e_version_id (f e) = e_version_id e)"

lemma passed_ok_grow:
  assumes "passed_ok s a e v"
    "\<And>e. e \<in> set (enrolments s) \<Longrightarrow> \<exists>e'\<in>set (enrolments t). e_id e' = e_id e \<and> e_trainee_id e' = e_trainee_id e \<and>
       e_version_id e' = e_version_id e"
    "\<And>k v. by_key v_id k (course_versions s) = Some v \<Longrightarrow> \<exists>v'. by_key v_id k (course_versions t) = Some v' \<and>
       v_id v' = v_id v \<and> v_course_id v' = v_course_id v \<and> validity_months v' = validity_months v \<and>
       pass_threshold v' = pass_threshold v"
  shows "\<exists>e' v'. passed_ok t a e' v' \<and> e_trainee_id e' = e_trainee_id e \<and> v_id v' = v_id v \<and>
    v_course_id v' = v_course_id v \<and> validity_months v' = validity_months v"
proof -
  from assms(1) have "e \<in> set (enrolments s)" "by_key v_id (e_version_id e) (course_versions s) = Some v"
    by (simp_all add: passed_ok_def)
  with assms(2,3) obtain e' v' where "e' \<in> set (enrolments t)" "e_id e' = e_id e" "e_trainee_id e' = e_trainee_id e"
    "e_version_id e' = e_version_id e" "by_key v_id (e_version_id e) (course_versions t) = Some v'" "v_id v' = v_id v"
    "v_course_id v' = v_course_id v" "validity_months v' = validity_months v" "pass_threshold v' = pass_threshold v"
    by meson
  with assms(1) show ?thesis by (intro exI [of _ e'] exI [of _ v']) (simp add: passed_ok_def)
qed

lemma cert_ok_grow:
  assumes "cert_ok s c"
    "\<And>e. e \<in> set (enrolments s) \<Longrightarrow> \<exists>e'\<in>set (enrolments t). e_id e' = e_id e \<and> e_trainee_id e' = e_trainee_id e \<and>
       e_version_id e' = e_version_id e"
    "\<And>k v. by_key v_id k (course_versions s) = Some v \<Longrightarrow> \<exists>v'. by_key v_id k (course_versions t) = Some v' \<and>
       v_id v' = v_id v \<and> v_course_id v' = v_course_id v \<and> validity_months v' = validity_months v \<and>
       pass_threshold v' = pass_threshold v"
    "\<And>a. a \<in> set (attempts s) \<Longrightarrow> submitted_at a \<noteq> None \<Longrightarrow> a \<in> set (attempts t)"
    "set (declarations s) \<subseteq> set (declarations t)"
  shows "cert_ok t c"
proof -
  from assms(1) obtain a d e v where c: "a \<in> set (attempts s)" "d \<in> set (declarations s)"
    "passed a = Some True" "passed_ok s a e v" "ct_attempt_id c = at_id a" "ct_declaration_id c = d_id d"
    "d_attempt_id d = at_id a" "typed_name d \<noteq> []" "ct_trainee_id c = e_trainee_id e" "ct_version_id c = v_id v"
    "ct_course_id c = v_course_id v"
    "\<exists>t u. valid_from c = Aware t \<and> valid_until c = Aware u \<and> add_months t (validity_months v) = Inr u"
    unfolding cert_ok_def by blast
  have "submitted_at a \<noteq> None" using c(4) by (simp add: passed_ok_def)
  then have a: "a \<in> set (attempts t)" using assms(4) c(1) by blast
  obtain e' v' where "passed_ok t a e' v'" "e_trainee_id e' = e_trainee_id e" "v_id v' = v_id v"
    "v_course_id v' = v_course_id v" "validity_months v' = validity_months v"
    using passed_ok_grow [OF c(4) assms(2,3)] by blast
  moreover have "d \<in> set (declarations t)" using c(2) assms(5) by blast
  ultimately show ?thesis
    unfolding cert_ok_def using a c
    by (intro bexI [of _ a] bexI [of _ d] exI [of _ e'] exI [of _ v']) simp_all
qed

text \<open>The two parts of the invariant that look into the rows, carried from one state to the next.\<close>

lemma rows_grow:
  assumes "training_wf s" "\<And>a e v. passed_ok s a e v \<Longrightarrow> \<exists>e v. passed_ok t a e v" "\<And>c. cert_ok s c \<Longrightarrow> cert_ok t c"
  shows "\<forall>a\<in>set (attempts s). passed a = Some True \<longrightarrow> (\<exists>e v. passed_ok t a e v)"
    "\<forall>c\<in>set (certifications s). cert_ok t c"
proof -
  have s: "\<forall>a\<in>set (attempts s). passed a = Some True \<longrightarrow> (\<exists>e v. passed_ok s a e v)"
    "\<forall>c\<in>set (certifications s). cert_ok s c" using assms(1) by (simp_all add: training_wf_def)
  show "\<forall>a\<in>set (attempts s). passed a = Some True \<longrightarrow> (\<exists>e v. passed_ok t a e v)"
  proof (intro ballI impI)
    fix a assume "a \<in> set (attempts s)" "passed a = Some True"
    with s(1) obtain e v where "passed_ok s a e v" by meson
    then show "\<exists>e v. passed_ok t a e v" by (rule assms(2))
  qed
  show "\<forall>c\<in>set (certifications s). cert_ok t c" using s(2) assms(3) by simp
qed

lemma update_enrolment_wf:
  assumes wf: "training_wf s" and f: "row_safe f"
  shows "training_wf (update_enrolment i f s)"
proof -
  let ?t = "update_enrolment i f s"
  have id: "map e_id (enrolments ?t) = map e_id (enrolments s)"
    unfolding update_enrolment_def using f by (simp add: map_update_row row_safe_def)
  then have ids: "e_id ` set (enrolments ?t) = e_id ` set (enrolments s)" by (metis set_map)
  have e: "\<exists>e'\<in>set (enrolments ?t). e_id e' = e_id e \<and> e_trainee_id e' = e_trainee_id e \<and> e_version_id e' = e_version_id e"
    if "e \<in> set (enrolments s)" for e
    using that f by (auto simp: update_enrolment_def update_row_def row_safe_def)
  have p: "\<exists>e v. passed_ok ?t a e v" if "passed_ok s a e v" for a e v
    using passed_ok_grow [OF that e] by (auto simp: update_enrolment_def)
  have c: "cert_ok ?t c" if "cert_ok s c" for c
    using cert_ok_grow [OF that e] by (auto simp: update_enrolment_def)
  have "drawn ?t = drawn s" by (simp add: update_enrolment_def)
  with rows_grow [OF wf p c] wf show ?thesis unfolding training_wf_def id ids by (simp add: update_enrolment_def)
qed

lemma insert_enrolment_wf:
  assumes wf: "training_wf s" and e: "e_id e = gen_uuid s"
  shows "training_wf (s\<lparr>uuid_next := Suc (uuid_next s), enrolments := enrolments s @ [e]\<rparr>)"
proof -
  let ?t = "s\<lparr>uuid_next := Suc (uuid_next s), enrolments := enrolments s @ [e]\<rparr>"
  have p: "\<exists>e v. passed_ok ?t a e v" if "passed_ok s a e v" for a e v
    using passed_ok_grow [OF that, where t = ?t] by auto
  have c: "cert_ok ?t c" if "cert_ok s c" for c
    using cert_ok_grow [OF that, where t = ?t] by auto
  have new: "gen_uuid s \<notin> e_id ` set (enrolments s)"
    using wf fresh_id [of s] by (auto simp: training_wf_def)
  from rows_grow [OF wf p c] wf new show ?thesis by (auto simp: training_wf_def e)
qed

lemma uuid_only_wf:
  assumes wf: "training_wf s"
  shows "training_wf (s\<lparr>uuid_next := Suc (uuid_next s)\<rparr>)"
proof -
  have "passed_ok (s\<lparr>uuid_next := Suc (uuid_next s)\<rparr>) = passed_ok s" by (intro ext) (simp add: passed_ok_def)
  moreover from this have "cert_ok (s\<lparr>uuid_next := Suc (uuid_next s)\<rparr>) = cert_ok s" by (intro ext) (simp add: cert_ok_def)
  ultimately show ?thesis using wf by (auto simp: training_wf_def)
qed

lemma insert_attempt_wf:
  assumes wf: "training_wf s" and a: "at_id a = gen_uuid s" "at_enrolment_id a \<notin> at_enrolment_id ` set (attempts s)"
    "passed a = None"
  shows "training_wf (s\<lparr>uuid_next := Suc (uuid_next s), attempts := attempts s @ [a]\<rparr>)"
proof -
  let ?t = "s\<lparr>uuid_next := Suc (uuid_next s), attempts := attempts s @ [a]\<rparr>"
  have p: "\<exists>e v. passed_ok ?t a e v" if "passed_ok s a e v" for a e v
    using passed_ok_grow [OF that, where t = ?t] by auto
  have c: "cert_ok ?t c" if "cert_ok s c" for c
    using cert_ok_grow [OF that, where t = ?t] by auto
  have new: "gen_uuid s \<notin> at_id ` set (attempts s)"
    using wf fresh_id [of s] by (auto simp: training_wf_def)
  from rows_grow [OF wf p c] wf new a show ?thesis by (auto simp: training_wf_def)
qed

lemma update_attempt_wf:
  assumes wf: "training_wf s" and b: "b \<in> set (attempts s)" "submitted_at b = None"
    and a: "at_id a = at_id b" "at_enrolment_id a = at_enrolment_id b"
    and ok: "passed a = Some True \<Longrightarrow> \<exists>e v. passed_ok s a e v"
  shows "training_wf (update_attempt (at_id b) (\<lambda>_. a) s)"
proof -
  let ?t = "update_attempt (at_id b) (\<lambda>_. a) s"
  have d: "distinct (map at_id (attempts s))" using wf by (simp add: training_wf_def)
  have only: "r = b" if "r \<in> set (attempts s)" "at_id r = at_id b" for r
    by (metis by_key_unique [OF d that(1)] by_key_unique [OF d b(1)] that(2) option.inject)
  have rows: "attempts ?t = map (\<lambda>r. if r = b then a else r) (attempts s)"
    using only by (auto simp: update_attempt_def update_row_def)
  have ids: "map at_id (attempts ?t) = map at_id (attempts s)"
    "map at_enrolment_id (attempts ?t) = map at_enrolment_id (attempts s)"
    using a by (auto simp: rows)
  then have idset: "at_id ` set (attempts ?t) = at_id ` set (attempts s)" by (metis set_map)
  have att: "x \<in> set (attempts ?t)" if "x \<in> set (attempts s)" "submitted_at x \<noteq> None" for x
    using that b(2) by (auto simp: rows)
  have eq: "enrolments ?t = enrolments s" "course_versions ?t = course_versions s" "declarations ?t = declarations s"
    by (simp_all add: update_attempt_def)
  have p: "\<exists>e v. passed_ok ?t x e v" if "passed_ok s x e v" for x e v
    using passed_ok_grow [OF that, where t = ?t] by (auto simp: update_attempt_def)
  have c: "cert_ok ?t x" if "cert_ok s x" for x
    by (rule cert_ok_grow [OF that]) (use att in \<open>auto simp: eq\<close>)
  have "\<exists>e v. passed_ok ?t x e v" if "x \<in> set (attempts ?t)" "passed x = Some True" for x
  proof (cases "x = a")
    case True
    then show ?thesis using ok p that by blast
  next
    case False
    then have "x \<in> set (attempts s)" using that by (auto simp: rows)
    then show ?thesis using rows_grow(1) [OF wf p c] that by simp
  qed
  moreover have "drawn ?t = drawn s" by (simp add: update_attempt_def)
  ultimately show ?thesis
    using wf rows_grow(2) [OF wf p c] unfolding training_wf_def ids idset by (simp add: update_attempt_def)
qed

lemma insert_declaration_wf:
  assumes wf: "training_wf s" and d: "d_id d = gen_uuid s" "d_attempt_id d \<notin> d_attempt_id ` set (declarations s)"
    "d_attempt_id d \<in> at_id ` set (attempts s)"
  shows "training_wf (s\<lparr>uuid_next := Suc (uuid_next s), declarations := declarations s @ [d]\<rparr>)"
proof -
  let ?t = "s\<lparr>uuid_next := Suc (uuid_next s), declarations := declarations s @ [d]\<rparr>"
  have p: "\<exists>e v. passed_ok ?t a e v" if "passed_ok s a e v" for a e v
    using passed_ok_grow [OF that, where t = ?t] by auto
  have c: "cert_ok ?t c" if "cert_ok s c" for c
    using cert_ok_grow [OF that, where t = ?t] by auto
  have new: "gen_uuid s \<notin> d_id ` set (declarations s)"
    using wf fresh_id [of s] by (auto simp: training_wf_def)
  from rows_grow [OF wf p c] wf new d show ?thesis by (auto simp: training_wf_def)
qed

lemma insert_certification_wf:
  assumes wf: "training_wf s" and c: "cert_ok s c" "ct_declaration_id c \<notin> ct_declaration_id ` set (certifications s)"
  shows "training_wf (s\<lparr>uuid_next := Suc (uuid_next s), certifications := certifications s @ [c]\<rparr>)"
proof -
  let ?t = "s\<lparr>uuid_next := Suc (uuid_next s), certifications := certifications s @ [c]\<rparr>"
  have p: "\<exists>e v. passed_ok ?t a e v" if "passed_ok s a e v" for a e v
    using passed_ok_grow [OF that, where t = ?t] by auto
  have k: "cert_ok ?t x" if "cert_ok s x" for x
    using cert_ok_grow [OF that, where t = ?t] by auto
  from rows_grow [OF wf p k] wf c k [OF c(1)] show ?thesis by (auto simp: training_wf_def)
qed

lemma versions_wf:
  assumes wf: "training_wf s"
    and v: "\<And>k v. by_key v_id k (course_versions s) = Some v \<Longrightarrow> \<exists>v'. by_key v_id k vs = Some v' \<and>
      v_id v' = v_id v \<and> v_course_id v' = v_course_id v \<and> validity_months v' = validity_months v \<and> pass_threshold v' = pass_threshold v"
  shows "training_wf (s\<lparr>course_versions := vs\<rparr>)"
proof -
  let ?t = "s\<lparr>course_versions := vs\<rparr>"
  have p: "\<exists>e v. passed_ok ?t a e v" if "passed_ok s a e v" for a e v
    using passed_ok_grow [OF that, where t = ?t] v by auto
  have k: "cert_ok ?t x" if "cert_ok s x" for x
    using cert_ok_grow [OF that, where t = ?t] v by auto
  from rows_grow [OF wf p k] wf show ?thesis by (auto simp: training_wf_def)
qed

subsection \<open>Operations that keep it\<close>

definition wf_step :: "'a training_db_scheme \<Rightarrow> 'a training_db_scheme \<Rightarrow> bool" where
  "wf_step s t \<longleftrightarrow> (training_wf s \<longrightarrow> training_wf t)"

named_theorems certified

lemma wf_step_refl: "reflp wf_step" and wf_step_trans: "transp wf_step"
  by (auto simp: reflp_def transp_def wf_step_def)

lemmas wf_step_rules [certified] =
  keeps_ret [OF wf_step_refl] keeps_throw [OF wf_step_refl] keeps_read [OF wf_step_refl]
  keeps_bind [OF wf_step_trans] keeps_seq [OF wf_step_trans] keeps_catch [OF wf_step_trans]
  keeps_for_each [OF wf_step_refl wf_step_trans] keeps_foldM [OF wf_step_refl wf_step_trans]
  keeps_if [where R = wf_step] keeps_option [where R = wf_step] keeps_sum [where R = wf_step]
  keeps_list [where R = wf_step] keeps_prod [where R = wf_step] keeps_let [where R = wf_step]
  keeps_with_state [where R = wf_step]

lemma keeps_wf_simple [certified]:
  "keeps wf_step (record_entry ty ac e d u)" "row_safe f \<Longrightarrow> keeps wf_step (modify (update_enrolment i f))"
  "keeps wf_step take_uuid"
  by (rule keepsI; simp add: wf_step_def update_enrolment_wf take_uuid_def uuid_only_wf)+

lemma keeps_wf_deliver [certified]: "keeps wf_step (deliver_magic_link t ttl link body e)"
  by (rule keepsI) (metis deliver_same prod.collapse training_wf_cong wf_step_def)

text \<open>Drawing an id and inserting an enrolment under it.\<close>

lemma keeps_wf_new_enrolment:
  fixes k :: "string \<Rightarrow> enrolment \<Rightarrow> ('a training_db_scheme, 'b) py"
  assumes "\<And>i e. keeps wf_step (k i e)" "\<And>i. e_id (row i) = i"
  shows "keeps wf_step (bind take_uuid (\<lambda>i. let e = row i in seq (insert_enrolment e) (k i e)))"
proof
  fix s :: "'a training_db_scheme"
  let ?e = "row (gen_uuid s)" and ?s = "s\<lparr>uuid_next := Suc (uuid_next s)\<rparr>"
  have run: "bind take_uuid (\<lambda>i. let e = row i in seq (insert_enrolment e) (k i e)) s =
      seq (insert_enrolment ?e) (k (gen_uuid s) ?e) ?s"
    by (simp add: bind_def take_uuid_def Let_def)
  have fail: "training_wf (t\<lparr>session_failed := b\<rparr>) = training_wf t" for t :: "'a training_db_scheme" and b
    by (rule training_wf_cong) (simp add: same_training_def)
  have "training_wf (snd (insert_enrolment ?e ?s))" if "training_wf s"
    using insert_enrolment_wf [OF that, of ?e] uuid_only_wf [OF that] assms(2)
    by (simp add: insert_enrolment_def fail)
  moreover have "wf_step t (snd (k (gen_uuid s) ?e t))" for t using assms(1) by (rule keepsD)
  ultimately show "wf_step s (snd (bind take_uuid (\<lambda>i. let e = row i in seq (insert_enrolment e) (k i e)) s))"
    unfolding run by (auto simp: wf_step_def seq_def bind_def split: prod.splits sum.splits)
qed

lemma row_safe_rules [simp]:
  "row_safe (\<lambda>e. e\<lparr>magic_token := tok\<rparr>)" "row_safe (\<lambda>e. e\<lparr>e_status := st\<rparr>)"
  "row_safe (\<lambda>e. e\<lparr>module_progress := n\<rparr>)" "row_safe (\<lambda>e. e\<lparr>reminder_3d_sent_at := w\<rparr>)"
  "row_safe (\<lambda>e. e\<lparr>reminder_7d_sent_at := w\<rparr>)" "row_safe (\<lambda>e. e\<lparr>reminder_final_sent_at := w\<rparr>)"
  by (simp_all add: row_safe_def)

lemma keeps_wf_send_link [certified]: "keeps wf_step (send_enrolment_link t c src v base e)"
  unfolding send_enrolment_link_def by (intro certified)

lemma keeps_wf_enrol [certified]: "keeps wf_step (enrol t c src ref base)"
  unfolding enrol_def
  by (rule keeps_with_state, rule keeps_option, rule keeps_throw [OF wf_step_refl], rule keeps_wf_new_enrolment)
     (intro certified, simp_all add: new_enrolment_def)

lemma snd_seq_ret [simp]: "snd (seq m (ret x) s) = snd (m s)"
  by (simp add: seq_def bind_def split: prod.splits sum.splits)

lemma bind_take_uuid [simp]: "bind take_uuid f s = f (gen_uuid s) (s\<lparr>uuid_next := Suc (uuid_next s)\<rparr>)"
  by (simp add: bind_def take_uuid_def)

lemma start_attempt_wf:
  assumes wf: "training_wf s"
  shows "training_wf (snd (start_attempt eid s))"
proof (cases "attempt_of eid s")
  case (Some a)
  with wf show ?thesis by (simp add: start_attempt_def)
next
  case None
  define s1 where "s1 = update_enrolment eid (\<lambda>e. e\<lparr>e_status := enrolment_status_value STARTED\<rparr>) s"
  have wf1: "training_wf s1" unfolding s1_def by (rule update_enrolment_wf [OF wf]) simp
  have "eid \<notin> at_enrolment_id ` set (attempts s)" using None by (auto simp: attempt_of_def find_None_iff)
  moreover have s1: "attempts s1 = attempts s" "uuid_next s1 = uuid_next s" by (simp_all add: s1_def update_enrolment_def)
  ultimately show ?thesis
    using None insert_attempt_wf [OF wf1]
    by (simp add: start_attempt_def s1_def [symmetric] Let_def s1 del: enrolment_status_value.simps)
qed

lemma submit_attempt_wf:
  assumes wf: "training_wf s"
  shows "training_wf (snd (submit_attempt eid answers s))"
proof (cases "start_attempt eid s")
  case (Pair r s1)
  have wf1: "training_wf s1" using start_attempt_wf [OF wf, of eid] Pair by simp
  show ?thesis
  proof (cases r)
    case (Inl x)
    with Pair wf1 show ?thesis by (simp add: submit_attempt_def bind_def)
  next
    case (Inr b)
    have st: "start_attempt eid s = (Inr b, s1)" using Pair Inr by simp
    have b: "b \<in> set (attempts s1)" "at_enrolment_id b = eid"
      by (rule start_attempt_cases [OF st];
          simp add: attempt_of_def find_Some_sat [of "\<lambda>a. at_enrolment_id a = eid"] same_training_def)+
    have sub: "training_wf (update_enrolment eid (\<lambda>e. e\<lparr>e_status := st\<rparr>) (update_attempt (at_id b) (\<lambda>_. a) s1))"
      if "submitted_at b = None" "by_key e_id eid (enrolments s1) = Some e"
        "by_key v_id (e_version_id e) (course_versions s1) = Some v" "at_id a = at_id b" "at_enrolment_id a = eid"
        "submitted_at a \<noteq> None" "score a = Some (Fin sc)" "passed a = Some (fle (pass_threshold v) (Fin sc))"
      for a e v sc st
    proof (rule update_enrolment_wf)
      have "e \<in> set (enrolments s1)" "e_id e = eid" using by_key_Some [OF that(2)] by auto
      with that(3,5-8) have "passed a = Some True \<Longrightarrow> passed_ok s1 a e v" by (simp add: passed_ok_def)
      then show "training_wf (update_attempt (at_id b) (\<lambda>_. a) s1)"
        using that(1,4,5) by (intro update_attempt_wf [OF wf1 b(1)]) (auto simp: b(2))
    qed simp
    note run = bind_Inr [where m = "start_attempt eid", OF st]
    show ?thesis
    proof (cases "submitted_at b = None \<and> (\<exists>e v. by_key e_id eid (enrolments s1) = Some e \<and>
        by_key v_id (e_version_id e) (course_versions s1) = Some v \<and> questions_of (v_id v) s1 \<noteq> [])")
      case False
      then have "snd (submit_attempt eid answers s) = s1"
        by (auto simp: submit_attempt_def run Let_def split: option.splits)
      with wf1 show ?thesis by simp
    next
      case True
      then obtain e v where ev: "submitted_at b = None" "by_key e_id eid (enrolments s1) = Some e"
        "by_key v_id (e_version_id e) (course_versions s1) = Some v" "questions_of (v_id v) s1 \<noteq> []" by blast
      show ?thesis
        using ev sub [OF ev(1-3)] b(2) by (simp add: submit_attempt_def run Let_def)
    qed
  qed
qed

lemma record_declaration_wf:
  fixes s :: "'a training_db_scheme"
  assumes wf: "training_wf s"
  shows "training_wf (snd (record_declaration aid name dtext sig ip agent s))"
proof (cases "\<exists>a sub. by_key at_id aid (attempts s) = Some a \<and> submitted_at a = Some sub \<and> strip name \<noteq> [] \<and>
    aid \<notin> d_attempt_id ` set (declarations s)")
  case False
  then have "snd (record_declaration aid name dtext sig ip agent s) = s"
    by (auto simp: record_declaration_def split: option.splits)
  with wf show ?thesis by simp
next
  case True
  then obtain a sub where a: "by_key at_id aid (attempts s) = Some a" "submitted_at a = Some sub" "strip name \<noteq> []"
    "aid \<notin> d_attempt_id ` set (declarations s)" by blast
  have ain: "a \<in> set (attempts s)" "at_id a = aid" using by_key_Some [OF a(1)] by auto
  define d where "d = \<lparr>d_id = gen_uuid s, d_attempt_id = aid, typed_name = strip name, signature_png = sig,
    declaration_text = dtext, d_ip_address = ip, d_user_agent = agent, signed_at = utcnow s\<rparr>"
  define s1 where "s1 = s\<lparr>uuid_next := Suc (uuid_next s), declarations := declarations s @ [d]\<rparr>"
  have dd: "d_id d = gen_uuid s" "d_attempt_id d = aid" "typed_name d = strip name" by (simp_all add: d_def)
  have wf1: "training_wf s1"
    unfolding s1_def using insert_declaration_wf [OF wf, of d] a(4) ain by (auto simp: dd)
  have cert: "training_wf (snd (certify a (gen_uuid s) t))" if t: "same_training s1 t" and p: "passed a = Some True" for t
  proof (cases "\<exists>e v u. by_key e_id (at_enrolment_id a) (enrolments t) = Some e \<and>
      by_key v_id (e_version_id e) (course_versions t) = Some v \<and> add_months (clock t) (validity_months v) = Inr u")
    case False
    then have "snd (certify a (gen_uuid s) t) = t" by (auto simp: certify_def split: option.splits sum.splits)
    with training_wf_cong [OF t] wf1 show ?thesis by simp
  next
    case True
    then obtain e v u where e: "by_key e_id (at_enrolment_id a) (enrolments t) = Some e"
      "by_key v_id (e_version_id e) (course_versions t) = Some v" "add_months (clock t) (validity_months v) = Inr u" by blast
    define c where "c = \<lparr>ct_id = gen_uuid t, ct_trainee_id = e_trainee_id e, ct_course_id = v_course_id v,
      ct_version_id = v_id v, ct_attempt_id = at_id a, ct_declaration_id = gen_uuid s,
      valid_from = utcnow t, valid_until = Aware u, revoked_at = None\<rparr>"
    have wft: "training_wf t" using training_wf_cong [OF t] wf1 by simp
    have "\<exists>e' v'. passed_ok s a e' v'" using wf ain(1) p by (auto simp: training_wf_def)
    then obtain e' v' where pk: "passed_ok s a e' v'" by blast
    have de: "distinct (map e_id (enrolments s))" using wf by (simp add: training_wf_def)
    have tt: "enrolments t = enrolments s" "course_versions t = course_versions s" "attempts t = attempts s"
      "declarations t = declarations s @ [d]" "certifications t = certifications s"
      using t by (simp_all add: same_training_def s1_def)
    have "by_key e_id (at_enrolment_id a) (enrolments s) = Some e'"
      using by_key_unique [OF de, of e'] pk by (simp add: passed_ok_def)
    with e(1,2) pk have "e' = e" "v' = v" by (auto simp: tt passed_ok_def)
    with pk have "passed_ok t a e v" by (simp add: passed_ok_def tt)
    then have ok: "cert_ok t c"
      using ain a(3) p e(3) unfolding cert_ok_def
      by (intro bexI [of _ a] bexI [of _ d] exI [of _ e] exI [of _ v]) (simp_all add: c_def dd tt utcnow_def)
    have "gen_uuid s \<notin> ct_declaration_id ` set (certifications s)"
    proof
      assume "gen_uuid s \<in> ct_declaration_id ` set (certifications s)"
      then have "gen_uuid s \<in> d_id ` set (declarations s)" using wf by (auto simp: training_wf_def cert_ok_def)
      then show False using wf fresh_id [of s] by (auto simp: training_wf_def)
    qed
    then have "training_wf (t\<lparr>uuid_next := Suc (uuid_next t), certifications := certifications t @ [c]\<rparr>)"
      by (intro insert_certification_wf [OF wft ok]) (simp add: c_def tt)
    then show ?thesis using e by (simp add: certify_def Let_def c_def)
  qed
  define ent :: "('a training_db_scheme, audit_row) py"
    where "ent = record_entry ''training_declaration'' TRAINING_DECLARED (Some (gen_uuid s))
      [(''typed_name'', JStr (strip name)), (''has_signature'', JBool (sig \<noteq> None))] None"
  have run: "record_declaration aid name dtext sig ip agent s =
      seq ent (seq (if passed a = Some True then certify a (gen_uuid s) else ret ()) (ret d)) s1"
    using a by (simp add: record_declaration_def Let_def s1_def d_def ent_def)
  obtain r t where ent: "ent s1 = (r, t)" by (cases "ent s1")
  have same: "same_training s1 t" using ent unfolding ent_def by (rule record_entry_same)
  then have "training_wf t" using training_wf_cong [OF same] wf1 by simp
  with cert [OF same] show ?thesis
    unfolding run by (cases r; cases "passed a = Some True") (simp_all add: ent seq_Inl seq_Inr)
qed

lemma keeps_wf_attempts [certified]:
  "keeps wf_step (start_attempt eid)" "keeps wf_step (submit_attempt eid answers)"
  "keeps wf_step (record_declaration aid name dtext sig ip agent)"
  by (rule keepsI; simp add: wf_step_def start_attempt_wf submit_attempt_wf record_declaration_wf)+

lemma training_wf_frame [simp]:
  "training_wf (s\<lparr>trainees := ts\<rparr>) = training_wf s" "training_wf (s\<lparr>courses := cs\<rparr>) = training_wf s"
  "training_wf (s\<lparr>session_failed := b\<rparr>) = training_wf s" "training_wf (s\<lparr>clock := c\<rparr>) = training_wf s"
  "training_wf (s\<lparr>audit_redact_ok := r\<rparr>) = training_wf s" "training_wf (s\<lparr>queue := q\<rparr>) = training_wf s"
  "training_wf (s\<lparr>redis := rd\<rparr>) = training_wf s"
  by (simp_all add: training_wf_def cert_ok_def passed_ok_def drawn_def)

lemma keeps_wf_new_version [certified]:
  "keeps wf_step (modify (\<lambda>s. s\<lparr>course_versions :=
     map (\<lambda>w. if v_course_id w = cid then w\<lparr>v_is_active := False\<rparr> else w) (course_versions s) @ [v]\<rparr>))"
  by (rule keepsI) (auto simp: wf_step_def by_key_append by_key_map intro!: versions_wf)

lemma keeps_wf_create [certified]:
  "keeps wf_step (create_trainee a)" "keeps wf_step (create_course code desc)"
  "keeps wf_step (add_course_version cid ttl sm th mo dys limit)"
proof -
  have i: "keeps wf_step (insert_trainee t)" for t :: trainee
    by (rule keepsI) (simp add: wf_step_def insert_trainee_def)
  have c: "keeps wf_step (modify (\<lambda>s. s\<lparr>courses := courses s @ [x]\<rparr>))" for x
    by (rule keepsI) (simp add: wf_step_def)
  show "keeps wf_step (create_trainee a)" unfolding create_trainee_def by (intro certified i)
  show "keeps wf_step (create_course code desc)" unfolding create_course_def by (intro certified c)
  show "keeps wf_step (add_course_version cid ttl sm th mo dys limit)"
    unfolding add_course_version_def by (intro certified)
qed

text \<open>A request commits what the operation wrote, or rolls it back and keeps the ids it drew.\<close>

lemma training_wf_rollback:
  assumes wf: "training_wf s" and n: "uuid_next s \<le> uuid_next t"
  shows "training_wf (rollback s t)"
proof -
  have sub: "drawn s \<subseteq> drawn (s\<lparr>uuid_next := uuid_next t\<rparr>)" using n by (auto simp: drawn_def)
  have "passed_ok (s\<lparr>uuid_next := uuid_next t\<rparr>) = passed_ok s" by (intro ext) (simp add: passed_ok_def)
  moreover from this have "cert_ok (s\<lparr>uuid_next := uuid_next t\<rparr>) = cert_ok s" by (intro ext) (simp add: cert_ok_def)
  ultimately have "training_wf (s\<lparr>uuid_next := uuid_next t\<rparr>)" using wf sub unfolding training_wf_def by auto
  then show ?thesis by (simp add: rollback_def)
qed

lemma keeps_wf_in_request [certified]:
  assumes "keeps wf_step m" "keeps draws m"
  shows "keeps wf_step (in_request m)"
proof
  fix s
  obtain r t where m: "m s = (r, t)" by (cases "m s")
  have "wf_step s t" "draws s t" using keepsD [OF assms(1), of s] keepsD [OF assms(2), of s] m by simp_all
  then show "wf_step s (snd (in_request m s))"
    using m training_wf_rollback [of s t]
    by (cases r) (auto simp: in_request_def commit_def wf_step_def draws_def)
qed

end
