(* ===== verification/Reminders.thy ===== *)
theory Reminders
  imports Compliance
begin

text \<open>
  Issuing in bulk and reminding (app/services/training.py) and the scheduler that runs both
  (app/workers/training_scheduler.py).
\<close>

subsection \<open>Bulk issue\<close>

datatype bulk_action = ISSUE | SKIP_IN_FLIGHT | SKIP_NO_VERSION | ERROR

record bulk_row =
  b_trainee :: "trainee option"
  b_action :: bulk_action
  b_note :: string

definition n_issue :: "bulk_row list \<Rightarrow> nat" where
  "n_issue rows = length (filter (\<lambda>r. b_action r = ISSUE) rows)"

definition n_skip :: "bulk_row list \<Rightarrow> nat" where
  "n_skip rows = length (filter (\<lambda>r. b_action r \<in> {SKIP_IN_FLIGHT, SKIP_NO_VERSION}) rows)"

definition n_error :: "bulk_row list \<Rightarrow> nat" where
  "n_error rows = length (filter (\<lambda>r. b_action r = ERROR) rows)"

text \<open>The latest of the open enrolments, by expiry.\<close>

definition plan_row :: "training_course \<Rightarrow> 'a training_db_scheme \<Rightarrow> string \<Rightarrow> bulk_row" where
  "plan_row c s tid =
     (case by_key tr_id tid (trainees s) of
        None \<Rightarrow> \<lparr>b_trainee = None, b_action = ERROR, b_note = ''trainee '' @ tid @ '' not found''\<rparr>
      | Some t \<Rightarrow>
          (case last_by (\<lambda>e. instant (expires_at e)) (open_enrolments (tr_id t) (c_id c) s) of
             Some e \<Rightarrow> \<lparr>b_trainee = Some t, b_action = SKIP_IN_FLIGHT, b_note = ''active until '' @ iso_day (expires_at e)\<rparr>
           | None \<Rightarrow> \<lparr>b_trainee = Some t, b_action = ISSUE, b_note = []\<rparr>))"

definition plan_bulk_issue :: "string list \<Rightarrow> training_course \<Rightarrow> 'a training_db_scheme \<Rightarrow> bulk_row list" where
  "plan_bulk_issue tids c s =
     (if active_version (c_id c) s = None
      then map (\<lambda>tid. \<lparr>b_trainee = by_key tr_id tid (trainees s), b_action = SKIP_NO_VERSION,
                       b_note = ''course has no active version''\<rparr>) tids
      else map (plan_row c s) tids)"

record bulk_counts =
  n_issued :: nat
  n_skipped :: nat
  n_errors :: nat

text \<open>One row: any exception is counted, whatever the row had written before it stays.\<close>

definition apply_bulk_row ::
  "training_course \<Rightarrow> string \<Rightarrow> string option \<Rightarrow> bulk_counts \<Rightarrow> bulk_row \<Rightarrow> ('a training_db_scheme, bulk_counts) py" where
  "apply_bulk_row c source_ref base_url n row =
     (if b_action row \<noteq> ISSUE then ret (n\<lparr>n_skipped := n_skipped n + 1\<rparr>)
      else case b_trainee row of
             None \<Rightarrow> ret (n\<lparr>n_skipped := n_skipped n + 1\<rparr>)
           | Some t \<Rightarrow>
               catch (bind (enrol t c (enrolment_source_value SRC_MANUAL) (Some source_ref) base_url)
                        (\<lambda>_. ret (n\<lparr>n_issued := n_issued n + 1\<rparr>)))
                 (\<lambda>_. True) (\<lambda>_. ret (n\<lparr>n_errors := n_errors n + 1\<rparr>)))"

definition apply_bulk_issue ::
  "training_course \<Rightarrow> bulk_row list \<Rightarrow> string option \<Rightarrow> string option \<Rightarrow> ('a training_db_scheme, bulk_counts) py" where
  "apply_bulk_issue c rows base_url by_user_id =
     bind (foldM (apply_bulk_row c (''bulk:'' @ (if truthy by_user_id then or_empty by_user_id else ''unknown'')) base_url)
             \<lparr>n_issued = 0, n_skipped = 0, n_errors = 0\<rparr> rows)
       (\<lambda>n. with_state (\<lambda>s. if session_failed s then throw PendingRollbackError else ret n))"

subsection \<open>Reminders\<close>

datatype reminder_kind = R3D | R7D | RFINAL

fun reminder_value :: "reminder_kind \<Rightarrow> string" where
  "reminder_value R3D = ''3d''"
| "reminder_value R7D = ''7d''"
| "reminder_value RFINAL = ''final''"

definition polish_quote :: "string \<Rightarrow> string" where
  "polish_quote t = utf8 0x201E @ t @ utf8 0x201D"

definition reminder_body ::
  "reminder_kind \<Rightarrow> string \<Rightarrow> string \<Rightarrow> string \<Rightarrow> pydt \<Rightarrow> int \<Rightarrow> string \<times> string" where
  "reminder_body kind lang course_title link expires now =
     (let days_left = show_int (max 0 (toordinal (date_of (instant expires)) - toordinal (date_of now)));
          nl = [CHR 0x0A]
      in if lang = ''pl''
         then (case kind of
           RFINAL \<Rightarrow>
             (''[QMS] DZI'' @ utf8 0x15A @ '' wygasa szkolenie: '' @ course_title,
              ''DZI'' @ utf8 0x15A @ '' MIJA TERMIN szkolenia '' @ polish_quote course_title @ ''.'' @ nl @
              ''Bez zaliczenia szkolenia w dniu dzisiejszym nie zostaniesz '' @
              ''dopuszczony/-a do pracy.'' @ nl @ nl @
              ''Otw'' @ utf8 0xF3 @ ''rz link i uko'' @ utf8 0x144 @ ''cz szkolenie:'' @ nl @ link @ nl)
         | R7D \<Rightarrow>
             (''[QMS] Przypomnienie: '' @ course_title,
              ''Zosta'' @ utf8 0x142 @ ''o '' @ days_left @ '' dni na uko'' @ utf8 0x144 @ ''czenie szkolenia '' @
              polish_quote course_title @ ''.'' @ nl @ nl @ ''Link:'' @ nl @ link @ nl)
         | R3D \<Rightarrow>
             (''[QMS] Twoje szkolenie czeka: '' @ course_title,
              ''Trzy dni temu otrzyma'' @ utf8 0x142 @ ''e'' @ utf8 0x15B @ ''/-a'' @ utf8 0x15B @
              '' link do szkolenia '' @ polish_quote course_title @ ''. Zosta'' @ utf8 0x142 @ ''o '' @ days_left @
              '' dni na uko'' @ utf8 0x144 @ ''czenie.'' @ nl @ nl @ ''Link:'' @ nl @ link @ nl))
         else (case kind of
           RFINAL \<Rightarrow>
             (''[QMS] FINAL '' @ utf8 0x2014 @ '' training expires today: '' @ course_title,
              ''YOUR DEADLINE IS TODAY for the '' @ py_repr course_title @ '' training.'' @ nl @
              ''Without passing today, you will NOT be cleared for work.'' @ nl @ nl @
              ''Open the link and finish:'' @ nl @ link @ nl)
         | R7D \<Rightarrow>
             (''[QMS] Reminder: '' @ course_title,
              ''You have '' @ days_left @ '' day(s) left to finish the '' @ py_repr course_title @ '' training.'' @
              nl @ nl @ ''Link:'' @ nl @ link @ nl)
         | R3D \<Rightarrow>
             (''[QMS] Your training is waiting: '' @ course_title,
              ''Three days ago you received a link for the '' @ py_repr course_title @ '' training. You have '' @
              days_left @ '' day(s) left to finish.'' @ nl @ nl @ ''Link:'' @ nl @ link @ nl)))"

definition classify_reminder :: "enrolment \<Rightarrow> int \<Rightarrow> reminder_kind option" where
  "classify_reminder e now =
     (if e_status e \<notin> set open_states then None
      else
        let expires = instant (expires_at e); issued = instant (issued_at e);
            is_final_day = (date_of expires = date_of now)
        in if is_final_day \<and> reminder_final_sent_at e = None then Some RFINAL
           else if expires \<le> now then None
           else if \<not> is_final_day \<and> now \<ge> issued + days 7 \<and> reminder_7d_sent_at e = None then Some R7D
           else if now \<ge> issued + days 3 \<and> reminder_3d_sent_at e = None then Some R3D
           else None)"

fun mark_reminder_sent :: "reminder_kind \<Rightarrow> pydt \<Rightarrow> enrolment \<Rightarrow> enrolment" where
  "mark_reminder_sent R3D now e = e\<lparr>reminder_3d_sent_at := Some now\<rparr>"
| "mark_reminder_sent R7D now e = e\<lparr>reminder_7d_sent_at := Some now\<rparr>"
| "mark_reminder_sent RFINAL now e = e\<lparr>reminder_final_sent_at := Some now\<rparr>"

record reminder_counts =
  n_3d :: nat
  n_7d :: nat
  n_final :: nat
  n_rskipped :: nat

fun count_kind :: "reminder_kind \<Rightarrow> reminder_counts \<Rightarrow> reminder_counts" where
  "count_kind R3D n = n\<lparr>n_3d := n_3d n + 1\<rparr>"
| "count_kind R7D n = n\<lparr>n_7d := n_7d n + 1\<rparr>"
| "count_kind RFINAL n = n\<lparr>n_final := n_final n + 1\<rparr>"

text \<open>Sending through the wanted channels; a failed enqueue is logged.\<close>

definition notify_trainee :: "trainee \<Rightarrow> string \<Rightarrow> string \<Rightarrow> ('a training_db_scheme, unit) py" where
  "notify_trainee t subject body =
     (let (want_sms, want_email) = wanted_channels t
      in bind (if want_sms then best_effort (enqueue_sms (JStr (tr_phone t)) body) else ret False)
         (\<lambda>_. bind (if want_email
                    then best_effort (enqueue_email (jstr_opt (tr_email t)) subject body None) else ret False)
         (\<lambda>_. ret ())))"

definition remind :: "string option \<Rightarrow> enrolment \<Rightarrow> reminder_kind \<Rightarrow> trainee \<Rightarrow> course_version \<Rightarrow> training_course \<Rightarrow>
    ('a training_db_scheme, unit) py" where
  "remind base_url e kind t v c = with_state (\<lambda>s.
     let lang = (if tr_language t = [] then ''en'' else tr_language t);
         ttl = text_or (v_title v) lang (text_or (v_title v) ''en'' (c_code c));
         link = magic_link base_url (app_config s) (magic_token e);
         (subject, body) = reminder_body kind lang ttl link (expires_at e) (clock s)
     in seq (notify_trainee t subject body)
       (seq (modify (update_enrolment (e_id e) (mark_reminder_sent kind (utcnow s))))
       (seq (record_entry ''training_enrolment'' TRAINING_REMINDER_SENT (Some (e_id e))
               [(''kind'', JStr (reminder_value kind)), (''channel_requested'', JStr (tr_channel t)),
                (''phone_suffix'', JStr (suffix_of 4 (tr_phone t)))] None)
            (ret ()))))"

definition reminder_step :: "string option \<Rightarrow> reminder_counts \<Rightarrow> enrolment \<Rightarrow> ('a training_db_scheme, reminder_counts) py" where
  "reminder_step base_url n e = with_state (\<lambda>s.
     case classify_reminder e (clock s) of
       None \<Rightarrow> ret n
     | Some kind \<Rightarrow>
         (case by_key tr_id (e_trainee_id e) (trainees s) of
            None \<Rightarrow> ret (n\<lparr>n_rskipped := n_rskipped n + 1\<rparr>)
          | Some t \<Rightarrow>
              if \<not> tr_is_active t then ret (n\<lparr>n_rskipped := n_rskipped n + 1\<rparr>)
              else case by_key v_id (e_version_id e) (course_versions s) of
                     None \<Rightarrow> throw (TypeError ''NoneType'')
                   | Some v \<Rightarrow>
                       (case by_key c_id (v_course_id v) (courses s) of
                          None \<Rightarrow> throw (TypeError ''NoneType'')
                        | Some c \<Rightarrow> seq (remind base_url e kind t v c) (ret (count_kind kind n)))))"

definition remindable :: "'a training_db_scheme \<Rightarrow> enrolment list" where
  "remindable s = filter (\<lambda>e. e_status e \<in> set open_states \<and> instant (expires_at e) > clock s) (enrolments s)"

definition send_pending_reminders :: "string option \<Rightarrow> ('a training_db_scheme, reminder_counts) py" where
  "send_pending_reminders base_url = with_state (\<lambda>s.
     foldM (reminder_step base_url) \<lparr>n_3d = 0, n_7d = 0, n_final = 0, n_rskipped = 0\<rparr> (remindable s))"

subsection \<open>The scheduler\<close>

fun issue_loop ::
  "'a training_db_scheme \<Rightarrow> training_course \<Rightarrow> trainee list \<Rightarrow> (string \<times> string) list \<Rightarrow>
   ('a training_db_scheme, (string \<times> string) list) py" where
  "issue_loop base c [] items = ret items"
| "issue_loop base c (t # ts) items = (\<lambda>s.
     case enrol t c ''schedule'' None None s of
       (Inr e, s') \<Rightarrow> issue_loop base c ts (items @ [(tr_id t, c_code c)]) s'
     | (Inl (TrainingError m), s') \<Rightarrow> issue_loop base c ts items (rollback base s')
     | (Inl x, s') \<Rightarrow> (Inl x, s'))"

text \<open>One course; what the loop left uncommitted is lost when another exception ends the tick.\<close>

definition issue_course :: "(string \<times> string) list \<Rightarrow> training_course \<Rightarrow> ('a training_db_scheme, (string \<times> string) list) py" where
  "issue_course items c = with_state (\<lambda>s.
     in_request (issue_loop s c (trainees_due_for_course (c_id c) s) items))"

record tick_summary =
  tick_items :: "(string \<times> string) list"
  tick_reminders :: reminder_counts

definition tick_issued :: "tick_summary \<Rightarrow> nat" where
  "tick_issued sm = length (tick_items sm)"

definition run_once :: "('a training_db_scheme, tick_summary) py" where
  "run_once = with_state (\<lambda>s.
     bind (foldM issue_course [] (filter c_is_active (courses s))) (\<lambda>items.
       catch (bind (in_request (send_pending_reminders None))
                (\<lambda>n. ret \<lparr>tick_items = items, tick_reminders = n\<rparr>))
         (\<lambda>_. True)
         (\<lambda>_. ret \<lparr>tick_items = items,
             tick_reminders = \<lparr>n_3d = 0, n_7d = 0, n_final = 0, n_rskipped = 0\<rparr>\<rparr>)))"

subsection \<open>One pass over the reminders\<close>

definition reminder_due :: "'a training_db_scheme \<Rightarrow> enrolment \<Rightarrow> reminder_kind option" where
  "reminder_due s e =
     (case classify_reminder e (clock s) of
        None \<Rightarrow> None
      | Some k \<Rightarrow> (case by_key tr_id (e_trainee_id e) (trainees s) of
                   None \<Rightarrow> None | Some t \<Rightarrow> if tr_is_active t then Some k else None))"

definition acts :: "'a audit_db_scheme \<Rightarrow> (string \<times> string option) list" where
  "acts s = map (\<lambda>r. (al_action r, entity_id r)) (audit_log s)"

definition mark_due :: "'a training_db_scheme \<Rightarrow> enrolment \<Rightarrow> enrolment \<Rightarrow> enrolment" where
  "mark_due s e r = (case reminder_due s e of None \<Rightarrow> r | Some k \<Rightarrow> mark_reminder_sent k (utcnow s) r)"

definition due_acts :: "'a training_db_scheme \<Rightarrow> enrolment \<Rightarrow> (string \<times> string option) list" where
  "due_acts s e = (case reminder_due s e of None \<Rightarrow> [] | Some k \<Rightarrow> [(action_str TRAINING_REMINDER_SENT, Some (e_id e))])"

lemma notify_ok: "\<exists>q. notify_trainee t subject body s = (Inr (), s\<lparr>queue := q\<rparr>)"
proof -
  obtain ws we where w: "wanted_channels t = (ws, we)" by fastforce
  have m: "\<exists>b q. (if ws then best_effort (enqueue_sms (JStr (tr_phone t)) body) else ret False) s = (Inr b, s\<lparr>queue := q\<rparr>)"
    using best_effort_send(1) [of "JStr (tr_phone t)" body s] by (cases ws) (auto intro: exI [of _ "queue s"])
  then obtain b q where 1: "(if ws then best_effort (enqueue_sms (JStr (tr_phone t)) body) else ret False) s =
    (Inr b, s\<lparr>queue := q\<rparr>)" by blast
  have "\<exists>b q'. (if we then best_effort (enqueue_email (jstr_opt (tr_email t)) subject body None) else ret False) u =
      (Inr b, u\<lparr>queue := q'\<rparr>)" for u :: "'a training_db_scheme"
    using best_effort_send(2) [of "jstr_opt (tr_email t)" subject body None u] by (cases we) (auto intro: exI [of _ "queue u"])
  then obtain b' q' where 2: "(if we then best_effort (enqueue_email (jstr_opt (tr_email t)) subject body None) else ret False)
      (s\<lparr>queue := q\<rparr>) = (Inr b', s\<lparr>queue := q\<rparr>\<lparr>queue := q'\<rparr>)" by blast
  show ?thesis unfolding notify_trainee_def w Let_def prod.case bind_def 1 prod.case sum.case 2 by auto
qed

lemma remind_ok:
  assumes "writable s"
  shows "\<exists>s'. remind base e kind t v c s = (Inr (), s') \<and> writable s' \<and>
    same_training (s\<lparr>enrolments := update_row e_id (e_id e) (mark_reminder_sent kind (utcnow s)) (enrolments s)\<rparr>) s' \<and>
    acts s' = acts s @ [(action_str TRAINING_REMINDER_SENT, Some (e_id e))]"
proof -
  define lang where "lang = (if tr_language t = [] then ''en'' else tr_language t)"
  define ttl where "ttl = text_or (v_title v) lang (text_or (v_title v) ''en'' (c_code c))"
  obtain subject body where b: "reminder_body kind lang ttl (magic_link base (app_config s) (magic_token e)) (expires_at e) (clock s) =
    (subject, body)" by fastforce
  obtain q where q: "notify_trainee t subject body s = (Inr (), s\<lparr>queue := q\<rparr>)" using notify_ok by blast
  define d where "d = [(''kind'', JStr (reminder_value kind)), (''channel_requested'', JStr (tr_channel t)),
                (''phone_suffix'', JStr (suffix_of 4 (tr_phone t)))]"
  define u where "u = update_enrolment (e_id e) (mark_reminder_sent kind (utcnow s)) (s\<lparr>queue := q\<rparr>)"
  have w: "writable u" using assms by (simp add: u_def update_enrolment_def)
  define ent where "ent = with_checksum (json_hash u) (new_entry ''training_enrolment'' TRAINING_REMINDER_SENT (Some (e_id e)) d None u)"
  have r: "record_entry ''training_enrolment'' TRAINING_REMINDER_SENT (Some (e_id e)) d None u =
      (Inr ent, u\<lparr>audit_log := audit_log u @ [ent], audit_seq := audit_seq u + 1\<rparr>)"
    unfolding ent_def by (rule record_entry_ok [OF w])
  have "remind base e kind t v c s = (Inr (), u\<lparr>audit_log := audit_log u @ [ent], audit_seq := audit_seq u + 1\<rparr>)"
    unfolding remind_def with_state_apply Let_def lang_def [symmetric] ttl_def [symmetric] b prod.case d_def [symmetric]
    by (simp add: seq_def bind_def q u_def [symmetric] r)
  moreover have "al_action ent = action_str TRAINING_REMINDER_SENT" "entity_id ent = Some (e_id e)"
    by (simp_all add: ent_def new_entry_def)
  ultimately show ?thesis
    using w by (intro exI [of _ "u\<lparr>audit_log := audit_log u @ [ent], audit_seq := audit_seq u + 1\<rparr>"])
      (simp add: acts_def u_def update_enrolment_def same_training_def)
qed

text \<open>The rows an enrolment points to exist (foreign keys).\<close>

definition linked :: "'a training_db_scheme \<Rightarrow> enrolment \<Rightarrow> bool" where
  "linked s e \<longleftrightarrow> (\<exists>v. by_key v_id (e_version_id e) (course_versions s) = Some v \<and>
     by_key c_id (v_course_id v) (courses s) \<noteq> None)"

lemma reminder_step_ok:
  assumes "writable s" "linked s e"
  shows "\<exists>n' s'. reminder_step base n e s = (Inr n', s') \<and> writable s' \<and>
    same_training (s\<lparr>enrolments := update_row e_id (e_id e) (mark_due s e) (enrolments s)\<rparr>) s' \<and>
    acts s' = acts s @ due_acts s e"
proof (cases "reminder_due s e")
  case None
  have "update_row e_id (e_id e) (mark_due s e) (enrolments s) = enrolments s"
    by (simp add: update_row_def mark_due_def None map_idI)
  with None assms show ?thesis
    by (auto simp: reminder_step_def reminder_due_def due_acts_def same_training_def split: option.splits if_splits)
next
  case (Some k)
  then obtain t where t: "classify_reminder e (clock s) = Some k" "by_key tr_id (e_trainee_id e) (trainees s) = Some t" "tr_is_active t"
    by (auto simp: reminder_due_def split: option.splits if_splits)
  obtain v c where v: "by_key v_id (e_version_id e) (course_versions s) = Some v" "by_key c_id (v_course_id v) (courses s) = Some c"
    using assms(2) by (auto simp: linked_def)
  obtain s' where s': "remind base e k t v c s = (Inr (), s')" "writable s'"
    "same_training (s\<lparr>enrolments := update_row e_id (e_id e) (mark_reminder_sent k (utcnow s)) (enrolments s)\<rparr>) s'"
    "acts s' = acts s @ [(action_str TRAINING_REMINDER_SENT, Some (e_id e))]"
    using remind_ok [OF assms(1)] by blast
  have "mark_due s e = mark_reminder_sent k (utcnow s)" by (rule ext) (simp add: mark_due_def Some)
  with s' t v Some show ?thesis
    by (simp add: reminder_step_def seq_Inr [where m = "remind base e k t v c", OF s'(1)] due_acts_def)
qed

lemma mark_id [simp]: "e_id (mark_reminder_sent k w e) = e_id e"
  by (cases k) simp_all

lemma mark_due_id [simp]: "e_id (mark_due s x e) = e_id e"
  by (simp add: mark_due_def split: option.splits)

lemma reminder_due_cong:
  assumes "clock t = clock s" "trainees t = trainees s"
  shows "mark_due t = mark_due s" "due_acts t = due_acts s"
proof -
  have "reminder_due t = reminder_due s" unfolding reminder_due_def assms ..
  then show "mark_due t = mark_due s" "due_acts t = due_acts s"
    unfolding mark_due_def due_acts_def utcnow_def assms by simp_all
qed

lemma reminder_loop:
  assumes "writable s" "\<forall>e\<in>set es. linked s e"
  shows "\<exists>n' s'. foldM (reminder_step base) n es s = (Inr n', s') \<and>
    enrolments s' = fold (\<lambda>e. update_row e_id (e_id e) (mark_due s e)) es (enrolments s) \<and>
    acts s' = acts s @ concat (map (due_acts s) es)"
  using assms
proof (induction es arbitrary: n s)
  case (Cons e es)
  from reminder_step_ok [OF Cons.prems(1), of e base n] Cons.prems(2) obtain n1 s1 where s1:
    "reminder_step base n e s = (Inr n1, s1)" "writable s1"
    "same_training (s\<lparr>enrolments := update_row e_id (e_id e) (mark_due s e) (enrolments s)\<rparr>) s1"
    "acts s1 = acts s @ due_acts s e" by auto
  have frame: "clock s1 = clock s" "trainees s1 = trainees s" "course_versions s1 = course_versions s"
    "courses s1 = courses s" "enrolments s1 = update_row e_id (e_id e) (mark_due s e) (enrolments s)"
    using s1(3) by (simp_all add: same_training_def)
  have "\<forall>x\<in>set es. linked s1 x" using Cons.prems(2) by (simp add: linked_def frame)
  from Cons.IH [OF s1(2) this, of n1] obtain n2 s2 where s2: "foldM (reminder_step base) n1 es s1 = (Inr n2, s2)"
    "enrolments s2 = fold (\<lambda>e. update_row e_id (e_id e) (mark_due s1 e)) es (enrolments s1)"
    "acts s2 = acts s1 @ concat (map (due_acts s1) es)" by blast
  note md = reminder_due_cong [OF frame(1,2)]
  show ?case
    using s2 unfolding md by (intro exI [of _ n2] exI [of _ s2]) (simp add: bind_def s1(1,4) frame)
qed simp

lemma fold_update_rows:
  assumes "distinct (map key xs)" "\<And>x r. key (g x r) = key r"
  shows "fold (\<lambda>x. update_row key (key x) (g x)) xs rows =
    map (\<lambda>r. case find (\<lambda>x. key x = key r) xs of None \<Rightarrow> r | Some x \<Rightarrow> g x r) rows"
  using assms(1)
proof (induction xs arbitrary: rows)
  case (Cons x xs)
  have "find (\<lambda>y. key y = key r) xs = None" if "key r = key x" for r
    using Cons.prems that by (auto simp: find_None_iff) (metis image_eqI)
  with Cons show ?case by (auto simp: update_row_def assms(2))
qed simp

lemma find_filter_distinct:
  "distinct (map key rows) \<Longrightarrow> r \<in> set rows \<Longrightarrow> find (\<lambda>x. key x = key r) (filter P rows) = (if P r then Some r else None)"
proof (induction rows)
  case (Cons x rows)
  have "find (\<lambda>y. key y = key x) (filter P rows) = None"
    unfolding find_None_iff using Cons.prems(1) by (simp add: image_iff) metis
  moreover have "key x \<noteq> key r" if "r \<in> set rows" for r using Cons.prems(1) that by force
  ultimately show ?case using Cons by (cases "r = x") auto
qed simp

text \<open>A reminder of a kind is due at most until it is marked.\<close>

lemma marked_not_due: "classify_reminder (mark_reminder_sent k w e) now \<noteq> Some k"
  by (cases k) (auto simp: classify_reminder_def Let_def)

text \<open>
  C22. Each reminder is sent once. A pass over the reminders on a database whose foreign keys
  hold succeeds; it writes one training_reminder_sent entry for every enrolment with a reminder
  due (open, unexpired, an active trainee), in table order, marks exactly these rows with the
  kind that was due, and leaves all other rows alone; and an enrolment marked with a kind is
  never due for that kind again, at any later time.
\<close>

theorem reminders_sent_once:
  assumes "writable s" "distinct (map e_id (enrolments s))" "\<forall>e\<in>set (enrolments s). linked s e"
  shows "\<exists>n s'. send_pending_reminders base s = (Inr n, s') \<and>
    enrolments s' = map (\<lambda>e. if e \<in> set (remindable s) then mark_due s e e else e) (enrolments s) \<and>
    acts s' = acts s @ concat (map (due_acts s) (remindable s)) \<and>
    (\<forall>e\<in>set (remindable s). \<forall>k. reminder_due s e = Some k \<longrightarrow>
       (\<forall>e'\<in>set (enrolments s'). e_id e' = e_id e \<longrightarrow> (\<forall>now. classify_reminder e' now \<noteq> Some k)))"
proof -
  have sub: "set (remindable s) \<subseteq> set (enrolments s)" by (auto simp: remindable_def)
  then have "\<forall>e\<in>set (remindable s). linked s e" using assms(3) by blast
  from reminder_loop [OF assms(1) this] obtain n s' where s':
    "send_pending_reminders base s = (Inr n, s')"
    "enrolments s' = fold (\<lambda>e. update_row e_id (e_id e) (mark_due s e)) (remindable s) (enrolments s)"
    "acts s' = acts s @ concat (map (due_acts s) (remindable s))"
    unfolding send_pending_reminders_def with_state_apply by blast
  have dr: "distinct (map e_id (remindable s))" using assms(2) by (simp add: remindable_def distinct_map_filter)
  have found: "find (\<lambda>x. e_id x = e_id r) (remindable s) = (if r \<in> set (remindable s) then Some r else None)"
    if "r \<in> set (enrolments s)" for r
    using find_filter_distinct [OF assms(2) that] that by (simp add: remindable_def)
  have rows: "enrolments s' = map (\<lambda>e. if e \<in> set (remindable s) then mark_due s e e else e) (enrolments s)"
    unfolding s'(2) by (subst fold_update_rows [OF dr]) (simp_all add: found)
  have "classify_reminder e' now \<noteq> Some k"
    if e: "e \<in> set (remindable s)" "reminder_due s e = Some k" "e' \<in> set (enrolments s')" "e_id e' = e_id e" for e e' k now
  proof -
    from e(3) obtain r where r: "r \<in> set (enrolments s)" "e' = (if r \<in> set (remindable s) then mark_due s r r else r)"
      by (auto simp: rows)
    then have "e_id r = e_id e" using e(4) by (simp split: if_splits)
    then have "r = e" using assms(2) r(1) sub e(1) by (auto simp: distinct_map dest: inj_onD)
    then show ?thesis using r(2) e(1,2) marked_not_due by (simp add: mark_due_def)
  qed
  then show ?thesis using s'(1,3) rows by blast
qed

definition sample_reminding :: training_db where
  "sample_reminding = (sample_training [sample_trainee])\<lparr>enrolments :=
     [sample_enrolment\<lparr>expires_at := Aware (clock (sample_training []) + us_second)\<rparr>]\<rparr>"

theorem reminders_sent_once_witness:
  "\<exists>n s'. send_pending_reminders None sample_reminding = (Inr n, s') \<and>
    acts s' = [(''training_reminder_sent'', Some ''E1'')] \<and>
    map reminder_final_sent_at (enrolments s') = [Some (Aware (clock sample_reminding))]"
proof -
  have w: "writable sample_reminding" "distinct (map e_id (enrolments sample_reminding))"
    "\<forall>e\<in>set (enrolments sample_reminding). linked sample_reminding e"
    by (simp_all add: sample_reminding_def linked_def by_key_def sample_enrolment_def sample_version_def sample_course_def)
  define e where "e = sample_enrolment\<lparr>expires_at := Aware (clock (sample_training []) + us_second)\<rparr>"
  have e: "enrolments sample_reminding = [e]" "e_id e = ''E1''" "audit_log sample_reminding = []"
    by (simp_all add: sample_reminding_def e_def sample_enrolment_def sample_training_def)
  have r: "remindable sample_reminding = [e]"
    by (simp add: remindable_def e(1)) (simp add: e_def sample_reminding_def sample_enrolment_def us_second_def open_states_def)
  have same_day: "date_of (clock (sample_training []) + us_second) = date_of (clock (sample_training []))"
    by simp code_simp
  have due: "reminder_due sample_reminding e = Some RFINAL"
    using same_day
    by (simp add: reminder_due_def classify_reminder_def open_states_def e_def sample_enrolment_def sample_reminding_def by_key_def sample_trainee_def)
  show ?thesis
    using reminders_sent_once [OF w, of None] due
    by (auto simp: r e due_acts_def mark_due_def acts_def utcnow_def)
qed

end
