(* ===== verification/I18n.thy ===== *)
theory I18n
  imports Training
begin

text \<open>
  Languages (app/i18n.py). The message catalogs are files: \<open>catalog lang\<close> is what
  \<open>_load_catalog\<close> reads, empty when there is no file for the language. The best match of an
  Accept-Language header is the web framework's and is an argument.
\<close>

definition LANGUAGE_DISPLAY_NAMES :: "(string \<times> string) list" where
  "LANGUAGE_DISPLAY_NAMES = [(''pl'', ''Polski''), (''en'', ''English'')]"

definition language_choices :: "string list \<Rightarrow> (string \<times> string) list" where
  "language_choices supported =
     map (\<lambda>code. (code, case map_of LANGUAGE_DISPLAY_NAMES code of None \<Rightarrow> code | Some d \<Rightarrow> d)) supported"

text \<open>A message without arguments, in the request's language.\<close>

definition gettext :: "(string \<Rightarrow> (string \<times> string) list) \<Rightarrow> app_config \<Rightarrow> string option \<Rightarrow> string \<Rightarrow> string" where
  "gettext catalog cfg g_lang key =
     (let lang = (if truthy g_lang then or_empty g_lang else DEFAULT_LANGUAGE cfg)
      in case map_of (catalog lang) key of None \<Rightarrow> key | Some m \<Rightarrow> m)"

definition i18n_field :: "app_config \<Rightarrow> string option \<Rightarrow> texts \<Rightarrow> string option \<Rightarrow> string" where
  "i18n_field cfg g_lang field lang =
     (if field = [] then []
      else
        let l = (if truthy lang then or_empty lang
                 else if truthy g_lang then or_empty g_lang else DEFAULT_LANGUAGE cfg)
        in text_or field l (text_or field ''en'' (snd (hd field))))"

definition detect_language ::
  "app_config \<Rightarrow> user option \<Rightarrow> string option \<Rightarrow> (string list \<Rightarrow> string option) \<Rightarrow> string" where
  "detect_language cfg current cookie_lang best_match =
     (let supported = SUPPORTED_LANGUAGES cfg;
          from_request =
            (if truthy cookie_lang \<and> or_empty cookie_lang \<in> set supported then or_empty cookie_lang
             else if truthy (best_match supported) then or_empty (best_match supported)
             else DEFAULT_LANGUAGE cfg)
      in case current of
           None \<Rightarrow> from_request
         | Some u \<Rightarrow> if language u \<noteq> [] \<and> language u \<in> set supported then language u else from_request)"

text \<open>The language of a request is one the application supports.\<close>

lemma detect_language_supported:
  assumes "DEFAULT_LANGUAGE cfg \<in> set (SUPPORTED_LANGUAGES cfg)"
    "\<And>xs l. best_match xs = Some l \<Longrightarrow> l \<in> set xs"
  shows "detect_language cfg current cookie best_match \<in> set (SUPPORTED_LANGUAGES cfg)"
  using assms by (auto simp: detect_language_def Let_def truthy_def or_empty_def split: option.splits)

end
