(* ===== verification/TrainingViews.thy ===== *)
theory TrainingViews
  imports Compliance I18n
begin

text \<open>
  The public pages of app/blueprints/training.py. The link in the URL is the only credential:
  every view starts with \<open>on_link\<close>. A page is the template with what it shows; \<open>url_for\<close> is
  the endpoint, of the same token.
\<close>

subsection \<open>Base64\<close>

definition b64_alphabet :: string where
  "b64_alphabet = ''ABCDEFGHIJKLMNOPQRSTUVWXYZabcdefghijklmnopqrstuvwxyz0123456789+/''"

definition b64_values :: "string \<Rightarrow> nat list option" where
  "b64_values s =
     (if set s \<subseteq> set b64_alphabet
      then Some (map (\<lambda>c. length (takeWhile (\<lambda>d. d \<noteq> c) b64_alphabet)) s) else None)"

fun b64_bytes :: "nat list \<Rightarrow> string" where
  "b64_bytes [a, b] = [char_of (a * 4 + b div 16)]"
| "b64_bytes [a, b, c] = [char_of (a * 4 + b div 16), char_of (b mod 16 * 16 + c div 4)]"
| "b64_bytes (a # b # c # d # rest) =
     char_of (a * 4 + b div 16) # char_of (b mod 16 * 16 + c div 4) # char_of (c mod 4 * 64 + d) # b64_bytes rest"
| "b64_bytes _ = []"

text \<open>\<open>base64.b64decode(s, validate=True)\<close>; None where it raises.\<close>

definition b64decode :: "string \<Rightarrow> string option" where
  "b64decode s =
     (let body = takeWhile (\<lambda>c. c \<noteq> CHR ''='') s;
          pad = drop (length body) s;
          full = (length body mod 4 = 0 \<and> (body \<noteq> [] \<or> pad = [])
                  \<or> length body mod 4 = 2 \<and> length pad = 2 \<or> length body mod 4 = 3 \<and> length pad = 1)
      in if full \<and> set pad \<subseteq> {CHR ''=''} then map_option b64_bytes (b64_values body) else None)"

subsection \<open>Opening a page\<close>

datatype training_endpoint = Take | Module | Study | Exam | Declaration | Result

datatype training_response =
    Gone string
  | Goto training_endpoint string
  | LandingPage enrolment
  | ModulePage training_module int int
  | StudyPage "training_question list"
  | ExamPage "training_question list"
  | DeclarationPage attempt string
  | ResultPage attempt "certification option"
  | NotFound
  | CertificatePdf trainee attempt certification string

fun is_training_error :: "exc \<Rightarrow> bool" where
  "is_training_error (TrainingError m) = True"
| "is_training_error _ = False"

text \<open>\<open>_load_enrolment\<close> and the 410 page; the trainee is read for the page's language.\<close>

definition on_link ::
  "string \<Rightarrow> (enrolment \<Rightarrow> trainee \<Rightarrow> ('a training_db_scheme, training_response) py) \<Rightarrow>
   ('a training_db_scheme, training_response) py" where
  "on_link token view = with_state (\<lambda>s.
     case get_enrolment_with_reason token s of
       Inl x \<Rightarrow> throw x
     | Inr (None, reason) \<Rightarrow> ret (Gone reason)
     | Inr (Some e, _) \<Rightarrow>
         (case by_key tr_id (e_trainee_id e) (trainees s) of
            None \<Rightarrow> throw (TypeError ''NoneType'')
          | Some t \<Rightarrow> view e t))"

definition on_version :: "enrolment \<Rightarrow> (course_version \<Rightarrow> ('a training_db_scheme, 'b) py) \<Rightarrow> ('a training_db_scheme, 'b) py" where
  "on_version e f = with_state (\<lambda>s.
     case by_key v_id (e_version_id e) (course_versions s) of
       None \<Rightarrow> throw (TypeError ''NoneType'') | Some v \<Rightarrow> f v)"

definition submitted :: "enrolment \<Rightarrow> bool" where
  "submitted e \<longleftrightarrow> e_status e = enrolment_status_value SUBMITTED"

subsection \<open>The views\<close>

definition take_view :: "string \<Rightarrow> ('a training_db_scheme, training_response) py" where
  "take_view token = on_link token (\<lambda>e t.
     if submitted e then ret (Goto Result token) else ret (LandingPage e))"

definition start_view :: "string \<Rightarrow> ('a training_db_scheme, training_response) py" where
  "start_view token = on_link token (\<lambda>e t.
     seq (if e_status e = enrolment_status_value ISSUED
          then in_request (modify (update_enrolment (e_id e) (\<lambda>e. e\<lparr>e_status := enrolment_status_value STARTED\<rparr>)))
          else ret ())
         (on_version e (\<lambda>v. with_state (\<lambda>s.
            if module_progress e \<ge> int (length (modules_of (v_id v) s)) then ret (Goto Study token)
            else ret (Goto Module token)))))"

text \<open>\<open>xs[i]\<close> with an index that may be negative.\<close>

definition py_index :: "'b list \<Rightarrow> int \<Rightarrow> 'b option" where
  "py_index xs i =
     (let n = int (length xs)
      in if 0 \<le> i \<and> i < n then Some (xs ! nat i)
         else if - n \<le> i \<and> i < 0 then Some (xs ! nat (i + n)) else None)"

definition module_view :: "string \<Rightarrow> ('a training_db_scheme, training_response) py" where
  "module_view token = on_link token (\<lambda>e t. on_version e (\<lambda>v. with_state (\<lambda>s.
     let ms = modules_of (v_id v) s; idx = min (module_progress e) (int (length ms) - 1)
     in if ms = [] then ret (Goto Exam token)
        else case py_index ms idx of
               None \<Rightarrow> throw (IndexError ''list index out of range'')
             | Some m \<Rightarrow> ret (ModulePage m idx (int (length ms))))))"

definition next_module_view :: "string \<Rightarrow> ('a training_db_scheme, training_response) py" where
  "next_module_view token = on_link token (\<lambda>e t. on_version e (\<lambda>v. with_state (\<lambda>s.
     let total = int (length (modules_of (v_id v) s)); n = min (module_progress e + 1) total
     in seq (in_request (modify (update_enrolment (e_id e) (\<lambda>e. e\<lparr>module_progress := n\<rparr>))))
            (if n \<ge> total then ret (Goto Study token) else ret (Goto Module token)))))"

definition study_view :: "string \<Rightarrow> ('a training_db_scheme, training_response) py" where
  "study_view token = on_link token (\<lambda>e t.
     if submitted e then ret (Goto Result token)
     else on_version e (\<lambda>v. with_state (\<lambda>s. ret (StudyPage (questions_of (v_id v) s)))))"

definition exam_view :: "string \<Rightarrow> ('a training_db_scheme, training_response) py" where
  "exam_view token = on_link token (\<lambda>e t.
     if submitted e then ret (Goto Result token)
     else on_version e (\<lambda>v. with_state (\<lambda>s. ret (ExamPage (questions_of (v_id v) s)))))"

text \<open>\<open>getlist\<close> of the field q-<question id>, for every question.\<close>

definition form_selections :: "(string \<Rightarrow> string list) \<Rightarrow> training_question list \<Rightarrow> (string \<times> string list) list" where
  "form_selections form qs = map (\<lambda>q. (q_id q, filter (\<lambda>v. v \<noteq> []) (form (''q-'' @ q_id q)))) qs"

definition submit_exam_view :: "string \<Rightarrow> (string \<Rightarrow> string list) \<Rightarrow> ('a training_db_scheme, training_response) py" where
  "submit_exam_view token form = on_link token (\<lambda>e t.
     if submitted e then ret (Goto Result token)
     else on_version e (\<lambda>v. with_state (\<lambda>s.
       catch (bind (in_request (submit_attempt (e_id e) (form_selections form (questions_of (v_id v) s))))
                (\<lambda>a. ret (Goto (if passed a = Some True then Declaration else Result) token)))
         is_training_error (\<lambda>_. ret (Gone ''expired'')))))"

definition declaration_view :: "(string \<Rightarrow> string) \<Rightarrow> string \<Rightarrow> ('a training_db_scheme, training_response) py" where
  "declaration_view message token = on_link token (\<lambda>e t. with_state (\<lambda>s.
     case attempt_of (e_id e) s of
       None \<Rightarrow> ret (Goto Result token)
     | Some a \<Rightarrow>
         if passed a \<noteq> Some True then ret (Goto Result token)
         else ret (DeclarationPage a (message ''training.declaration.text''))))"

definition signature_prefix :: string where
  "signature_prefix = ''data:image/png;base64,''"

definition decode_signature :: "string \<Rightarrow> string option" where
  "decode_signature url =
     (if take (length signature_prefix) url = signature_prefix
      then case b64decode (drop (length signature_prefix) url) of
             None \<Rightarrow> None
           | Some png \<Rightarrow> if length png > 256 * 1024 then None else Some png
      else None)"

text \<open>\<open>request.form.get(key) or ""\<close>.\<close>

definition form_text :: "(string \<Rightarrow> string list) \<Rightarrow> string \<Rightarrow> string" where
  "form_text form key = (case form key of [] \<Rightarrow> [] | v # _ \<Rightarrow> v)"

definition declare_view ::
  "(string \<Rightarrow> string) \<Rightarrow> string \<Rightarrow> (string \<Rightarrow> string list) \<Rightarrow> ('a training_db_scheme, training_response) py" where
  "declare_view message token form = on_link token (\<lambda>e t. with_state (\<lambda>s.
     case attempt_of (e_id e) s of
       None \<Rightarrow> ret (Goto Result token)
     | Some a \<Rightarrow>
         if passed a \<noteq> Some True then ret (Goto Result token)
         else
           let typed = strip (form_text form ''typed_name'');
               decl = form_text form ''declaration_text'';
               sig = decode_signature (form_text form ''signature_data_url'');
               (ip, agent) = request_metadata s
           in seq (in_request (catch
                    (bind (record_declaration (at_id a) typed
                             (if decl = [] then message ''training.declaration.text'' else decl) sig ip agent)
                       (\<lambda>_. ret ()))
                    is_training_error (\<lambda>_. ret ())))
                (ret (Goto Result token))))"

definition result_view :: "string \<Rightarrow> ('a training_db_scheme, training_response) py" where
  "result_view token = on_link token (\<lambda>e t. with_state (\<lambda>s.
     case attempt_of (e_id e) s of
       None \<Rightarrow> ret (Goto Take token)
     | Some a \<Rightarrow>
         if passed a = Some True
         then on_version e (\<lambda>v. ret (ResultPage a (latest_certification (e_trainee_id e) (v_course_id v) s)))
         else ret (ResultPage a None)))"

definition certificate_view :: "string \<Rightarrow> ('a training_db_scheme, training_response) py" where
  "certificate_view token = on_link token (\<lambda>e t. with_state (\<lambda>s.
     case attempt_of (e_id e) s of
       None \<Rightarrow> ret NotFound
     | Some a \<Rightarrow>
         if passed a \<noteq> Some True then ret NotFound
         else on_version e (\<lambda>v.
           case latest_certification (e_trainee_id e) (v_course_id v) s of
             None \<Rightarrow> ret NotFound
           | Some cert \<Rightarrow>
               ret (CertificatePdf t a cert
                 (''training-cert-'' @ suffix_of 4 (tr_phone t) @ ''-'' @ take 8 (ct_id cert) @ ''.pdf'')))))"

end
