(* ===== verification/Certified.thy ===== *)
theory Certified
  imports Certificates Reminders TrainingViews
begin

text \<open>
  The whole life of the training tables: the public pages, the administration's services, bulk
  issue, the scheduler and the passing of time as one step relation, with the audit contract, the
  ids drawn and the invariant of Certificates for every step. In a database that started without
  enrolments every certification is earned.
\<close>

subsection \<open>The reminders and the scheduler\<close>

lemma keeps_draws_reminders [drawing]:
  "keeps draws (notify_trainee t subject body)" "keeps draws (send_pending_reminders base)"
  "keeps draws (apply_bulk_issue c rows base by_user)"
proof -
  have b: "keeps draws (best_effort (enqueue_sms to body))" "keeps draws (best_effort (enqueue_email addr subj content html))"
    for to body addr subj content html
    unfolding best_effort_def enqueue_sms_def enqueue_email_def by (intro drawing)+
  show n: "keeps draws (notify_trainee t subject body)" for t subject body
    unfolding notify_trainee_def by (intro drawing b)
  show "keeps draws (send_pending_reminders base)"
    unfolding send_pending_reminders_def reminder_step_def remind_def by (intro drawing n)
  show "keeps draws (apply_bulk_issue c rows base by_user)"
    unfolding apply_bulk_issue_def apply_bulk_row_def by (intro drawing)
qed

lemma row_safe_mark [simp]: "row_safe (mark_reminder_sent k w)"
  by (cases k) (simp_all add: row_safe_def)

lemma keeps_wf_send [certified]:
  "keeps wf_step (best_effort (enqueue_sms to body))" "keeps wf_step (best_effort (enqueue_email addr subject content html))"
  using best_effort_send by (intro keepsI; simp add: wf_step_def; metis snd_conv training_wf_frame(6))+

lemma keeps_wf_reminders [certified]:
  "keeps wf_step (send_pending_reminders base)" "keeps wf_step (apply_bulk_issue c rows base by_user)"
proof -
  have n: "keeps wf_step (notify_trainee t subject body)" for t subject body
    unfolding notify_trainee_def by (intro certified)
  show "keeps wf_step (send_pending_reminders base)"
    unfolding send_pending_reminders_def reminder_step_def remind_def by (intro certified n) simp
  show "keeps wf_step (apply_bulk_issue c rows base by_user)"
    unfolding apply_bulk_issue_def apply_bulk_row_def by (intro certified)
qed

text \<open>The loop over the due trainees rolls back to the last commit, which it never leaves behind.\<close>

lemma issue_loop_inv:
  assumes "\<And>s t. P s \<Longrightarrow> P (snd (enrol t c ''schedule'' None None s))" "\<And>s. P s \<Longrightarrow> P (rollback base s)" "P s"
  shows "P (snd (issue_loop base c ts items s))"
  using assms(3)
proof (induction ts arbitrary: items s)
  case (Cons t ts)
  obtain r s' where run: "enrol t c ''schedule'' None None s = (r, s')" by fastforce
  then have s': "P s'" using assms(1) [OF Cons.prems, of t] by simp
  show ?case
  proof (cases r)
    case (Inl x)
    with Cons.IH [OF assms(2) [OF s']] s' show ?thesis by (cases x) (simp_all add: run)
  qed (use Cons.IH [OF s'] in \<open>simp add: run\<close>)
qed simp

lemma issue_loop_draws: "draws s (snd (issue_loop s c ts items s))"
proof (rule issue_loop_inv)
  fix t u assume "draws s u"
  moreover have "draws u (snd (enrol t c ''schedule'' None None u))"
    by (rule keepsD [OF keeps_draws_training_ops(4)])
  ultimately show "draws s (snd (enrol t c ''schedule'' None None u))" by (simp add: draws_def)
qed (simp_all add: draws_def rollback_def)

lemma issue_loop_wf:
  assumes "training_wf s"
  shows "training_wf (snd (issue_loop s c ts items s))"
proof -
  have "training_wf (snd (issue_loop s c ts items s)) \<and> draws s (snd (issue_loop s c ts items s))"
  proof (rule issue_loop_inv)
    fix t u assume u: "training_wf u \<and> draws s u"
    have "wf_step u (snd (enrol t c ''schedule'' None None u))" "draws u (snd (enrol t c ''schedule'' None None u))"
      by (rule keepsD [OF keeps_wf_enrol]) (rule keepsD [OF keeps_draws_training_ops(4)])
    with u show "training_wf (snd (enrol t c ''schedule'' None None u)) \<and> draws s (snd (enrol t c ''schedule'' None None u))"
      by (auto simp: wf_step_def draws_def)
  qed (use assms training_wf_rollback [OF assms] in \<open>auto simp: draws_def rollback_def\<close>)
  then show ?thesis ..
qed

lemma issue_course_step:
  "wf_step s (snd (issue_course items c s)) \<and> draws s (snd (issue_course items c s))"
proof -
  obtain r t where r: "issue_loop s c (trainees_due_for_course (c_id c) s) items s = (r, t)" by fastforce
  have "draws s t" using issue_loop_draws [of s c "trainees_due_for_course (c_id c) s" items] by (simp add: r)
  moreover have "training_wf s \<Longrightarrow> training_wf t"
    using issue_loop_wf [of s c "trainees_due_for_course (c_id c) s" items] by (simp add: r)
  ultimately show ?thesis
    using training_wf_rollback [of s t]
    by (cases r) (auto simp: issue_course_def in_request_def commit_def rollback_def wf_step_def draws_def r)
qed

lemma keeps_issue_course [certified, drawing]:
  "keeps wf_step (issue_course items c)" "keeps draws (issue_course items c)"
  by (rule keepsI, simp add: issue_course_step)+

lemma keeps_draws_in_request [drawing]:
  assumes "keeps draws m"
  shows "keeps draws (in_request m)"
proof
  fix s
  have "draws s (snd (m s))" using assms by (rule keepsD)
  then show "draws s (snd (in_request m s))"
    by (auto simp: draws_def in_request_def commit_def rollback_def split: prod.splits sum.splits)
qed

lemma keeps_run_once: "keeps wf_step run_once" "keeps draws run_once"
proof -
  show "keeps wf_step run_once" unfolding run_once_def by (intro certified) (intro drawing)
  show "keeps draws run_once" unfolding run_once_def by (intro drawing)
qed

subsection \<open>The pages\<close>

lemma keeps_wf_on_link [certified]: "(\<And>e t. keeps wf_step (view e t)) \<Longrightarrow> keeps wf_step (on_link token view)"
  unfolding on_link_def by (intro certified)

lemma keeps_wf_on_version [certified]: "(\<And>v. keeps wf_step (f v)) \<Longrightarrow> keeps wf_step (on_version e f)"
  unfolding on_version_def by (intro certified)

text \<open>Every page of the blueprint, for a token and a form.\<close>

definition training_pages ::
  "(string \<Rightarrow> string) \<Rightarrow> string \<Rightarrow> (string \<Rightarrow> string list) \<Rightarrow> ('a training_db_scheme, training_response) py list" where
  "training_pages message token form =
     [take_view token, start_view token, module_view token, next_module_view token, study_view token,
      exam_view token, submit_exam_view token form, declaration_view message token,
      declare_view message token form, result_view token, certificate_view token]"

lemma keeps_wf_page [certified]:
  "keeps wf_step (take_view token)" "keeps wf_step (start_view token)" "keeps wf_step (module_view token)"
  "keeps wf_step (next_module_view token)" "keeps wf_step (study_view token)" "keeps wf_step (exam_view token)"
  "keeps wf_step (submit_exam_view token form)" "keeps wf_step (declaration_view message token)"
  "keeps wf_step (declare_view message token form)" "keeps wf_step (result_view token)"
  "keeps wf_step (certificate_view token)"
  unfolding take_view_def start_view_def module_view_def next_module_view_def study_view_def exam_view_def
    submit_exam_view_def declaration_view_def declare_view_def result_view_def certificate_view_def
  by (intro certified drawing; simp del: enrolment_status_value.simps)+

lemma keeps_wf_pages: "page \<in> set (training_pages message token form) \<Longrightarrow> keeps wf_step page"
  by (auto simp: training_pages_def intro: certified)

subsection \<open>The audit contract\<close>

lemma keeps_log_issue_course [audited]: "keeps log_step (issue_course items c)"
proof
  fix s :: "'a training_db_scheme"
  define due where "due = trainees_due_for_course (c_id c) s"
  have "log_step s (snd (issue_loop s c due items s))"
  proof (rule issue_loop_inv)
    fix t u assume "log_step s u"
    moreover have "log_step u (snd (enrol t c ''schedule'' None None u))" by (rule keepsD [OF keeps_log_enrol])
    ultimately show "log_step s (snd (enrol t c ''schedule'' None None u))" using log_step_trans by (auto dest: transpD)
  qed (auto simp: log_step_def log_wf_def rollback_def)
  then have "log_step s (snd (in_request (issue_loop s c due items) s))"
    by (auto simp: in_request_def commit_def rollback_def log_step_def log_wf_def split: prod.splits sum.splits)
  then show "log_step s (snd (issue_course items c s))" by (simp add: issue_course_def due_def)
qed

lemma keeps_log_reminders [audited]:
  "keeps log_step (send_pending_reminders base)" "keeps log_step (apply_bulk_issue c rows base by_user)"
  unfolding send_pending_reminders_def reminder_step_def remind_def notify_trainee_def enqueue_sms_def enqueue_email_def
    apply_bulk_issue_def apply_bulk_row_def
  by (intro audited; simp)+

lemma keeps_log_run_once [audited]: "keeps log_step run_once"
  unfolding run_once_def by (intro audited)

lemma keeps_log_page [audited]:
  "keeps log_step (take_view token)" "keeps log_step (start_view token)" "keeps log_step (module_view token)"
  "keeps log_step (next_module_view token)" "keeps log_step (study_view token)" "keeps log_step (exam_view token)"
  "keeps log_step (submit_exam_view token form)" "keeps log_step (declaration_view message token)"
  "keeps log_step (declare_view message token form)" "keeps log_step (result_view token)"
  "keeps log_step (certificate_view token)"
  unfolding take_view_def start_view_def module_view_def next_module_view_def study_view_def exam_view_def
    submit_exam_view_def declaration_view_def declare_view_def result_view_def certificate_view_def on_link_def on_version_def
  by (intro audited; simp)+

lemma keeps_log_pages: "page \<in> set (training_pages message token form) \<Longrightarrow> keeps log_step page"
  by (auto simp: training_pages_def intro: audited)

interpretation scheduler_tick: audited_operation run_once
  by unfold_locales (rule keeps_log_run_once)

interpretation bulk_issue: audited_operation "apply_bulk_issue c rows base by_user" for c rows base by_user
  by unfold_locales (rule keeps_log_reminders)

subsection \<open>Steps\<close>

text \<open>One event of the training part of the system; the clock never goes back.\<close>

inductive training_step :: "'a training_db_scheme \<Rightarrow> 'a training_db_scheme \<Rightarrow> bool" where
  page: "page \<in> set (training_pages message token form) \<Longrightarrow> training_step s (snd (page s))"
| admin_trainee: "training_step s (snd (in_request (create_trainee a) s))"
| admin_course: "training_step s (snd (in_request (create_course code descr) s))"
| admin_version: "training_step s (snd (in_request (add_course_version cid ttl sm th mo dys lmt) s))"
| admin_enrol: "training_step s (snd (in_request (enrol t c src ref base) s))"
| admin_bulk: "training_step s (snd (in_request (apply_bulk_issue c rows base by_user) s))"
| scheduler: "training_step s (snd (run_once s))"
| new_request: "training_step s (s\<lparr>request_context := r\<rparr>)"
| tick: "clock s \<le> w \<Longrightarrow> training_step s (s\<lparr>clock := w\<rparr>)"

lemmas in_request_wf = keeps_wf_in_request [THEN keepsD]
lemmas in_request_log = keeps_in_request [THEN keepsD]

lemma training_step_wf:
  assumes "training_step s t"
  shows "wf_step s t"
  using assms
proof cases
  case (page pg)
  show ?thesis unfolding page(1) by (rule keepsD) (rule keeps_wf_pages [OF page(2)])
next
  case scheduler
  then show ?thesis using keepsD [OF keeps_run_once(1)] by simp
next
  case new_request
  then show ?thesis by (simp add: wf_step_def training_wf_def cert_ok_def passed_ok_def drawn_def)
next
  case tick
  then show ?thesis by (simp add: wf_step_def)
qed (simp_all only: in_request_wf keeps_wf_create keeps_draws_training_ops keeps_wf_enrol keeps_wf_reminders keeps_draws_reminders)

lemma training_step_log:
  assumes "training_step s t"
  shows "log_step s t"
  using assms
proof cases
  case (page pg)
  show ?thesis unfolding page(1) by (rule keepsD) (rule keeps_log_pages [OF page(2)])
next
  case scheduler
  then show ?thesis using scheduler_tick.log_step_run by simp
next
  case new_request
  then show ?thesis by (simp add: log_step_def log_wf_def)
next
  case tick
  then show ?thesis by (simp add: log_step_def log_wf_def)
qed (simp_all only: in_request_log keeps_log_create keeps_log_enrol keeps_log_reminders)

subsection \<open>Certificates are earned\<close>

lemma training_run_wf: "training_step\<^sup>*\<^sup>* s t \<Longrightarrow> training_wf s \<Longrightarrow> training_wf t"
  by (induction rule: rtranclp_induct) (auto dest: training_step_wf simp: wf_step_def)

lemma empty_training_wf:
  "inj (uuid_at s) \<Longrightarrow> enrolments s = [] \<Longrightarrow> attempts s = [] \<Longrightarrow> declarations s = [] \<Longrightarrow> certifications s = [] \<Longrightarrow>
     training_wf s"
  by (simp add: training_wf_def)

lemma one_certificate:
  assumes wf: "training_wf s" and c: "c \<in> set (certifications s)" "c' \<in> set (certifications s)"
    "ct_attempt_id c' = ct_attempt_id c"
  shows "c' = c"
proof -
  have "cert_ok s c" "cert_ok s c'" using wf c by (simp_all add: training_wf_def)
  then obtain d d' where d: "d \<in> set (declarations s)" "d' \<in> set (declarations s)"
    "ct_declaration_id c = d_id d" "d_attempt_id d = ct_attempt_id c"
    "ct_declaration_id c' = d_id d'" "d_attempt_id d' = ct_attempt_id c'"
    unfolding cert_ok_def by metis
  have "inj_on d_attempt_id (set (declarations s))" "inj_on ct_declaration_id (set (certifications s))"
    using wf by (simp_all add: training_wf_def distinct_map)
  then show ?thesis using c d by (metis inj_onD)
qed

subsection \<open>From the exam to the certificate\<close>

text \<open>The audit log can be written in this and every later transaction.\<close>

definition auditing :: "'a training_db_scheme \<Rightarrow> bool" where
  "auditing s \<longleftrightarrow> \<not> session_failed s \<and> \<not> (dialect s = PostgreSQL \<and> immutable_trigger s)"

lemma auditing_writable: "auditing s \<Longrightarrow> writable s"
  by (simp add: auditing_def writable_def audit_update_allowed_def)

definition stays_auditing :: "'a training_db_scheme \<Rightarrow> 'a training_db_scheme \<Rightarrow> bool" where
  "stays_auditing s t \<longleftrightarrow> (auditing s \<longrightarrow> auditing t)"

lemma stays_auditing_refl: "reflp stays_auditing" and stays_auditing_trans: "transp stays_auditing"
  by (auto simp: reflp_def transp_def stays_auditing_def)

lemma keeps_auditing_submit: "keeps stays_auditing (submit_attempt eid answers)"
proof -
  have r: "keeps stays_auditing (record_entry ty ac e d u)" for ty ac e d u
    by (rule keepsI) (auto simp: stays_auditing_def record_entry_ok auditing_writable auditing_def)
  have m: "keeps stays_auditing (modify f)" if "\<And>s. auditing (f s) = auditing s" for f
    using that by (intro keepsI) (simp add: stays_auditing_def)
  have t: "keeps stays_auditing take_uuid" by (rule keepsI) (simp add: stays_auditing_def take_uuid_def auditing_def)
  note rules = r m t keeps_ret [OF stays_auditing_refl] keeps_throw [OF stays_auditing_refl]
    keeps_bind [OF stays_auditing_trans] keeps_seq [OF stays_auditing_trans]
    keeps_if [where R = stays_auditing] keeps_option [where R = stays_auditing]
    keeps_let [where R = stays_auditing] keeps_with_state [where R = stays_auditing]
  show ?thesis
    unfolding submit_attempt_def start_attempt_def
    by (intro rules; simp add: update_enrolment_def update_attempt_def auditing_def)
qed

lemma on_link_open:
  "get_enrolment_with_reason token s = Inr (Some e, r) \<Longrightarrow> by_key tr_id (e_trainee_id e) (trainees s) = Some t \<Longrightarrow>
     on_link token view s = view e t s"
  by (simp add: on_link_def)

lemma opened_row:
  assumes "get_enrolment_with_reason token s = Inr (Some e, r)"
  shows "by_key e_id (e_id e) (enrolments s) = Some e"
proof -
  from assms obtain eid where e: "by_key e_id eid (enrolments s) = Some e"
    unfolding get_enrolment_with_reason_def by (auto split: sum.splits option.splits if_splits)
  then have "e_id e = eid" using by_key_Some [OF e] by simp
  with e show ?thesis by simp
qed

lemma link_stays_open:
  assumes "get_enrolment_with_reason token s = Inr (Some e, r)"
    "by_key e_id (e_id e) (enrolments t) = Some e'" "magic_token e' = magic_token e" "expires_at e' = expires_at e"
    "hmac_hex t = hmac_hex s" "app_config t = app_config s" "clock t = clock s"
  shows "get_enrolment_with_reason token t = Inr (Some e', [])"
proof -
  from assms(1) obtain eid where v: "verify_token (hmac_hex s) (app_config s) (clock s) token = Inr eid"
    and e: "by_key e_id eid (enrolments s) = Some e" "magic_token e = token" "\<not> is_past (expires_at e) s"
    unfolding get_enrolment_with_reason_def by (auto split: sum.splits option.splits if_splits)
  have "e_id e = eid" using by_key_Some [OF e(1)] by simp
  then show ?thesis using v e assms(2-) by (simp add: get_enrolment_with_reason_def is_past_def)
qed

lemma selections_of: "q \<in> set qs \<Longrightarrow>
    map_of (form_selections form qs) (q_id q) = Some (filter (\<lambda>v. v \<noteq> []) (form (''q-'' @ q_id q)))"
  by (induction qs) (auto simp: form_selections_def)

lemma commit_frame [simp]:
  "auditing (commit s) = auditing s" "trainees (commit s) = trainees s" "enrolments (commit s) = enrolments s"
  "attempts (commit s) = attempts s" "attempt_of eid (commit s) = attempt_of eid s"
  "declarations (commit s) = declarations s" "certifications (commit s) = certifications s"
  "course_versions (commit s) = course_versions s" "clock (commit s) = clock s" "app_config (commit s) = app_config s"
  "hmac_hex (commit s) = hmac_hex s" "questions (commit s) = questions s" "answer_options (commit s) = answer_options s"
  by (simp_all add: commit_def auditing_def attempt_of_def)

lemma exam_page:
  assumes "auditing s" "get_enrolment_with_reason token s = Inr (Some e, r)"
    "by_key tr_id (e_trainee_id e) (trainees s) = Some t" "by_key v_id (e_version_id e) (course_versions s) = Some v"
    "questions_of (v_id v) s \<noteq> []" "attempt_of (e_id e) s = None" "\<not> submitted e"
    "\<forall>q\<in>set (questions_of (v_id v) s). set (filter (\<lambda>x. x \<noteq> []) (form (''q-'' @ q_id q))) = correct_ids (q_id q) s \<and>
       correct_ids (q_id q) s \<noteq> {}" "fle (pass_threshold v) (Fin 1)"
  obtains a b u where "submit_exam_view token form s = (Inr (Goto Declaration token), commit u)" "auditing u"
    "attempt_of (e_id e) u = Some a" "passed a = Some True" "submitted_at a \<noteq> None" "at_id a = gen_uuid s" "at_id b = gen_uuid s"
    "at_enrolment_id a = e_id e"
    "same_training (s\<lparr>uuid_next := Suc (uuid_next s), attempts := update_row at_id (gen_uuid s) (\<lambda>_. a) (attempts s @ [b]),
       enrolments := update_row e_id (e_id e) (\<lambda>e. e\<lparr>e_status := ''submitted''\<rparr>)
         (update_row e_id (e_id e) (\<lambda>e. e\<lparr>e_status := ''started''\<rparr>) (enrolments s))\<rparr>) u"
proof -
  define ans where "ans = form_selections form (questions_of (v_id v) s)"
  have e: "by_key e_id (e_id e) (enrolments s) = Some e"
    by (rule opened_row [OF assms(2)])
  have right: "list_all (is_right s ans) (questions_of (v_id v) s)"
    using assms(8) by (auto simp: list_all_iff is_right_def ans_def selections_of)
  have "\<forall>b. attempt_of (e_id e) s = Some b \<longrightarrow> submitted_at b = None" using assms(6) by simp
  from exam_result [OF auditing_writable [OF assms(1)] this e assms(4,5), of ans] obtain a u sc where x:
    "submit_attempt (e_id e) ans s = (Inr a, u)" "sc = 1 \<longleftrightarrow> list_all (is_right s ans) (questions_of (v_id v) s)"
    "passed a = Some (fle (pass_threshold v) (Fin sc))" "attempt_of (e_id e) u = Some a" "submitted_at a = Some (utcnow s)"
    by blast
  then have run: "submit_attempt (e_id e) ans s = (Inr a, u)" "passed a = Some (fle (pass_threshold v) (Fin 1))"
    "attempt_of (e_id e) u = Some a" "submitted_at a \<noteq> None" using right by simp_all
  obtain b s1 where st: "start_attempt (e_id e) s = (Inr b, s1)" and at: "at_id a = at_id b" "at_enrolment_id a = at_enrolment_id b"
    and u: "same_training (s1\<lparr>attempts := update_row at_id (at_id b) (\<lambda>_. a) (attempts s1),
       enrolments := update_row e_id (e_id e) (\<lambda>e. e\<lparr>e_status := ''submitted''\<rparr>) (enrolments s1)\<rparr>) u"
    by (rule submit_attempt_Inr [OF run(1)]) blast
  have new: "at_id b = gen_uuid s" "at_enrolment_id b = e_id e"
    "same_training (s\<lparr>uuid_next := Suc (uuid_next s), attempts := attempts s @ [b],
       enrolments := update_row e_id (e_id e) (\<lambda>e. e\<lparr>e_status := ''started''\<rparr>) (enrolments s)\<rparr>) s1"
    using start_attempt_cases [OF st] assms(6) by auto
  have page: "submit_exam_view token form s = (Inr (Goto Declaration token), commit u)"
    unfolding submit_exam_view_def on_link_open [OF assms(2,3)]
    using assms(4,7,9) run(1,2) by (simp add: on_version_def ans_def [symmetric] catch_def bind_def in_request_def)
  have "auditing u"
    using keepsD [OF keeps_auditing_submit, of s "e_id e" ans] run(1) assms(1) by (simp add: stays_auditing_def)
  then show ?thesis
    using page run(2-4) assms(9) new at u by (intro that [of u a b]) (simp_all add: same_training_def)
qed

lemma exam_to_certificate:
  assumes "auditing s" "training_wf s" "get_enrolment_with_reason token s = Inr (Some e, r)"
    "by_key tr_id (e_trainee_id e) (trainees s) = Some t" "by_key v_id (e_version_id e) (course_versions s) = Some v"
    "questions_of (v_id v) s \<noteq> []" "attempt_of (e_id e) s = None" "\<not> submitted e"
    "\<forall>q\<in>set (questions_of (v_id v) s). set (filter (\<lambda>x. x \<noteq> []) (form (''q-'' @ q_id q))) = correct_ids (q_id q) s \<and>
       correct_ids (q_id q) s \<noteq> {}" "fle (pass_threshold v) (Fin 1)"
    "strip (form_text form ''typed_name'') \<noteq> []" "add_months (clock s) (validity_months v) = Inr until"
  shows "\<exists>s1 s2 c. submit_exam_view token form s = (Inr (Goto Declaration token), s1) \<and>
    declare_view message token form s1 = (Inr (Goto Result token), s2) \<and>
    certifications s2 = certifications s @ [c] \<and> ct_trainee_id c = e_trainee_id e \<and> ct_course_id c = v_course_id v \<and>
    valid_from c = utcnow s \<and> valid_until c = Aware until"
proof -
  from exam_page [OF assms(1,3-10)] obtain a b u where exam: "submit_exam_view token form s = (Inr (Goto Declaration token), commit u)"
    "auditing u" "attempt_of (e_id e) u = Some a" "passed a = Some True" "submitted_at a \<noteq> None" "at_id a = gen_uuid s"
    "at_id b = gen_uuid s" "at_enrolment_id a = e_id e"
    and same: "same_training (s\<lparr>uuid_next := Suc (uuid_next s), attempts := update_row at_id (gen_uuid s) (\<lambda>_. a) (attempts s @ [b]),
       enrolments := update_row e_id (e_id e) (\<lambda>e. e\<lparr>e_status := ''submitted''\<rparr>)
         (update_row e_id (e_id e) (\<lambda>e. e\<lparr>e_status := ''started''\<rparr>) (enrolments s))\<rparr>) u" .
  define s1 where "s1 = commit u"
  define e' where "e' = e\<lparr>e_status := ''submitted''\<rparr>"
  have e: "by_key e_id (e_id e) (enrolments s) = Some e"
    by (rule opened_row [OF assms(3)])
  have fresh: "gen_uuid s \<notin> drawn s" by (rule fresh_id) (use assms(2) in \<open>simp add: training_wf_def\<close>)
  then have ids: "gen_uuid s \<notin> at_id ` set (attempts s)" "gen_uuid s \<notin> d_attempt_id ` set (declarations s)"
    using assms(2) unfolding training_wf_def by blast+
  have frame: "trainees s1 = trainees s" "course_versions s1 = course_versions s" "clock s1 = clock s"
    "hmac_hex s1 = hmac_hex s" "app_config s1 = app_config s" "declarations s1 = declarations s" "certifications s1 = certifications s"
    "attempts s1 = update_row at_id (gen_uuid s) (\<lambda>_. a) (attempts s @ [b])"
    using same by (simp_all add: s1_def same_training_def)
  have row: "by_key e_id (e_id e) (enrolments s1) = Some e'"
    using same e by (simp add: s1_def same_training_def by_key_update_same e'_def)
  have att: "by_key at_id (at_id a) (attempts s1) = Some a"
  proof -
    have "by_key at_id (gen_uuid s) (attempts s) = None" using ids(1) by (simp add: by_key_None)
    then have "by_key at_id (gen_uuid s) (attempts s @ [b]) = Some b" by (simp add: by_key_append) (simp add: by_key_def exam(7))
    then show ?thesis unfolding frame exam(6) by_key_def by (rule find_update_row) (simp_all add: exam(6,7))
  qed
  have open': "get_enrolment_with_reason token s1 = Inr (Some e', [])"
    by (rule link_stays_open [OF assms(3) row]) (simp_all add: e'_def frame)
  have t': "by_key tr_id (e_trainee_id e') (trainees s1) = Some t" using assms(4) by (simp add: frame e'_def)
  have "auditing s1" using exam(2) by (simp add: s1_def)
  define text1 where "text1 = (if form_text form ''declaration_text'' = [] then message ''training.declaration.text''
    else form_text form ''declaration_text'')"
  define sig where "sig = decode_signature (form_text form ''signature_data_url'')"
  obtain ip agent where meta: "request_metadata s1 = (ip, agent)" by fastforce
  have name: "strip (strip (form_text form ''typed_name'')) \<noteq> []" using assms(11) by simp
  have none: "at_id a \<notin> d_attempt_id ` set (declarations s1)" using ids(2) by (simp add: frame exam(6))
  have e1: "by_key e_id (at_enrolment_id a) (enrolments s1) = Some e'" using row by (simp add: exam(8))
  have v1: "by_key v_id (e_version_id e') (course_versions s1) = Some v" using assms(5) by (simp add: frame e'_def)
  have u1: "add_months (clock s1) (validity_months v) = Inr until" using assms(12) by (simp add: frame)
  note declared = declaration_result [OF auditing_writable [OF \<open>auditing s1\<close>] att exam(5) name none e1 v1 u1, of text1 sig ip agent]
  obtain d s2 c where d: "record_declaration (at_id a) (strip (form_text form ''typed_name'')) text1 sig ip agent s1 = (Inr d, s2)"
    "certifications s2 = certifications s1 @ [c]" "ct_trainee_id c = e_trainee_id e'" "ct_course_id c = v_course_id v"
    "valid_from c = utcnow s1" "valid_until c = Aware until"
    using declared unfolding exam(4) by (simp del: utcnow_def) blast
  have at1: "attempt_of (e_id e) s1 = Some a" using exam(3) by (simp add: s1_def)
  have "declare_view message token form s1 = (Inr (Goto Result token), commit s2)"
    unfolding declare_view_def on_link_open [OF open' t'] Let_def
    using at1 exam(4) d(1) [unfolded text1_def sig_def] meta
    by (simp add: e'_def seq_def bind_def catch_def in_request_def)
  with exam(1) d(2-6) show ?thesis unfolding s1_def [symmetric] frame e'_def by (intro exI [of _ s1] exI [of _ "commit s2"] exI [of _ c]) (simp add: utcnow_def frame)
qed

text \<open>
  C23. Right answers and a signature lead to the certificate. On an open link whose exam was not
  taken, for a version with questions that can be passed, posting exactly the correct options of
  every question leads to the declaration page, and posting a name there adds one certification
  of the trainee for the course, valid for the version's months, and leads to the result.
\<close>

theorem right_answers_certify:
  assumes "auditing s" "training_wf s" "get_enrolment_with_reason token s = Inr (Some e, r)"
    "by_key tr_id (e_trainee_id e) (trainees s) = Some t" "by_key v_id (e_version_id e) (course_versions s) = Some v"
    "questions_of (v_id v) s \<noteq> []" "attempt_of (e_id e) s = None" "\<not> submitted e"
    "\<forall>q\<in>set (questions_of (v_id v) s). set (filter (\<lambda>x. x \<noteq> []) (form (''q-'' @ q_id q))) = correct_ids (q_id q) s \<and>
       correct_ids (q_id q) s \<noteq> {}" "fle (pass_threshold v) (Fin 1)"
    "strip (form_text form ''typed_name'') \<noteq> []" "add_months (clock s) (validity_months v) = Inr until"
  shows "\<exists>s1 s2 c. submit_exam_view token form s = (Inr (Goto Declaration token), s1) \<and>
    declare_view message token form s1 = (Inr (Goto Result token), s2) \<and>
    certifications s2 = certifications s @ [c] \<and> ct_trainee_id c = e_trainee_id e \<and> ct_course_id c = v_course_id v \<and>
    valid_from c = utcnow s \<and> valid_until c = Aware until"
  using assms by (rule exam_to_certificate)

text \<open>
  C24. Every certificate is earned. Starting without enrolments, whatever pages are opened with
  whatever tokens and forms, and whatever the administration, bulk issue and the scheduler do in
  between, a certification always belongs to a stored enrolment of its trainee on its course
  version, through an attempt that was submitted with a score at or above the pass threshold and
  through a declaration signed with a name for that attempt; it is valid from the moment of
  issue for exactly the version's validity in months; and no attempt has two certifications.
\<close>

theorem certificates_are_earned:
  assumes "training_step\<^sup>*\<^sup>* s0 s" "inj (uuid_at s0)" "enrolments s0 = []" "attempts s0 = []"
    "declarations s0 = []" "certifications s0 = []" "c \<in> set (certifications s)"
  shows "(\<exists>e\<in>set (enrolments s). \<exists>a\<in>set (attempts s). \<exists>d\<in>set (declarations s). \<exists>v x t u.
      ct_trainee_id c = e_trainee_id e \<and> by_key v_id (e_version_id e) (course_versions s) = Some v \<and>
      ct_version_id c = v_id v \<and> ct_course_id c = v_course_id v \<and>
      ct_attempt_id c = at_id a \<and> at_enrolment_id a = e_id e \<and> submitted_at a \<noteq> None \<and>
      score a = Some (Fin x) \<and> fle (pass_threshold v) (Fin x) \<and>
      ct_declaration_id c = d_id d \<and> d_attempt_id d = at_id a \<and> typed_name d \<noteq> [] \<and>
      valid_from c = Aware t \<and> valid_until c = Aware u \<and> add_months t (validity_months v) = Inr u) \<and>
    (\<forall>c'\<in>set (certifications s). ct_attempt_id c' = ct_attempt_id c \<longrightarrow> c' = c)"
proof -
  have wf: "training_wf s" using training_run_wf [OF assms(1)] empty_training_wf [OF assms(2-6)] .
  then have "cert_ok s c" using assms(7) by (simp add: training_wf_def)
  then obtain a d e v t u x where "a \<in> set (attempts s)" "d \<in> set (declarations s)" "e \<in> set (enrolments s)"
    "by_key v_id (e_version_id e) (course_versions s) = Some v" "at_enrolment_id a = e_id e" "submitted_at a \<noteq> None"
    "score a = Some (Fin x)" "fle (pass_threshold v) (Fin x)"
    "ct_attempt_id c = at_id a" "ct_declaration_id c = d_id d" "d_attempt_id d = at_id a" "typed_name d \<noteq> []"
    "ct_trainee_id c = e_trainee_id e" "ct_version_id c = v_id v" "ct_course_id c = v_course_id v"
    "valid_from c = Aware t" "valid_until c = Aware u" "add_months t (validity_months v) = Inr u"
    unfolding cert_ok_def passed_ok_def by blast
  then show ?thesis using one_certificate [OF wf assms(7)] by blast
qed

subsection \<open>A small run\<close>

definition same_dialect :: "'a audit_db_scheme \<Rightarrow> 'a audit_db_scheme \<Rightarrow> bool" where
  "same_dialect s t \<longleftrightarrow> dialect t = dialect s \<and> immutable_trigger t = immutable_trigger s"

lemma same_dialect_refl: "reflp same_dialect" and same_dialect_trans: "transp same_dialect"
  by (auto simp: reflp_def transp_def same_dialect_def)

lemma keeps_dialect_enrol: "keeps same_dialect (enrol t c src ref base)"
proof -
  have r: "keeps same_dialect (record_entry ty ac e d u :: ('a training_db_scheme, audit_row) py)" for ty ac e d u
    by (rule keepsI) (auto simp: same_dialect_def record_entry_def Let_def)
  have i: "keeps same_dialect (insert_enrolment e :: ('a training_db_scheme, unit) py)" for e
    by (rule keepsI) (simp add: same_dialect_def insert_enrolment_def)
  have m: "keeps same_dialect (modify (update_enrolment j f) :: ('a training_db_scheme, unit) py)" for j f
    by (rule keepsI) (simp add: same_dialect_def update_enrolment_def)
  have t: "keeps same_dialect (take_uuid :: ('a training_db_scheme, string) py)"
    by (rule keepsI) (simp add: same_dialect_def take_uuid_def)
  have d: "keeps same_dialect (deliver_magic_link x ttl link body ex :: ('a training_db_scheme, bool \<times> bool) py)" for x ttl link body ex
  proof
    fix s :: "'a training_db_scheme"
    obtain b q where "deliver_magic_link x ttl link body ex s = (Inr b, s\<lparr>queue := q\<rparr>)" using deliver_ok by blast
    then show "same_dialect s (snd (deliver_magic_link x ttl link body ex s))" by (simp add: same_dialect_def)
  qed
  note rules = r i m t d keeps_ret [OF same_dialect_refl] keeps_throw [OF same_dialect_refl]
    keeps_bind [OF same_dialect_trans] keeps_seq [OF same_dialect_trans] keeps_option [where R = same_dialect]
    keeps_sum [where R = same_dialect] keeps_prod [where R = same_dialect]
    keeps_let [where R = same_dialect] keeps_with_state [where R = same_dialect]
  show ?thesis unfolding enrol_def send_enrolment_link_def by (intro rules)
qed

definition sample_live :: training_db where
  "sample_live = snd (in_request (enrol sample_trainee sample_course ''manual'' None None) (sample_training [sample_trainee]))"

definition sample_form :: "string \<Rightarrow> string list" where
  "sample_form key =
     (if key = ''q-q1'' then [''a''] else if key = ''q-q2'' then [''c''] else if key = ''typed_name'' then [''Anna''] else [])"

lemma inj_digits: "inj digits"
  by (auto simp: inj_def dest: digits_inj)

lemma sample_live:
  obtains e where "auditing sample_live" "training_wf sample_live"
    "get_enrolment_with_reason (magic_token e) sample_live = Inr (Some e, [])"
    "by_key tr_id (e_trainee_id e) (trainees sample_live) = Some sample_trainee"
    "by_key v_id (e_version_id e) (course_versions sample_live) = Some sample_version"
    "questions_of (v_id sample_version) sample_live = [sample_question ''q1'' 0, sample_question ''q2'' 1]"
    "correct_ids ''q1'' sample_live = {''a''}" "correct_ids ''q2'' sample_live = {''c''}"
    "attempt_of (e_id e) sample_live = None" "\<not> submitted e" "clock sample_live = clock (sample_training [])"
    "certifications sample_live = []"
proof -
  let ?s = "sample_training [sample_trainee]"
  obtain e where e: "enrol sample_trainee sample_course ''manual'' None None ?s = (Inr e, sample_issued)"
    "expires_at e = Aware (clock ?s + days 7)" "hmac_hex sample_issued = (\<lambda>_ _. ''0f'')" "app_config sample_issued = sample_config"
    "clock sample_issued = clock ?s"
    by (rule sample_issued)
  obtain v tok where v: "active_version (c_id sample_course) ?s = Some v"
    and en: "e = (new_enrolment sample_trainee v ''manual'' None ?s (gen_uuid ?s))\<lparr>magic_token := tok\<rparr>"
    and same: "same_training (?s\<lparr>uuid_next := Suc (uuid_next ?s),
       enrolments := update_row e_id (gen_uuid ?s) (\<lambda>e. e\<lparr>magic_token := tok\<rparr>)
         (enrolments ?s @ [new_enrolment sample_trainee v ''manual'' None ?s (gen_uuid ?s)])\<rparr>) sample_issued"
    by (rule enrol_Inr [OF e(1)])
  have [simp]: "v = sample_version" using v sample_active [of "[sample_trainee]"] by (simp add: sample_course_def)
  have live: "sample_live = commit sample_issued" by (simp add: sample_live_def in_request_def e(1))
  have "get_enrolment_with_reason (magic_token e) sample_live = Inr (Some e, [])"
    by (rule issued_link [OF e(1)]) (use e(2-5) sample_times sample_hex in \<open>simp_all add: live\<close>)
  moreover have "training_wf sample_live"
    using training_step_wf [OF training_step.admin_enrol, of ?s] empty_training_wf [of ?s] inj_digits
    by (simp add: sample_live_def wf_step_def)
  moreover have "auditing sample_live"
  proof -
    have "same_dialect ?s sample_issued"
      using keepsD [OF keeps_dialect_enrol, of ?s sample_trainee sample_course "''manual''" None None] e(1) by simp
    moreover have "writable sample_issued"
    proof -
      have "active_version (c_id sample_course) ?s = Some sample_version"
        using sample_active [of "[sample_trainee]"] by (simp add: sample_course_def)
      then obtain e' s' where "enrol sample_trainee sample_course ''manual'' None None ?s = (Inr e', s')" "writable s'"
        using enrol_succeeds [of ?s sample_course sample_version "''secret''" sample_trainee "''manual''" None None] sample_key by auto
      with e(1) show ?thesis by simp
    qed
    ultimately show ?thesis by (simp add: live auditing_def same_dialect_def writable_def sample_training_def)
  qed
  ultimately show ?thesis
    using same
    by (intro that [of e]) (simp_all add: live en new_enrolment_def same_training_def by_key_def sample_trainee_def sample_version_def
        questions_of_def correct_ids_def options_of_def sample_questions sample_question_def sample_option_def attempt_of_def submitted_def)
qed

lemma sample_passing:
  assumes "questions_of (v_id sample_version) s = [sample_question ''q1'' 0, sample_question ''q2'' 1]"
    "correct_ids ''q1'' s = {''a''}" "correct_ids ''q2'' s = {''c''}"
  shows "\<forall>q\<in>set (questions_of (v_id sample_version) s).
    set (filter (\<lambda>x. x \<noteq> []) (sample_form (''q-'' @ q_id q))) = correct_ids (q_id q) s \<and> correct_ids (q_id q) s \<noteq> {}"
    "fle (pass_threshold sample_version) (Fin 1)" "strip (form_text sample_form ''typed_name'') \<noteq> []"
    "add_months (clock (sample_training [])) (validity_months sample_version) = Inr (at_time \<lparr>year = 2027, month = 5, day = 2\<rparr> 0)"
  using sample_next_year [of "[]"] assms
  by (simp_all add: sample_question_def sample_form_def fle_def sample_version_def form_text_def) code_simp

theorem right_answers_certify_witness:
  "\<exists>token s1 s2. submit_exam_view token sample_form sample_live = (Inr (Goto Declaration token), s1) \<and>
     declare_view (\<lambda>key. key) token sample_form s1 = (Inr (Goto Result token), s2) \<and>
     map ct_trainee_id (certifications s2) = [''T1'']"
proof -
  obtain e where live: "auditing sample_live" "training_wf sample_live"
    "get_enrolment_with_reason (magic_token e) sample_live = Inr (Some e, [])"
    "by_key tr_id (e_trainee_id e) (trainees sample_live) = Some sample_trainee"
    "by_key v_id (e_version_id e) (course_versions sample_live) = Some sample_version"
    "questions_of (v_id sample_version) sample_live = [sample_question ''q1'' 0, sample_question ''q2'' 1]"
    "correct_ids ''q1'' sample_live = {''a''}" "correct_ids ''q2'' sample_live = {''c''}"
    "attempt_of (e_id e) sample_live = None" "\<not> submitted e" "clock sample_live = clock (sample_training [])"
    "certifications sample_live = []"
    by (rule sample_live)
  have q: "questions_of (v_id sample_version) sample_live \<noteq> []" using live(6) by simp
  note ok = sample_passing [OF live(6-8)]
  have "e_trainee_id e = ''T1''" using by_key_Some [OF live(4)] by (simp add: sample_trainee_def)
  then show ?thesis
    using right_answers_certify [OF live(1-5) q live(9,10) ok(1-3) ok(4) [folded live(11)]] live(12) by fastforce
qed

theorem certificates_are_earned_witness:
  "\<exists>s c. training_step\<^sup>*\<^sup>* (sample_training [sample_trainee]) s \<and> c \<in> set (certifications s) \<and>
     (\<exists>a\<in>set (attempts s). ct_attempt_id c = at_id a \<and> submitted_at a \<noteq> None)"
proof -
  let ?s = "sample_training [sample_trainee]" and ?m = "\<lambda>key. key"
  obtain e where live: "auditing sample_live" "training_wf sample_live"
    "get_enrolment_with_reason (magic_token e) sample_live = Inr (Some e, [])"
    "by_key tr_id (e_trainee_id e) (trainees sample_live) = Some sample_trainee"
    "by_key v_id (e_version_id e) (course_versions sample_live) = Some sample_version"
    "questions_of (v_id sample_version) sample_live = [sample_question ''q1'' 0, sample_question ''q2'' 1]"
    "correct_ids ''q1'' sample_live = {''a''}" "correct_ids ''q2'' sample_live = {''c''}"
    "attempt_of (e_id e) sample_live = None" "\<not> submitted e" "clock sample_live = clock (sample_training [])"
    "certifications sample_live = []"
    by (rule sample_live)
  have q: "questions_of (v_id sample_version) sample_live \<noteq> []" using live(6) by simp
  note ok = sample_passing [OF live(6-8)]
  obtain s1 s2 c where run: "submit_exam_view (magic_token e) sample_form sample_live = (Inr (Goto Declaration (magic_token e)), s1)"
    "declare_view ?m (magic_token e) sample_form s1 = (Inr (Goto Result (magic_token e)), s2)"
    "certifications s2 = certifications sample_live @ [c]"
    using exam_to_certificate [OF live(1-5) q live(9,10) ok(1-3) ok(4) [folded live(11)]] by blast
  have page: "training_step s (snd (page s))" if "page \<in> set (training_pages ?m (magic_token e) sample_form)" for s page
    using that by (rule training_step.page)
  have "training_step ?s sample_live" unfolding sample_live_def by (rule training_step.admin_enrol)
  moreover have "training_step sample_live s1"
    using page [of "submit_exam_view (magic_token e) sample_form" sample_live] run(1) by (simp add: training_pages_def)
  moreover have "training_step s1 s2"
    using page [of "declare_view ?m (magic_token e) sample_form" s1] run(2) by (simp add: training_pages_def)
  ultimately have reach: "training_step\<^sup>*\<^sup>* ?s s2"
    by (meson converse_rtranclp_into_rtranclp rtranclp.rtrancl_refl)
  have "c \<in> set (certifications s2)" using run(3) by simp
  with certificates_are_earned [OF reach _ _ _ _ _ this] reach show ?thesis
    using inj_digits by (intro exI [of _ s2] exI [of _ c]) auto
qed

end
