(* ===== verification/Gdpr.thy ===== *)
theory Gdpr
  imports Redaction TrainingLife
begin

text \<open>
  Erasure and retention (app/services/gdpr.py, app/services/retention.py): redaction of a
  trainee or a user across the tables and the audit chain, and the sweep over everything that
  has outlived its purpose.
\<close>

subsection \<open>Redacting a trainee\<close>

definition enrolments_of :: "string \<Rightarrow> 'a training_db_scheme \<Rightarrow> enrolment list" where
  "enrolments_of tid s = filter (\<lambda>e. e_trainee_id e = tid) (enrolments s)"

definition attempts_of :: "string \<Rightarrow> 'a training_db_scheme \<Rightarrow> attempt list" where
  "attempts_of tid s = filter (\<lambda>a. at_enrolment_id a \<in> e_id ` set (enrolments_of tid s)) (attempts s)"

definition declarations_of :: "string \<Rightarrow> 'a training_db_scheme \<Rightarrow> signed_declaration list" where
  "declarations_of tid s = filter (\<lambda>d. d_attempt_id d \<in> at_id ` set (attempts_of tid s)) (declarations s)"

definition certifications_of :: "string \<Rightarrow> 'a training_db_scheme \<Rightarrow> certification list" where
  "certifications_of tid s = filter (\<lambda>c. ct_trainee_id c = tid) (certifications s)"

text \<open>The audit rows about a trainee: its own, and those of its enrolments and what hangs on them.\<close>

definition about_trainee :: "string \<Rightarrow> 'a training_db_scheme \<Rightarrow> audit_row \<Rightarrow> bool" where
  "about_trainee tid s r \<longleftrightarrow>
     entity_type r = ''trainee'' \<and> entity_id r = Some tid \<or>
     entity_type r = ''training_enrolment'' \<and> entity_id r \<in> Some ` e_id ` set (enrolments_of tid s) \<or>
     entity_type r = ''training_attempt'' \<and> entity_id r \<in> Some ` at_id ` set (attempts_of tid s) \<or>
     entity_type r = ''training_declaration'' \<and> entity_id r \<in> Some ` d_id ` set (declarations_of tid s) \<or>
     entity_type r = ''training_certification'' \<and> entity_id r \<in> Some ` ct_id ` set (certifications_of tid s)"

definition audit_ids :: "(audit_row \<Rightarrow> bool) \<Rightarrow> 'a audit_db_scheme \<Rightarrow> int list" where
  "audit_ids P s = map al_id (sort_key al_id (filter P (audit_log s)))"

definition wipe_declaration :: "signed_declaration \<Rightarrow> signed_declaration" where
  "wipe_declaration d = d\<lparr>signature_png := None, d_ip_address := None, d_user_agent := None, typed_name := ''[redacted]''\<rparr>"

definition wipe_trainee :: "trainee \<Rightarrow> trainee" where
  "wipe_trainee t = t\<lparr>tr_phone := ''[redacted-'' @ take 8 (tr_id t) @ '']'', tr_full_name := ''[redacted]'', tr_is_active := False\<rparr>"

text \<open>
  UPDATE of a trainee row: nothing is sent when no column changed, \<open>updated_at\<close> is set, and the
  phone and the employee number are unique.
\<close>

definition update_trainee :: "trainee \<Rightarrow> ('a training_db_scheme, unit) py" where
  "update_trainee t = (\<lambda>s.
     if session_failed s then (Inl PendingRollbackError, s)
     else if t \<in> set (trainees s) then (Inr (), s)
     else let others = filter (\<lambda>x. tr_id x \<noteq> tr_id t) (trainees s)
          in if tr_phone t \<in> tr_phone ` set others \<or>
               (tr_employee_number t \<noteq> None \<and> tr_employee_number t \<in> tr_employee_number ` set others)
             then (Inl (IntegrityError ''trainees''), s\<lparr>session_failed := True\<rparr>)
             else (Inr (), s\<lparr>trainees := update_row tr_id (tr_id t) (\<lambda>_. t\<lparr>tr_updated_at := utcnow s\<rparr>) (trainees s)\<rparr>))"

definition now_iso :: "'a session_scheme \<Rightarrow> string" where
  "now_iso s = isoformat_utc (clock s)"

definition redaction_report :: "string \<Rightarrow> string \<Rightarrow> (string \<times> json) list \<Rightarrow> 'a session_scheme \<Rightarrow> json" where
  "redaction_report kind sid counts s =
     JObj ([(''subject'', JObj [(''type'', JStr kind), (''id'', JStr sid)])] @ counts @
           [(''redacted_at'', JStr (now_iso s))])"

definition redact_trainee :: "string \<Rightarrow> ('a training_db_scheme, json) py" where
  "redact_trainee tid = with_state (\<lambda>s.
     case by_key tr_id tid (trainees s) of
       None \<Rightarrow> throw (GDPRError (''trainee '' @ tid @ '' not found''))
     | Some t \<Rightarrow>
         let dids = map d_id (declarations_of tid s); m = int (length dids);
             ids = audit_ids (about_trainee tid s) s
         in seq (update_trainee (wipe_trainee t))
           (seq (modify (\<lambda>s. s\<lparr>declarations := map (\<lambda>d. if d_id d \<in> set dids then wipe_declaration d else d) (declarations s)\<rparr>))
           (bind (redact_audit_rows ids) (\<lambda>n.
             seq (record_entry ''gdpr'' GDPR_REDACTED (Some tid)
                    [(''subject_kind'', JStr ''trainee''), (''audit_rows_redacted'', JInt n),
                     (''declarations_redacted'', JInt m)] None)
            (seq (modify commit)
            (with_state (\<lambda>s. ret (redaction_report ''trainee'' tid
               [(''audit_rows_redacted'', JInt n), (''declarations_redacted'', JInt m)] s))))))))"

subsection \<open>Redacting a user\<close>

definition about_user :: "string \<Rightarrow> audit_row \<Rightarrow> bool" where
  "about_user uid r \<longleftrightarrow> al_user_id r = Some uid \<or> entity_type r = ''user'' \<and> entity_id r = Some uid"

definition redact_user :: "string \<Rightarrow> ('a training_db_scheme, json) py" where
  "redact_user uid = with_state (\<lambda>s.
     case by_key u_id uid (users s) of
       None \<Rightarrow> throw (GDPRError (''user '' @ uid @ '' not found''))
     | Some u \<Rightarrow>
         bind (redact_audit_rows (audit_ids (about_user uid) s)) (\<lambda>n.
           seq (record_entry ''gdpr'' GDPR_REDACTED (Some uid)
                  [(''subject_kind'', JStr ''user''), (''audit_rows_redacted'', JInt n),
                   (''note'', JStr ''user row retained for employment-record obligation'')] None)
          (seq (modify commit)
          (with_state (\<lambda>s. ret (redaction_report ''user'' uid [(''audit_rows_redacted'', JInt n)] s))))))"

text \<open>\<open>redact\<close>: a subject is \<open>user:<id>\<close> or \<open>trainee:<id>\<close>.\<close>

definition redact :: "string \<Rightarrow> ('a training_db_scheme, json) py" where
  "redact spec =
     (let (kind, found, sid) = partition_on (CHR '':'') spec
      in if \<not> found then throw (GDPRError (''subject must be '' @ py_repr ''user:<id>'' @ '' or '' @ py_repr ''trainee:<id>''))
         else if kind = ''user'' then redact_user sid
         else if kind = ''trainee'' then redact_trainee sid
         else throw (GDPRError (''unknown subject kind: '' @ py_repr kind)))"

subsection \<open>Retention\<close>

definition retention_setting :: "(string \<times> int) list \<Rightarrow> string \<Rightarrow> int \<Rightarrow> int" where
  "retention_setting cfg k dflt = (case map_of cfg k of None \<Rightarrow> dflt | Some v \<Rightarrow> v)"

definition expired_enrolments :: "'a training_db_scheme \<Rightarrow> enrolment list" where
  "expired_enrolments s =
     filter (\<lambda>e. e_status e \<in> {enrolment_status_value EXPIRED, enrolment_status_value WITHDRAWN} \<and>
                 instant (expires_at e) < clock s - days 30) (enrolments s)"

definition stale_declarations :: "int \<Rightarrow> 'a training_db_scheme \<Rightarrow> signed_declaration list" where
  "stale_declarations decl_years s =
     filter (\<lambda>d. (\<exists>c\<in>set (certifications s). ct_declaration_id c = d_id d \<and>
                    instant (valid_until c) < clock s - days (365 * decl_years)) \<and>
                 (signature_png d \<noteq> None \<or> d_ip_address d \<noteq> None \<or> d_user_agent d \<noteq> None)) (declarations s)"

definition dormant_trainees :: "int \<Rightarrow> 'a training_db_scheme \<Rightarrow> trainee list" where
  "dormant_trainees months s =
     filter (\<lambda>t. \<not> tr_is_active t \<and> instant (tr_updated_at t) < clock s - days (30 * months) \<and>
                 \<not> startswith (lower (tr_full_name t)) ''[redacted'') (trainees s)"

definition has_live_certification :: "string \<Rightarrow> 'a training_db_scheme \<Rightarrow> bool" where
  "has_live_certification tid s \<longleftrightarrow>
     (\<exists>c\<in>set (certifications s). ct_trainee_id c = tid \<and> clock s < instant (valid_until c) \<and> revoked_at c = None)"

text \<open>
  DELETE of an enrolment: its attempt, when it has one, would lose its enrolment, which is a
  column that must not be null.
\<close>

definition delete_enrolments :: "enrolment list \<Rightarrow> ('a training_db_scheme, unit) py" where
  "delete_enrolments es = (\<lambda>s.
     if es = [] then (Inr (), s)
     else if session_failed s then (Inl PendingRollbackError, s)
     else if \<exists>a\<in>set (attempts s). at_enrolment_id a \<in> e_id ` set es
     then (Inl (IntegrityError ''training_attempts''), s\<lparr>session_failed := True\<rparr>)
     else (Inr (), s\<lparr>enrolments := filter (\<lambda>e. e_id e \<notin> e_id ` set es) (enrolments s)\<rparr>))"

definition clear_declaration :: "signed_declaration \<Rightarrow> signed_declaration" where
  "clear_declaration d = d\<lparr>signature_png := None, d_ip_address := None, d_user_agent := None\<rparr>"

definition sweep_summary :: "bool \<Rightarrow> nat \<Rightarrow> nat \<Rightarrow> nat \<Rightarrow> nat \<Rightarrow> (string \<times> json) list" where
  "sweep_summary dry e d t a =
     [(''dry_run'', JBool dry), (''expired_enrolments_dropped'', JInt (int e)),
      (''declarations_pii_redacted'', JInt (int d)), (''trainees_redacted'', JInt (int t)),
      (''audit_rows_eligible_for_partition_drop'', JInt (int a))]"

definition sweep :: "bool \<Rightarrow> (string \<times> int) list \<Rightarrow> ('a training_db_scheme, (string \<times> json) list) py" where
  "sweep dry cfg = with_state (\<lambda>s0.
     let decl_years = retention_setting cfg ''RETENTION_DECLARATION_YEARS'' 7;
         audit_years = retention_setting cfg ''RETENTION_AUDIT_YEARS'' 7;
         months = retention_setting cfg ''RETENTION_TRAINEE_DORMANT_MONTHS'' 24;
         expired = expired_enrolments s0
     in seq (if dry then ret () else delete_enrolments expired) (with_state (\<lambda>s1.
        let stale = stale_declarations decl_years s1;
            wipe = (\<lambda>s. s\<lparr>declarations := map (\<lambda>d. if d_id d \<in> d_id ` set stale then clear_declaration d else d) (declarations s)\<rparr>)
        in seq (if dry then ret () else modify wipe) (with_state (\<lambda>s2.
           let targets = map tr_id (filter (\<lambda>t. \<not> has_live_certification (tr_id t) s2) (dormant_trainees months s2))
           in seq (if dry then ret () else for_each (\<lambda>tid. bind (redact_trainee tid) (\<lambda>_. ret ())) targets) (with_state (\<lambda>s3.
              let summary = sweep_summary dry (length expired) (length stale) (length targets)
                    (length (filter (\<lambda>r. instant (occurred_at r) < clock s0 - days (365 * audit_years)) (audit_log s3)))
              in if dry then ret summary
                 else seq (record_entry ''retention'' GDPR_REDACTED None [(''summary'', JObj summary)] None)
                     (seq (modify commit) (ret summary)))))))))"

subsection \<open>What a redaction does\<close>

lemma redact_rows_frame:
  "trainees (snd (redact_audit_rows ids s)) = trainees s" "declarations (snd (redact_audit_rows ids s)) = declarations s"
  "enrolments (snd (redact_audit_rows ids s)) = enrolments s" "attempts (snd (redact_audit_rows ids s)) = attempts s"
  "certifications (snd (redact_audit_rows ids s)) = certifications s"
  "session_failed (snd (redact_audit_rows ids s)) = session_failed s"
  "audit_seq (snd (redact_audit_rows ids s)) = audit_seq s"
  "clock (snd (redact_audit_rows ids s)) = clock s"
  by (auto simp: redact_audit_rows_def Let_def split: list.splits prod.splits)

lemma audit_ids_set: "set (audit_ids P s) = al_id ` {r \<in> set (audit_log s). P r}"
  by (auto simp: audit_ids_def)

lemma audit_ids_hit:
  assumes "log_wf s" "r \<in> set (audit_log s)"
  shows "al_id r \<in> set (audit_ids P s) \<longleftrightarrow> P r"
proof -
  have "distinct (map al_id (audit_log s))" using assms(1) by (simp add: log_wf_def strict_sorted_iff)
  with assms(2) show ?thesis by (auto simp: audit_ids_set distinct_map inj_on_def)
qed

text \<open>Redacting the rows a predicate selects, none of them included.\<close>

lemma redact_selected:
  assumes "log_wf s" "\<not> session_failed s" "writable s \<or> audit_ids P s \<noteq> []"
  obtains n t where "redact_audit_rows (audit_ids P s) s = (Inr n, t)" "log_wf t" "writable t"
    "map row_facts (audit_log t) = map row_facts (audit_log s)"
    "map diff (audit_log t) = map (\<lambda>r. if P r then redaction_marker s else diff r) (audit_log s)"
    "n = int (length (filter P (audit_log s)))"
proof (cases "audit_ids P s = []")
  case True
  then have none: "\<forall>r\<in>set (audit_log s). \<not> P r" using audit_ids_set [of P s] by auto
  then have "map diff (audit_log s) = map (\<lambda>r. if P r then redaction_marker s else diff r) (audit_log s)" by simp
  moreover have "filter P (audit_log s) = []" using none by (simp add: filter_empty_conv)
  moreover have "redact_audit_rows (audit_ids P s) s = (Inr 0, s)" by (simp add: True redact_audit_rows_def)
  ultimately show thesis using assms True by (intro that [where t = s]) auto
next
  case False
  let ?ids = "audit_ids P s"
  have "fold min (tl ?ids) (hd ?ids) \<in> set ?ids" by (rule fold_min_in [OF False])
  then have first: "fold min (tl ?ids) (hd ?ids) \<in> al_id ` set (audit_log s)" by (auto simp: audit_ids_set)
  obtain t where t: "redact_audit_rows ?ids s = (Inr (int (length (filter (\<lambda>r. al_id r \<in> set ?ids) (audit_log s)))), t)"
    "log_wf t" "map row_facts (audit_log t) = map row_facts (audit_log s)"
    "map diff (audit_log t) = map (\<lambda>r. if al_id r \<in> set ?ids then redaction_marker s else diff r) (audit_log s)"
    using redact_rows_result [OF assms(1,2) False first] by blast
  have hit: "r \<in> set (audit_log s) \<Longrightarrow> al_id r \<in> set ?ids \<longleftrightarrow> P r" for r by (rule audit_ids_hit [OF assms(1)])
  have "map diff (audit_log t) = map (\<lambda>r. if P r then redaction_marker s else diff r) (audit_log s)"
    unfolding t(4) using hit by simp
  moreover have "filter (\<lambda>r. al_id r \<in> set ?ids) (audit_log s) = filter P (audit_log s)"
    using hit by (rule filter_cong [OF refl])
  moreover have "writable t"
    using redact_audit_rows_eq [OF assms(2) False _ first] assms(1,2) t(1)
    by (cases "dialect s") (auto simp: writable_def audit_update_allowed_def log_wf_def)
  ultimately show thesis using t by (intro that [where t = t]) simp_all
qed

definition phone_marker :: "string \<Rightarrow> string" where
  "phone_marker tid = ''[redacted-'' @ take 8 tid @ '']''"

lemma redact_trainee_result:
  assumes "log_wf s" "\<not> session_failed s" "writable s \<or> audit_ids (about_trainee tid s) s \<noteq> []"
    "by_key tr_id tid (trainees s) = Some t" "distinct (map tr_id (trainees s))"
    "\<forall>x\<in>set (trainees s). tr_id x \<noteq> tid \<longrightarrow> tr_phone x \<noteq> phone_marker tid \<and>
       (tr_employee_number x = tr_employee_number t \<longrightarrow> tr_employee_number t = None)"
  shows "\<exists>r s' e. redact_trainee tid s = (Inr r, s') \<and> verify_chain s' = (True, None) \<and>
    map row_facts (audit_log s') = map row_facts (audit_log s) @ [row_facts e] \<and>
    map diff (audit_log s') = map (\<lambda>r. if about_trainee tid s r then redaction_marker s else diff r) (audit_log s) @ [diff e] \<and>
    entity_type e = ''gdpr'' \<and> entity_id e = Some tid \<and>
    (\<exists>now. trainees s' = map (\<lambda>x. if tr_id x = tid then (wipe_trainee t)\<lparr>tr_updated_at := now\<rparr> else x) (trainees s)) \<and>
    declarations s' = map (\<lambda>d. if d_id d \<in> d_id ` set (declarations_of tid s) then wipe_declaration d else d) (declarations s) \<and>
    certifications s' = certifications s \<and> enrolments s' = enrolments s \<and> attempts s' = attempts s"
proof -
  let ?t = "wipe_trainee t" and ?dids = "map d_id (declarations_of tid s)"
  have tid: "tr_id t = tid" and mem: "t \<in> set (trainees s)" using by_key_Some [OF assms(4)] by auto
  have same: "x = t" if "x \<in> set (trainees s)" "tr_id x = tid" for x
    using assms(5) mem that tid by (metis distinct_map inj_onD)
  obtain now where upd: "update_trainee ?t s = (Inr (), s\<lparr>trainees :=
      map (\<lambda>x. if tr_id x = tid then ?t\<lparr>tr_updated_at := now\<rparr> else x) (trainees s)\<rparr>)"
  proof (cases "?t \<in> set (trainees s)")
    case True
    then have "?t = t" using same [of ?t] tid by (simp add: wipe_trainee_def)
    then have "map (\<lambda>x. if tr_id x = tid then ?t\<lparr>tr_updated_at := tr_updated_at t\<rparr> else x) (trainees s) = trainees s"
      using same by (auto intro!: map_idI)
    with True show thesis using assms(2) by (intro that [of "tr_updated_at t"]) (simp add: update_trainee_def)
  next
    case False
    have "tr_id ?t = tid" "tr_employee_number ?t = tr_employee_number t" "tr_phone ?t = phone_marker tid"
      by (simp_all add: wipe_trainee_def tid phone_marker_def)
    note cols = this
    let ?others = "filter (\<lambda>x. tr_id x \<noteq> tid) (trainees s)"
    have "tr_phone ?t \<notin> tr_phone ` set ?others" using assms(6) by (auto simp: cols)
    moreover have "\<not> (tr_employee_number ?t \<noteq> None \<and> tr_employee_number ?t \<in> tr_employee_number ` set ?others)"
      unfolding cols using assms(6) by fastforce
    ultimately have "update_trainee ?t s = (Inr (), s\<lparr>trainees := update_row tr_id tid (\<lambda>_. ?t\<lparr>tr_updated_at := utcnow s\<rparr>) (trainees s)\<rparr>)"
      using assms(2) False unfolding update_trainee_def Let_def cols(1) by presburger
    then show thesis by (intro that [of "utcnow s"]) (simp add: update_row_def)
  qed
  define s1 where "s1 = s\<lparr>trainees := map (\<lambda>x. if tr_id x = tid then ?t\<lparr>tr_updated_at := now\<rparr> else x) (trainees s),
    declarations := map (\<lambda>d. if d_id d \<in> set ?dids then wipe_declaration d else d) (declarations s)\<rparr>"
  have s1: "audit_log s1 = audit_log s" "log_wf s1" "\<not> session_failed s1" "redaction_marker s1 = redaction_marker s"
    "audit_ids (about_trainee tid s) s1 = audit_ids (about_trainee tid s) s" "writable s1 = writable s"
    using assms(1,2) by (simp_all add: s1_def log_wf_def redaction_marker_def audit_ids_def writable_def audit_update_allowed_def)
  have "writable s1 \<or> audit_ids (about_trainee tid s) s1 \<noteq> []" using assms(3) s1 by simp
  then obtain n s2 where red': "redact_audit_rows (audit_ids (about_trainee tid s) s1) s1 = (Inr n, s2)" "log_wf s2" "writable s2"
    "map row_facts (audit_log s2) = map row_facts (audit_log s1)"
    "map diff (audit_log s2) = map (\<lambda>r. if about_trainee tid s r then redaction_marker s1 else diff r) (audit_log s1)"
    by (rule redact_selected [OF s1(2,3)])
  note red = red' [unfolded s1(1,4,5)]
  have frame: "trainees s2 = trainees s1" "declarations s2 = declarations s1" "certifications s2 = certifications s"
    "enrolments s2 = enrolments s" "attempts s2 = attempts s"
    using redact_rows_frame [of "audit_ids (about_trainee tid s) s" s1] red(1) by (simp_all add: s1_def)
  define act where "act = [(''subject_kind'', JStr ''trainee''), (''audit_rows_redacted'', JInt n),
    (''declarations_redacted'', JInt (int (length ?dids)))]"
  define e where "e = with_checksum (json_hash s2) (new_entry ''gdpr'' GDPR_REDACTED (Some tid) act None s2)"
  define s3 where "s3 = s2\<lparr>audit_log := audit_log s2 @ [e], audit_seq := audit_seq s2 + 1\<rparr>"
  have rec: "record_entry ''gdpr'' GDPR_REDACTED (Some tid) act None s2 = (Inr e, s3)"
    using record_entry_ok [OF red(3)] by (simp add: e_def s3_def)
  have "log_wf s3" using recorder.run_wf [OF red(2), of "(''gdpr'')" GDPR_REDACTED "Some tid" act None] rec by simp
  then have "log_wf (commit s3)" by (simp add: log_wf_def commit_def)
  then have "verify_chain (commit s3) = (True, None)" by (rule log_wf_verify)
  moreover have "redact_trainee tid s = (Inr (redaction_report ''trainee'' tid
      [(''audit_rows_redacted'', JInt n), (''declarations_redacted'', JInt (int (length ?dids)))] (commit s3)), commit s3)"
  proof -
    let ?wipe = "\<lambda>s. s\<lparr>declarations := map (\<lambda>d. if d_id d \<in> set ?dids then wipe_declaration d else d) (declarations s)\<rparr>"
    have up: "seq (update_trainee ?t) m s = m (s\<lparr>trainees := map (\<lambda>x. if tr_id x = tid then ?t\<lparr>tr_updated_at := now\<rparr> else x) (trainees s)\<rparr>)"
      for m :: "('a training_db_scheme, json) py" by (rule seq_Inr [where m = "update_trainee ?t", OF upd])
    have s1': "?wipe (s\<lparr>trainees := map (\<lambda>x. if tr_id x = tid then ?t\<lparr>tr_updated_at := now\<rparr> else x) (trainees s)\<rparr>) = s1"
      by (simp add: s1_def)
    have rd: "bind (redact_audit_rows (audit_ids (about_trainee tid s) s)) k s1 = k n s2"
      for k :: "int \<Rightarrow> ('a training_db_scheme, json) py" by (rule bind_Inr [where m = "redact_audit_rows _", OF red(1)])
    have rc: "seq (record_entry ''gdpr'' GDPR_REDACTED (Some tid) act None) m s2 = m s3"
      for m :: "('a training_db_scheme, json) py" by (rule seq_Inr [where m = "record_entry _ _ _ _ _", OF rec])
    show ?thesis
      unfolding redact_trainee_def with_state_apply assms(4) option.case Let_def up seq_modify s1' rd act_def [symmetric] rc ret_apply
      by (rule refl)
  qed
  moreover have "entity_type e = ''gdpr''" "entity_id e = Some tid" by (simp_all add: e_def new_entry_def with_checksum_def)
  ultimately show ?thesis
    using red(4,5) frame by (intro exI [of _ _] conjI) (assumption | auto simp: commit_def s3_def s1_def)+
qed


definition sample_erasable :: training_db where
  "sample_erasable = snd (record_entry ''trainee'' CREATE (Some ''T1'') [(''full_name'', JStr ''Anna'')] None
     (sample_training [sample_trainee]))"


subsection \<open>Users and the sweep\<close>

text \<open>Redacting a user rewrites its audit rows and leaves its account alone.\<close>

lemma redact_user_result:
  assumes "log_wf s" "\<not> session_failed s" "writable s \<or> audit_ids (about_user uid) s \<noteq> []" "by_key u_id uid (users s) = Some u"
  shows "\<exists>r s' e. redact_user uid s = (Inr r, s') \<and> verify_chain s' = (True, None) \<and>
    map row_facts (audit_log s') = map row_facts (audit_log s) @ [row_facts e] \<and>
    map diff (audit_log s') = map (\<lambda>r. if about_user uid r then redaction_marker s else diff r) (audit_log s) @ [diff e]"
proof -
  obtain n s2 where red: "redact_audit_rows (audit_ids (about_user uid) s) s = (Inr n, s2)" "log_wf s2" "writable s2"
    "map row_facts (audit_log s2) = map row_facts (audit_log s)"
    "map diff (audit_log s2) = map (\<lambda>r. if about_user uid r then redaction_marker s else diff r) (audit_log s)"
    by (rule redact_selected [OF assms(1-3)])
  define d where "d = [(''subject_kind'', JStr ''user''), (''audit_rows_redacted'', JInt n),
    (''note'', JStr ''user row retained for employment-record obligation'')]"
  define e where "e = with_checksum (json_hash s2) (new_entry ''gdpr'' GDPR_REDACTED (Some uid) d None s2)"
  define s3 where "s3 = s2\<lparr>audit_log := audit_log s2 @ [e], audit_seq := audit_seq s2 + 1\<rparr>"
  have rec: "record_entry ''gdpr'' GDPR_REDACTED (Some uid) d None s2 = (Inr e, s3)"
    using record_entry_ok [OF red(3)] by (simp add: e_def s3_def)
  have "log_wf s3" using recorder.run_wf [OF red(2), of "(''gdpr'')" GDPR_REDACTED "Some uid" d None] rec by simp
  then have "verify_chain (commit s3) = (True, None)" by (intro log_wf_verify) (simp add: log_wf_def commit_def)
  moreover have "redact_user uid s = (Inr (redaction_report ''user'' uid [(''audit_rows_redacted'', JInt n)] (commit s3)), commit s3)"
    using red(1) rec by (simp add: redact_user_def assms(4) bind_Inr seq_Inr d_def [symmetric])
  ultimately show ?thesis using red(4,5) by (auto simp: commit_def s3_def)
qed

text \<open>A dry run of the sweep changes nothing.\<close>

lemma sweep_dry_run: "\<exists>summary. sweep True cfg s = (Inr summary, s)"
  by (simp add: sweep_def Let_def)

end
