(* ===== verification/Dsar.thy ===== *)
theory Dsar
  imports Gdpr
begin

text \<open>
  Subject access exports (app/services/dsar.py): every row held about a user or a trainee, as
  JSON, without authentication material. The columns the development's records do not carry
  (the creation and update times, the names of a role) are a parameter of the export.
\<close>

record row_extras =
  created_at_of :: "string \<Rightarrow> string \<Rightarrow> json"
  updated_at_of :: "string \<Rightarrow> string \<Rightarrow> json"
  role_name_en :: "string \<Rightarrow> string"
  role_name_pl :: "string \<Rightarrow> string"

subsection \<open>Rows as dictionaries\<close>

type_synonym columns = "(string \<times> json) list"

definition iso_json :: "pydt \<Rightarrow> json" where
  "iso_json dt = JStr (isoformat dt)"

definition iso_json_opt :: "pydt option \<Rightarrow> json" where
  "iso_json_opt dt = (case dt of None \<Rightarrow> JNull | Some t \<Rightarrow> iso_json t)"

definition times_of :: "row_extras \<Rightarrow> string \<Rightarrow> string \<Rightarrow> columns" where
  "times_of x table i = [(''created_at'', created_at_of x table i), (''updated_at'', updated_at_of x table i)]"

definition user_columns :: "row_extras \<Rightarrow> user \<Rightarrow> columns" where
  "user_columns x u =
     [(''email'', JStr (email u)), (''password_hash'', JStr (password_hash u)), (''full_name'', JStr (full_name u)),
      (''language'', JStr (language u)), (''is_active_flag'', JBool (is_active_flag u)),
      (''failed_attempts'', JInt (failed_attempts u)), (''locked_until'', iso_json_opt (locked_until u)),
      (''last_login_at'', iso_json_opt (last_login_at u)), (''role_id'', JStr (u_role_id u)),
      (''totp_secret'', jstr_opt (totp_secret u)), (''totp_enrolled_at'', iso_json_opt (totp_enrolled_at u)),
      (''id'', JStr (u_id u))] @ times_of x ''users'' (u_id u)"

definition trainee_columns :: "row_extras \<Rightarrow> trainee \<Rightarrow> columns" where
  "trainee_columns x t =
     [(''employee_number'', jstr_opt (tr_employee_number t)), (''phone'', JStr (tr_phone t)),
      (''email'', jstr_opt (tr_email t)), (''full_name'', JStr (tr_full_name t)), (''role_code'', JStr (tr_role_code t)),
      (''line_id'', jstr_opt (tr_line_id t)), (''language'', JStr (tr_language t)), (''is_active'', JBool (tr_is_active t)),
      (''notification_channel'', JStr (tr_channel t)), (''user_id'', jstr_opt (tr_user_id t)), (''id'', JStr (tr_id t)),
      (''created_at'', created_at_of x ''trainees'' (tr_id t)), (''updated_at'', iso_json (tr_updated_at t))]"

definition enrolment_columns :: "row_extras \<Rightarrow> enrolment \<Rightarrow> columns" where
  "enrolment_columns x e =
     [(''trainee_id'', JStr (e_trainee_id e)), (''course_version_id'', JStr (e_version_id e)),
      (''magic_token'', JStr (magic_token e)), (''issued_at'', iso_json (issued_at e)), (''expires_at'', iso_json (expires_at e)),
      (''status'', JStr (e_status e)), (''source'', JStr (e_source e)), (''source_ref'', jstr_opt (e_source_ref e)),
      (''module_progress'', JInt (module_progress e)), (''reminder_3d_sent_at'', iso_json_opt (reminder_3d_sent_at e)),
      (''reminder_7d_sent_at'', iso_json_opt (reminder_7d_sent_at e)),
      (''reminder_final_sent_at'', iso_json_opt (reminder_final_sent_at e)), (''id'', JStr (e_id e))]
     @ times_of x ''training_enrolments'' (e_id e)"

definition attempt_columns :: "row_extras \<Rightarrow> attempt \<Rightarrow> columns" where
  "attempt_columns x a =
     [(''enrolment_id'', JStr (at_enrolment_id a)), (''started_at'', iso_json (started_at a)),
      (''submitted_at'', iso_json_opt (submitted_at a)), (''score'', jfloat_opt (score a)),
      (''passed'', case passed a of None \<Rightarrow> JNull | Some b \<Rightarrow> JBool b), (''payload'', at_payload a), (''id'', JStr (at_id a))]
     @ times_of x ''training_attempts'' (at_id a)"

definition declaration_columns :: "row_extras \<Rightarrow> signed_declaration \<Rightarrow> columns" where
  "declaration_columns x d =
     [(''attempt_id'', JStr (d_attempt_id d)), (''typed_name'', JStr (typed_name d)),
      (''signature_png'', jstr_opt (signature_png d)), (''declaration_text'', JStr (declaration_text d)),
      (''ip_address'', jstr_opt (d_ip_address d)), (''user_agent'', jstr_opt (d_user_agent d)),
      (''signed_at'', iso_json (signed_at d)), (''id'', JStr (d_id d))]
     @ times_of x ''training_declarations'' (d_id d)"

definition certification_columns :: "row_extras \<Rightarrow> certification \<Rightarrow> columns" where
  "certification_columns x c =
     [(''trainee_id'', JStr (ct_trainee_id c)), (''course_id'', JStr (ct_course_id c)),
      (''course_version_id'', JStr (ct_version_id c)), (''attempt_id'', JStr (ct_attempt_id c)),
      (''declaration_id'', JStr (ct_declaration_id c)), (''valid_from'', iso_json (valid_from c)),
      (''valid_until'', iso_json (valid_until c)), (''revoked_at'', iso_json_opt (revoked_at c)), (''id'', JStr (ct_id c))]
     @ times_of x ''training_certifications'' (ct_id c)"

text \<open>\<open>_serialise\<close>: the columns that are not excluded.\<close>

definition serialise :: "string list \<Rightarrow> columns \<Rightarrow> columns" where
  "serialise excluded columns = filter (\<lambda>(k, v). k \<notin> set excluded) columns"

definition audit_entry_json :: "audit_row \<Rightarrow> json" where
  "audit_entry_json r = JObj
     [(''id'', JInt (al_id r)), (''action'', JStr (al_action r)), (''entity_type'', JStr (entity_type r)),
      (''entity_id'', jstr_opt (entity_id r)), (''occurred_at'', iso_json (occurred_at r)),
      (''ip_address'', jstr_opt (ip_address r)), (''user_agent'', jstr_opt (user_agent r)), (''diff'', diff r)]"

definition audit_entries :: "(audit_row \<Rightarrow> bool) \<Rightarrow> 'a audit_db_scheme \<Rightarrow> json" where
  "audit_entries P s = JList (map audit_entry_json (sort_key al_id (filter P (audit_log s))))"

subsection \<open>Exports\<close>

definition export_user :: "row_extras \<Rightarrow> string \<Rightarrow> 'a training_db_scheme \<Rightarrow> exc + json" where
  "export_user x uid s =
     (case by_key u_id uid (users s) of
        None \<Rightarrow> Inl (DSARError (''user '' @ uid @ '' not found''))
      | Some u \<Rightarrow> Inr (JObj
          [(''subject'', JObj [(''type'', JStr ''user''), (''id'', JStr uid)]),
           (''exported_at'', JStr (now_iso s)),
           (''user'', JObj (serialise [''password_hash'', ''totp_secret''] (user_columns x u))),
           (''role'', case role_of u s of
                        None \<Rightarrow> JNull
                      | Some r \<Rightarrow> JObj [(''code'', JStr (role_code r)), (''name_en'', JStr (role_name_en x (role_id r))),
                                        (''name_pl'', JStr (role_name_pl x (role_id r)))]),
           (''audit_log_entries'', audit_entries (about_user uid) s)]))"

definition declaration_json :: "row_extras \<Rightarrow> signed_declaration \<Rightarrow> json" where
  "declaration_json x d = JObj (serialise [''signature_png''] (declaration_columns x d) @
     [(''signature_png_present'', JBool (signature_png d \<noteq> None)),
      (''signature_png_bytes'', JInt (int (length (or_empty (signature_png d)))))])"

definition export_trainee :: "row_extras \<Rightarrow> string \<Rightarrow> 'a training_db_scheme \<Rightarrow> exc + json" where
  "export_trainee x tid s =
     (case by_key tr_id tid (trainees s) of
        None \<Rightarrow> Inl (DSARError (''trainee '' @ tid @ '' not found''))
      | Some t \<Rightarrow> Inr (JObj
          [(''subject'', JObj [(''type'', JStr ''trainee''), (''id'', JStr tid)]),
           (''exported_at'', JStr (now_iso s)),
           (''trainee'', JObj (serialise [] (trainee_columns x t))),
           (''enrolments'', JList (map (\<lambda>e. JObj (serialise [''magic_token''] (enrolment_columns x e)))
              (sort_key (\<lambda>e. instant (issued_at e)) (enrolments_of tid s)))),
           (''attempts'', JList (map (\<lambda>a. JObj (serialise [] (attempt_columns x a))) (attempts_of tid s))),
           (''declarations'', JList (map (declaration_json x) (declarations_of tid s))),
           (''certifications'', JList (map (\<lambda>c. JObj (serialise [] (certification_columns x c))) (certifications_of tid s))),
           (''audit_log_entries'', audit_entries (about_trainee tid s) s)]))"

definition export :: "row_extras \<Rightarrow> string \<Rightarrow> ('a training_db_scheme, json) py" where
  "export x spec = with_state (\<lambda>s.
     let (kind, found, sid) = partition_on (CHR '':'') spec
     in if \<not> found then throw (DSARError (''subject must be '' @ py_repr ''user:<id>'' @ '' or '' @ py_repr ''trainee:<id>''))
        else case (if kind = ''user'' then export_user x sid s
                   else if kind = ''trainee'' then export_trainee x sid s
                   else Inl (DSARError (''unknown subject kind: '' @ py_repr kind))) of
               Inl e \<Rightarrow> throw e
             | Inr result \<Rightarrow>
                 seq (record_entry ''dsar'' GDPR_DSAR_EXPORTED (Some sid) [(''subject_kind'', JStr kind)] None)
                (seq (modify commit) (ret result)))"

subsection \<open>What an export does not say\<close>

text \<open>Other passwords, second-factor secrets, magic links and (equally long) signatures in the same rows.\<close>

definition change_user :: "(user \<Rightarrow> string) \<Rightarrow> (user \<Rightarrow> string option) \<Rightarrow> user \<Rightarrow> user" where
  "change_user pw ts u = u\<lparr>password_hash := pw u, totp_secret := ts u\<rparr>"

definition change_token :: "(enrolment \<Rightarrow> string) \<Rightarrow> enrolment \<Rightarrow> enrolment" where
  "change_token tok e = e\<lparr>magic_token := tok e\<rparr>"

definition change_signature :: "(string \<Rightarrow> string) \<Rightarrow> signed_declaration \<Rightarrow> signed_declaration" where
  "change_signature png d = d\<lparr>signature_png := map_option png (signature_png d)\<rparr>"

definition change_secrets ::
  "(user \<Rightarrow> string) \<Rightarrow> (user \<Rightarrow> string option) \<Rightarrow> (enrolment \<Rightarrow> string) \<Rightarrow> (string \<Rightarrow> string) \<Rightarrow>
   'a training_db_scheme \<Rightarrow> 'a training_db_scheme" where
  "change_secrets pw ts tok png s = s\<lparr>users := map (change_user pw ts) (users s),
     enrolments := map (change_token tok) (enrolments s), declarations := map (change_signature png) (declarations s)\<rparr>"

lemma filter_map_key: "(\<And>r. P (f r) = P r) \<Longrightarrow> filter P (map f rows) = map f (filter P rows)"
  by (induction rows) auto

lemma sort_key_map_same: "(\<And>r. k (f r) = k r) \<Longrightarrow> sort_key k (map f rows) = map f (sort_key k rows)"
  by (rule sort_key_map)

lemma change_simps [simp]:
  "u_id (change_user pw ts u) = u_id u" "u_role_id (change_user pw ts u) = u_role_id u"
  "e_id (change_token tok e) = e_id e" "e_trainee_id (change_token tok e) = e_trainee_id e" "issued_at (change_token tok e) = issued_at e"
  "d_id (change_signature png d) = d_id d" "d_attempt_id (change_signature png d) = d_attempt_id d"
  "serialise [''password_hash'', ''totp_secret''] (user_columns x (change_user pw ts u)) =
     serialise [''password_hash'', ''totp_secret''] (user_columns x u)"
  "serialise [''magic_token''] (enrolment_columns x (change_token tok e)) = serialise [''magic_token''] (enrolment_columns x e)"
  by (simp_all add: change_user_def change_token_def change_signature_def serialise_def user_columns_def enrolment_columns_def times_of_def)

lemma change_signature_json:
  "(\<And>b. length (png b) = length b) \<Longrightarrow> declaration_json x (change_signature png d) = declaration_json x d"
  by (cases "signature_png d") (simp_all add: declaration_json_def change_signature_def serialise_def declaration_columns_def times_of_def or_empty_def)

lemma change_secrets_rows [simp]:
  "enrolments_of tid (change_secrets pw ts tok png s) = map (change_token tok) (enrolments_of tid s)"
  "attempts_of tid (change_secrets pw ts tok png s) = attempts_of tid s"
  "declarations_of tid (change_secrets pw ts tok png s) = map (change_signature png) (declarations_of tid s)"
  "certifications_of tid (change_secrets pw ts tok png s) = certifications_of tid s"
  "about_trainee tid (change_secrets pw ts tok png s) = about_trainee tid s"
proof -
  show e: "enrolments_of tid (change_secrets pw ts tok png s) = map (change_token tok) (enrolments_of tid s)"
    by (simp add: enrolments_of_def change_secrets_def filter_map_key)
  show a: "attempts_of tid (change_secrets pw ts tok png s) = attempts_of tid s"
    by (simp add: attempts_of_def e image_image) (simp add: change_secrets_def)
  show d: "declarations_of tid (change_secrets pw ts tok png s) = map (change_signature png) (declarations_of tid s)"
    by (simp add: declarations_of_def a) (simp add: change_secrets_def filter_map_key)
  show c: "certifications_of tid (change_secrets pw ts tok png s) = certifications_of tid s"
    by (simp add: certifications_of_def change_secrets_def)
  show "about_trainee tid (change_secrets pw ts tok png s) = about_trainee tid s"
    by (rule ext) (simp add: about_trainee_def a c d e image_image)
qed

lemma export_user_change: "export_user x uid (change_secrets pw ts tok png s) = export_user x uid s"
proof -
  have u: "by_key u_id uid (users (change_secrets pw ts tok png s)) = map_option (change_user pw ts) (by_key u_id uid (users s))"
    by (simp add: change_secrets_def by_key_map)
  have "roles (change_secrets pw ts tok png s) = roles s" "audit_log (change_secrets pw ts tok png s) = audit_log s"
    "clock (change_secrets pw ts tok png s) = clock s" by (simp_all add: change_secrets_def)
  then show ?thesis
    by (cases "by_key u_id uid (users s)") (simp_all add: export_user_def u role_of_def audit_entries_def now_iso_def)
qed

lemma export_trainee_change:
  assumes "\<And>b. length (png b) = length b"
  shows "export_trainee x tid (change_secrets pw ts tok png s) = export_trainee x tid s"
proof -
  have "trainees (change_secrets pw ts tok png s) = trainees s" "audit_log (change_secrets pw ts tok png s) = audit_log s"
    "clock (change_secrets pw ts tok png s) = clock s" by (simp_all add: change_secrets_def)
  then show ?thesis
    by (cases "by_key tr_id tid (trainees s)")
      (simp_all add: export_trainee_def audit_entries_def now_iso_def sort_key_map_same change_signature_json [OF assms] comp_def)
qed

lemma export_run:
  "export x spec s =
     (let (kind, found, sid) = partition_on (CHR '':'') spec
      in case (if \<not> found then Inl (DSARError (''subject must be '' @ py_repr ''user:<id>'' @ '' or '' @ py_repr ''trainee:<id>''))
               else if kind = ''user'' then export_user x sid s
               else if kind = ''trainee'' then export_trainee x sid s
               else Inl (DSARError (''unknown subject kind: '' @ py_repr kind))) of
           Inl e \<Rightarrow> (Inl e, s)
         | Inr result \<Rightarrow>
             (case record_entry ''dsar'' GDPR_DSAR_EXPORTED (Some sid) [(''subject_kind'', JStr kind)] None s of
                (Inl e, s') \<Rightarrow> (Inl e, s') | (Inr e, s') \<Rightarrow> (Inr result, commit s')))"
  by (simp add: export_def Let_def seq_def bind_def split: prod.splits sum.splits)

lemma record_entry_fst: "isl (fst (record_entry t a e d u s)) \<longleftrightarrow> \<not> writable s"
  by (simp add: record_entry_def writable_def Let_def)

lemma record_entry_error:
  "record_entry t a e d u s = (Inl x, s') \<Longrightarrow>
     x = (if session_failed s then PendingRollbackError else InternalError ''audit_log is append-only'') \<and> audit_log s' = audit_log s"
  by (auto simp: record_entry_def Let_def split: if_splits)

text \<open>
  C30. An export is free of credentials: its outcome is the same whatever the password hashes,
  the second-factor secrets, the tokens of the magic links and the bytes of the signatures
  (of the same length) are. An export that succeeds appends exactly one audit entry, naming the
  subject, and changes no table but the log; one that fails adds none.
\<close>

theorem export_without_credentials:
  fixes s :: "'a training_db_scheme"
  assumes "\<And>b. length (png b) = length b"
  shows "fst (export x spec (change_secrets pw ts tok png s)) = fst (export x spec s) \<and>
    (case export x spec s of
       (Inl err, s') \<Rightarrow> audit_log s' = audit_log s
     | (Inr r, s') \<Rightarrow> \<exists>e. s' = commit (s\<lparr>audit_log := audit_log s @ [e], audit_seq := audit_seq s + 1\<rparr>) \<and>
         entity_type e = ''dsar'' \<and> entity_id e = Some (snd (snd (partition_on (CHR '':'') spec))))"
proof -
  obtain kind found sid where p: "partition_on (CHR '':'') spec = (kind, found, sid)" by (metis prod.exhaust)
  let ?c = "change_secrets pw ts tok png s"
  define res where "res = (if \<not> found then Inl (DSARError (''subject must be '' @ py_repr ''user:<id>'' @ '' or '' @ py_repr ''trainee:<id>''))
               else if kind = ''user'' then export_user x sid s
               else if kind = ''trainee'' then export_trainee x sid s
               else Inl (DSARError (''unknown subject kind: '' @ py_repr kind)))"
  define rec where "rec = (record_entry ''dsar'' GDPR_DSAR_EXPORTED (Some sid) [(''subject_kind'', JStr kind)] None :: ('a training_db_scheme, audit_row) py)"
  have run: "export x spec s = (case res of Inl e \<Rightarrow> (Inl e, s) | Inr result \<Rightarrow>
      (case rec s of (Inl e, s') \<Rightarrow> (Inl e, s') | (Inr e, s') \<Rightarrow> (Inr result, commit s')))"
    unfolding export_run p res_def rec_def by simp
  have run': "export x spec ?c = (case res of Inl e \<Rightarrow> (Inl e, ?c) | Inr result \<Rightarrow>
      (case rec ?c of (Inl e, s') \<Rightarrow> (Inl e, s') | (Inr e, s') \<Rightarrow> (Inr result, commit s')))"
    unfolding export_run p res_def rec_def export_user_change export_trainee_change [OF assms] by simp
  have w: "session_failed ?c = session_failed s" "writable ?c = writable s"
    by (simp_all add: change_secrets_def writable_def audit_update_allowed_def)
  show ?thesis
  proof (cases res)
    case (Inl e)
    then show ?thesis by (simp add: run run')
  next
    case (Inr result)
    show ?thesis
    proof (cases "writable s")
      case True
      define row where "row = with_checksum (json_hash s) (new_entry ''dsar'' GDPR_DSAR_EXPORTED (Some sid) [(''subject_kind'', JStr kind)] None s)"
      have "rec s = (Inr row, s\<lparr>audit_log := audit_log s @ [row], audit_seq := audit_seq s + 1\<rparr>)"
        unfolding rec_def row_def using True by (rule record_entry_ok)
      moreover obtain e s2 where "rec ?c = (Inr e, s2)"
        using record_entry_ok [of ?c] True w unfolding rec_def by blast
      moreover have "entity_type row = ''dsar''" "entity_id row = Some sid" by (simp_all add: row_def new_entry_def with_checksum_def)
      ultimately show ?thesis by (auto simp: run run' Inr p)
    next
      case False
      obtain e s2 where 1: "rec s = (Inl e, s2)"
        using record_entry_fst [of _ _ _ _ _ s] False unfolding rec_def by (metis isl_def prod.collapse)
      obtain e' s2' where 2: "rec ?c = (Inl e', s2')"
        using record_entry_fst [of _ _ _ _ _ ?c] False w unfolding rec_def by (metis isl_def prod.collapse)
      have "e = e'" "audit_log s2 = audit_log s"
        using record_entry_error [OF 1 [unfolded rec_def]] record_entry_error [OF 2 [unfolded rec_def]] w by simp_all
      then show ?thesis by (simp add: run run' Inr 1 2)
    qed
  qed
qed

theorem export_without_credentials_witness:
  "\<forall>x. fst (export x ''trainee:T1'' (change_secrets (\<lambda>_. ''pw'') (\<lambda>_. None) (\<lambda>_. ''token'') (map (\<lambda>_. CHR ''x'')) sample_erasable)) =
     fst (export x ''trainee:T1'' sample_erasable)"
proof
  fix x
  show "fst (export x ''trainee:T1'' (change_secrets (\<lambda>_. ''pw'') (\<lambda>_. None) (\<lambda>_. ''token'') (map (\<lambda>_. CHR ''x'')) sample_erasable)) =
     fst (export x ''trainee:T1'' sample_erasable)"
    by (rule conjunct1 [OF export_without_credentials]) simp
qed

end
