(* ===== verification/Csv.thy ===== *)
theory Csv
  imports PyText "HOL-Library.AList"
begin

text \<open>
  Comma-separated text as Python's csv module writes and reads it, and the UTF-8 codec around it
  (\<open>_serialise\<close> and \<open>_parse\<close> of app/services/training_csv.py). A file is a list of bytes. A
  code point above U+00FF in a decoded text is kept in its UTF-8 form. Whether the writer quotes
  a bare carriage return depends on the version of the interpreter and is the parameter \<open>cr\<close>;
  the csv module's limit on the size of a field is not modelled.
\<close>

subsection \<open>UTF-8\<close>

definition BOM :: string where
  "BOM = [CHR 0xEF, CHR 0xBB, CHR 0xBF]"

definition encode_utf8 :: "string \<Rightarrow> string" where
  "encode_utf8 s = concat (map (\<lambda>c. if (of_char c :: nat) < 128 then [c] else utf8 (of_char c)) s)"

definition continuation :: "char \<Rightarrow> bool" where
  "continuation c \<longleftrightarrow> 128 \<le> (of_char c :: nat) \<and> (of_char c :: nat) < 192"

text \<open>Strict decoding; None is the UnicodeDecodeError.\<close>

fun decode_utf8 :: "string \<Rightarrow> string option" where
  "decode_utf8 [] = Some []"
| "decode_utf8 (b # bs) =
     (let n = of_char b :: nat
      in if n < 128 then map_option (Cons b) (decode_utf8 bs)
         else (case bs of
                 [] \<Rightarrow> None
               | c # cs \<Rightarrow>
                   if \<not> continuation c then None
                   else if 0xC2 \<le> n \<and> n \<le> 0xDF
                   then (let m = (n - 0xC0) * 64 + (of_char c - 128)
                         in map_option (append (if m < 256 then [char_of m] else [b, c])) (decode_utf8 cs))
                   else (case cs of
                           [] \<Rightarrow> None
                         | d # ds \<Rightarrow>
                             if \<not> continuation d then None
                             else if 0xE0 \<le> n \<and> n \<le> 0xEF
                             then if (n = 0xE0 \<and> (of_char c :: nat) < 0xA0) \<or> (n = 0xED \<and> 0xA0 \<le> (of_char c :: nat)) then None
                                  else map_option (append [b, c, d]) (decode_utf8 ds)
                             else (case ds of
                                     [] \<Rightarrow> None
                                   | e # es \<Rightarrow>
                                       if \<not> continuation e \<or> n < 0xF0 \<or> 0xF4 < n \<or>
                                         (n = 0xF0 \<and> (of_char c :: nat) < 0x90) \<or> (n = 0xF4 \<and> 0x90 \<le> (of_char c :: nat))
                                       then None
                                       else map_option (append [b, c, d, e]) (decode_utf8 es)))))"

text \<open>\<open>blob.decode("utf-8-sig")\<close>.\<close>

definition decode_utf8_sig :: "string \<Rightarrow> string option" where
  "decode_utf8_sig b = decode_utf8 (if startswith b BOM then drop 3 b else b)"

subsection \<open>Writing\<close>

definition csv_special :: "bool \<Rightarrow> char \<Rightarrow> bool" where
  "csv_special cr c \<longleftrightarrow> c = CHR '','' \<or> c = CHR 0x22 \<or> c = CHR 0x0A \<or> cr \<and> c = CHR 0x0D"

definition csv_quoted :: "string \<Rightarrow> string" where
  "csv_quoted f = CHR 0x22 # concat (map (\<lambda>c. if c = CHR 0x22 then [c, c] else [c]) f) @ [CHR 0x22]"

definition csv_field :: "bool \<Rightarrow> string \<Rightarrow> string" where
  "csv_field cr f = (if list_ex (csv_special cr) f then csv_quoted f else f)"

text \<open>One row; a row of a single empty field is quoted.\<close>

definition csv_line :: "bool \<Rightarrow> string list \<Rightarrow> string" where
  "csv_line cr r = (if r = [[]] then csv_quoted [] else join_with '','' (map (csv_field cr) r))"

definition csv_text :: "bool \<Rightarrow> string list list \<Rightarrow> string" where
  "csv_text cr rows = concat (map (\<lambda>r. csv_line cr r @ [CHR 0x0A]) rows)"

definition csv_serialise :: "bool \<Rightarrow> string list list \<Rightarrow> string" where
  "csv_serialise cr rows = BOM @ encode_utf8 (csv_text cr rows)"

subsection \<open>Reading\<close>

datatype csv_state = START_RECORD | START_FIELD | IN_FIELD | IN_QUOTED | QUOTE_IN_QUOTED | EAT_CRNL

text \<open>A character of a line, or None at its end.\<close>

definition at_eol :: "char option \<Rightarrow> bool" where
  "at_eol c \<longleftrightarrow> c = None \<or> c = Some (CHR 0x0A) \<or> c = Some (CHR 0x0D)"

definition after_row :: "char option \<Rightarrow> csv_state" where
  "after_row c = (if c = None then START_RECORD else EAT_CRNL)"

definition start_field :: "char option \<Rightarrow> string \<Rightarrow> string list \<Rightarrow> csv_state \<times> string \<times> string list" where
  "start_field c f r =
     (if at_eol c then (after_row c, [], r @ [f])
      else if c = Some (CHR 0x22) then (IN_QUOTED, f, r)
      else if c = Some (CHR '','') then (START_FIELD, [], r @ [f])
      else (IN_FIELD, f @ [the c], r))"

definition in_field :: "char option \<Rightarrow> string \<Rightarrow> string list \<Rightarrow> csv_state \<times> string \<times> string list" where
  "in_field c f r =
     (if at_eol c then (after_row c, [], r @ [f])
      else if c = Some (CHR '','') then (START_FIELD, [], r @ [f])
      else (IN_FIELD, f @ [the c], r))"

text \<open>One step of the reader: its state, the field and the row so far; None is csv.Error.\<close>

fun csv_step :: "csv_state \<Rightarrow> char option \<Rightarrow> string \<Rightarrow> string list \<Rightarrow> (csv_state \<times> string \<times> string list) option" where
  "csv_step START_RECORD c f r =
     Some (if c = None then (START_RECORD, f, r) else if at_eol c then (EAT_CRNL, f, r) else start_field c f r)"
| "csv_step START_FIELD c f r = Some (start_field c f r)"
| "csv_step IN_FIELD c f r = Some (in_field c f r)"
| "csv_step IN_QUOTED c f r =
     Some (case c of None \<Rightarrow> (IN_QUOTED, f, r)
             | Some x \<Rightarrow> if x = CHR 0x22 then (QUOTE_IN_QUOTED, f, r) else (IN_QUOTED, f @ [x], r))"
| "csv_step QUOTE_IN_QUOTED c f r =
     Some (if c = Some (CHR 0x22) then (IN_QUOTED, f @ [CHR 0x22], r) else in_field c f r)"
| "csv_step EAT_CRNL c f r =
     (if c = None then Some (START_RECORD, f, r) else if at_eol c then Some (EAT_CRNL, f, r) else None)"

definition csv_error :: exc where
  "csv_error = CSVError ''new-line character seen in unquoted field''"

text \<open>
  The rows of a text. A line ends at a newline, which the reader sees as a character and then as
  the end of the line; \<open>mid\<close> says that the current line has characters. An open quoted field at
  the end of the text closes its row.
\<close>

fun csv_scan :: "bool \<Rightarrow> csv_state \<Rightarrow> string \<Rightarrow> string list \<Rightarrow> string \<Rightarrow> exc + string list list" where
  "csv_scan mid st f r [] =
     (case (if mid then csv_step st None f r else Some (st, f, r)) of
        None \<Rightarrow> Inl csv_error
      | Some (st', f', r') \<Rightarrow>
          if st' = IN_QUOTED then Inr [r' @ [f']]
          else if mid then Inr [r'] else Inr [])"
| "csv_scan mid st f r (c # cs) =
     (case csv_step st (Some c) f r of
        None \<Rightarrow> Inl csv_error
      | Some (st1, f1, r1) \<Rightarrow>
          if c \<noteq> CHR 0x0A then csv_scan True st1 f1 r1 cs
          else (case csv_step st1 None f1 r1 of
                  None \<Rightarrow> Inl csv_error
                | Some (st2, f2, r2) \<Rightarrow>
                    if st2 = START_RECORD
                    then (case csv_scan False START_RECORD [] [] cs of Inl e \<Rightarrow> Inl e | Inr rows \<Rightarrow> Inr (r2 # rows))
                    else csv_scan False st2 f2 r2 cs))"

definition csv_rows :: "string \<Rightarrow> exc + string list list" where
  "csv_rows s = csv_scan False START_RECORD [] [] s"

subsection \<open>Dictionaries\<close>

type_synonym csv_dict = "(string \<times> string) list"

text \<open>
  A row of DictReader, cleaned: missing fields are empty, values are stripped, and a row that is
  blank is dropped (None). A row with more fields than the header has a list among its values,
  which has no \<open>strip\<close>.
\<close>

definition clean_row :: "string list \<Rightarrow> string list \<Rightarrow> exc + csv_dict option" where
  "clean_row header row =
     (let padded = row @ replicate (length header - length row) [];
          d = fold (\<lambda>(k, v). AList.update k v) (zip header padded) []
      in if length header < length row then Inl (AttributeError ''strip'')
         else if list_all (\<lambda>(k, v). strip v = []) d then Inr None
         else Inr (Some (map (\<lambda>(k, v). (k, strip v)) d)))"

fun clean_rows :: "string list \<Rightarrow> string list list \<Rightarrow> exc + csv_dict list" where
  "clean_rows header [] = Inr []"
| "clean_rows header (row # rows) =
     (if row = [] then clean_rows header rows
      else case clean_row header row of
             Inl e \<Rightarrow> Inl e
           | Inr d \<Rightarrow> (case clean_rows header rows of
                         Inl e \<Rightarrow> Inl e
                       | Inr ds \<Rightarrow> Inr (case d of None \<Rightarrow> ds | Some d' \<Rightarrow> d' # ds)))"

definition csv_parse :: "string \<Rightarrow> exc + csv_dict list" where
  "csv_parse blob =
     (case decode_utf8_sig blob of
        None \<Rightarrow> Inl (UnicodeDecodeError ''utf-8'')
      | Some text \<Rightarrow>
          (case csv_rows text of
             Inl e \<Rightarrow> Inl e
           | Inr [] \<Rightarrow> Inr []
           | Inr (header # rows) \<Rightarrow> clean_rows header rows))"

subsection \<open>What is written reads back\<close>

lemma decode_encode: "decode_utf8 (encode_utf8 s @ t) = map_option (append s) (decode_utf8 t)"
proof (induction s)
  case Nil
  then show ?case by (simp add: encode_utf8_def option.map_ident)
next
  case (Cons c s)
  define n where "n = (of_char c :: nat)"
  have n: "n < 256" "char_of n = c" by (simp_all add: n_def)
  have IH: "decode_utf8 (encode_utf8 s @ t) = map_option (append s) (decode_utf8 t)" by (rule Cons.IH)
  show ?case
  proof (cases "n < 128")
    case True
    then have "encode_utf8 (c # s) = c # encode_utf8 s" by (simp add: encode_utf8_def n_def)
    then show ?thesis using True IH by (simp add: n_def [symmetric] option.map_comp comp_def)
  next
    case False
    define b d where "b = (char_of (0xC0 + n div 64) :: char)" and "d = (char_of (0x80 + n mod 64) :: char)"
    have e: "encode_utf8 (c # s) = b # d # encode_utf8 s"
      using False n(1) by (simp add: encode_utf8_def utf8_def b_def d_def n_def [symmetric])
    define h l where "h = n div 64" and "l = n mod 64"
    have q: "h \<le> 3" "2 \<le> h" "l < 64" "h * 64 + l = n"
      using n(1) False by (auto simp: h_def l_def)
    then have bd: "(of_char b :: nat) = 0xC0 + h" "(of_char d :: nat) = 0x80 + l"
      by (simp_all add: b_def d_def h_def [symmetric] l_def [symmetric])
    then show ?thesis
      using q n IH by (simp add: e Let_def bd continuation_def option.map_comp comp_def)
  qed
qed

lemma decode_serialise: "decode_utf8_sig (csv_serialise cr rows) = Some (csv_text cr rows)"
  using decode_encode [of "csv_text cr rows" "[]"] by (simp add: decode_utf8_sig_def csv_serialise_def BOM_def)

text \<open>Fields that survive: no bare carriage return unless the writer quotes it.\<close>

definition csv_safe :: "bool \<Rightarrow> string \<Rightarrow> bool" where
  "csv_safe cr f \<longleftrightarrow> cr \<or> CHR 0x0D \<notin> set f"

lemma scan_quoted_body:
  "csv_scan True IN_QUOTED f r (concat (map (\<lambda>c. if c = CHR 0x22 then [c, c] else [c]) g) @ CHR 0x22 # cs)
     = csv_scan True QUOTE_IN_QUOTED (f @ g) r cs"
  "csv_scan False IN_QUOTED f r (concat (map (\<lambda>c. if c = CHR 0x22 then [c, c] else [c]) g) @ CHR 0x22 # cs)
     = csv_scan True QUOTE_IN_QUOTED (f @ g) r cs"
proof (induction g arbitrary: f)
  case (Cons c g)
  {
    case 1
    show ?case using Cons.IH [of "f @ [c]"] by (cases "c = CHR 0x22"; cases "c = CHR 0x0A") simp_all
  next
    case 2
    show ?case using Cons.IH [of "f @ [c]"] by (cases "c = CHR 0x22"; cases "c = CHR 0x0A") simp_all
  }
qed simp_all

lemma scan_plain_body:
  assumes "\<forall>c\<in>set g. c \<noteq> CHR '','' \<and> c \<noteq> CHR 0x0A \<and> c \<noteq> CHR 0x0D"
  shows "csv_scan True IN_FIELD f r (g @ cs) = csv_scan True IN_FIELD (f @ g) r cs"
  using assms by (induction g arbitrary: f) (simp_all add: in_field_def at_eol_def)

lemma plain_chars:
  assumes "\<not> list_ex (csv_special cr) f" "csv_safe cr f"
  shows "\<forall>c\<in>set f. c \<noteq> CHR '','' \<and> c \<noteq> CHR 0x22 \<and> c \<noteq> CHR 0x0A \<and> c \<noteq> CHR 0x0D"
  using assms by (auto simp: list_ex_iff csv_special_def csv_safe_def)

text \<open>A field and the comma after it.\<close>

lemma scan_field_comma:
  assumes "st = START_RECORD \<or> st = START_FIELD" "csv_safe cr f"
  shows "csv_scan m st [] r (csv_field cr f @ CHR '','' # cs) = csv_scan True START_FIELD [] (r @ [f]) cs"
proof (cases "list_ex (csv_special cr) f")
  case True
  then show ?thesis using assms(1) scan_quoted_body(1) [of "[]" r f "CHR '','' # cs"]
    by (auto simp: csv_field_def csv_quoted_def start_field_def at_eol_def in_field_def)
next
  case False
  have p: "\<forall>c\<in>set f. c \<noteq> CHR '','' \<and> c \<noteq> CHR 0x22 \<and> c \<noteq> CHR 0x0A \<and> c \<noteq> CHR 0x0D"
    using False assms(2) by (rule plain_chars)
  show ?thesis
  proof (cases f)
    case Nil
    then show ?thesis using assms(1) by (auto simp: csv_field_def start_field_def at_eol_def)
  next
    case (Cons c g)
    have "csv_scan True IN_FIELD [c] r (g @ CHR '','' # cs) = csv_scan True IN_FIELD f r (CHR '','' # cs)"
      using scan_plain_body [of g "[c]" r "CHR '','' # cs"] p Cons by simp
    moreover have "csv_step st (Some c) [] r = Some (IN_FIELD, [c], r)"
      using assms(1) p Cons by (elim disjE) (simp_all add: start_field_def at_eol_def)
    ultimately show ?thesis using p Cons False by (simp add: csv_field_def in_field_def at_eol_def)
  qed
qed

text \<open>The last field of a row and the newline after it.\<close>

definition then_rows :: "string list \<Rightarrow> string \<Rightarrow> exc + string list list" where
  "then_rows row cs = (case csv_scan False START_RECORD [] [] cs of Inl e \<Rightarrow> Inl e | Inr rows \<Rightarrow> Inr (row # rows))"

lemma scan_field_end:
  assumes "st = START_FIELD \<or> st = START_RECORD \<and> csv_field cr f \<noteq> []" "csv_safe cr f"
  shows "csv_scan m st [] r (csv_field cr f @ CHR 0x0A # cs) = then_rows (r @ [f]) cs"
proof (cases "list_ex (csv_special cr) f")
  case True
  then show ?thesis using assms(1) scan_quoted_body(1) [of "[]" r f "CHR 0x0A # cs"]
    by (auto simp: csv_field_def csv_quoted_def start_field_def at_eol_def in_field_def after_row_def then_rows_def)
next
  case False
  have p: "\<forall>c\<in>set f. c \<noteq> CHR '','' \<and> c \<noteq> CHR 0x22 \<and> c \<noteq> CHR 0x0A \<and> c \<noteq> CHR 0x0D"
    using False assms(2) by (rule plain_chars)
  show ?thesis
  proof (cases f)
    case Nil
    then show ?thesis using assms(1) by (auto simp: csv_field_def start_field_def at_eol_def after_row_def then_rows_def)
  next
    case (Cons c g)
    have "csv_scan True IN_FIELD [c] r (g @ CHR 0x0A # cs) = csv_scan True IN_FIELD f r (CHR 0x0A # cs)"
      using scan_plain_body [of g "[c]" r "CHR 0x0A # cs"] p Cons by simp
    moreover have "csv_step st (Some c) [] r = Some (IN_FIELD, [c], r)"
      using assms(1) p Cons by (elim disjE) (simp_all add: start_field_def at_eol_def)
    ultimately show ?thesis using p Cons False by (simp add: csv_field_def in_field_def at_eol_def after_row_def then_rows_def)
  qed
qed

lemma scan_fields:
  assumes "fs \<noteq> []" "st = START_FIELD \<or> st = START_RECORD \<and> join_with '','' (map (csv_field cr) fs) \<noteq> []"
    "\<forall>f\<in>set fs. csv_safe cr f"
  shows "csv_scan m st [] r (join_with '','' (map (csv_field cr) fs) @ CHR 0x0A # cs) = then_rows (r @ fs) cs"
  using assms
proof (induction fs arbitrary: st r m)
  case (Cons f fs)
  show ?case
  proof (cases fs)
    case Nil
    then show ?thesis using Cons.prems by (simp add: scan_field_end)
  next
    case (Cons g gs)
    have "csv_scan m st [] r (csv_field cr f @ CHR '','' # join_with '','' (map (csv_field cr) fs) @ CHR 0x0A # cs)
        = csv_scan True START_FIELD [] (r @ [f]) (join_with '','' (map (csv_field cr) fs) @ CHR 0x0A # cs)"
      using Cons.prems by (intro scan_field_comma) auto
    also have "\<dots> = then_rows ((r @ [f]) @ fs) cs"
      using Cons Cons.prems(3) by (intro Cons.IH) auto
    finally show ?thesis by (simp add: Cons)
  qed
qed simp

lemma csv_rows_text:
  assumes "\<forall>r\<in>set rows. \<forall>f\<in>set r. csv_safe cr f"
  shows "csv_rows (csv_text cr rows) = Inr rows"
  using assms
proof (induction rows)
  case Nil
  then show ?case by (simp add: csv_rows_def csv_text_def)
next
  case (Cons r rows)
  have rest: "csv_scan False START_RECORD [] [] (csv_text cr rows) = Inr rows" using Cons by (simp add: csv_rows_def)
  have line: "csv_scan False START_RECORD [] [] (csv_line cr r @ CHR 0x0A # csv_text cr rows) = then_rows r (csv_text cr rows)"
  proof -
    consider "r = []" | "r = [[]]" | "r \<noteq> []" "r \<noteq> [[]]" by blast
    then show ?thesis
    proof cases
      case 1
      then show ?thesis by (simp add: csv_line_def at_eol_def then_rows_def)
    next
      case 2
      then show ?thesis by (simp add: csv_line_def csv_quoted_def start_field_def at_eol_def in_field_def after_row_def then_rows_def split: sum.splits)
    next
      case 3
      have "join_with '','' (map (csv_field cr) r) \<noteq> []"
        using 3 by (cases r; cases "tl r") (auto simp: csv_field_def csv_quoted_def)
      then show ?thesis using 3 scan_fields [of r START_RECORD cr False "[]" "csv_text cr rows"] Cons.prems
        by (simp add: csv_line_def)
    qed
  qed
  then show ?case by (simp add: csv_rows_def csv_text_def then_rows_def rest [unfolded csv_text_def])
qed

lemma zip_update_distinct:
  assumes "distinct (map fst e @ ks)" "length ks = length vs"
  shows "fold (\<lambda>(k, v). AList.update k v) (zip ks vs) e = e @ zip ks vs"
  using assms
proof (induction ks vs arbitrary: e rule: list_induct2')
  case (4 k ks v vs)
  have "AList.update k v e = e @ [(k, v)]" using 4(2) by (induction e) auto
  then show ?case using 4 by simp
qed simp_all

text \<open>A row of stripped fields, one for each column, not all empty.\<close>

definition clean_fields :: "string list \<Rightarrow> string list \<Rightarrow> bool" where
  "clean_fields header row \<longleftrightarrow> length row = length header \<and> (\<forall>v\<in>set row. strip v = v) \<and> (\<exists>v\<in>set row. v \<noteq> [])"

lemma clean_row_id:
  assumes "distinct header" "clean_fields header row"
  shows "clean_row header row = Inr (Some (zip header row))"
proof -
  have d: "fold (\<lambda>(k, v). AList.update k v) (zip header row) [] = zip header row"
    using zip_update_distinct [of "[]" header row] assms by (simp add: clean_fields_def)
  have "map (\<lambda>(k, v). (k, strip v)) (zip header row) = zip header row"
    using assms(2) by (intro map_idI) (auto simp: clean_fields_def dest: set_zip_rightD)
  moreover obtain v where v: "v \<in> set row" "v \<noteq> []" "strip v = v" using assms(2) by (auto simp: clean_fields_def)
  then obtain i where "i < length row" "row ! i = v" by (auto simp: in_set_conv_nth)
  then have "(header ! i, v) \<in> set (zip header row)" using assms(2) by (auto simp: in_set_zip clean_fields_def)
  then have "\<not> list_all (\<lambda>(k, v). strip v = []) (zip header row)" using v by (fastforce simp: list_all_iff)
  ultimately show ?thesis using assms(2) d by (simp add: clean_row_def clean_fields_def)
qed

lemma csv_round_trip:
  assumes "distinct header" "\<forall>f\<in>set header. csv_safe cr f" "\<forall>r\<in>set rows. clean_fields header r \<and> (\<forall>f\<in>set r. csv_safe cr f)"
  shows "csv_parse (csv_serialise cr (header # rows)) = Inr (map (zip header) rows)"
proof -
  have rows: "csv_rows (csv_text cr (header # rows)) = Inr (header # rows)"
    using assms(2,3) by (intro csv_rows_text) auto
  have "clean_rows header rows = Inr (map (zip header) rows)"
    using assms(3)
  proof (induction rows)
    case (Cons r rows)
    then have "r \<noteq> []" by (auto simp: clean_fields_def)
    with Cons show ?case using clean_row_id [OF assms(1), of r] by simp
  qed simp
  then show ?thesis by (simp add: csv_parse_def decode_serialise rows)
qed

end
