(* ===== verification/TrainingCsv.thy ===== *)
theory TrainingCsv
  imports Csv JsonText Gdpr PyFormat
begin

text \<open>
  Export and two-pass import of trainees and courses as CSV files
  (app/services/training_csv.py): a plan is computed without writing, and applied row by row.
\<close>

subsection \<open>Shared\<close>

text \<open>\<open>raw.get(k, "")\<close>, and \<open>raw[k]\<close> of a column the plan has found to be filled.\<close>

definition cell :: "csv_dict \<Rightarrow> string \<Rightarrow> string" where
  "cell raw k = or_empty (map_of raw k)"

text \<open>\<open>(raw.get(k, "") or d).strip()\<close>.\<close>

definition cell_or :: "csv_dict \<Rightarrow> string \<Rightarrow> string \<Rightarrow> string" where
  "cell_or raw k dflt = strip (if cell raw k = [] then dflt else cell raw k)"

definition truth_words :: "string list" where
  "truth_words = [''true'', ''1'', ''yes'', ''y'', ''tak'', ''t'']"

definition cell_active :: "csv_dict \<Rightarrow> bool" where
  "cell_active raw \<longleftrightarrow> lower (cell_or raw ''is_active'' ''true'') \<in> set truth_words"

definition show_bool :: "bool \<Rightarrow> string" where
  "show_bool b = (if b then ''true'' else ''false'')"

datatype row_action = CREATE_ROW | UPDATE_ROW | SKIP_ROW

record import_row =
  line_no :: nat
  row_raw :: csv_dict
  row_action :: row_action
  row_errors :: "string list"
  matched_id :: "string option"
  row_diff :: "(string \<times> string \<times> string) list"

definition n_create_rows :: "import_row list \<Rightarrow> nat" where
  "n_create_rows plan = length (filter (\<lambda>r. row_action r = CREATE_ROW \<and> row_errors r = []) plan)"

definition n_update_rows :: "import_row list \<Rightarrow> nat" where
  "n_update_rows plan = length (filter (\<lambda>r. row_action r = UPDATE_ROW \<and> row_errors r = []) plan)"

definition n_error_rows :: "import_row list \<Rightarrow> nat" where
  "n_error_rows plan = length (filter (\<lambda>r. row_errors r \<noteq> []) plan)"

definition bad_row :: "nat \<Rightarrow> csv_dict \<Rightarrow> string list \<Rightarrow> import_row" where
  "bad_row i raw errs = \<lparr>line_no = i, row_raw = raw, row_action = SKIP_ROW, row_errors = errs, matched_id = None, row_diff = []\<rparr>"

text \<open>The error of a value seen in an earlier row, and the rows seen.\<close>

definition duplicate_error :: "string \<Rightarrow> (string \<times> nat) list \<Rightarrow> string \<Rightarrow> string list" where
  "duplicate_error what seen v =
     (case (if v = [] then None else map_of seen v) of
        None \<Rightarrow> []
      | Some i \<Rightarrow> [''duplicate '' @ what @ '' in this CSV (also row '' @ show_int (int i) @ '')''])"

definition see :: "string \<Rightarrow> nat \<Rightarrow> (string \<times> nat) list \<Rightarrow> (string \<times> nat) list" where
  "see v i seen = (if v = [] \<or> map_of seen v \<noteq> None then seen else (v, i) # seen)"

record import_counts =
  n_created :: nat
  n_updated :: nat
  n_skipped :: nat

subsection \<open>Trainees\<close>

definition TRAINEE_COLUMNS :: "string list" where
  "TRAINEE_COLUMNS = [''employee_number'', ''phone'', ''email'', ''full_name'', ''role_code'', ''line_code'',
     ''language'', ''notification_channel'', ''is_active'']"

definition line_code_of :: "'a ticket_db_scheme \<Rightarrow> string option \<Rightarrow> string" where
  "line_code_of s lid =
     (if truthy lid then (case by_key line_id (or_empty lid) (lines s) of None \<Rightarrow> [] | Some l \<Rightarrow> line_code l) else [])"

definition trainee_row :: "'a training_db_scheme \<Rightarrow> trainee \<Rightarrow> string list" where
  "trainee_row s t =
     [or_empty (tr_employee_number t), tr_phone t, or_empty (tr_email t), tr_full_name t, tr_role_code t,
      line_code_of s (tr_line_id t), tr_language t, tr_channel t, show_bool (tr_is_active t)]"

text \<open>By employee number, missing ones last, then by name.\<close>

definition trainees_in_order :: "'a training_db_scheme \<Rightarrow> trainee list" where
  "trainees_in_order s =
     (let by_name = sort_key tr_full_name (trainees s)
      in sort_key (\<lambda>t. or_empty (tr_employee_number t)) (filter (\<lambda>t. tr_employee_number t \<noteq> None) by_name) @
         filter (\<lambda>t. tr_employee_number t = None) by_name)"

definition export_trainees :: "bool \<Rightarrow> 'a training_db_scheme \<Rightarrow> string" where
  "export_trainees cr s = csv_serialise cr (TRAINEE_COLUMNS # map (trainee_row s) (trainees_in_order s))"

definition trainees_template :: "bool \<Rightarrow> string" where
  "trainees_template cr = csv_serialise cr [TRAINEE_COLUMNS,
     [''EMP-001'', ''+447700000001'', ''anna@example.com'', ''Anna Kowalska'', ''operator'', [], ''pl'', ''sms'', ''true'']]"

text \<open>\<open>{ln.code: ln.id}\<close>, where a later line overwrites.\<close>

definition line_by_code :: "'a ticket_db_scheme \<Rightarrow> string \<Rightarrow> string option" where
  "line_by_code s = map_of (rev (map (\<lambda>l. (line_code l, line_id l)) (lines s)))"

definition trainee_errors :: "'a training_db_scheme \<Rightarrow> csv_dict \<Rightarrow> string list" where
  "trainee_errors s raw =
     (let channel = cell_or raw ''notification_channel'' ''sms''; channel = (if channel = [] then ''sms'' else channel);
          lcode = strip (cell raw ''line_code'')
      in (if strip (cell raw ''employee_number'') = [] then [''employee_number is required''] else []) @
         (if strip (cell raw ''phone'') = [] then [''phone is required''] else []) @
         (if strip (cell raw ''full_name'') = [] then [''full_name is required''] else []) @
         (if strip (cell raw ''role_code'') = [] then [''role_code is required''] else []) @
         (if channel \<notin> set (map channel_value [SMS, EMAIL, BOTH])
          then [''unknown notification_channel: '' @ py_repr channel] else []) @
         (if lcode \<noteq> [] \<and> line_by_code s lcode = None then [''unknown line_code: '' @ py_repr lcode] else []) @
         (if channel \<noteq> ''sms'' \<and> strip (cell raw ''email'') = []
          then [''email is required for notification_channel=email/both''] else []))"

text \<open>What would change: the column, its current value and the new one.\<close>

definition trainee_diff :: "'a training_db_scheme \<Rightarrow> csv_dict \<Rightarrow> trainee \<Rightarrow> (string \<times> string \<times> string) list" where
  "trainee_diff s raw t =
     (let channel = cell_or raw ''notification_channel'' ''sms''; lang = cell_or raw ''language'' ''en''
      in filter (\<lambda>(col, cur, new). cur \<noteq> new)
        [(''phone'', tr_phone t, strip (cell raw ''phone'')),
         (''email'', or_empty (tr_email t), strip (cell raw ''email'')),
         (''full_name'', tr_full_name t, strip (cell raw ''full_name'')),
         (''role_code'', tr_role_code t, strip (cell raw ''role_code'')),
         (''line_code'', line_code_of s (tr_line_id t), strip (cell raw ''line_code'')),
         (''language'', tr_language t, if lang = [] then ''en'' else lang),
         (''notification_channel'', tr_channel t, if channel = [] then ''sms'' else channel),
         (''is_active'', show_bool (tr_is_active t), show_bool (cell_active raw))])"

text \<open>A row without errors of its own, against the trainees there are.\<close>

definition match_trainee :: "'a training_db_scheme \<Rightarrow> nat \<Rightarrow> csv_dict \<Rightarrow> import_row" where
  "match_trainee s i raw =
     (let emp = strip (cell raw ''employee_number''); phone = strip (cell raw ''phone'')
      in case by_key tr_employee_number (Some emp) (trainees s) of
           None \<Rightarrow>
             (case by_key tr_phone phone (trainees s) of
                Some other \<Rightarrow> bad_row i raw
                  [''phone '' @ phone @ '' already belongs to existing trainee (employee_number='' @
                   (if truthy (tr_employee_number other) then or_empty (tr_employee_number other) else utf8 0x2014) @
                   ''); give them this employee_number first'']
              | None \<Rightarrow> (bad_row i raw [])\<lparr>row_action := CREATE_ROW\<rparr>)
         | Some t \<Rightarrow>
             (case find (\<lambda>o1. tr_phone o1 = phone \<and> tr_id o1 \<noteq> tr_id t) (trainees s) of
                Some other \<Rightarrow> bad_row i raw
                  [''phone '' @ phone @ '' already belongs to trainee '' @
                   (if truthy (tr_employee_number other) then or_empty (tr_employee_number other) else tr_id other) @
                   '' '' @ utf8 0x2014 @ '' refusing to swap silently'']
              | None \<Rightarrow> (bad_row i raw [])\<lparr>row_action := UPDATE_ROW, matched_id := Some (tr_id t),
                                            row_diff := trainee_diff s raw t\<rparr>))"

fun plan_trainee_rows ::
  "'a training_db_scheme \<Rightarrow> nat \<Rightarrow> (string \<times> nat) list \<Rightarrow> (string \<times> nat) list \<Rightarrow> csv_dict list \<Rightarrow> import_row list" where
  "plan_trainee_rows s i emps phones [] = []"
| "plan_trainee_rows s i emps phones (raw # raws) =
     (let emp = strip (cell raw ''employee_number''); phone = strip (cell raw ''phone'');
          errs = trainee_errors s raw @ duplicate_error ''employee_number'' emps emp @ duplicate_error ''phone'' phones phone
      in (if errs \<noteq> [] then bad_row i raw errs else match_trainee s i raw)
         # plan_trainee_rows s (i + 1) (see emp i emps) (see phone i phones) raws)"

text \<open>\<open>plan_trainees_import\<close>; only a decoding error is caught.\<close>

definition plan_trainees_import :: "string \<Rightarrow> 'a training_db_scheme \<Rightarrow> exc + import_row list" where
  "plan_trainees_import blob s =
     (case csv_parse blob of
        Inl (UnicodeDecodeError m) \<Rightarrow>
          Inr [bad_row 0 [] [''file is not UTF-8 '' @ utf8 0x2014 @ '' re-export or save as UTF-8 CSV'']]
      | Inl e \<Rightarrow> Inl e
      | Inr raws \<Rightarrow> Inr (plan_trainee_rows s 2 [] [] raws))"

definition import_email :: "csv_dict \<Rightarrow> string option" where
  "import_email raw = or_none (strip (cell raw ''email''))"

definition import_line :: "(string \<Rightarrow> string option) \<Rightarrow> csv_dict \<Rightarrow> string option" where
  "import_line by_code raw = or_none (or_empty (by_code (strip (cell raw ''line_code''))))"

definition new_trainee_args :: "(string \<Rightarrow> string option) \<Rightarrow> csv_dict \<Rightarrow> trainee_args" where
  "new_trainee_args by_code raw =
     \<lparr>ta_phone = strip (cell raw ''phone''), ta_full_name = strip (cell raw ''full_name''),
      ta_role_code = strip (cell raw ''role_code''), ta_line_id = import_line by_code raw,
      ta_language = cell_or raw ''language'' ''en'', ta_email = import_email raw,
      ta_channel = cell_or raw ''notification_channel'' ''sms'',
      ta_employee_number = Some (strip (cell raw ''employee_number''))\<rparr>"

definition imported_trainee :: "(string \<Rightarrow> string option) \<Rightarrow> csv_dict \<Rightarrow> trainee \<Rightarrow> trainee" where
  "imported_trainee by_code raw t =
     t\<lparr>tr_phone := strip (cell raw ''phone''), tr_email := import_email raw, tr_full_name := strip (cell raw ''full_name''),
       tr_role_code := strip (cell raw ''role_code''), tr_line_id := import_line by_code raw,
       tr_language := cell_or raw ''language'' ''en'', tr_channel := cell_or raw ''notification_channel'' ''sms'',
       tr_is_active := cell_active raw\<rparr>"

text \<open>One row of the plan. Changed rows are flushed as they come.\<close>

definition apply_trainee_row ::
  "(string \<Rightarrow> string option) \<Rightarrow> import_counts \<Rightarrow> import_row \<Rightarrow> ('a training_db_scheme, import_counts) py" where
  "apply_trainee_row by_code n r =
     (if row_errors r \<noteq> [] then ret (n\<lparr>n_skipped := n_skipped n + 1\<rparr>)
      else if row_action r = CREATE_ROW
      then bind (create_trainee (new_trainee_args by_code (row_raw r))) (\<lambda>_. ret (n\<lparr>n_created := n_created n + 1\<rparr>))
      else with_state (\<lambda>s.
        case by_key tr_id (or_empty (matched_id r)) (trainees s) of
          None \<Rightarrow> ret (n\<lparr>n_skipped := n_skipped n + 1\<rparr>)
        | Some t \<Rightarrow> seq (update_trainee (imported_trainee by_code (row_raw r) t))
                        (ret (n\<lparr>n_updated := n_updated n + 1\<rparr>))))"

definition no_counts :: import_counts where
  "no_counts = \<lparr>n_created = 0, n_updated = 0, n_skipped = 0\<rparr>"

definition apply_trainees_plan :: "import_row list \<Rightarrow> ('a training_db_scheme, import_counts) py" where
  "apply_trainees_plan plan = with_state (\<lambda>s. foldM (apply_trainee_row (line_by_code s)) no_counts plan)"

subsection \<open>Courses\<close>

definition COURSE_COLUMNS :: "string list" where
  "COURSE_COLUMNS = [''code'', ''is_active'', ''description'', ''title_pl'', ''title_en'', ''summary_pl'', ''summary_en'',
     ''pass_threshold'', ''validity_months'', ''link_ttl_days'']"

definition course_row :: "(pyfloat \<Rightarrow> string) \<Rightarrow> 'a training_db_scheme \<Rightarrow> training_course \<Rightarrow> string list" where
  "course_row sf s c =
     [c_code c, show_bool (c_is_active c), or_empty (c_description c)] @
     (case active_version (c_id c) s of
        None \<Rightarrow> [[], [], [], [], [], [], []]
      | Some v \<Rightarrow> [or_empty (map_of (v_title v) ''pl''), or_empty (map_of (v_title v) ''en''),
                   or_empty (map_of (v_summary v) ''pl''), or_empty (map_of (v_summary v) ''en''),
                   sf (pass_threshold v), show_int (validity_months v), show_int (link_ttl_days v)])"

definition export_courses :: "bool \<Rightarrow> (pyfloat \<Rightarrow> string) \<Rightarrow> 'a training_db_scheme \<Rightarrow> string" where
  "export_courses cr sf s = csv_serialise cr (COURSE_COLUMNS # map (course_row sf s) (sort_key c_code (courses s)))"

definition courses_template :: "bool \<Rightarrow> string" where
  "courses_template cr = csv_serialise cr [COURSE_COLUMNS,
     [''HACCP-REFRESHER'', ''true'', ''Annual HACCP refresher training'', ''Od'' @ utf8 0x15B @ ''wie'' @ utf8 0x17C @ ''enie HACCP'',
      ''HACCP refresher'', ''Roczne od'' @ utf8 0x15B @ ''wie'' @ utf8 0x17C @ ''enie zasad HACCP.'',
      ''Annual review of HACCP principles.'', ''0.7'', ''12'', ''7'']]"

definition threshold_of :: "csv_dict \<Rightarrow> pyfloat option" where
  "threshold_of raw = (if cell raw ''pass_threshold'' = [] then Some (Fin (7 / 10)) else python_float (cell raw ''pass_threshold''))"

definition int_cell :: "csv_dict \<Rightarrow> string \<Rightarrow> int \<Rightarrow> int option" where
  "int_cell raw k dflt = (if cell raw k = [] then Some dflt else python_int (cell raw k))"

definition int_errors :: "csv_dict \<Rightarrow> string \<Rightarrow> int \<Rightarrow> int \<Rightarrow> string list" where
  "int_errors raw k dflt hi =
     (case int_cell raw k dflt of
        None \<Rightarrow> [k @ '' is not an integer'']
      | Some n \<Rightarrow> if 1 \<le> n \<and> n \<le> hi then [] else [k @ '' must be 1..'' @ show_int hi])"

definition course_errors :: "csv_dict \<Rightarrow> string list" where
  "course_errors raw =
     (if strip (cell raw ''code'') = [] then [''code is required''] else []) @
     (if strip (cell raw ''title_pl'') = [] then [''title_pl is required''] else []) @
     (if strip (cell raw ''title_en'') = [] then [''title_en is required''] else []) @
     (case threshold_of raw of
        None \<Rightarrow> [''pass_threshold is not a number'']
      | Some x \<Rightarrow> if fle (Fin 0) x \<and> fle x (Fin 1) then [] else [''pass_threshold must be 0..1'']) @
     int_errors raw ''validity_months'' 12 120 @ int_errors raw ''link_ttl_days'' 7 90"

fun plan_course_rows :: "'a training_db_scheme \<Rightarrow> nat \<Rightarrow> (string \<times> nat) list \<Rightarrow> csv_dict list \<Rightarrow> import_row list" where
  "plan_course_rows s i codes [] = []"
| "plan_course_rows s i codes (raw # raws) =
     (let code = strip (cell raw ''code'');
          errs = course_errors raw @ duplicate_error ''code'' codes code
      in (if errs \<noteq> [] then bad_row i raw errs
          else case get_course_by_code code s of
                 None \<Rightarrow> (bad_row i raw [])\<lparr>row_action := CREATE_ROW\<rparr>
               | Some c \<Rightarrow> (bad_row i raw [])\<lparr>row_action := UPDATE_ROW, matched_id := Some (c_id c)\<rparr>)
         # plan_course_rows s (i + 1) (see code i codes) raws)"

definition plan_courses_import :: "string \<Rightarrow> 'a training_db_scheme \<Rightarrow> exc + import_row list" where
  "plan_courses_import blob s =
     (case csv_parse blob of
        Inl (UnicodeDecodeError m) \<Rightarrow> Inr [bad_row 0 [] [''file is not UTF-8'']]
      | Inl e \<Rightarrow> Inl e
      | Inr raws \<Rightarrow> Inr (plan_course_rows s 2 [] raws))"

definition update_course :: "string \<Rightarrow> (training_course \<Rightarrow> training_course) \<Rightarrow> 'a training_db_scheme \<Rightarrow> 'a training_db_scheme" where
  "update_course cid f s = s\<lparr>courses := update_row c_id cid f (courses s)\<rparr>"

definition imported_version :: "string \<Rightarrow> csv_dict \<Rightarrow> ('a training_db_scheme, course_version) py" where
  "imported_version cid raw =
     add_course_version cid
       [(''pl'', strip (cell raw ''title_pl'')), (''en'', strip (cell raw ''title_en''))]
       (Some [(''pl'', strip (cell raw ''summary_pl'')), (''en'', strip (cell raw ''summary_en''))])
       (threshold_of raw) (int_cell raw ''validity_months'' 12) (int_cell raw ''link_ttl_days'' 7) None"

definition apply_course_row :: "import_counts \<Rightarrow> import_row \<Rightarrow> ('a training_db_scheme, import_counts) py" where
  "apply_course_row n r =
     (let raw = row_raw r; active = cell_active raw; desc = or_none (cell_or raw ''description'' [])
      in if row_errors r \<noteq> [] then ret (n\<lparr>n_skipped := n_skipped n + 1\<rparr>)
         else if row_action r = CREATE_ROW
         then bind (create_course (strip (cell raw ''code'')) desc) (\<lambda>c.
              seq (imported_version (c_id c) raw)
             (seq (modify (update_course (c_id c) (\<lambda>c. c\<lparr>c_is_active := active\<rparr>)))
                  (ret (n\<lparr>n_created := n_created n + 1\<rparr>))))
         else with_state (\<lambda>s.
           case by_key c_id (or_empty (matched_id r)) (courses s) of
             None \<Rightarrow> ret (n\<lparr>n_skipped := n_skipped n + 1\<rparr>)
           | Some c \<Rightarrow>
               seq (modify (update_course (c_id c) (\<lambda>c. c\<lparr>c_description := desc, c_is_active := active\<rparr>)))
              (seq (imported_version (c_id c) raw)
                   (ret (n\<lparr>n_updated := n_updated n + 1\<rparr>)))))"

definition apply_courses_plan :: "import_row list \<Rightarrow> ('a training_db_scheme, import_counts) py" where
  "apply_courses_plan plan = foldM apply_course_row no_counts plan"

subsection \<open>Importing an export\<close>

text \<open>A text that survives the file: stripped, and safe in CSV.\<close>

definition portable :: "bool \<Rightarrow> string \<Rightarrow> bool" where
  "portable cr v \<longleftrightarrow> strip v = v \<and> csv_safe cr v"

text \<open>A trainee as the forms of the program create it: required columns filled, texts stripped.\<close>

definition exportable :: "bool \<Rightarrow> 'a training_db_scheme \<Rightarrow> trainee \<Rightarrow> bool" where
  "exportable cr s t \<longleftrightarrow>
     (\<forall>v\<in>set (trainee_row s t). portable cr v) \<and>
     truthy (tr_employee_number t) \<and> tr_phone t \<noteq> [] \<and> tr_full_name t \<noteq> [] \<and> tr_role_code t \<noteq> [] \<and> tr_language t \<noteq> [] \<and>
     tr_channel t \<in> set (map channel_value [SMS, EMAIL, BOTH]) \<and> tr_email t \<noteq> Some [] \<and>
     (tr_channel t \<noteq> ''sms'' \<longrightarrow> tr_email t \<noteq> None) \<and>
     (case tr_line_id t of None \<Rightarrow> True
        | Some l \<Rightarrow> l \<noteq> [] \<and> l \<in> line_id ` set (lines s))"

definition exportable_db :: "bool \<Rightarrow> 'a training_db_scheme \<Rightarrow> bool" where
  "exportable_db cr s \<longleftrightarrow> (\<forall>t\<in>set (trainees s). exportable cr s t) \<and>
     distinct (map tr_id (trainees s)) \<and> distinct (map tr_employee_number (trainees s)) \<and> distinct (map tr_phone (trainees s)) \<and>
     distinct (map line_id (lines s)) \<and> distinct (map line_code (lines s)) \<and> (\<forall>l\<in>set (lines s). line_code l \<noteq> [])"

definition exported_raw :: "'a training_db_scheme \<Rightarrow> trainee \<Rightarrow> csv_dict" where
  "exported_raw s t = zip TRAINEE_COLUMNS (trainee_row s t)"

lemma exported_cells [simp]:
  "cell (exported_raw s t) ''employee_number'' = or_empty (tr_employee_number t)"
  "cell (exported_raw s t) ''phone'' = tr_phone t" "cell (exported_raw s t) ''email'' = or_empty (tr_email t)"
  "cell (exported_raw s t) ''full_name'' = tr_full_name t" "cell (exported_raw s t) ''role_code'' = tr_role_code t"
  "cell (exported_raw s t) ''line_code'' = line_code_of s (tr_line_id t)" "cell (exported_raw s t) ''language'' = tr_language t"
  "cell (exported_raw s t) ''notification_channel'' = tr_channel t"
  "cell (exported_raw s t) ''is_active'' = show_bool (tr_is_active t)"
  by (simp_all add: cell_def exported_raw_def TRAINEE_COLUMNS_def trainee_row_def or_empty_def)

lemma show_bool_strip: "strip (show_bool b) = show_bool b" "show_bool b \<noteq> []" "lower (show_bool b) \<in> set truth_words \<longleftrightarrow> b"
  by (cases b; simp add: show_bool_def strip_def lstrip_def rstrip_def str_py_space_def lower_def lower_char_def truth_words_def)+

lemma exported_strip:
  assumes "exportable cr s t"
  shows "strip (or_empty (tr_employee_number t)) = or_empty (tr_employee_number t)" "strip (tr_phone t) = tr_phone t"
    "strip (or_empty (tr_email t)) = or_empty (tr_email t)" "strip (tr_full_name t) = tr_full_name t"
    "strip (tr_role_code t) = tr_role_code t" "strip (line_code_of s (tr_line_id t)) = line_code_of s (tr_line_id t)"
    "strip (tr_language t) = tr_language t" "strip (tr_channel t) = tr_channel t"
  using assms by (simp_all add: exportable_def trainee_row_def portable_def)

lemma exported_active: "cell_active (exported_raw s t) = tr_is_active t"
  by (simp add: cell_active_def cell_or_def show_bool_strip)

lemma exported_line:
  assumes "exportable_db cr s" "exportable cr s t"
  shows "import_line (line_by_code s) (exported_raw s t) = tr_line_id t"
    "line_code_of s (tr_line_id t) \<noteq> [] \<Longrightarrow> line_by_code s (line_code_of s (tr_line_id t)) \<noteq> None"
proof -
  have d: "distinct (map fst (rev (map (\<lambda>l. (line_code l, line_id l)) (lines s))))"
    using assms(1) by (simp add: exportable_db_def comp_def rev_map [symmetric])
  have "import_line (line_by_code s) (exported_raw s t) = tr_line_id t \<and>
    (line_code_of s (tr_line_id t) \<noteq> [] \<longrightarrow> line_by_code s (line_code_of s (tr_line_id t)) \<noteq> None)"
  proof (cases "tr_line_id t")
    case None
    have "line_by_code s [] = None"
      using assms(1) by (auto simp: line_by_code_def map_of_eq_None_iff exportable_db_def)
    then show ?thesis by (simp add: None import_line_def line_code_of_def truthy_def or_none_def or_empty_def)
  next
    case (Some l)
    then obtain ln where ln: "ln \<in> set (lines s)" "line_id ln = l" "line_code ln \<noteq> []" "l \<noteq> []"
      using assms by (auto simp: exportable_def exportable_db_def)
    have "by_key line_id l (lines s) = Some ln"
      using by_key_unique [of line_id "lines s" ln] ln assms(1) by (simp add: exportable_db_def)
    then have c: "line_code_of s (tr_line_id t) = line_code ln" by (simp add: line_code_of_def Some truthy_def or_empty_def ln(4))
    have "line_by_code s (line_code ln) = Some l"
      unfolding line_by_code_def using d ln by (intro map_of_is_SomeI) auto
    then show ?thesis
      using c ln exported_strip(6) [OF assms(2)] by (simp add: import_line_def or_none_def or_empty_def Some)
  qed
  then show "import_line (line_by_code s) (exported_raw s t) = tr_line_id t"
    "line_code_of s (tr_line_id t) \<noteq> [] \<Longrightarrow> line_by_code s (line_code_of s (tr_line_id t)) \<noteq> None" by auto
qed

lemma exported_number:
  "exportable cr s t \<Longrightarrow> tr_employee_number t = Some (or_empty (tr_employee_number t)) \<and> or_empty (tr_employee_number t) \<noteq> []"
  by (auto simp: exportable_def truthy_def or_empty_def split: option.splits)

lemma exported_errors:
  assumes "exportable_db cr s" "exportable cr s t"
  shows "trainee_errors s (exported_raw s t) = []"
proof -
  have "or_empty (tr_employee_number t) \<noteq> []" "tr_channel t \<noteq> []"
    "tr_channel t \<noteq> ''sms'' \<Longrightarrow> or_empty (tr_email t) \<noteq> []"
    using assms(2) by (auto simp: exportable_def truthy_def or_empty_def split: option.splits)
  then show ?thesis
    using assms(2) exported_line(2) [OF assms]
    by (auto simp: trainee_errors_def cell_or_def exported_strip [OF assms(2)] exportable_def Let_def)
qed

lemma exported_diff:
  assumes "exportable cr s t"
  shows "trainee_diff s (exported_raw s t) t = []"
proof -
  have "tr_channel t \<noteq> []" using assms by (auto simp: exportable_def)
  then show ?thesis
    using assms by (simp add: trainee_diff_def cell_or_def exported_strip [OF assms] exported_active exportable_def Let_def)
qed

lemma exported_same:
  assumes "exportable_db cr s" "exportable cr s t"
  shows "imported_trainee (line_by_code s) (exported_raw s t) t = t"
proof -
  have "import_email (exported_raw s t) = tr_email t"
    using assms(2) exported_strip(3) [OF assms(2)]
    by (cases "tr_email t") (auto simp: import_email_def or_empty_def or_none_def exportable_def)
  moreover have "tr_channel t \<noteq> []" "tr_language t \<noteq> []" using assms(2) by (auto simp: exportable_def)
  ultimately show ?thesis
    by (simp add: imported_trainee_def exported_line(1) [OF assms] exported_active cell_or_def exported_strip [OF assms(2)])
qed

lemma exported_match:
  assumes "exportable_db cr s" "t \<in> set (trainees s)"
  shows "match_trainee s i (exported_raw s t) =
    \<lparr>line_no = i, row_raw = exported_raw s t, row_action = UPDATE_ROW, row_errors = [], matched_id = Some (tr_id t), row_diff = []\<rparr>"
proof -
  have e: "exportable cr s t" using assms by (simp add: exportable_db_def)
  then have "Some (or_empty (tr_employee_number t)) = tr_employee_number t" using exported_number by metis
  then have "by_key tr_employee_number (Some (or_empty (tr_employee_number t))) (trainees s) = Some t"
    using by_key_unique [of tr_employee_number "trainees s" t] assms by (simp add: exportable_db_def)
  moreover have "find (\<lambda>o1. tr_phone o1 = tr_phone t \<and> tr_id o1 \<noteq> tr_id t) (trainees s) = None"
    using assms by (auto simp: find_None_iff exportable_db_def distinct_map dest: inj_onD)
  ultimately show ?thesis
    by (simp add: match_trainee_def exported_strip [OF e] exported_diff [OF e] bad_row_def Let_def)
qed

lemma in_order:
  assumes "exportable_db cr s"
  shows "set (trainees_in_order s) = set (trainees s)" "length (trainees_in_order s) = length (trainees s)"
    "distinct (trainees_in_order s)"
proof -
  have "\<forall>t\<in>set (trainees s). tr_employee_number t \<noteq> None"
    using assms exported_number unfolding exportable_db_def by fastforce
  then have o: "trainees_in_order s = sort_key (\<lambda>t. or_empty (tr_employee_number t)) (sort_key tr_full_name (trainees s))"
    by (simp add: trainees_in_order_def Let_def filter_id_conv filter_empty_conv)
  show "set (trainees_in_order s) = set (trainees s)" "length (trainees_in_order s) = length (trainees s)" by (simp_all add: o)
  show "distinct (trainees_in_order s)" using assms by (simp add: o exportable_db_def distinct_map)
qed

text \<open>The plan of exported rows that follow rows of other trainees.\<close>

lemma plan_exported:
  assumes "exportable_db cr s" "set ts \<subseteq> set (trainees s)" "distinct ts"
    "\<forall>t\<in>set ts. map_of emps (or_empty (tr_employee_number t)) = None \<and> map_of phones (tr_phone t) = None"
  shows "map (\<lambda>r. (row_raw r, row_action r, row_errors r, matched_id r, row_diff r))
      (plan_trainee_rows s i emps phones (map (exported_raw s) ts)) =
    map (\<lambda>t. (exported_raw s t, UPDATE_ROW, [], Some (tr_id t), [])) ts"
  using assms(2-)
proof (induction ts arbitrary: i emps phones)
  case (Cons t ts)
  have t: "t \<in> set (trainees s)" "exportable cr s t" using Cons.prems assms(1) by (auto simp: exportable_db_def)
  have strip: "strip (or_empty (tr_employee_number t)) = or_empty (tr_employee_number t)" "strip (tr_phone t) = tr_phone t"
    using exported_strip [OF t(2)] by auto
  have none: "duplicate_error ''employee_number'' emps (or_empty (tr_employee_number t)) = []"
    "duplicate_error ''phone'' phones (tr_phone t) = []"
    using Cons.prems(3) by (auto simp: duplicate_error_def)
  have ne: "or_empty (tr_employee_number u) \<noteq> or_empty (tr_employee_number t) \<and> tr_phone u \<noteq> tr_phone t" if "u \<in> set ts" for u
  proof -
    have u: "u \<in> set (trainees s)" "u \<noteq> t" using that Cons.prems by auto
    then have "tr_employee_number u \<noteq> tr_employee_number t" "tr_phone u \<noteq> tr_phone t"
      using t(1) assms(1) by (auto simp: exportable_db_def distinct_map dest: inj_onD)
    moreover have "exportable cr s u" using u(1) assms(1) by (simp add: exportable_db_def)
    ultimately show ?thesis using exported_number [of cr s u] exported_number [OF t(2)] by metis
  qed
  have "\<forall>u\<in>set ts. map_of (see (or_empty (tr_employee_number t)) i emps) (or_empty (tr_employee_number u)) = None \<and>
      map_of (see (tr_phone t) i phones) (tr_phone u) = None"
    using Cons.prems(3) ne by (auto simp: see_def)
  then show ?case
    using Cons.prems Cons.IH [of "see (or_empty (tr_employee_number t)) i emps" "see (tr_phone t) i phones" "i + 1"]
    by (simp add: Let_def strip none exported_errors [OF assms(1) t(2)] exported_match [OF assms(1) t(1)])
qed simp

lemma apply_exported:
  assumes "exportable_db cr s" "\<not> session_failed s"
    "map (\<lambda>r. (row_raw r, row_action r, row_errors r, matched_id r, row_diff r)) plan =
      map (\<lambda>t. (exported_raw s t, UPDATE_ROW, [], Some (tr_id t), [])) ts" "set ts \<subseteq> set (trainees s)"
  shows "foldM (apply_trainee_row (line_by_code s)) n plan s = (Inr (n\<lparr>n_updated := n_updated n + length ts\<rparr>), s)"
  using assms(3,4)
proof (induction ts arbitrary: plan n)
  case (Cons t ts)
  then obtain r plan' where plan: "plan = r # plan'" by (cases plan) auto
  then have r: "row_raw r = exported_raw s t" "row_action r = UPDATE_ROW" "row_errors r = []" "matched_id r = Some (tr_id t)"
    using Cons.prems(1) by auto
  have t: "t \<in> set (trainees s)" "exportable cr s t" using Cons.prems(2) assms(1) by (auto simp: exportable_db_def)
  have "by_key tr_id (tr_id t) (trainees s) = Some t"
    using t(1) assms(1) by (intro by_key_unique) (simp_all add: exportable_db_def)
  then have "apply_trainee_row (line_by_code s) n r s = (Inr (n\<lparr>n_updated := n_updated n + 1\<rparr>), s)"
    using t assms(1,2) exported_same [OF assms(1) t(2)]
    by (simp add: apply_trainee_row_def r or_empty_def update_trainee_def seq_Inr)
  then show ?case using Cons.prems Cons.IH [of plan' "n\<lparr>n_updated := n_updated n + 1\<rparr>"]
    by (simp add: plan bind_Inr)
qed simp

text \<open>
  C31. Importing what was exported changes nothing. When every trainee has an employee number
  and the other required columns and all texts are stripped and safe in a file (no bare carriage
  return, unless the writer quotes it), the exported file reads back as one planned update for
  every trainee, in the order of the export, without errors and without differences, and
  applying the plan leaves the database as it was.
\<close>

theorem reimport_changes_nothing:
  assumes "exportable_db cr s" "\<not> session_failed s"
  shows "\<exists>plan. plan_trainees_import (export_trainees cr s) s = Inr plan \<and>
    map (\<lambda>r. (row_action r, row_errors r, matched_id r, row_diff r)) plan =
      map (\<lambda>t. (UPDATE_ROW, [], Some (tr_id t), [])) (trainees_in_order s) \<and>
    apply_trainees_plan plan s = (Inr \<lparr>n_created = 0, n_updated = length (trainees s), n_skipped = 0\<rparr>, s)"
proof -
  let ?ts = "trainees_in_order s"
  note o = in_order [OF assms(1)]
  have e: "\<forall>t\<in>set ?ts. exportable cr s t" using assms(1) o(1) by (simp add: exportable_db_def)
  have cols: "distinct TRAINEE_COLUMNS" "\<forall>f\<in>set TRAINEE_COLUMNS. csv_safe cr f"
    by (simp_all add: TRAINEE_COLUMNS_def csv_safe_def)
  have "clean_fields TRAINEE_COLUMNS (trainee_row s t) \<and> (\<forall>f\<in>set (trainee_row s t). csv_safe cr f)" if "t \<in> set ?ts" for t
    using e that by (auto simp: clean_fields_def TRAINEE_COLUMNS_def exportable_def portable_def) (simp add: trainee_row_def)+
  then have parse: "csv_parse (export_trainees cr s) = Inr (map (exported_raw s) ?ts)"
    using csv_round_trip [OF cols, of "map (trainee_row s) ?ts"] by (simp add: export_trainees_def exported_raw_def comp_def)
  define plan where "plan = plan_trainee_rows s 2 [] [] (map (exported_raw s) ?ts)"
  have p: "map (\<lambda>r. (row_raw r, row_action r, row_errors r, matched_id r, row_diff r)) plan =
      map (\<lambda>t. (exported_raw s t, UPDATE_ROW, [], Some (tr_id t), [])) ?ts"
    unfolding plan_def using o(1,3) by (intro plan_exported [OF assms(1)]) auto
  have "plan_trainees_import (export_trainees cr s) s = Inr plan" by (simp add: plan_trainees_import_def parse plan_def)
  moreover have "map snd (map (\<lambda>r. (row_raw r, row_action r, row_errors r, matched_id r, row_diff r)) plan) =
      map snd (map (\<lambda>t. (exported_raw s t, UPDATE_ROW, [], Some (tr_id t), [])) ?ts)"
    by (rule arg_cong [OF p])
  moreover have "apply_trainees_plan plan s = (Inr \<lparr>n_created = 0, n_updated = length (trainees s), n_skipped = 0\<rparr>, s)"
    using apply_exported [OF assms p, of no_counts] o(1,2) by (simp add: apply_trainees_plan_def no_counts_def)
  ultimately show ?thesis by (auto simp: comp_def)
qed

definition sample_staff :: training_db where
  "sample_staff = (sample_training [sample_trainee\<lparr>tr_email := Some ''a@b.pl''\<rparr>])\<lparr>lines :=
     [\<lparr>line_id = ''L1'', line_code = ''A'', line_name = ''Line A'', line_is_active = True\<rparr>]\<rparr>"

theorem reimport_changes_nothing_witness:
  "\<exists>plan. plan_trainees_import (export_trainees False sample_staff) sample_staff = Inr plan \<and> map row_action plan = [UPDATE_ROW] \<and>
     apply_trainees_plan plan sample_staff = (Inr \<lparr>n_created = 0, n_updated = 1, n_skipped = 0\<rparr>, sample_staff)"
proof -
  have t: "trainees sample_staff = [sample_trainee\<lparr>tr_email := Some ''a@b.pl''\<rparr>]"
    by (simp add: sample_staff_def sample_training_def)
  have l: "lines sample_staff = [\<lparr>line_id = ''L1'', line_code = ''A'', line_name = ''Line A'', line_is_active = True\<rparr>]"
    by (simp add: sample_staff_def)
  have row: "trainee_row sample_staff (sample_trainee\<lparr>tr_email := Some ''a@b.pl''\<rparr>) =
      [''7'', ''+48500100200'', ''a@b.pl'', ''Anna'', ''baker'', ''A'', ''en'', ''both'', ''true'']"
    by (simp add: trainee_row_def sample_trainee_def line_code_of_def l by_key_def truthy_def or_empty_def show_bool_def)
  have "\<forall>v\<in>set [''7'', ''+48500100200'', ''a@b.pl'', ''Anna'', ''baker'', ''A'', ''en'', ''both'', ''true'']. portable False v"
    by (simp add: portable_def csv_safe_def strip_def lstrip_def rstrip_def str_py_space_def)
  then have "exportable_db False sample_staff"
    by (simp add: exportable_db_def t l exportable_def row) (simp add: sample_trainee_def truthy_def l)
  moreover have "\<not> session_failed sample_staff" by (simp add: sample_staff_def sample_training_def)
  ultimately obtain plan where plan: "plan_trainees_import (export_trainees False sample_staff) sample_staff = Inr plan"
    "map (\<lambda>r. (row_action r, row_errors r, matched_id r, row_diff r)) plan =
      map (\<lambda>t. (UPDATE_ROW, [], Some (tr_id t), [])) (trainees_in_order sample_staff)"
    "apply_trainees_plan plan sample_staff = (Inr \<lparr>n_created = 0, n_updated = length (trainees sample_staff), n_skipped = 0\<rparr>, sample_staff)"
    using reimport_changes_nothing by blast
  have "trainees_in_order sample_staff = trainees sample_staff"
    by (simp add: trainees_in_order_def t sample_trainee_def)
  then have "map row_action plan = [UPDATE_ROW]" using plan(2) by (cases plan) (auto simp: t)
  with plan show ?thesis by (auto simp: t)
qed

end
