(* ===== verification/Pipelines.thy ===== *)
theory Pipelines
  imports Views JsonText UniqueInsert
begin

text \<open>
  The pipeline editor of app/blueprints/admin.py: the JSON payload of the form, its validation,
  and the new version of a line's pipeline that saving it makes. Older versions stay in the
  table for the tickets that refer to them; only one version of a line is active.
\<close>

subsection \<open>Checking the payload\<close>

record stage_input =
  si_code :: string
  si_name_pl :: string
  si_name_en :: string
  si_role :: "string option"
  si_sla :: "int option"
  si_ccp :: bool

text \<open>
  What \<open>_validate_stages_payload\<close> can do with a payload: raise, refuse it with a message key, or
  accept it.
\<close>

type_synonym 'a checked = "exc + string + 'a"

abbreviation refuse :: "string \<Rightarrow> 'a checked" where
  "refuse key \<equiv> Inr (Inl key)"

abbreviation accept :: "'a \<Rightarrow> 'a checked" where
  "accept x \<equiv> Inr (Inr x)"

definition then_check :: "'a checked \<Rightarrow> ('a \<Rightarrow> 'b checked) \<Rightarrow> 'b checked" where
  "then_check c f = (case c of Inl e \<Rightarrow> Inl e | Inr (Inl key) \<Rightarrow> refuse key | Inr (Inr x) \<Rightarrow> f x)"

definition is_lower :: "char \<Rightarrow> bool" where
  "is_lower c \<longleftrightarrow> 97 \<le> (of_char c :: nat) \<and> (of_char c :: nat) \<le> 122"

text \<open>\<open>_STAGE_CODE_RE\<close>, on a text without a newline at its end.\<close>

definition stage_code_ok :: "string \<Rightarrow> bool" where
  "stage_code_ok code =
     (case code of
        [] \<Rightarrow> False
      | c # cs \<Rightarrow> is_lower c \<and> length cs \<le> 31 \<and> list_all (\<lambda>d. is_lower d \<or> is_digit d \<or> d = CHR ''_'') cs)"

text \<open>\<open>(raw.get(k) or "").strip()\<close>: a true value that is not a string has no \<open>strip\<close>.\<close>

definition text_field :: "string \<Rightarrow> dict \<Rightarrow> string checked" where
  "text_field k raw =
     (case json_or (jget_or_null k raw) (JStr []) of JStr v \<Rightarrow> accept (strip v) | _ \<Rightarrow> Inl (AttributeError ''strip''))"

fun is_number_error :: "exc \<Rightarrow> bool" where
  "is_number_error (TypeError m) = True"
| "is_number_error (ValueError m) = True"
| "is_number_error _ = False"

definition sla_field :: "json \<Rightarrow> int option checked" where
  "sla_field raw =
     (if raw \<in> {JNull, JStr [], JStr ''null''} then accept None
      else case json_int raw of
             Inl e \<Rightarrow> if is_number_error e then refuse ''admin.pipelines.invalid_sla'' else Inl e
           | Inr sla \<Rightarrow>
               if sla < 0 \<or> sla > 100000 then refuse ''admin.pipelines.invalid_sla'' else accept (Some sla))"

definition check_stage :: "string list \<Rightarrow> string list \<Rightarrow> json \<Rightarrow> stage_input checked" where
  "check_stage valid_role_codes seen_codes raw =
     (case raw of
        JObj d \<Rightarrow>
          then_check (text_field ''code'' d) (\<lambda>stripped.
            let code = lower stripped
            in if \<not> stage_code_ok code then refuse ''admin.pipelines.invalid_code''
               else if code \<in> set seen_codes then refuse ''admin.pipelines.duplicate_code''
               else
                 then_check (text_field ''name_pl'' d) (\<lambda>name_pl.
                 then_check (text_field ''name_en'' d) (\<lambda>name_en.
                   if name_pl = [] \<or> name_en = [] then refuse ''admin.pipelines.missing_name''
                   else
                     then_check (text_field ''required_role_code'' d) (\<lambda>rcode.
                       if rcode \<noteq> [] \<and> rcode \<notin> set valid_role_codes then refuse ''admin.pipelines.unknown_role''
                       else
                         then_check (sla_field (jget_or_null ''sla_minutes'' d)) (\<lambda>sla.
                           accept \<lparr>si_code = code, si_name_pl = name_pl, si_name_en = name_en,
                                   si_role = or_none rcode, si_sla = sla,
                                   si_ccp = jtruthy (jget_or_null ''is_ccp_checkpoint'' d)\<rparr>)))))
      | _ \<Rightarrow> refuse ''admin.pipelines.invalid_stage'')"

fun check_stages :: "string list \<Rightarrow> string list \<Rightarrow> json list \<Rightarrow> stage_input list checked" where
  "check_stages valid_role_codes seen_codes [] = accept []"
| "check_stages valid_role_codes seen_codes (raw # raws) =
     then_check (check_stage valid_role_codes seen_codes raw) (\<lambda>st.
     then_check (check_stages valid_role_codes (si_code st # seen_codes) raws) (\<lambda>sts.
       accept (st # sts)))"

definition validate_stages_payload :: "string list \<Rightarrow> json \<Rightarrow> stage_input list checked" where
  "validate_stages_payload valid_role_codes payload =
     (case payload of
        JList (raw # raws) \<Rightarrow> check_stages valid_role_codes [] (raw # raws)
      | _ \<Rightarrow> refuse ''admin.pipelines.empty_stages'')"

subsection \<open>What the editor shows\<close>

definition stage_json :: "pipeline_stage \<Rightarrow> json" where
  "stage_json g = JObj
     [(''code'', JStr (stage_code g)), (''name_pl'', JStr (stage_name_pl g)), (''name_en'', JStr (stage_name_en g)),
      (''required_role_code'', JStr (or_empty (required_role_code g))),
      (''sla_minutes'', (case sla_minutes g of None \<Rightarrow> JStr [] | Some n \<Rightarrow> JInt n)),
      (''is_ccp_checkpoint'', JBool (is_ccp_checkpoint g))]"

definition serialise_pipeline :: "pipeline option \<Rightarrow> 'a ticket_db_scheme \<Rightarrow> json" where
  "serialise_pipeline p s =
     JList (case p of None \<Rightarrow> [] | Some p \<Rightarrow> map stage_json (stages_of (pipe_id p) s))"

definition pipelines_index :: "'a ticket_db_scheme \<Rightarrow> (production_line \<times> pipeline option) list" where
  "pipelines_index s = map (\<lambda>l. (l, active_pipeline (line_id l) s)) (sort_key line_code (lines s))"

subsection \<open>Saving\<close>

definition next_pipeline_version :: "string \<Rightarrow> 'a ticket_db_scheme \<Rightarrow> int" where
  "next_pipeline_version lid s =
     (case map pipe_version (filter (\<lambda>p. pipe_line_id p = lid) (pipelines s)) of
        [] \<Rightarrow> 0 | v # vs \<Rightarrow> fold max vs v) + 1"

text \<open>INSERTs: a line has one pipeline per version, a pipeline one stage per position.\<close>

definition insert_pipeline :: "pipeline \<Rightarrow> ('a ticket_db_scheme, unit) py" where
  "insert_pipeline p = (\<lambda>s.
     if session_failed s then (Inl PendingRollbackError, s)
     else if (pipe_line_id p, pipe_version p) \<in> (\<lambda>q. (pipe_line_id q, pipe_version q)) ` set (pipelines s)
     then (Inl (IntegrityError ''uq_pipeline_line_version''), s\<lparr>session_failed := True\<rparr>)
     else (Inr (), s\<lparr>pipelines := pipelines s @ [p]\<rparr>))"

interpretation pipeline_rows: unique_insert insert_pipeline pipelines "\<lambda>p. (pipe_line_id p, pipe_version p)" session_failed
  by unfold_locales (auto simp: insert_pipeline_def)

definition insert_stage :: "pipeline_stage \<Rightarrow> ('a ticket_db_scheme, unit) py" where
  "insert_stage g = (\<lambda>s.
     if session_failed s then (Inl PendingRollbackError, s)
     else if (stage_pipeline_id g, order_index g) \<in> (\<lambda>h. (stage_pipeline_id h, order_index h)) ` set (pipeline_stages s)
     then (Inl (IntegrityError ''uq_stage_pipeline_order''), s\<lparr>session_failed := True\<rparr>)
     else (Inr (), s\<lparr>pipeline_stages := pipeline_stages s @ [g]\<rparr>))"

definition stage_row :: "string \<Rightarrow> nat \<Rightarrow> stage_input \<Rightarrow> string \<Rightarrow> pipeline_stage" where
  "stage_row pid idx st i =
     \<lparr>stage_id = i, stage_pipeline_id = pid, order_index = int idx, stage_code = si_code st,
      stage_name_pl = si_name_pl st, stage_name_en = si_name_en st, required_role_code = si_role st,
      sla_minutes = si_sla st, is_ccp_checkpoint = si_ccp st\<rparr>"

definition deactivate_pipeline :: "pipeline option \<Rightarrow> 'a ticket_db_scheme \<Rightarrow> 'a ticket_db_scheme" where
  "deactivate_pipeline active s =
     (case active of
        None \<Rightarrow> s
      | Some p \<Rightarrow> s\<lparr>pipelines := update_row pipe_id (pipe_id p) (\<lambda>p. p\<lparr>pipe_is_active := False\<rparr>) (pipelines s)\<rparr>)"

definition add_stages :: "string \<Rightarrow> stage_input list \<Rightarrow> ('a ticket_db_scheme, unit) py" where
  "add_stages pid stages =
     for_each (\<lambda>(idx, st). bind take_uuid (\<lambda>i. insert_stage (stage_row pid idx st i))) (enumerate 0 stages)"

definition save_pipeline :: "production_line \<Rightarrow> stage_input list \<Rightarrow> ('a ticket_db_scheme, unit) py" where
  "save_pipeline line clean_stages = with_state (\<lambda>s.
     let next_version = next_pipeline_version (line_id line) s
     in seq (modify (deactivate_pipeline (active_pipeline (line_id line) s)))
       (bind take_uuid (\<lambda>pid.
          seq (insert_pipeline \<lparr>pipe_id = pid, pipe_line_id = line_id line, pipe_version = next_version,
                               pipe_is_active = True\<rparr>)
         (seq (add_stages pid clean_stages)
         (bind (record_entry ''pipeline'' CREATE_VERSION (Some pid)
                  [(''line_code'', JStr (line_code line)), (''version'', JInt next_version),
                   (''stage_codes'', JList (map (\<lambda>st. JStr (si_code st)) clean_stages))] None)
           (\<lambda>_. ret ()))))))"

text \<open>The POST of \<open>pipelines_edit\<close> with the text of the field \<open>stages_json\<close>.\<close>

definition pipelines_edit_post :: "string \<Rightarrow> string \<Rightarrow> ('a ticket_db_scheme, response) py" where
  "pipelines_edit_post lid stages_json =
     require_permission (perm_code PIPELINE_CONFIGURE) (''/admin/pipelines/'' @ lid @ ''/edit'') (\<lambda>u. with_state (\<lambda>s.
       case by_key line_id lid (lines s) of
         None \<Rightarrow> ret (Abort 404)
       | Some line \<Rightarrow>
           (case json_loads (if stages_json = [] then ''[]'' else stages_json) of
              None \<Rightarrow> ret Page
            | Some payload \<Rightarrow>
                (case validate_stages_payload (map role_code (roles s)) payload of
                   Inl e \<Rightarrow> throw e
                 | Inr (Inl err_key) \<Rightarrow> ret Page
                 | Inr (Inr clean_stages) \<Rightarrow>
                     committing (\<lambda>_. False) (save_pipeline line clean_stages) (\<lambda>_. Redirect ''/admin/pipelines'') Page))))"

subsection \<open>What passes the check\<close>

definition stage_ok :: "string list \<Rightarrow> stage_input \<Rightarrow> bool" where
  "stage_ok valid_role_codes st \<longleftrightarrow>
     stage_code_ok (si_code st) \<and> si_name_pl st \<noteq> [] \<and> si_name_en st \<noteq> [] \<and>
     strip (si_name_pl st) = si_name_pl st \<and> strip (si_name_en st) = si_name_en st \<and>
     (\<forall>r. si_role st = Some r \<longrightarrow> r \<noteq> [] \<and> strip r = r \<and> r \<in> set valid_role_codes) \<and>
     (\<forall>n. si_sla st = Some n \<longrightarrow> 0 \<le> n \<and> n \<le> 100000)"

lemma then_check_accept: "then_check c f = accept y \<longleftrightarrow> (\<exists>x. c = accept x \<and> f x = accept y)"
  by (auto simp: then_check_def split: sum.splits)

lemma then_check_accept_simp [simp]: "then_check (accept x) f = f x"
  by (simp add: then_check_def)

lemma text_field_accept: "text_field k d = accept v \<Longrightarrow> strip v = v"
  by (auto simp: text_field_def split: json.splits)

lemma sla_field_accept: "sla_field v = accept (Some n) \<Longrightarrow> 0 \<le> n \<and> n \<le> 100000"
  by (auto simp: sla_field_def split: if_splits sum.splits)

lemma check_stage_accept:
  assumes "check_stage valid seen raw = accept st"
  shows "stage_ok valid st \<and> si_code st \<notin> set seen"
proof -
  obtain d where d: "raw = JObj d"
    using assms by (cases raw) (simp_all add: check_stage_def)
  show ?thesis
    using assms unfolding d check_stage_def json.simps Let_def
    by (auto simp: then_check_accept stage_ok_def or_none_def dest: text_field_accept sla_field_accept split: if_splits)
qed

lemma check_stages_accept:
  "check_stages valid seen raws = accept sts \<Longrightarrow>
     length sts = length raws \<and> list_all (stage_ok valid) sts \<and> distinct (map si_code sts) \<and>
     set (map si_code sts) \<inter> set seen = {}"
proof (induction raws arbitrary: seen sts)
  case Nil
  then show ?case by simp
next
  case (Cons raw raws)
  then obtain st rest where s: "check_stage valid seen raw = accept st"
    "check_stages valid (si_code st # seen) raws = accept rest" "sts = st # rest"
    by (auto simp: then_check_accept)
  from Cons.IH [OF s(2)] check_stage_accept [OF s(1)] show ?case by (auto simp: s(3))
qed

lemma validate_accept:
  assumes "validate_stages_payload valid payload = accept sts"
  shows "sts \<noteq> []" "list_all (stage_ok valid) sts" "distinct (map si_code sts)"
proof -
  obtain raw raws where "check_stages valid [] (raw # raws) = accept sts"
    using assms by (auto simp: validate_stages_payload_def simp del: check_stages.simps split: json.splits list.splits)
  from check_stages_accept [OF this] show "sts \<noteq> []" "list_all (stage_ok valid) sts" "distinct (map si_code sts)"
    by auto
qed

subsection \<open>Reopening the editor\<close>

definition input_of :: "pipeline_stage \<Rightarrow> stage_input" where
  "input_of g = \<lparr>si_code = stage_code g, si_name_pl = stage_name_pl g, si_name_en = stage_name_en g,
     si_role = required_role_code g, si_sla = sla_minutes g, si_ccp = is_ccp_checkpoint g\<rparr>"

lemma stage_code_chars:
  assumes "stage_code_ok code"
  shows "lower code = code" "strip code = code"
proof -
  have all: "\<forall>c\<in>set code. is_lower c \<or> is_digit c \<or> c = CHR ''_''"
    using assms by (auto simp: stage_code_ok_def list_all_iff split: list.splits)
  have "lower_char c = c" if "c \<in> set code" for c
    using all that by (auto simp: lower_char_def is_lower_def is_digit_def)
  then show "lower code = code" by (simp add: lower_def map_idI)
  have ns: "\<not> str_py_space c" if "c \<in> set code" for c
    using all that by (auto simp: str_py_space_def is_lower_def is_digit_def)
  have "dropWhile str_py_space xs = xs" if "set xs \<subseteq> set code" for xs
    using that ns by (cases xs) auto
  then show "strip code = code" by (simp add: strip_def lstrip_def rstrip_def)
qed

lemma text_field_str: "map_of d k = Some (JStr v) \<Longrightarrow> text_field k d = accept (strip v)"
  by (auto simp: text_field_def jget_or_null_def json_or_def)

lemma check_stage_json:
  assumes ok: "stage_ok valid (input_of g)" and new: "stage_code g \<notin> set seen"
  shows "check_stage valid seen (stage_json g) = accept (input_of g)"
proof -
  let ?d = "[(''code'', JStr (stage_code g)), (''name_pl'', JStr (stage_name_pl g)), (''name_en'', JStr (stage_name_en g)),
      (''required_role_code'', JStr (or_empty (required_role_code g))),
      (''sla_minutes'', (case sla_minutes g of None \<Rightarrow> JStr [] | Some n \<Rightarrow> JInt n)),
      (''is_ccp_checkpoint'', JBool (is_ccp_checkpoint g))]"
  have code: "stage_code_ok (stage_code g)" using ok by (simp add: stage_ok_def input_of_def)
  have role: "strip (or_empty (required_role_code g)) = or_empty (required_role_code g)"
    using ok by (auto simp: or_empty_def stage_ok_def input_of_def split: option.splits)
  have f: "text_field ''code'' ?d = accept (stage_code g)" "text_field ''name_pl'' ?d = accept (stage_name_pl g)"
    "text_field ''name_en'' ?d = accept (stage_name_en g)"
    "text_field ''required_role_code'' ?d = accept (or_empty (required_role_code g))"
    using ok role by (simp_all add: text_field_str stage_code_chars [OF code] stage_ok_def input_of_def)
  have sla: "sla_field (jget_or_null ''sla_minutes'' ?d) = accept (sla_minutes g)"
    using ok by (auto simp: sla_field_def jget_or_null_def stage_ok_def input_of_def split: option.splits)
  have ccp: "jtruthy (jget_or_null ''is_ccp_checkpoint'' ?d) = is_ccp_checkpoint g"
    by (simp add: jget_or_null_def)
  have rle: "or_none (or_empty (required_role_code g)) = required_role_code g"
    "or_empty (required_role_code g) = [] \<or> or_empty (required_role_code g) \<in> set valid"
    using ok by (auto simp: or_none_def or_empty_def stage_ok_def input_of_def split: option.splits)
  show ?thesis
    unfolding stage_json_def check_stage_def json.simps f sla ccp then_check_accept_simp Let_def
    using ok code new rle by (auto simp: stage_code_chars [OF code] stage_ok_def input_of_def)
qed

lemma check_stages_json:
  "list_all (stage_ok valid) (map input_of gs) \<Longrightarrow> distinct (map stage_code gs) \<Longrightarrow> set (map stage_code gs) \<inter> set seen = {} \<Longrightarrow>
   check_stages valid seen (map stage_json gs) = accept (map input_of gs)"
proof (induction gs arbitrary: seen)
  case Nil
  then show ?case by simp
next
  case (Cons g gs)
  have "check_stage valid seen (stage_json g) = accept (input_of g)"
    using Cons.prems by (intro check_stage_json) auto
  moreover have "si_code (input_of g) = stage_code g" by (simp add: input_of_def)
  ultimately show ?case using Cons by simp
qed

subsection \<open>The table of pipelines\<close>

text \<open>
  Ids are uuid4 values already drawn, a line has one pipeline per version and at most one active
  one, and stages belong to pipelines of the table.
\<close>

definition pipelines_wf :: "'a ticket_db_scheme \<Rightarrow> bool" where
  "pipelines_wf s \<longleftrightarrow> inj (uuid_at s) \<and>
     pipe_id ` set (pipelines s) \<subseteq> uuid_at s ` {..<uuid_next s} \<and>
     distinct (map pipe_id (pipelines s)) \<and>
     distinct (map (\<lambda>p. (pipe_line_id p, pipe_version p)) (pipelines s)) \<and>
     (\<forall>lid. length (filter (\<lambda>p. pipe_line_id p = lid \<and> pipe_is_active p) (pipelines s)) \<le> 1) \<and>
     stage_pipeline_id ` set (pipeline_stages s) \<subseteq> pipe_id ` set (pipelines s)"

lemma uuid_fresh:
  "pipelines_wf s \<Longrightarrow> gen_uuid s \<notin> pipe_id ` set (pipelines s)"
proof
  assume wf: "pipelines_wf s" and "gen_uuid s \<in> pipe_id ` set (pipelines s)"
  then have "uuid_at s (uuid_next s) \<in> uuid_at s ` {..<uuid_next s}"
    unfolding pipelines_wf_def gen_uuid_def by blast
  then show False using wf by (auto simp: pipelines_wf_def dest: injD)
qed

lemma next_pipeline_version_greatest:
  assumes "p \<in> set (pipelines s)" "pipe_line_id p = lid"
  shows "pipe_version p < next_pipeline_version lid s"
proof -
  let ?vs = "map pipe_version (filter (\<lambda>p. pipe_line_id p = lid) (pipelines s))"
  have max: "x \<in> set (v # vs) \<Longrightarrow> x \<le> fold max vs v" for x v :: int and vs
    by (simp flip: Max.set_eq_fold)
  have "pipe_version p \<in> set ?vs" using assms by auto
  then show ?thesis
    using max [of "pipe_version p"] unfolding next_pipeline_version_def by (cases ?vs) fastforce+
qed

lemma length_filter_le_1:
  assumes "length (filter P xs) \<le> 1" "x \<in> set xs" "y \<in> set xs" "P x" "P y"
  shows "x = y"
proof -
  have m: "x \<in> set (filter P xs)" "y \<in> set (filter P xs)" using assms by simp_all
  show ?thesis using assms(1) m by (cases "filter P xs" rule: remdups_adj.cases) auto
qed

lemma deactivate_pipelines:
  assumes wf: "pipelines_wf s"
  shows "pipelines (deactivate_pipeline (active_pipeline lid s) s) =
    map (\<lambda>p. if pipe_line_id p = lid then p\<lparr>pipe_is_active := False\<rparr> else p) (pipelines s)"
proof -
  have dist: "distinct (map pipe_id (pipelines s))"
    and one: "length (filter (\<lambda>p. pipe_line_id p = lid \<and> pipe_is_active p) (pipelines s)) \<le> 1"
    using wf by (auto simp: pipelines_wf_def)
  show ?thesis
  proof (cases "active_pipeline lid s")
    case None
    then have "filter (\<lambda>p. pipe_line_id p = lid \<and> pipe_is_active p) (pipelines s) = []"
      by (simp add: active_pipeline_def last_by_None)
    then show ?thesis
      by (auto simp: deactivate_pipeline_def None filter_empty_conv intro!: map_idI [symmetric])
  next
    case (Some a)
    have a: "a \<in> set (pipelines s)" "pipe_line_id a = lid" "pipe_is_active a"
      using last_by_in [OF Some [unfolded active_pipeline_def]] by auto
    have "(if pipe_id p = pipe_id a then p\<lparr>pipe_is_active := False\<rparr> else p) =
        (if pipe_line_id p = lid then p\<lparr>pipe_is_active := False\<rparr> else p)" if p: "p \<in> set (pipelines s)" for p
    proof (cases "pipe_id p = pipe_id a")
      case True
      then have "p = a" using dist p a(1) by (auto simp: distinct_map dest: inj_onD)
      then show ?thesis using a by simp
    next
      case False
      then have "\<not> (pipe_line_id p = lid \<and> pipe_is_active p)"
        using length_filter_le_1 [OF one p a(1)] a by auto
      then show ?thesis using False by auto
    qed
    then show ?thesis by (simp add: deactivate_pipeline_def Some update_row_def)
  qed
qed

text \<open>The rows \<open>add_stages\<close> inserts, with the ids it draws.\<close>

fun stage_rows :: "string \<Rightarrow> (nat \<Rightarrow> string) \<Rightarrow> nat \<Rightarrow> nat \<Rightarrow> stage_input list \<Rightarrow> pipeline_stage list" where
  "stage_rows pid uid n idx [] = []"
| "stage_rows pid uid n idx (st # sts) = stage_row pid idx st (uid n) # stage_rows pid uid (Suc n) (Suc idx) sts"

lemma input_of_stage_row [simp]: "input_of (stage_row pid idx st i) = st"
  by (simp add: input_of_def stage_row_def)

lemma input_of_stage_rows: "map input_of (stage_rows pid uid n idx sts) = sts"
  by (induction sts arbitrary: n idx) simp_all

lemma stage_rows_pid: "g \<in> set (stage_rows pid uid n idx sts) \<Longrightarrow> stage_pipeline_id g = pid \<and> int idx \<le> order_index g"
proof (induction sts arbitrary: n idx)
  case Nil
  then show ?case by simp
next
  case (Cons st sts)
  then show ?case using Cons.IH [of "Suc n" "Suc idx"] by (auto simp: stage_row_def)
qed

lemma stage_rows_sorted: "sorted (map order_index (stage_rows pid uid n idx sts))"
proof (induction sts arbitrary: n idx)
  case Nil
  show ?case by simp
next
  case (Cons st sts)
  have "int idx \<le> order_index g" if "g \<in> set (stage_rows pid uid (Suc n) (Suc idx) sts)" for g
    using stage_rows_pid [OF that] by simp
  with Cons show ?case by (auto simp: stage_row_def)
qed

lemma add_stages_from:
  assumes "\<not> session_failed s" "\<forall>g\<in>set (pipeline_stages s). stage_pipeline_id g = pid \<longrightarrow> order_index g < int idx"
  shows "for_each (\<lambda>(idx, st). bind take_uuid (\<lambda>i. insert_stage (stage_row pid idx st i))) (enumerate idx sts) s =
    (Inr (), s\<lparr>uuid_next := uuid_next s + length sts,
               pipeline_stages := pipeline_stages s @ stage_rows pid (uuid_at s) (uuid_next s) idx sts\<rparr>)"
  using assms
proof (induction sts arbitrary: s idx)
  case Nil
  then show ?case by simp
next
  case (Cons st sts)
  let ?g = "stage_row pid idx st (uuid_at s (uuid_next s))"
  let ?s1 = "s\<lparr>uuid_next := Suc (uuid_next s), pipeline_stages := pipeline_stages s @ [?g]\<rparr>"
  have "(stage_pipeline_id ?g, order_index ?g) \<notin> (\<lambda>h. (stage_pipeline_id h, order_index h)) ` set (pipeline_stages s)"
    using Cons.prems(2) by (auto simp: stage_row_def)
  then have ins: "bind take_uuid (\<lambda>i. insert_stage (stage_row pid idx st i)) s = (Inr (), ?s1)"
    using Cons.prems(1) by (simp add: bind_def take_uuid_def gen_uuid_def insert_stage_def)
  have "\<forall>g\<in>set (pipeline_stages ?s1). stage_pipeline_id g = pid \<longrightarrow> order_index g < int (Suc idx)"
    using Cons.prems(2) by (auto simp: stage_row_def)
  from Cons.IH [of ?s1 "Suc idx", OF _ this] Cons.prems(1) show ?case
    by (simp add: enumerate_simps seq_def bind_def [of "bind take_uuid f" for f] ins)
qed

lemma recorded_pipelines:
  assumes "writable s"
  shows "pipelines (snd (record_entry t ac e d u s)) = pipelines s"
    "pipeline_stages (snd (record_entry t ac e d u s)) = pipeline_stages s"
    "writable (snd (record_entry t ac e d u s))"
  using assms by (simp_all add: record_entry_def writable_def audit_update_allowed_def Let_def)

lemma save_pipeline_run:
  fixes line :: production_line and s :: "'a ticket_db_scheme"
  assumes wf: "pipelines_wf s" and w: "writable s"
  defines "lid \<equiv> line_id line" and "pid \<equiv> gen_uuid s"
  defines "p \<equiv> \<lparr>pipe_id = pid, pipe_line_id = lid, pipe_version = next_pipeline_version lid s, pipe_is_active = True\<rparr>"
  obtains s' where "save_pipeline line stages s = (Inr (), s')"
    "pipelines s' = map (\<lambda>p. if pipe_line_id p = lid then p\<lparr>pipe_is_active := False\<rparr> else p) (pipelines s) @ [p]"
    "pipeline_stages s' = pipeline_stages s @ stage_rows pid (uuid_at s) (Suc (uuid_next s)) 0 stages"
    "uuid_at s' = uuid_at s" "uuid_next s' = Suc (uuid_next s) + length stages"
    "tickets s' = tickets s" "lines s' = lines s" "audit_log s' = audit_log s @ [last (audit_log s')]"
    "entity_id (last (audit_log s')) = Some pid" "writable s'"
proof -
  let ?a = "active_pipeline lid s"
  let ?s1 = "(deactivate_pipeline ?a s)\<lparr>uuid_next := Suc (uuid_next s)\<rparr>"
  let ?s2 = "?s1\<lparr>pipelines := pipelines ?s1 @ [p]\<rparr>"
  let ?s3 = "?s2\<lparr>uuid_next := Suc (uuid_next s) + length stages,
      pipeline_stages := pipeline_stages s @ stage_rows pid (uuid_at s) (Suc (uuid_next s)) 0 stages\<rparr>"
  have d [simp]: "uuid_next (deactivate_pipeline ?a s) = uuid_next s" "uuid_at (deactivate_pipeline ?a s) = uuid_at s"
    "session_failed (deactivate_pipeline ?a s) = session_failed s" "pipeline_stages (deactivate_pipeline ?a s) = pipeline_stages s"
    "tickets (deactivate_pipeline ?a s) = tickets s" "lines (deactivate_pipeline ?a s) = lines s"
    "audit_log (deactivate_pipeline ?a s) = audit_log s" "audit_redact_ok (deactivate_pipeline ?a s) = audit_redact_ok s"
    "dialect (deactivate_pipeline ?a s) = dialect s" "immutable_trigger (deactivate_pipeline ?a s) = immutable_trigger s"
    by (simp_all add: deactivate_pipeline_def split: option.splits)
  have pipes: "pipelines (deactivate_pipeline ?a s) =
      map (\<lambda>p. if pipe_line_id p = lid then p\<lparr>pipe_is_active := False\<rparr> else p) (pipelines s)"
    by (rule deactivate_pipelines [OF wf])
  have uuid: "take_uuid (deactivate_pipeline ?a s) = (Inr pid, ?s1)"
    by (simp add: take_uuid_def gen_uuid_def pid_def)
  have nf: "\<not> session_failed s" using w by (simp add: writable_def)
  have "pipe_version q < pipe_version p" if "q \<in> set (pipelines s)" "pipe_line_id q = pipe_line_id p" for q
    using next_pipeline_version_greatest [of q s lid] that by (simp add: p_def)
  then have "(pipe_line_id p, pipe_version p) \<notin> (\<lambda>q. (pipe_line_id q, pipe_version q)) ` set (pipelines ?s1)"
    by (auto simp: pipes split: if_splits) blast+
  then have ins: "insert_pipeline p ?s1 = (Inr (), ?s2)"
    using nf by (simp add: insert_pipeline_def)
  have fresh: "pid \<notin> stage_pipeline_id ` set (pipeline_stages s)"
    using wf uuid_fresh [OF wf] unfolding pipelines_wf_def pid_def by blast
  then have adds: "add_stages pid stages ?s2 = (Inr (), ?s3)"
    unfolding add_stages_def by (subst add_stages_from) (use nf fresh in auto)
  have w3: "writable ?s3" using w by (simp add: writable_def audit_update_allowed_def)
  let ?d = "[(''line_code'', JStr (line_code line)), (''version'', JInt (next_pipeline_version lid s)),
      (''stage_codes'', JList (map (\<lambda>st. JStr (si_code st)) stages))]"
  let ?r = "record_entry ''pipeline'' CREATE_VERSION (Some pid) ?d None ?s3"
  obtain e where rec: "?r = (Inr e, snd ?r)" "audit_log (snd ?r) = audit_log ?s3 @ [e]" "entity_id e = Some pid"
    using record_entry_ok [OF w3, of "''pipeline''" CREATE_VERSION "Some pid" ?d None]
    by (auto simp: new_entry_def with_checksum_def)
  have run: "save_pipeline line stages s = (Inr (), snd ?r)"
    unfolding save_pipeline_def with_state_apply Let_def seq_modify lid_def [symmetric]
    using uuid ins adds rec(1) by (simp add: bind_Inr seq_Inr p_def [symmetric])
  have frame: "pipelines (snd ?r) = pipelines ?s3" "pipeline_stages (snd ?r) = pipeline_stages ?s3" "writable (snd ?r)"
    using recorded_pipelines [OF w3] by simp_all
  show thesis
  proof (rule that [OF run])
    show "pipelines (snd ?r) = map (\<lambda>p. if pipe_line_id p = lid then p\<lparr>pipe_is_active := False\<rparr> else p) (pipelines s) @ [p]"
      unfolding frame by (simp add: pipes)
    show "pipeline_stages (snd ?r) = pipeline_stages s @ stage_rows pid (uuid_at s) (Suc (uuid_next s)) 0 stages"
      unfolding frame by simp
    show "audit_log (snd ?r) = audit_log s @ [last (audit_log (snd ?r))]" "entity_id (last (audit_log (snd ?r))) = Some pid"
      unfolding rec(2) using rec(3) by simp_all
  qed (use frame in simp_all)
qed

lemma filter_deactivated:
  "filter (\<lambda>q. pipe_line_id q = l \<and> pipe_is_active q)
     (map (\<lambda>p. if pipe_line_id p = lid then p\<lparr>pipe_is_active := False\<rparr> else p) ps) =
   (if l = lid then [] else filter (\<lambda>q. pipe_line_id q = l \<and> pipe_is_active q) ps)"
  by (induction ps) auto

lemma pipelines_wf_save:
  assumes wf: "pipelines_wf s" and p: "pipe_id p = gen_uuid s" "pipe_line_id p = lid"
      "pipe_version p = next_pipeline_version lid s" "pipe_is_active p"
    and s': "pipelines s' = map (\<lambda>p. if pipe_line_id p = lid then p\<lparr>pipe_is_active := False\<rparr> else p) (pipelines s) @ [p]"
      "pipeline_stages s' = pipeline_stages s @ gs" "\<forall>g\<in>set gs. stage_pipeline_id g = pipe_id p"
      "uuid_at s' = uuid_at s" "uuid_next s < uuid_next s'"
  shows "pipelines_wf s'"
proof -
  let ?off = "\<lambda>p. if pipe_line_id p = lid then p\<lparr>pipe_is_active := False\<rparr> else p"
  have maps: "map pipe_id (map ?off (pipelines s)) = map pipe_id (pipelines s)"
    "map (\<lambda>p. (pipe_line_id p, pipe_version p)) (map ?off (pipelines s)) = map (\<lambda>p. (pipe_line_id p, pipe_version p)) (pipelines s)"
    by auto
  have new: "gen_uuid s \<notin> pipe_id ` set (pipelines s)" by (rule uuid_fresh [OF wf])
  have newv: "(lid, pipe_version p) \<notin> set (map (\<lambda>p. (pipe_line_id p, pipe_version p)) (pipelines s))"
    using next_pipeline_version_greatest [of _ s lid] p(3) by force
  have ids: "pipe_id ` set (pipelines s') = insert (gen_uuid s) (pipe_id ` set (pipelines s))"
    using maps(1) unfolding s'(1) set_append image_Un set_map [symmetric] by (simp add: p(1) image_image)
  have g: "gen_uuid s \<in> uuid_at s ` {..<uuid_next s'}" using s'(5) by (auto simp: gen_uuid_def)
  have mono: "uuid_at s ` {..<uuid_next s} \<subseteq> uuid_at s ` {..<uuid_next s'}" using s'(5) by (intro image_mono) auto
  have d1: "distinct (map pipe_id (pipelines s'))"
    using wf new unfolding s'(1) map_append maps by (simp add: pipelines_wf_def p(1))
  have d2: "distinct (map (\<lambda>p. (pipe_line_id p, pipe_version p)) (pipelines s'))"
    using wf newv unfolding s'(1) map_append maps by (simp add: pipelines_wf_def p(2))
  have one: "length (filter (\<lambda>q. pipe_line_id q = l \<and> pipe_is_active q) (pipelines s')) \<le> 1" for l
    using wf unfolding s'(1) filter_append filter_deactivated by (simp add: pipelines_wf_def p(2))
  have st: "stage_pipeline_id ` set (pipeline_stages s') \<subseteq> insert (gen_uuid s) (pipe_id ` set (pipelines s))"
    using wf s'(3) by (auto simp: s'(2) pipelines_wf_def p(1))
  have old: "inj (uuid_at s)" "pipe_id ` set (pipelines s) \<subseteq> uuid_at s ` {..<uuid_next s}"
    using wf by (simp_all add: pipelines_wf_def)
  have sub: "pipe_id ` set (pipelines s') \<subseteq> uuid_at s ` {..<uuid_next s'}"
    unfolding ids using g order_trans [OF old(2) mono] by simp
  show ?thesis
    unfolding pipelines_wf_def s'(4) by (intro conjI allI) (rule old(1) sub d1 d2 one st [folded ids])+
qed

subsection \<open>The editor\<close>

lemma stages_of_saved:
  assumes "pipeline_stages s' = pipeline_stages s @ stage_rows pid uid n 0 sts"
    "pid \<notin> stage_pipeline_id ` set (pipeline_stages s)"
  shows "stages_of pid s' = stage_rows pid uid n 0 sts" "q \<noteq> pid \<Longrightarrow> stages_of q s' = stages_of q s"
proof -
  have none: "filter (\<lambda>g. stage_pipeline_id g = pid) (pipeline_stages s) = []"
    using assms(2) by (auto simp: filter_empty_conv)
  have rows: "filter (\<lambda>g. stage_pipeline_id g = pid) (stage_rows pid uid n 0 sts) = stage_rows pid uid n 0 sts"
    "q \<noteq> pid \<Longrightarrow> filter (\<lambda>g. stage_pipeline_id g = q) (stage_rows pid uid n 0 sts) = []" for q
    using stage_rows_pid by (fastforce simp: filter_id_conv filter_empty_conv)+
  show "stages_of pid s' = stage_rows pid uid n 0 sts"
    by (simp add: stages_of_def assms(1) none rows sort_key_sorted stage_rows_sorted)
  show "q \<noteq> pid \<Longrightarrow> stages_of q s' = stages_of q s"
    by (simp add: stages_of_def assms(1) rows)
qed

definition may_save :: "user \<Rightarrow> production_line \<Rightarrow> string \<Rightarrow> stage_input list \<Rightarrow> 'a ticket_db_scheme \<Rightarrow> bool" where
  "may_save u line stages_json stages s \<longleftrightarrow>
     current_user s = Some u \<and> has_permission u ''pipeline.configure'' s \<and>
     by_key line_id (line_id line) (lines s) = Some line \<and> stages_json \<noteq> [] \<and>
     (\<exists>payload. json_loads stages_json = Some payload \<and>
        validate_stages_payload (map role_code (roles s)) payload = accept stages)"

lemma may_save_accept:
  assumes "may_save u line stages_json stages s"
  shows "stages \<noteq> []" "list_all (stage_ok (map role_code (roles s))) stages" "distinct (map si_code stages)"
  using assms validate_accept unfolding may_save_def by blast+

lemma editor_run:
  assumes wf: "pipelines_wf s" and w: "writable s" and m: "may_save u line stages_json stages s"
  obtains s' p where "pipelines_edit_post (line_id line) stages_json s = (Inr (Redirect ''/admin/pipelines''), s')"
    "pipelines_wf s'" "active_pipeline (line_id line) s' = Some p"
    "pipe_version p = next_pipeline_version (line_id line) s" "map input_of (stages_of (pipe_id p) s') = stages"
    "\<forall>l. l \<noteq> line_id line \<longrightarrow> active_pipeline l s' = active_pipeline l s"
    "\<forall>q\<in>set (pipelines s). stages_of (pipe_id q) s' = stages_of (pipe_id q) s"
    "tickets s' = tickets s"
proof -
  let ?lid = "line_id line"
  let ?p = "\<lparr>pipe_id = gen_uuid s, pipe_line_id = ?lid, pipe_version = next_pipeline_version ?lid s, pipe_is_active = True\<rparr>"
  obtain t where t: "save_pipeline line stages s = (Inr (), t)"
    "pipelines t = map (\<lambda>p. if pipe_line_id p = ?lid then p\<lparr>pipe_is_active := False\<rparr> else p) (pipelines s) @ [?p]"
    "pipeline_stages t = pipeline_stages s @ stage_rows (gen_uuid s) (uuid_at s) (Suc (uuid_next s)) 0 stages"
    "uuid_at t = uuid_at s" "uuid_next t = Suc (uuid_next s) + length stages" "tickets t = tickets s"
    by (rule save_pipeline_run [OF wf w, of line stages])
  have c: "pipelines (commit t) = pipelines t" "pipeline_stages (commit t) = pipeline_stages t"
    "uuid_at (commit t) = uuid_at s" "uuid_next (commit t) = uuid_next t" "tickets (commit t) = tickets s"
    by (simp_all add: commit_def t)
  have run: "pipelines_edit_post ?lid stages_json s = (Inr (Redirect ''/admin/pipelines''), commit t)"
    using m by (auto simp: may_save_def pipelines_edit_post_def require_permission_def committing_def t(1))
  have pid: "gen_uuid s \<notin> pipe_id ` set (pipelines s)" by (rule uuid_fresh [OF wf])
  then have spid: "gen_uuid s \<notin> stage_pipeline_id ` set (pipeline_stages s)"
    using wf unfolding pipelines_wf_def by blast
  have act: "active_pipeline l (commit t) = (if l = ?lid then Some ?p else active_pipeline l s)" for l
    unfolding active_pipeline_def c t(2) filter_append filter_deactivated by (simp add: last_by_def)
  have stages: "stages_of (gen_uuid s) (commit t) = stage_rows (gen_uuid s) (uuid_at s) (Suc (uuid_next s)) 0 stages"
    "q \<noteq> gen_uuid s \<Longrightarrow> stages_of q (commit t) = stages_of q s" for q
    using stages_of_saved [OF _ spid, of "commit t"] unfolding c t(3) by blast+
  have wf': "pipelines_wf (commit t)"
    by (rule pipelines_wf_save [OF wf, of ?p ?lid]) (use t c stage_rows_pid in \<open>auto\<close>)
  show thesis
  proof (rule that [OF run wf', of ?p])
    show "\<forall>q\<in>set (pipelines s). stages_of (pipe_id q) (commit t) = stages_of (pipe_id q) s"
      using pid stages(2) by (metis image_eqI)
  qed (simp_all add: act stages input_of_stage_rows c)
qed

text \<open>
  C32. Saving in the pipeline editor. When a user with pipeline.configure posts a payload the check
  accepts, the line gets a new version, greater than all its versions, which is its only active
  one; its stages are the posted ones in the posted order, with distinct well-formed codes,
  both names, known roles and a sane SLA. Every older version keeps its stages, other lines
  keep their active pipeline, tickets are not touched, the invariant of the table holds again,
  and a ticket created on the line from now on starts at the first posted stage.
\<close>

theorem pipeline_editor_saves:
  assumes wf: "pipelines_wf s" and w: "writable s" and m: "may_save u line stages_json stages s"
  shows "\<exists>s' p. pipelines_edit_post (line_id line) stages_json s = (Inr (Redirect ''/admin/pipelines''), s') \<and>
    pipelines_wf s' \<and> active_pipeline (line_id line) s' = Some p \<and>
    (\<forall>q\<in>set (pipelines s). pipe_line_id q = line_id line \<longrightarrow> pipe_version q < pipe_version p) \<and>
    map input_of (stages_of (pipe_id p) s') = stages \<and> distinct (map si_code stages) \<and>
    list_all (stage_ok (map role_code (roles s))) stages \<and>
    (\<forall>q\<in>set (pipelines s). stages_of (pipe_id q) s' = stages_of (pipe_id q) s) \<and>
    (\<forall>l. l \<noteq> line_id line \<longrightarrow> active_pipeline l s' = active_pipeline l s) \<and> tickets s' = tickets s \<and>
    (\<forall>a number tid. a_line_id a = line_id line \<longrightarrow>
       t_pipeline_id (new_ticket a number s' tid) = Some (pipe_id p) \<and>
       current_stage_id (new_ticket a number s' tid) = Some (stage_id (hd (stages_of (pipe_id p) s'))))"
proof -
  obtain s' p where r: "pipelines_edit_post (line_id line) stages_json s = (Inr (Redirect ''/admin/pipelines''), s')"
    "pipelines_wf s'" "active_pipeline (line_id line) s' = Some p"
    "pipe_version p = next_pipeline_version (line_id line) s" "map input_of (stages_of (pipe_id p) s') = stages"
    "\<forall>l. l \<noteq> line_id line \<longrightarrow> active_pipeline l s' = active_pipeline l s"
    "\<forall>q\<in>set (pipelines s). stages_of (pipe_id q) s' = stages_of (pipe_id q) s" "tickets s' = tickets s"
    by (rule editor_run [OF wf w m])
  have ok: "stages \<noteq> []" "list_all (stage_ok (map role_code (roles s))) stages" "distinct (map si_code stages)"
    using may_save_accept [OF m] .
  have first: "t_pipeline_id (new_ticket a number s' tid) = Some (pipe_id p) \<and>
      current_stage_id (new_ticket a number s' tid) = Some (stage_id (hd (stages_of (pipe_id p) s')))"
    if "a_line_id a = line_id line" for a number tid
    using ok(1) r(5) by (cases "stages_of (pipe_id p) s'") (auto simp: new_ticket_def Let_def that r(3))
  show ?thesis
    using r ok(2,3) first next_pipeline_version_greatest [of _ s "line_id line"]
    by (intro exI [of _ s'] exI [of _ p]) simp
qed

text \<open>
  Reopening the editor. After a save, the JSON text of what the editor shows for the line is
  accepted again and describes exactly the stages that were saved.
\<close>

theorem pipeline_editor_roundtrip:
  assumes wf: "pipelines_wf s" and w: "writable s" and m: "may_save u line stages_json stages s"
  shows "\<exists>s' payload. snd (pipelines_edit_post (line_id line) stages_json s) = s' \<and>
    json_loads (json_dumps sf (serialise_pipeline (active_pipeline (line_id line) s') s')) = Some payload \<and>
    validate_stages_payload (map role_code (roles s)) payload = Inr (Inr stages)"
proof -
  obtain s' p where r: "pipelines_edit_post (line_id line) stages_json s = (Inr (Redirect ''/admin/pipelines''), s')"
    "active_pipeline (line_id line) s' = Some p" "map input_of (stages_of (pipe_id p) s') = stages"
    by (rule editor_run [OF wf w m])
  let ?gs = "stages_of (pipe_id p) s'"
  have ser: "serialise_pipeline (active_pipeline (line_id line) s') s' = JList (map stage_json ?gs)"
    by (simp add: serialise_pipeline_def r(2))
  have "printable sf (JList (map stage_json ?gs))"
    by (auto simp: stage_json_def split: option.splits)
  then have loads: "json_loads (json_dumps sf (JList (map stage_json ?gs))) = Some (JList (map stage_json ?gs))"
    by (rule json_loads_dumps)
  have codes: "map si_code stages = map stage_code ?gs"
    by (simp add: r(3) [symmetric] input_of_def)
  have "check_stages (map role_code (roles s)) [] (map stage_json ?gs) = accept stages"
    unfolding r(3) [symmetric]
    by (rule check_stages_json) (use may_save_accept [OF m] codes r(3) in simp_all)
  moreover have "?gs \<noteq> []" using may_save_accept(1) [OF m] r(3) by auto
  ultimately have "validate_stages_payload (map role_code (roles s)) (JList (map stage_json ?gs)) = Inr (Inr stages)"
    by (cases ?gs) (simp_all add: validate_stages_payload_def del: check_stages.simps)
  with loads show ?thesis
    unfolding r(1) snd_conv
    by (intro exI [of _ s'] exI [of _ "JList (map stage_json ?gs)"] conjI) (simp_all only: ser)
qed

subsection \<open>A sample and the witnesses\<close>

definition sample_payload :: json where
  "sample_payload = JList
     [JObj [(''code'', JStr '' Mixing''), (''name_pl'', JStr ''Mieszanie''), (''name_en'', JStr ''Mixing''),
            (''required_role_code'', JStr ''qa''), (''sla_minutes'', JStr ''30''), (''is_ccp_checkpoint'', JBool True)],
      JObj [(''code'', JStr ''baking''), (''name_pl'', JStr ''Pieczenie''), (''name_en'', JStr ''Baking'')]]"

definition sample_stages :: "stage_input list" where
  "sample_stages =
     [\<lparr>si_code = ''mixing'', si_name_pl = ''Mieszanie'', si_name_en = ''Mixing'', si_role = Some ''qa'',
       si_sla = Some 30, si_ccp = True\<rparr>,
      \<lparr>si_code = ''baking'', si_name_pl = ''Pieczenie'', si_name_en = ''Baking'', si_role = None,
       si_sla = None, si_ccp = False\<rparr>]"

definition sample_editor :: ticket_db where
  "sample_editor = (sample_request [])\<lparr>roles := [\<lparr>role_id = ''r1'', role_code = ''qa'', role_permissions = [''pipeline.configure'']\<rparr>]\<rparr>"

definition sample_text :: string where
  "sample_text = json_dumps (\<lambda>_. []) sample_payload"

lemma sample_validated: "validate_stages_payload [''qa''] sample_payload = Inr (Inr sample_stages)"
  by code_simp

lemma sample_may_save: "may_save (sample_user None) sample_line sample_text sample_stages sample_editor"
proof -
  have "printable (\<lambda>_. []) sample_payload" by (simp add: sample_payload_def)
  then have "json_loads sample_text = Some sample_payload" unfolding sample_text_def by (rule json_loads_dumps)
  moreover have "sample_text \<noteq> []" by (simp add: sample_text_def sample_payload_def)
  ultimately show ?thesis
    using sample_validated
    by (simp add: may_save_def current_user_def session_user_id_def sample_editor_def sample_request_def by_key_def
        sample_user_def has_permission_def role_of_def role_has_permission_def sample_line_def sample_tickets_def)
qed

lemma sample_editor_wf: "pipelines_wf sample_editor" "writable sample_editor"
  by (auto simp: pipelines_wf_def sample_editor_def sample_request_def sample_tickets_def writable_def
      audit_update_allowed_def inj_def dest: digits_inj)

theorem pipeline_editor_saves_witness:
  "\<exists>s' p. pipelines_edit_post ''L1'' sample_text sample_editor = (Inr (Redirect ''/admin/pipelines''), s') \<and>
     active_pipeline ''L1'' s' = Some p \<and> map input_of (stages_of (pipe_id p) s') = sample_stages"
proof -
  have "line_id sample_line = ''L1''" by (simp add: sample_line_def)
  with pipeline_editor_saves [OF sample_editor_wf sample_may_save] show ?thesis by metis
qed

theorem pipeline_editor_roundtrip_witness:
  "\<exists>s' payload. snd (pipelines_edit_post ''L1'' sample_text sample_editor) = s' \<and>
    json_loads (json_dumps (\<lambda>_. []) (serialise_pipeline (active_pipeline ''L1'' s') s')) = Some payload \<and>
    validate_stages_payload [''qa''] payload = Inr (Inr sample_stages)"
proof -
  have "line_id sample_line = ''L1''" "map role_code (roles sample_editor) = [''qa'']"
    by (simp_all add: sample_line_def sample_editor_def)
  with pipeline_editor_roundtrip [OF sample_editor_wf sample_may_save, of "\<lambda>_. []"] show ?thesis by metis
qed

subsection \<open>The audit contract\<close>

lemma keeps_log_pipeline_rows [audited]:
  "keeps log_step (insert_pipeline p)" "keeps log_step (insert_stage g)"
  "keeps log_step (modify (deactivate_pipeline a))"
  by (rule keepsI; auto simp: insert_pipeline_def insert_stage_def deactivate_pipeline_def log_step_def log_wf_def
      split: option.splits)+

interpretation pipeline_view: audited_operation "pipelines_edit_post lid stages_json" for lid stages_json
  by unfold_locales
    (auto simp: pipelines_edit_post_def save_pipeline_def add_stages_def Let_def
      intro!: audited keeps_seq [OF log_step_trans] keeps_with_state)

end
