(* ===== verification/TriggerAdmin.thy ===== *)
theory TriggerAdmin
  imports TriggerLife Views UniqueInsert
begin

text \<open>
  The trigger pages of app/blueprints/admin.py: the form, what it writes into a trigger and its
  responders, and the views that create, edit and switch triggers. A form reaches a view after
  its validators; what they promise is \<open>trigger_form_valid\<close>.
\<close>

subsection \<open>The form\<close>

definition TRIGGER_METRIC_CHOICES :: "string list" where
  "TRIGGER_METRIC_CHOICES = [''temperature'', ''humidity'', ''pressure'', ''weight'', ''ph'', ''count'', ''__other__'']"

definition TRIGGER_OPERATOR_CHOICES :: "string list" where
  "TRIGGER_OPERATOR_CHOICES = [''>'', ''>='', ''<'', ''<='', ''=='', ''!='']"

definition TRIGGER_SEVERITY_CHOICES :: "string list" where
  "TRIGGER_SEVERITY_CHOICES = map severity_value [LOW, MEDIUM, HIGH, CRITICAL]"

definition TRIGGER_DURATION_MAX_SECONDS :: int where
  "TRIGGER_DURATION_MAX_SECONDS = 3600"

text \<open>The number field holds a decimal; \<open>f_value\<close> is the float it converts to.\<close>

record trigger_form =
  f_code :: string
  f_name_pl :: string
  f_name_en :: string
  f_scope :: string
  f_metric :: string
  f_metric_other :: "string option"
  f_operator :: string
  f_value :: pyfloat
  f_duration_seconds :: "int option"
  f_severity :: string
  f_is_active :: bool
  f_dry_run :: bool
  f_responder_ids :: "string list"

text \<open>The choices of the fields that depend on the tables.\<close>

definition scope_choices :: "'a trigger_db_scheme \<Rightarrow> string list" where
  "scope_choices s = [] # map (\<lambda>c. ''line:'' @ c) (sort_key (\<lambda>c. c) (map line_code (lines s)))"

definition responder_choices :: "'a trigger_db_scheme \<Rightarrow> string list" where
  "responder_choices s = map rs_id (sort_key rs_code (responders s))"

definition trigger_form_valid :: "'a trigger_db_scheme \<Rightarrow> trigger_form \<Rightarrow> bool" where
  "trigger_form_valid s form \<longleftrightarrow>
     strip (f_code form) \<noteq> [] \<and> f_scope form \<in> set (scope_choices s) \<and>
     f_metric form \<in> set TRIGGER_METRIC_CHOICES \<and> f_operator form \<in> set TRIGGER_OPERATOR_CHOICES \<and>
     f_severity form \<in> set TRIGGER_SEVERITY_CHOICES \<and>
     (\<forall>d. f_duration_seconds form = Some d \<longrightarrow> 0 \<le> d \<and> d \<le> TRIGGER_DURATION_MAX_SECONDS) \<and>
     set (f_responder_ids form) \<subseteq> set (responder_choices s)"

definition resolve_metric :: "trigger_form \<Rightarrow> string" where
  "resolve_metric form =
     (if f_metric form = ''__other__'' then strip (or_empty (f_metric_other form)) else f_metric form)"

definition form_condition :: "trigger_form \<Rightarrow> dict" where
  "form_condition form =
     (let duration = (case f_duration_seconds form of None \<Rightarrow> 0 | Some d \<Rightarrow> d)
      in [(''metric'', JStr (resolve_metric form)), (''operator'', JStr (f_operator form)),
          (''value'', JFloat (f_value form))]
         @ (if duration > 0 then [(''duration_seconds'', JInt duration)] else []))"

definition apply_form_to_trigger :: "trigger_form \<Rightarrow> trigger \<Rightarrow> trigger" where
  "apply_form_to_trigger form t =
     t\<lparr>tg_code := strip (f_code form),
       tg_name := [(''pl'', strip (f_name_pl form)), (''en'', strip (f_name_en form))],
       tg_scope := or_none (f_scope form),
       tg_condition := form_condition form,
       tg_severity := f_severity form,
       tg_is_active := f_is_active form,
       dry_run := f_dry_run form\<rparr>"

fun number_of :: "json \<Rightarrow> pyfloat option" where
  "number_of (JFloat x) = Some x"
| "number_of (JInt i) = Some (Fin (of_int i))"
| "number_of _ = None"

text \<open>
  \<open>_trigger_to_form\<close>: an entry of the condition the field cannot hold (a threshold that is no
  number, an operator that is no string) leaves the form unusable, here None.
\<close>

definition trigger_to_form :: "trigger \<Rightarrow> responder list \<Rightarrow> trigger_form option" where
  "trigger_to_form t rs =
     (let cond = tg_condition t
      in case (jget_or (JStr []) ''metric'' cond, jget_or (JStr ''>'') ''operator'' cond,
               number_of (jget_or_null ''value'' cond), duration_of cond) of
           (JStr metric, JStr op, Some v, Inr duration) \<Rightarrow>
             Some \<lparr>f_code = tg_code t,
               f_name_pl = text_or (tg_name t) ''pl'' [], f_name_en = text_or (tg_name t) ''en'' [],
               f_scope = or_empty (tg_scope t),
               f_metric = (if metric \<in> set TRIGGER_METRIC_CHOICES then metric else if metric \<noteq> [] then ''__other__'' else []),
               f_metric_other = (if metric \<in> set TRIGGER_METRIC_CHOICES \<or> metric = [] then None else Some metric),
               f_operator = op, f_value = v, f_duration_seconds = Some duration,
               f_severity = tg_severity t, f_is_active = tg_is_active t, f_dry_run = dry_run t,
               f_responder_ids = map rs_id rs\<rparr>
         | _ \<Rightarrow> None)"

subsection \<open>Responders\<close>

definition insert_link :: "trigger_responder \<Rightarrow> ('a trigger_db_scheme, unit) py" where
  "insert_link l = (\<lambda>s.
     if session_failed s then (Inl PendingRollbackError, s)
     else if (link_trigger_id l, link_responder_id l) \<in>
         (\<lambda>k. (link_trigger_id k, link_responder_id k)) ` set (trigger_responders s)
     then (Inl (IntegrityError ''trigger_responders''), s\<lparr>session_failed := True\<rparr>)
     else (Inr (), s\<lparr>trigger_responders := trigger_responders s @ [l]\<rparr>))"

interpretation link_rows_of: unique_insert insert_link trigger_responders "\<lambda>k. (link_trigger_id k, link_responder_id k)" session_failed
  by unfold_locales (auto simp: insert_link_def)

definition sync_trigger_responders :: "string \<Rightarrow> string list \<Rightarrow> ('a trigger_db_scheme, unit) py" where
  "sync_trigger_responders tid responder_ids =
     seq (modify (\<lambda>s. s\<lparr>trigger_responders := filter (\<lambda>l. link_trigger_id l \<noteq> tid) (trigger_responders s)\<rparr>))
         (for_each (\<lambda>(idx, rid).
            if rid = [] then ret ()
            else insert_link \<lparr>link_trigger_id = tid, link_responder_id = rid, link_order_index = int idx\<rparr>)
          (enumerate 0 responder_ids))"

subsection \<open>The views\<close>

definition metric_missing :: "trigger_form \<Rightarrow> bool" where
  "metric_missing form \<longleftrightarrow> f_metric form = ''__other__'' \<and> strip (or_empty (f_metric_other form)) = []"

definition code_taken :: "trigger_form \<Rightarrow> 'a trigger_db_scheme \<Rightarrow> trigger option" where
  "code_taken form s = find (\<lambda>t. tg_code t = strip (f_code form)) (triggers s)"

definition create_trigger :: "trigger_form \<Rightarrow> ('a trigger_db_scheme, unit) py" where
  "create_trigger form =
     bind take_uuid (\<lambda>i.
       let t = apply_form_to_trigger form
                 \<lparr>tg_id = i, tg_code = [], tg_name = [], tg_scope = None, tg_condition = [], tg_severity = ''medium'',
                  tg_is_active = True, dry_run = False\<rparr>
       in seq (modify (\<lambda>s. s\<lparr>triggers := triggers s @ [t]\<rparr>))
         (seq (sync_trigger_responders i (f_responder_ids form))
         (bind (record_entry ''trigger'' CREATE (Some i)
                  [(''code'', JStr (tg_code t)), (''scope'', jstr_opt (tg_scope t)), (''condition'', JObj (tg_condition t))] None)
           (\<lambda>_. ret ()))))"

definition triggers_new_post :: "trigger_form \<Rightarrow> ('a trigger_db_scheme, response) py" where
  "triggers_new_post form =
     require_permission (perm_code TRIGGERS_DEFINE) ''/admin/triggers/new'' (\<lambda>u. with_state (\<lambda>s.
       if code_taken form s \<noteq> None then ret Page
       else if metric_missing form then ret Page
       else committing (\<lambda>_. False) (create_trigger form) (\<lambda>_. Redirect ''/admin/triggers'') Page))"

definition trigger_diff :: "trigger \<Rightarrow> json" where
  "trigger_diff t = JObj
     [(''code'', JStr (tg_code t)), (''scope'', jstr_opt (tg_scope t)), (''condition'', JObj (tg_condition t)),
      (''severity'', JStr (tg_severity t)), (''is_active'', JBool (tg_is_active t)), (''dry_run'', JBool (dry_run t))]"

definition save_trigger :: "trigger \<Rightarrow> trigger_form \<Rightarrow> ('a trigger_db_scheme, unit) py" where
  "save_trigger t form =
     seq (modify (\<lambda>s. s\<lparr>triggers := update_row tg_id (tg_id t) (apply_form_to_trigger form) (triggers s)\<rparr>))
    (seq (sync_trigger_responders (tg_id t) (f_responder_ids form))
    (bind (record_entry ''trigger'' UPDATE (Some (tg_id t))
             [(''before'', trigger_diff t), (''after'', trigger_diff (apply_form_to_trigger form t))] None)
      (\<lambda>_. ret ())))"

definition triggers_edit_post :: "string \<Rightarrow> trigger_form \<Rightarrow> ('a trigger_db_scheme, response) py" where
  "triggers_edit_post tid form =
     require_permission (perm_code TRIGGERS_DEFINE) (''/admin/triggers/'' @ tid @ ''/edit'') (\<lambda>u. with_state (\<lambda>s.
       case by_key tg_id tid (triggers s) of
         None \<Rightarrow> ret (Abort 404)
       | Some t \<Rightarrow>
           if (case code_taken form s of None \<Rightarrow> False | Some existing \<Rightarrow> tg_id existing \<noteq> tg_id t) then ret Page
           else if metric_missing form then ret Page
           else committing (\<lambda>_. False) (save_trigger t form) (\<lambda>_. Redirect ''/admin/triggers'') Page))"

definition trigger_toggle_post :: "string \<Rightarrow> ('a trigger_db_scheme, response) py" where
  "trigger_toggle_post tid =
     require_permission (perm_code TRIGGERS_DEFINE) (''/admin/triggers/'' @ tid @ ''/toggle'') (\<lambda>u. with_state (\<lambda>s.
       case by_key tg_id tid (triggers s) of
         None \<Rightarrow> ret (Abort 404)
       | Some t \<Rightarrow>
           committing (\<lambda>_. False)
             (seq (modify (\<lambda>s. s\<lparr>triggers := update_row tg_id tid (\<lambda>t. t\<lparr>tg_is_active := \<not> tg_is_active t\<rparr>) (triggers s)\<rparr>))
                  (record_entry ''trigger'' TOGGLE_ACTIVE (Some tid) [(''is_active'', JBool (\<not> tg_is_active t))] None))
             (\<lambda>_. Redirect ''/admin/triggers'') Page))"

definition triggers_index :: "'a trigger_db_scheme \<Rightarrow> trigger list" where
  "triggers_index s = sort_key tg_code (triggers s)"

subsection \<open>What the engine reads in a saved trigger\<close>

lemma form_condition_get:
  "jget_or_null ''metric'' (form_condition form) = JStr (resolve_metric form)"
  "jget_or_null ''operator'' (form_condition form) = JStr (f_operator form)"
  "jget_or_null ''value'' (form_condition form) = JFloat (f_value form)"
  "jget_or_null ''duration_seconds'' (form_condition form) =
     (case f_duration_seconds form of None \<Rightarrow> JNull | Some d \<Rightarrow> if d > 0 then JInt d else JNull)"
  by (auto simp: form_condition_def jget_or_null_def Let_def split: option.splits)

lemma form_duration:
  assumes "trigger_form_valid s form"
  shows "duration_of (form_condition form) = Inr (case f_duration_seconds form of None \<Rightarrow> 0 | Some d \<Rightarrow> d)"
  using assms by (auto simp: duration_of_def form_condition_get trigger_form_valid_def split: option.splits)

text \<open>The comparisons as the form offers them, on a reading and a threshold.\<close>

definition compares :: "string \<Rightarrow> json \<Rightarrow> pyfloat \<Rightarrow> bool" where
  "compares op v x \<longleftrightarrow>
     (if op = ''=='' then jeq v (JFloat x) else if op = ''!='' then \<not> jeq v (JFloat x)
      else if op = ''<'' then jlt v (JFloat x) = Some True else if op = ''<='' then jle v (JFloat x) = Some True
      else if op = ''>'' then jlt (JFloat x) v = Some True else jle (JFloat x) v = Some True)"

lemma form_evaluates:
  assumes "trigger_form_valid s form"
  shows "evaluate_condition (form_condition form) payload =
    Inr (case jget (resolve_metric form) payload of None \<Rightarrow> False | Some v \<Rightarrow> compares (f_operator form) v (f_value form))"
proof -
  have "f_operator form \<in> {''>'', ''>='', ''<'', ''<='', ''=='', ''!=''}"
    using assms by (simp add: trigger_form_valid_def TRIGGER_OPERATOR_CHOICES_def)
  then show ?thesis
    by (auto simp: evaluate_condition_def Let_def form_condition_get operator_of_def compares_def split: option.splits)
qed

subsection \<open>What saving does\<close>

fun link_rows :: "string \<Rightarrow> nat \<Rightarrow> string list \<Rightarrow> trigger_responder list" where
  "link_rows tid idx [] = []"
| "link_rows tid idx (rid # rids) =
     (if rid = [] then [] else [\<lparr>link_trigger_id = tid, link_responder_id = rid, link_order_index = int idx\<rparr>])
       @ link_rows tid (Suc idx) rids"

lemma link_rows_set:
  "l \<in> set (link_rows tid idx rids) \<Longrightarrow> link_trigger_id l = tid \<and> link_responder_id l \<in> set rids \<and> link_responder_id l \<noteq> []"
  by (induction rids arbitrary: idx) (auto split: if_splits)

lemma link_rows_has: "rid \<in> set rids \<Longrightarrow> rid \<noteq> [] \<Longrightarrow> \<exists>l\<in>set (link_rows tid idx rids). link_responder_id l = rid"
  by (induction rids arbitrary: idx) auto

lemma links_from:
  assumes "\<not> session_failed s" "distinct rids" "\<forall>l\<in>set (trigger_responders s). link_trigger_id l = tid \<longrightarrow> link_responder_id l \<notin> set rids"
  shows "for_each (\<lambda>(idx, rid). if rid = [] then ret ()
            else insert_link \<lparr>link_trigger_id = tid, link_responder_id = rid, link_order_index = int idx\<rparr>)
          (enumerate k rids) s =
     (Inr (), s\<lparr>trigger_responders := trigger_responders s @ link_rows tid k rids\<rparr>)"
  using assms
proof (induction rids arbitrary: s k)
  case Nil
  then show ?case by simp
next
  case (Cons rid rids)
  show ?case
  proof (cases "rid = []")
    case True
    with Cons show ?thesis by (simp add: enumerate_simps)
  next
    case False
    let ?l = "\<lparr>link_trigger_id = tid, link_responder_id = rid, link_order_index = int k\<rparr>"
    let ?s1 = "s\<lparr>trigger_responders := trigger_responders s @ [?l]\<rparr>"
    have "(tid, rid) \<notin> (\<lambda>k. (link_trigger_id k, link_responder_id k)) ` set (trigger_responders s)"
      using Cons.prems(3) by auto
    then have "insert_link ?l s = (Inr (), ?s1)"
      using Cons.prems(1) by (simp add: insert_link_def)
    with Cons.IH [of ?s1 "Suc k"] Cons.prems False show ?thesis
      by (simp add: enumerate_simps seq_Inr)
  qed
qed

lemma sync_run:
  assumes "\<not> session_failed s" "distinct rids"
  shows "sync_trigger_responders tid rids s =
    (Inr (), s\<lparr>trigger_responders := filter (\<lambda>l. link_trigger_id l \<noteq> tid) (trigger_responders s) @ link_rows tid 0 rids\<rparr>)"
  using assms links_from [of "s\<lparr>trigger_responders := filter (\<lambda>l. link_trigger_id l \<noteq> tid) (trigger_responders s)\<rparr>" rids tid 0]
  by (simp add: sync_trigger_responders_def)

lemma responders_of_synced:
  assumes "trigger_responders t = filter (\<lambda>l. link_trigger_id l \<noteq> tid) ls @ link_rows tid 0 rids" "[] \<notin> set rids"
  shows "responders_of tid t = filter (\<lambda>r. rs_id r \<in> set rids) (responders t)"
proof -
  have "(\<exists>l\<in>set (trigger_responders t). link_trigger_id l = tid \<and> link_responder_id l = rid) \<longleftrightarrow> rid \<in> set rids" for rid
    using link_rows_set [of _ tid 0 rids] link_rows_has [of rid rids tid 0] assms(2)
    unfolding assms(1) set_append set_filter by blast
  then show ?thesis by (simp add: responders_of_def)
qed

lemma responders_of_other:
  assumes "trigger_responders t = filter (\<lambda>l. link_trigger_id l \<noteq> tid) (trigger_responders s) @ link_rows tid 0 rids"
    "responders t = responders s" "other \<noteq> tid"
  shows "responders_of other t = responders_of other s"
proof -
  have "(\<exists>l\<in>set (trigger_responders t). link_trigger_id l = other \<and> link_responder_id l = rid) \<longleftrightarrow>
      (\<exists>l\<in>set (trigger_responders s). link_trigger_id l = other \<and> link_responder_id l = rid)" for rid
    using link_rows_set [of _ tid 0 rids] assms(3) unfolding assms(1) set_append set_filter by blast
  then show ?thesis by (simp add: responders_of_def assms(2))
qed

text \<open>A user with the permission, and a form the view does not refuse.\<close>

definition may_define :: "'a trigger_db_scheme \<Rightarrow> trigger_form \<Rightarrow> bool" where
  "may_define s form \<longleftrightarrow>
     (\<exists>u. current_user s = Some u \<and> has_permission u ''triggers.define'' s) \<and> trigger_form_valid s form \<and>
     \<not> metric_missing form \<and> distinct (f_responder_ids form) \<and> [] \<notin> set (f_responder_ids form)"

lemma recorded_triggers:
  assumes "writable s"
  shows "\<exists>e t. record_entry ty ac eid d uid s = (Inr e, t) \<and> triggers t = triggers s \<and> responders t = responders s \<and>
    trigger_responders t = trigger_responders s \<and> audit_log t = audit_log s @ [e] \<and> entity_id e = eid"
  using assms by (simp add: record_entry_ok new_entry_def with_checksum_def)

lemma create_trigger_run:
  assumes "writable s" "distinct (f_responder_ids form)"
  obtains t e where "create_trigger form s = (Inr (), t)"
    "triggers t = triggers s @ [apply_form_to_trigger form
       \<lparr>tg_id = gen_uuid s, tg_code = [], tg_name = [], tg_scope = None, tg_condition = [], tg_severity = ''medium'',
        tg_is_active = True, dry_run = False\<rparr>]"
    "trigger_responders t = filter (\<lambda>l. link_trigger_id l \<noteq> gen_uuid s) (trigger_responders s) @
       link_rows (gen_uuid s) 0 (f_responder_ids form)"
    "responders t = responders s" "audit_log t = audit_log s @ [e]" "entity_id e = Some (gen_uuid s)"
proof -
  let ?t = "apply_form_to_trigger form
       \<lparr>tg_id = gen_uuid s, tg_code = [], tg_name = [], tg_scope = None, tg_condition = [], tg_severity = ''medium'',
        tg_is_active = True, dry_run = False\<rparr>"
  let ?s1 = "s\<lparr>uuid_next := Suc (uuid_next s), triggers := triggers s @ [?t]\<rparr>"
  let ?s2 = "?s1\<lparr>trigger_responders := filter (\<lambda>l. link_trigger_id l \<noteq> gen_uuid s) (trigger_responders s) @
       link_rows (gen_uuid s) 0 (f_responder_ids form)\<rparr>"
  have sync: "sync_trigger_responders (gen_uuid s) (f_responder_ids form) ?s1 = (Inr (), ?s2)"
    by (subst sync_run) (use assms in \<open>simp_all add: writable_def\<close>)
  have w: "writable ?s2" using assms(1) by (simp add: writable_def audit_update_allowed_def)
  obtain e t where r: "record_entry ''trigger'' CREATE (Some (gen_uuid s))
      [(''code'', JStr (tg_code ?t)), (''scope'', jstr_opt (tg_scope ?t)), (''condition'', JObj (tg_condition ?t))] None ?s2 = (Inr e, t)"
    "triggers t = triggers ?s2" "responders t = responders ?s2" "trigger_responders t = trigger_responders ?s2"
    "audit_log t = audit_log ?s2 @ [e]" "entity_id e = Some (gen_uuid s)"
    using recorded_triggers [OF w] by blast
  have "create_trigger form s = (Inr (), t)"
    using sync r(1) by (simp add: create_trigger_def bind_def [of take_uuid] take_uuid_def Let_def seq_Inr bind_Inr)
  then show thesis by (rule that [of t e]) (simp_all add: r)
qed

lemma save_trigger_run:
  assumes "writable s" "distinct (f_responder_ids form)"
  obtains t' e where "save_trigger t form s = (Inr (), t')"
    "triggers t' = update_row tg_id (tg_id t) (apply_form_to_trigger form) (triggers s)"
    "trigger_responders t' = filter (\<lambda>l. link_trigger_id l \<noteq> tg_id t) (trigger_responders s) @
       link_rows (tg_id t) 0 (f_responder_ids form)"
    "responders t' = responders s" "audit_log t' = audit_log s @ [e]" "entity_id e = Some (tg_id t)"
proof -
  let ?s1 = "s\<lparr>triggers := update_row tg_id (tg_id t) (apply_form_to_trigger form) (triggers s)\<rparr>"
  let ?s2 = "?s1\<lparr>trigger_responders := filter (\<lambda>l. link_trigger_id l \<noteq> tg_id t) (trigger_responders s) @
       link_rows (tg_id t) 0 (f_responder_ids form)\<rparr>"
  have sync: "sync_trigger_responders (tg_id t) (f_responder_ids form) ?s1 = (Inr (), ?s2)"
    by (subst sync_run) (use assms in \<open>simp_all add: writable_def\<close>)
  have w: "writable ?s2" using assms(1) by (simp add: writable_def audit_update_allowed_def)
  obtain e t' where r: "record_entry ''trigger'' UPDATE (Some (tg_id t))
      [(''before'', trigger_diff t), (''after'', trigger_diff (apply_form_to_trigger form t))] None ?s2 = (Inr e, t')"
    "triggers t' = triggers ?s2" "responders t' = responders ?s2" "trigger_responders t' = trigger_responders ?s2"
    "audit_log t' = audit_log ?s2 @ [e]" "entity_id e = Some (tg_id t)"
    using recorded_triggers [OF w] by blast
  have "save_trigger t form s = (Inr (), t')"
    using sync r(1) by (simp add: save_trigger_def seq_Inr bind_Inr)
  then show thesis by (rule that [of t' e]) (simp_all add: r)
qed

lemma apply_form_simps [simp]:
  "tg_id (apply_form_to_trigger form t) = tg_id t" "tg_code (apply_form_to_trigger form t) = strip (f_code form)"
  "tg_scope (apply_form_to_trigger form t) = or_none (f_scope form)"
  "tg_condition (apply_form_to_trigger form t) = form_condition form"
  "tg_severity (apply_form_to_trigger form t) = f_severity form"
  "tg_is_active (apply_form_to_trigger form t) = f_is_active form" "dry_run (apply_form_to_trigger form t) = f_dry_run form"
  "tg_name (apply_form_to_trigger form t) = [(''pl'', strip (f_name_pl form)), (''en'', strip (f_name_en form))]"
  by (simp_all add: apply_form_to_trigger_def)

lemma commit_trigger_simps [simp]:
  "triggers (commit s) = triggers s" "responders (commit s) = responders s"
  "trigger_responders (commit s) = trigger_responders s"
  by (simp_all add: commit_def)

text \<open>
  C33. Saving the new-trigger form. A form that passed its validators and names no code already in
  use becomes one new trigger row with the entered scope, severity and switches. The engine can
  always evaluate it: a payload fires it exactly when its reading of the chosen metric stands in
  the chosen relation to the threshold, never with a TypeError, and its duration is the entered
  one. Its responders are the selected ones in the order of the table, whatever the order of the
  selection, and no other trigger's responders change.
\<close>

theorem trigger_form_saves:
  assumes w: "writable s" and m: "may_define s form" and new: "code_taken form s = None"
  shows "\<exists>s' t. triggers_new_post form s = (Inr (Redirect ''/admin/triggers''), s') \<and> triggers s' = triggers s @ [t] \<and>
    tg_code t = strip (f_code form) \<and> tg_code t \<notin> tg_code ` set (triggers s) \<and>
    tg_scope t = or_none (f_scope form) \<and> tg_severity t = f_severity form \<and>
    tg_is_active t = f_is_active form \<and> dry_run t = f_dry_run form \<and>
    (\<forall>payload. evaluate_condition (tg_condition t) payload =
       Inr (case jget (resolve_metric form) payload of None \<Rightarrow> False | Some v \<Rightarrow> compares (f_operator form) v (f_value form))) \<and>
    duration_of (tg_condition t) = Inr (case f_duration_seconds form of None \<Rightarrow> 0 | Some d \<Rightarrow> d) \<and>
    responders_of (tg_id t) s' = filter (\<lambda>r. rs_id r \<in> set (f_responder_ids form)) (responders s) \<and>
    (\<forall>other. other \<noteq> tg_id t \<longrightarrow> responders_of other s' = responders_of other s)"
proof -
  let ?t = "apply_form_to_trigger form
       \<lparr>tg_id = gen_uuid s, tg_code = [], tg_name = [], tg_scope = None, tg_condition = [], tg_severity = ''medium'',
        tg_is_active = True, dry_run = False\<rparr>"
  have f: "trigger_form_valid s form" "\<not> metric_missing form" "distinct (f_responder_ids form)" "[] \<notin> set (f_responder_ids form)"
    using m by (auto simp: may_define_def)
  obtain c e where c: "create_trigger form s = (Inr (), c)" "triggers c = triggers s @ [?t]"
    "trigger_responders c = filter (\<lambda>l. link_trigger_id l \<noteq> gen_uuid s) (trigger_responders s) @
       link_rows (gen_uuid s) 0 (f_responder_ids form)" "responders c = responders s"
    by (rule create_trigger_run [OF w f(3)])
  have run: "triggers_new_post form s = (Inr (Redirect ''/admin/triggers''), commit c)"
    using m new f(2) by (auto simp: may_define_def triggers_new_post_def require_permission_def committing_def c(1))
  have "strip (f_code form) \<notin> tg_code ` set (triggers s)"
    using new by (auto simp: code_taken_def find_None_iff)
  moreover have "responders_of (gen_uuid s) (commit c) = filter (\<lambda>r. rs_id r \<in> set (f_responder_ids form)) (responders s)"
    using responders_of_synced [of "commit c" "gen_uuid s" "trigger_responders s" "f_responder_ids form"] f(4) c by simp
  moreover have "responders_of other (commit c) = responders_of other s" if "other \<noteq> gen_uuid s" for other
    using responders_of_other [of "commit c" "gen_uuid s" s "f_responder_ids form" other] c that by simp
  ultimately show ?thesis
    using c(2) form_evaluates [OF f(1)] form_duration [OF f(1)] run
    by (intro exI [of _ "commit c"] exI [of _ ?t]) simp
qed

subsection \<open>Opening a trigger and saving it unchanged\<close>

lemma trigger_to_form_applied:
  assumes valid: "trigger_form_valid s form" and m: "\<not> metric_missing form" "resolve_metric form \<noteq> ''__other__''"
    and t: "apply_form_to_trigger form t = t"
  obtains form' where "trigger_to_form t rs = Some form'" "apply_form_to_trigger form' t = t"
    "\<not> metric_missing form'" "f_responder_ids form' = map rs_id rs" "strip (f_code form') = tg_code t"
proof -
  have row: "tg_code t = strip (f_code form)" "tg_name t = [(''pl'', strip (f_name_pl form)), (''en'', strip (f_name_en form))]"
    "tg_scope t = or_none (f_scope form)" "tg_condition t = form_condition form" "tg_severity t = f_severity form"
    "tg_is_active t = f_is_active form" "dry_run t = f_dry_run form"
    by (metis t apply_form_simps)+
  let ?m = "resolve_metric form"
  have metric: "?m \<noteq> []" "strip ?m = ?m \<or> ?m \<in> set TRIGGER_METRIC_CHOICES"
    using m(1) valid by (auto simp: resolve_metric_def metric_missing_def trigger_form_valid_def TRIGGER_METRIC_CHOICES_def)
  let ?known = "?m \<in> set TRIGGER_METRIC_CHOICES"
  let ?d = "case f_duration_seconds form of None \<Rightarrow> 0 | Some d \<Rightarrow> d"
  let ?f = "\<lparr>f_code = tg_code t, f_name_pl = strip (f_name_pl form), f_name_en = strip (f_name_en form),
      f_scope = or_empty (tg_scope t), f_metric = (if ?known then ?m else ''__other__''),
      f_metric_other = (if ?known then None else Some ?m), f_operator = f_operator form, f_value = f_value form,
      f_duration_seconds = Some ?d, f_severity = tg_severity t, f_is_active = tg_is_active t, f_dry_run = dry_run t,
      f_responder_ids = map rs_id rs\<rparr>"
  have get: "jget_or (JStr []) ''metric'' (tg_condition t) = JStr ?m" "jget_or (JStr ''>'') ''operator'' (tg_condition t) = JStr (f_operator form)"
    "number_of (jget_or_null ''value'' (tg_condition t)) = Some (f_value form)" "duration_of (tg_condition t) = Inr ?d"
    unfolding row form_duration [OF valid] form_condition_get by (simp_all add: form_condition_def jget_or_def Let_def)
  have names: "text_or (tg_name t) ''pl'' [] = strip (f_name_pl form)" "text_or (tg_name t) ''en'' [] = strip (f_name_en form)"
    by (auto simp: row text_or_def truthy_def or_empty_def)
  have "trigger_to_form t rs = Some ?f"
    unfolding trigger_to_form_def Let_def get names using metric(1) by simp
  moreover have res: "resolve_metric ?f = ?m"
    using metric(2) m(2) by (auto simp: resolve_metric_def or_empty_def)
  moreover have "form_condition ?f = form_condition form"
    unfolding form_condition_def res Let_def by (simp split: option.splits)
  moreover have "or_none (or_empty (or_none x)) = or_none x" for x
    by (simp add: or_none_def or_empty_def)
  moreover have "\<not> metric_missing ?f" using metric m(2) by (auto simp: metric_missing_def or_empty_def)
  ultimately show thesis
    by (intro that [of ?f]) (simp_all add: apply_form_to_trigger_def row)
qed

text \<open>
  Opening the edit form of a trigger that was saved from a form and saving it unchanged is
  accepted and changes neither the trigger, nor any other trigger, nor the responders of any
  trigger; only an audit entry about the trigger is added.
\<close>

theorem trigger_edit_roundtrip:
  assumes w: "writable s" and u: "current_user s = Some u" "has_permission u ''triggers.define'' s"
    and t: "by_key tg_id tid (triggers s) = Some t" "distinct (map tg_id (triggers s))" "distinct (map tg_code (triggers s))"
    and rs: "distinct (map rs_id (responders s))" "[] \<notin> rs_id ` set (responders s)"
    and saved: "trigger_form_valid s form" "\<not> metric_missing form" "resolve_metric form \<noteq> ''__other__''"
      "apply_form_to_trigger form t = t"
  shows "\<exists>form' s' e. trigger_to_form t (responders_of tid s) = Some form' \<and>
    triggers_edit_post tid form' s = (Inr (Redirect ''/admin/triggers''), s') \<and> triggers s' = triggers s \<and>
    (\<forall>other. responders_of other s' = responders_of other s) \<and>
    audit_log s' = audit_log s @ [e] \<and> entity_id e = Some tid"
proof -
  obtain form' where f: "trigger_to_form t (responders_of tid s) = Some form'" "apply_form_to_trigger form' t = t"
    "\<not> metric_missing form'" "f_responder_ids form' = map rs_id (responders_of tid s)" "strip (f_code form') = tg_code t"
    by (rule trigger_to_form_applied [OF saved])
  have id: "tg_id t = tid" "t \<in> set (triggers s)" using by_key_Some [OF t(1)] by simp_all
  have same: "r = t" if "r \<in> set (triggers s)" "tg_id r = tid \<or> tg_code r = tg_code t" for r
    using that id t(2,3) by (auto simp: distinct_map inj_on_def)
  have taken: "code_taken form' s = Some t"
  proof (cases "code_taken form' s")
    case None
    then show ?thesis using id(2) by (auto simp: code_taken_def f(5) find_None_iff)
  next
    case (Some r)
    then show ?thesis using find_Some_sat [OF Some [unfolded code_taken_def]] same f(5) by auto
  qed
  have ids: "distinct (f_responder_ids form')" "[] \<notin> set (f_responder_ids form')"
    using rs by (auto simp: f(4) responders_of_def distinct_map_filter)
  obtain c e where c: "save_trigger t form' s = (Inr (), c)"
    "triggers c = update_row tg_id (tg_id t) (apply_form_to_trigger form') (triggers s)"
    "trigger_responders c = filter (\<lambda>l. link_trigger_id l \<noteq> tg_id t) (trigger_responders s) @
       link_rows (tg_id t) 0 (f_responder_ids form')"
    "responders c = responders s" "audit_log c = audit_log s @ [e]" "entity_id e = Some (tg_id t)"
    by (rule save_trigger_run [OF w ids(1)])
  have run: "triggers_edit_post tid form' s = (Inr (Redirect ''/admin/triggers''), commit c)"
    using u f(3) by (simp add: triggers_edit_post_def require_permission_def t(1) taken committing_def c(1))
  have rows: "triggers (commit c) = triggers s"
  proof -
    have "(if tg_id r = tid then apply_form_to_trigger form' r else r) = r" if "r \<in> set (triggers s)" for r
      using same [OF that] f(2) by (cases "tg_id r = tid") auto
    then show ?thesis by (simp add: c(2) update_row_def id(1) map_idI)
  qed
  have own: "filter (\<lambda>r. rs_id r \<in> set (map rs_id (responders_of tid s))) (responders s) = responders_of tid s"
    by (auto simp: responders_of_def intro!: filter_cong)
  have "responders_of other (commit c) = responders_of other s" for other
    using responders_of_synced [of "commit c" tid "trigger_responders s" "f_responder_ids form'"] ids(2) c own f(4) id(1)
      responders_of_other [of "commit c" tid s "f_responder_ids form'" other]
    by (cases "other = tid") simp_all
  then show ?thesis
    using f(1) run rows c(5,6) id(1) by (intro exI [of _ form'] exI [of _ "commit c"] exI [of _ e]) (simp add: commit_def)
qed

subsection \<open>A sample and the witnesses\<close>

definition sample_trigger_form :: trigger_form where
  "sample_trigger_form = \<lparr>f_code = '' COLD '', f_name_pl = ''Zimno'', f_name_en = ''Cold '', f_scope = [],
     f_metric = ''__other__'', f_metric_other = Some '' core_temp'', f_operator = ''<='', f_value = Fin 4,
     f_duration_seconds = Some 30, f_severity = ''high'', f_is_active = True, f_dry_run = False,
     f_responder_ids = [''r2'', ''r1'']\<rparr>"

definition sample_author :: trigger_db where
  "sample_author = sample_engine
     \<lparr>request_context := Some \<lparr>remote_addr = None, user_agent_string = [], current_user_id = Some ''u1''\<rparr>,
      users := [sample_user None],
      roles := [\<lparr>role_id = ''r1'', role_code = ''qa'', role_permissions = [''triggers.define'']\<rparr>]\<rparr>"

lemma sample_author_simps:
  "current_user sample_author = Some (sample_user None)" "has_permission (sample_user None) ''triggers.define'' sample_author"
  "writable sample_author" "triggers sample_author = [sample_trigger, sample_dry]"
  "responders sample_author = responders sample_engine"
  "current_user (sample_author\<lparr>triggers := ts\<rparr>) = Some (sample_user None)"
  "has_permission (sample_user None) ''triggers.define'' (sample_author\<lparr>triggers := ts\<rparr>)"
  "writable (sample_author\<lparr>triggers := ts\<rparr>)"
  by (simp_all add: sample_author_def current_user_def session_user_id_def by_key_def sample_user_def has_permission_def
      role_of_def role_has_permission_def writable_def audit_update_allowed_def)

lemma sample_trigger_form_ok: "may_define sample_author sample_trigger_form" "code_taken sample_trigger_form sample_author = None"
proof -
  have "strip '' COLD '' = ''COLD''" "strip '' core_temp'' = ''core_temp''"
    by (simp_all add: strip_def lstrip_def rstrip_def str_py_space_def)
  moreover have "responders sample_engine = [sample_responder ''r1'' ''sms'' [], sample_responder ''r2'' ''notify_in_app''
        [(''recipients'', JList [JObj [(''role_code'', JStr ''qa'')]])]]"
    by (simp add: sample_engine_def training_db.extend_def)
  ultimately show "may_define sample_author sample_trigger_form" "code_taken sample_trigger_form sample_author = None"
    using sample_author_simps
    by (auto simp: may_define_def trigger_form_valid_def sample_trigger_form_def metric_missing_def scope_choices_def or_empty_def
        TRIGGER_METRIC_CHOICES_def TRIGGER_OPERATOR_CHOICES_def TRIGGER_SEVERITY_CHOICES_def TRIGGER_DURATION_MAX_SECONDS_def
        responder_choices_def sample_responder_def code_taken_def sample_trigger_def sample_dry_def)
qed

theorem trigger_form_saves_witness:
  "\<exists>s' t. triggers_new_post sample_trigger_form sample_author = (Inr (Redirect ''/admin/triggers''), s') \<and>
     triggers s' = triggers sample_author @ [t] \<and> duration_of (tg_condition t) = Inr 30 \<and>
     responders_of (tg_id t) s' = responders sample_author"
proof -
  have "filter (\<lambda>r. rs_id r \<in> set (f_responder_ids sample_trigger_form)) (responders sample_author) = responders sample_author"
    by (simp add: sample_author_simps sample_trigger_form_def sample_engine_def training_db.extend_def sample_responder_def)
  moreover have "f_duration_seconds sample_trigger_form = Some 30" by (simp add: sample_trigger_form_def)
  ultimately show ?thesis
    using trigger_form_saves [OF sample_author_simps(3) sample_trigger_form_ok] by auto
qed

theorem trigger_edit_roundtrip_witness:
  "let t = apply_form_to_trigger sample_trigger_form sample_trigger; s = sample_author\<lparr>triggers := [t]\<rparr>
   in \<exists>form' s'. trigger_to_form t (responders_of ''G1'' s) = Some form' \<and>
        triggers_edit_post ''G1'' form' s = (Inr (Redirect ''/admin/triggers''), s') \<and> triggers s' = [t]"
proof -
  let ?t = "apply_form_to_trigger sample_trigger_form sample_trigger"
  let ?s = "sample_author\<lparr>triggers := [?t]\<rparr>"
  have id: "tg_id ?t = ''G1''" by (simp add: sample_trigger_def)
  have "writable ?s" "current_user ?s = Some (sample_user None)" "has_permission (sample_user None) ''triggers.define'' ?s"
    by (rule sample_author_simps)+
  moreover have "by_key tg_id ''G1'' (triggers ?s) = Some ?t" using id by (simp add: by_key_def)
  moreover have "distinct (map rs_id (responders ?s))" "[] \<notin> rs_id ` set (responders ?s)"
    by (simp_all add: sample_author_simps sample_engine_def training_db.extend_def sample_responder_def)
  moreover have "trigger_form_valid ?s sample_trigger_form" "\<not> metric_missing sample_trigger_form"
    using sample_trigger_form_ok by (simp_all add: may_define_def trigger_form_valid_def scope_choices_def responder_choices_def)
  moreover have "resolve_metric sample_trigger_form \<noteq> ''__other__''"
    by (simp add: resolve_metric_def sample_trigger_form_def or_empty_def strip_def lstrip_def rstrip_def str_py_space_def)
  moreover have "apply_form_to_trigger sample_trigger_form ?t = ?t"
    by (simp add: apply_form_to_trigger_def)
  ultimately show ?thesis
    using trigger_edit_roundtrip [of ?s "sample_user None" "''G1''" ?t sample_trigger_form] by (auto simp: Let_def)
qed

subsection \<open>The audit contract\<close>

lemma keeps_log_trigger_rows [audited]:
  "keeps log_step (insert_link l)" "keeps log_step (sync_trigger_responders tid rids)"
proof -
  show l: "keeps log_step (insert_link l)" for l :: trigger_responder
    by (rule keepsI) (auto simp: insert_link_def log_step_def log_wf_def)
  show "keeps log_step (sync_trigger_responders tid rids)"
    by (auto simp: sync_trigger_responders_def intro!: audited l)
qed

interpretation trigger_creation_view: audited_operation "triggers_new_post form" for form
  by unfold_locales (auto simp: triggers_new_post_def create_trigger_def Let_def intro!: audited)

interpretation trigger_edit_view: audited_operation "triggers_edit_post tid form" for tid form
  by unfold_locales (auto simp: triggers_edit_post_def save_trigger_def Let_def intro!: audited)

interpretation trigger_toggle_view: audited_operation "trigger_toggle_post tid" for tid
  by unfold_locales (auto simp: trigger_toggle_post_def Let_def intro!: audited)

end
