(* ===== verification/Authoring.thy ===== *)
theory Authoring
  imports Certificates TrainingViews Views UniqueInsert
begin

text \<open>
  Authoring of training content (app/blueprints/admin_training.py): courses and their versions,
  modules, exam questions with their options, and assignments. A form has passed its validators
  when a view runs; \<open>Page\<close> is a rendered page, in particular the form shown again.
\<close>

subsection \<open>Forms\<close>

record version_form =
  vf_title_pl :: string
  vf_title_en :: string
  vf_summary_pl :: string
  vf_summary_en :: string
  vf_pass_threshold :: pyfloat
  vf_validity_months :: int
  vf_link_ttl_days :: int

record module_form =
  mf_title_pl :: string
  mf_title_en :: string
  mf_body_pl :: string
  mf_body_en :: string

text \<open>A slot for an answer option: its two texts and whether it is marked correct.\<close>

record option_slot =
  slot_pl :: "string option"
  slot_en :: "string option"
  slot_correct :: bool

record question_form =
  qf_prompt_pl :: string
  qf_prompt_en :: string
  qf_kind :: string
  qf_opt1 :: option_slot
  qf_opt2 :: option_slot
  qf_opt3 :: option_slot
  qf_opt4 :: option_slot

definition bilingual :: "string \<Rightarrow> string \<Rightarrow> texts" where
  "bilingual pl en = [(''pl'', pl), (''en'', en)]"

text \<open>\<open>QuestionForm.options_payload\<close>: the slots with a text.\<close>

definition options_payload :: "question_form \<Rightarrow> (texts \<times> bool) list" where
  "options_payload form =
     map (\<lambda>o1. (bilingual (strip (or_empty (slot_pl o1))) (strip (or_empty (slot_en o1))), slot_correct o1))
       (filter (\<lambda>o1. strip (or_empty (slot_pl o1)) \<noteq> [] \<or> strip (or_empty (slot_en o1)) \<noteq> [])
         [qf_opt1 form, qf_opt2 form, qf_opt3 form, qf_opt4 form])"

subsection \<open>Courses and versions\<close>

definition course_url :: "string \<Rightarrow> string" where
  "course_url cid = ''/admin/training/courses/'' @ cid"

definition courses_index :: "'a training_db_scheme \<Rightarrow> training_course list" where
  "courses_index s = sort_key c_code (courses s)"

definition courses_new_post :: "string \<Rightarrow> string option \<Rightarrow> ('a training_db_scheme, response) py" where
  "courses_new_post code desc =
     require_permission (perm_code TRAINING_AUTHOR) ''/admin/training/courses/new'' (\<lambda>u.
       committing is_training_error (create_course (strip code) (or_none (strip (or_empty desc))))
         (\<lambda>c. Redirect (course_url (c_id c))) Page)"

definition courses_edit_post :: "string \<Rightarrow> version_form \<Rightarrow> ('a training_db_scheme, response) py" where
  "courses_edit_post cid form =
     require_permission (perm_code TRAINING_AUTHOR) (course_url cid) (\<lambda>u. with_state (\<lambda>s.
       case by_key c_id cid (courses s) of
         None \<Rightarrow> ret (Abort 404)
       | Some c \<Rightarrow>
           committing (\<lambda>_. False)
             (add_course_version (c_id c)
                (bilingual (strip (vf_title_pl form)) (strip (vf_title_en form)))
                (Some (bilingual (vf_summary_pl form) (vf_summary_en form)))
                (Some (vf_pass_threshold form)) (Some (vf_validity_months form)) (Some (vf_link_ttl_days form)) None)
             (\<lambda>v. Redirect (course_url (c_id c))) Page))"

definition on_active_version ::
  "string \<Rightarrow> (training_course \<Rightarrow> course_version \<Rightarrow> ('a training_db_scheme, response) py) \<Rightarrow> ('a training_db_scheme, response) py" where
  "on_active_version cid f = with_state (\<lambda>s.
     case by_key c_id cid (courses s) of
       None \<Rightarrow> ret (Abort 404)
     | Some c \<Rightarrow> (case active_version (c_id c) s of None \<Rightarrow> ret (Abort 404) | Some v \<Rightarrow> f c v))"

text \<open>\<open>1 + max(..., default=-1)\<close>.\<close>

definition next_index :: "int list \<Rightarrow> int" where
  "next_index ns = 1 + (case ns of [] \<Rightarrow> - 1 | n # ns \<Rightarrow> fold max ns n)"

subsection \<open>Modules\<close>

definition insert_module :: "training_module \<Rightarrow> ('a training_db_scheme, unit) py" where
  "insert_module m = (\<lambda>s.
     if session_failed s then (Inl PendingRollbackError, s)
     else if (m_version_id m, m_order_index m) \<in> (\<lambda>m. (m_version_id m, m_order_index m)) ` set (modules s)
     then (Inl (IntegrityError ''uq_module_version_order''), s\<lparr>session_failed := True\<rparr>)
     else (Inr (), s\<lparr>modules := modules s @ [m]\<rparr>))"

interpretation module_rows: unique_insert insert_module modules "\<lambda>m. (m_version_id m, m_order_index m)" session_failed
  by unfold_locales (auto simp: insert_module_def)

definition fill_module :: "module_form \<Rightarrow> training_module \<Rightarrow> training_module" where
  "fill_module form m =
     m\<lparr>m_title := bilingual (strip (mf_title_pl form)) (strip (mf_title_en form)),
       m_body_md := bilingual (mf_body_pl form) (mf_body_en form)\<rparr>"

text \<open>
  The id of the new row is a column default that the flush inside \<open>record\<close> fills in; the entry
  is built before, with no entity.
\<close>

definition add_module :: "course_version \<Rightarrow> module_form \<Rightarrow> ('a training_db_scheme, unit) py" where
  "add_module v form = with_state (\<lambda>s.
     let next_idx = next_index (map m_order_index (modules_of (v_id v) s))
     in bind take_uuid (\<lambda>i.
          seq (insert_module (fill_module form
                 \<lparr>m_id = i, m_version_id = v_id v, m_order_index = next_idx, m_title = [], m_body_md = []\<rparr>))
         (bind (record_entry ''training_module'' CREATE None
                  [(''course_version_id'', JStr (v_id v)), (''order_index'', JInt next_idx)] None)
           (\<lambda>_. ret ()))))"

definition modules_url :: "string \<Rightarrow> string" where
  "modules_url cid = course_url cid @ ''/modules''"

definition modules_new_post :: "string \<Rightarrow> module_form \<Rightarrow> ('a training_db_scheme, response) py" where
  "modules_new_post cid form =
     require_permission (perm_code TRAINING_AUTHOR) (modules_url cid @ ''/new'') (\<lambda>u.
       on_active_version cid (\<lambda>c v.
         committing (\<lambda>_. False) (add_module v form) (\<lambda>_. Redirect (modules_url (c_id c))) Page))"

definition on_module ::
  "string \<Rightarrow> string \<Rightarrow> (training_course \<Rightarrow> training_module \<Rightarrow> ('a training_db_scheme, response) py) \<Rightarrow>
   ('a training_db_scheme, response) py" where
  "on_module cid mid f = on_active_version cid (\<lambda>c v. with_state (\<lambda>s.
     case by_key m_id mid (modules s) of
       None \<Rightarrow> ret (Abort 404)
     | Some m \<Rightarrow> if m_version_id m \<noteq> v_id v then ret (Abort 404) else f c m))"

definition modules_edit_post :: "string \<Rightarrow> string \<Rightarrow> module_form \<Rightarrow> ('a training_db_scheme, response) py" where
  "modules_edit_post cid mid form =
     require_permission (perm_code TRAINING_AUTHOR) (modules_url cid @ ''/'' @ mid) (\<lambda>u.
       on_module cid mid (\<lambda>c m.
         committing (\<lambda>_. False)
           (seq (modify (\<lambda>s. s\<lparr>modules := update_row m_id (m_id m) (fill_module form) (modules s)\<rparr>))
                (record_entry ''training_module'' UPDATE (Some (m_id m)) [] None))
           (\<lambda>_. Redirect (modules_url (c_id c))) Page))"

definition modules_delete_post :: "string \<Rightarrow> string \<Rightarrow> ('a training_db_scheme, response) py" where
  "modules_delete_post cid mid =
     require_permission (perm_code TRAINING_AUTHOR) (modules_url cid @ ''/'' @ mid @ ''/delete'') (\<lambda>u.
       on_module cid mid (\<lambda>c m.
         committing (\<lambda>_. False)
           (seq (record_entry ''training_module'' (PlainAction ''delete'') (Some (m_id m)) [] None)
                (modify (\<lambda>s. s\<lparr>modules := filter (\<lambda>r. m_id r \<noteq> m_id m) (modules s)\<rparr>)))
           (\<lambda>_. Redirect (modules_url (c_id c))) Page))"

subsection \<open>Questions\<close>

definition insert_question :: "training_question \<Rightarrow> ('a training_db_scheme, unit) py" where
  "insert_question q = (\<lambda>s.
     if session_failed s then (Inl PendingRollbackError, s)
     else if (q_version_id q, q_order_index q) \<in> (\<lambda>q. (q_version_id q, q_order_index q)) ` set (questions s)
     then (Inl (IntegrityError ''uq_question_version_order''), s\<lparr>session_failed := True\<rparr>)
     else (Inr (), s\<lparr>questions := questions s @ [q]\<rparr>))"

interpretation question_rows: unique_insert insert_question questions "\<lambda>q. (q_version_id q, q_order_index q)" session_failed
  by unfold_locales (auto simp: insert_question_def)

definition option_row :: "string \<Rightarrow> nat \<Rightarrow> texts \<times> bool \<Rightarrow> string \<Rightarrow> answer_option" where
  "option_row qid idx p i =
     \<lparr>o_id = i, o_question_id = qid, o_order_index = int idx, o_label = fst p, o_is_correct = snd p\<rparr>"

definition delete_options :: "string \<Rightarrow> 'a training_db_scheme \<Rightarrow> 'a training_db_scheme" where
  "delete_options qid s = s\<lparr>answer_options := filter (\<lambda>p. o_question_id p \<noteq> qid) (answer_options s)\<rparr>"

definition save_options :: "string \<Rightarrow> (texts \<times> bool) list \<Rightarrow> ('a training_db_scheme, unit) py" where
  "save_options qid payload =
     seq (modify (delete_options qid))
    (seq flush
         (for_each (\<lambda>(idx, p). bind take_uuid (\<lambda>i.
            modify (\<lambda>s. s\<lparr>answer_options := answer_options s @ [option_row qid idx p i]\<rparr>))) (enumerate 0 payload)))"

definition fill_question :: "question_form \<Rightarrow> training_question \<Rightarrow> training_question" where
  "fill_question form q =
     q\<lparr>q_prompt := bilingual (strip (qf_prompt_pl form)) (strip (qf_prompt_en form)), q_kind := qf_kind form\<rparr>"

definition add_question :: "course_version \<Rightarrow> question_form \<Rightarrow> ('a training_db_scheme, unit) py" where
  "add_question v form = with_state (\<lambda>s.
     let next_idx = next_index (map q_order_index (questions_of (v_id v) s))
     in bind take_uuid (\<lambda>i.
          seq (insert_question (fill_question form
                 \<lparr>q_id = i, q_version_id = v_id v, q_order_index = next_idx, q_prompt = [], q_kind = []\<rparr>))
         (seq (save_options i (options_payload form))
         (bind (record_entry ''training_question'' CREATE (Some i)
                  [(''course_version_id'', JStr (v_id v)), (''n_options'', JInt (int (length (options_payload form))))] None)
           (\<lambda>_. ret ())))))"

definition save_question :: "training_question \<Rightarrow> question_form \<Rightarrow> ('a training_db_scheme, unit) py" where
  "save_question q form =
     seq (modify (\<lambda>s. s\<lparr>questions := update_row q_id (q_id q) (fill_question form) (questions s)\<rparr>))
    (seq (save_options (q_id q) (options_payload form))
    (bind (record_entry ''training_question'' UPDATE (Some (q_id q)) [] None) (\<lambda>_. ret ())))"

definition questions_url :: "string \<Rightarrow> string" where
  "questions_url cid = course_url cid @ ''/questions''"

text \<open>A question needs two options, one of them correct.\<close>

definition options_refused :: "question_form \<Rightarrow> bool" where
  "options_refused form \<longleftrightarrow> length (options_payload form) < 2 \<or> \<not> list_ex snd (options_payload form)"

definition questions_new_post :: "string \<Rightarrow> question_form \<Rightarrow> ('a training_db_scheme, response) py" where
  "questions_new_post cid form =
     require_permission (perm_code TRAINING_AUTHOR) (questions_url cid @ ''/new'') (\<lambda>u.
       on_active_version cid (\<lambda>c v.
         if options_refused form then ret Page
         else committing (\<lambda>_. False) (add_question v form) (\<lambda>_. Redirect (questions_url (c_id c))) Page))"

definition on_question ::
  "string \<Rightarrow> string \<Rightarrow> (training_course \<Rightarrow> training_question \<Rightarrow> ('a training_db_scheme, response) py) \<Rightarrow>
   ('a training_db_scheme, response) py" where
  "on_question cid qid f = on_active_version cid (\<lambda>c v. with_state (\<lambda>s.
     case by_key q_id qid (questions s) of
       None \<Rightarrow> ret (Abort 404)
     | Some q \<Rightarrow> if q_version_id q \<noteq> v_id v then ret (Abort 404) else f c q))"

definition questions_edit_post :: "string \<Rightarrow> string \<Rightarrow> question_form \<Rightarrow> ('a training_db_scheme, response) py" where
  "questions_edit_post cid qid form =
     require_permission (perm_code TRAINING_AUTHOR) (questions_url cid @ ''/'' @ qid) (\<lambda>u.
       on_question cid qid (\<lambda>c q.
         if options_refused form then ret Page
         else committing (\<lambda>_. False) (save_question q form) (\<lambda>_. Redirect (questions_url (c_id c))) Page))"

text \<open>Deleting a question deletes its options with it.\<close>

definition delete_question :: "string \<Rightarrow> 'a training_db_scheme \<Rightarrow> 'a training_db_scheme" where
  "delete_question qid s = (delete_options qid s)\<lparr>questions := filter (\<lambda>q. q_id q \<noteq> qid) (questions s)\<rparr>"

definition questions_delete_post :: "string \<Rightarrow> string \<Rightarrow> ('a training_db_scheme, response) py" where
  "questions_delete_post cid qid =
     require_permission (perm_code TRAINING_AUTHOR) (questions_url cid @ ''/'' @ qid @ ''/delete'') (\<lambda>u.
       on_question cid qid (\<lambda>c q.
         committing (\<lambda>_. False)
           (seq (record_entry ''training_question'' (PlainAction ''delete'') (Some (q_id q)) [] None)
                (modify (delete_question (q_id q))))
           (\<lambda>_. Redirect (questions_url (c_id c))) Page))"

subsection \<open>Assignments\<close>

text \<open>\<open>_resolve_line_id\<close>.\<close>

definition resolve_line_id :: "string \<Rightarrow> 'a ticket_db_scheme \<Rightarrow> string option" where
  "resolve_line_id code s =
     (if code = [] then None else map_option line_id (find (\<lambda>l. line_code l = code) (lines s)))"

definition assignments_url :: "string \<Rightarrow> string" where
  "assignments_url cid = course_url cid @ ''/assignments''"

definition add_assignment :: "training_course \<Rightarrow> string option \<Rightarrow> string \<Rightarrow> int \<Rightarrow> ('a training_db_scheme, unit) py" where
  "add_assignment c rcode lcode months = with_state (\<lambda>s.
     let r = or_none (strip (or_empty rcode)); l = resolve_line_id lcode s
     in bind take_uuid (\<lambda>i.
          seq (modify (\<lambda>s. s\<lparr>assignments := assignments s @
                 [\<lparr>as_id = i, as_course_id = c_id c, as_role_code = r, as_line_id = l, recurrence_months = months\<rparr>]\<rparr>))
         (bind (record_entry ''training_assignment'' CREATE (Some i)
                  [(''course_id'', JStr (c_id c)), (''role_code'', jstr_opt r), (''line_id'', jstr_opt l),
                   (''recurrence_months'', JInt months)] None)
           (\<lambda>_. ret ()))))"

definition assignments_new_post ::
  "string \<Rightarrow> string option \<Rightarrow> string \<Rightarrow> int \<Rightarrow> ('a training_db_scheme, response) py" where
  "assignments_new_post cid rcode lcode months =
     require_permission (perm_code TRAINING_AUTHOR) (assignments_url cid @ ''/new'') (\<lambda>u. with_state (\<lambda>s.
       case by_key c_id cid (courses s) of
         None \<Rightarrow> ret (Abort 404)
       | Some c \<Rightarrow>
           committing (\<lambda>_. False) (add_assignment c rcode lcode months) (\<lambda>_. Redirect (assignments_url (c_id c))) Page))"

definition assignments_delete_post :: "string \<Rightarrow> string \<Rightarrow> ('a training_db_scheme, response) py" where
  "assignments_delete_post cid aid =
     require_permission (perm_code TRAINING_AUTHOR) (assignments_url cid @ ''/'' @ aid @ ''/delete'') (\<lambda>u. with_state (\<lambda>s.
       case by_key c_id cid (courses s) of
         None \<Rightarrow> ret (Abort 404)
       | Some c \<Rightarrow>
           (case by_key as_id aid (assignments s) of
              None \<Rightarrow> ret (Abort 404)
            | Some a \<Rightarrow>
                if as_course_id a \<noteq> c_id c then ret (Abort 404)
                else committing (\<lambda>_. False)
                  (seq (record_entry ''training_assignment'' (PlainAction ''delete'') (Some (as_id a))
                          [(''course_id'', JStr (c_id c)), (''role_code'', jstr_opt (as_role_code a)),
                           (''line_id'', jstr_opt (as_line_id a))] None)
                       (modify (\<lambda>s. s\<lparr>assignments := filter (\<lambda>r. as_id r \<noteq> as_id a) (assignments s)\<rparr>)))
                  (\<lambda>_. Redirect (assignments_url (c_id c))) Page)))"

definition assignments_index :: "string \<Rightarrow> 'a training_db_scheme \<Rightarrow> (training_assignment list \<times> (string \<times> string) list) option" where
  "assignments_index cid s =
     map_option (\<lambda>c. (assignments_of (c_id c) s, map (\<lambda>l. (line_id l, line_code l)) (lines s))) (by_key c_id cid (courses s))"

definition modules_index :: "string \<Rightarrow> 'a training_db_scheme \<Rightarrow> training_module list option" where
  "modules_index cid s =
     (case by_key c_id cid (courses s) of
        None \<Rightarrow> None | Some c \<Rightarrow> map_option (\<lambda>v. modules_of (v_id v) s) (active_version (c_id c) s))"

definition questions_index :: "string \<Rightarrow> 'a training_db_scheme \<Rightarrow> training_question list option" where
  "questions_index cid s =
     (case by_key c_id cid (courses s) of
        None \<Rightarrow> None | Some c \<Rightarrow> map_option (\<lambda>v. questions_of (v_id v) s) (active_version (c_id c) s))"

subsection \<open>Content the exam can be taken from\<close>

definition exam_ready :: "'a training_db_scheme \<Rightarrow> training_question \<Rightarrow> bool" where
  "exam_ready s q \<longleftrightarrow> 2 \<le> length (options_of (q_id q) s) \<and> correct_ids (q_id q) s \<noteq> {}"

text \<open>
  Ids of questions are drawn ones, positions within a version are distinct, options belong to
  questions of the table, and every question has two options, one of them correct.
\<close>

definition content_wf :: "'a training_db_scheme \<Rightarrow> bool" where
  "content_wf s \<longleftrightarrow> inj (uuid_at s) \<and> distinct (map q_id (questions s)) \<and> q_id ` set (questions s) \<subseteq> drawn s \<and>
     distinct (map (\<lambda>q. (q_version_id q, q_order_index q)) (questions s)) \<and>
     distinct (map (\<lambda>m. (m_version_id m, m_order_index m)) (modules s)) \<and>
     o_question_id ` set (answer_options s) \<subseteq> q_id ` set (questions s) \<and>
     (\<forall>q\<in>set (questions s). exam_ready s q)"

definition same_content :: "'a training_db_scheme \<Rightarrow> 'a training_db_scheme \<Rightarrow> bool" where
  "same_content s t \<longleftrightarrow> questions t = questions s \<and> modules t = modules s \<and> answer_options t = answer_options s \<and>
     uuid_at t = uuid_at s \<and> uuid_next s \<le> uuid_next t"

lemma content_wf_same:
  assumes "same_content s t" "content_wf s"
  shows "content_wf t"
proof -
  have "exam_ready t = exam_ready s"
    using assms(1) by (intro ext) (simp add: exam_ready_def correct_ids_def options_of_def same_content_def)
  moreover have "drawn s \<subseteq> drawn t" using assms(1) by (auto simp: drawn_def same_content_def)
  ultimately show ?thesis using assms by (auto simp: content_wf_def same_content_def)
qed

lemma same_content_record: "record_entry ty ac e d u s = (Inr x, t) \<Longrightarrow> same_content s t"
  by (auto simp: record_entry_def Let_def same_content_def split: if_splits)

lemma same_content_rollback: "uuid_next s \<le> uuid_next t \<Longrightarrow> same_content s (rollback s t)"
  by (simp add: same_content_def rollback_def)

lemma same_content_trans: "same_content s t \<Longrightarrow> same_content t u \<Longrightarrow> same_content s u"
  by (auto simp: same_content_def)

subsubsection \<open>Options\<close>

fun option_rows :: "string \<Rightarrow> (nat \<Rightarrow> string) \<Rightarrow> nat \<Rightarrow> nat \<Rightarrow> (texts \<times> bool) list \<Rightarrow> answer_option list" where
  "option_rows qid uid n idx [] = []"
| "option_rows qid uid n idx (p # ps) = option_row qid idx p (uid n) # option_rows qid uid (Suc n) (Suc idx) ps"

lemma option_rows_simps [simp]:
  "length (option_rows qid uid n idx ps) = length ps"
  "filter (\<lambda>p. o_question_id p = qid) (option_rows qid uid n idx ps) = option_rows qid uid n idx ps"
  "q \<noteq> qid \<Longrightarrow> filter (\<lambda>p. o_question_id p = q) (option_rows qid uid n idx ps) = []"
  by (induction ps arbitrary: n idx) (auto simp: option_row_def)

lemma option_rows_question: "p \<in> set (option_rows qid uid n idx ps) \<Longrightarrow> o_question_id p = qid"
  by (induction ps arbitrary: n idx) (auto simp: option_row_def)

lemma option_rows_correct:
  "list_ex snd ps \<Longrightarrow> \<exists>x\<in>set (option_rows qid uid n idx ps). o_is_correct x"
  by (induction ps arbitrary: n idx) (auto simp: option_row_def)

lemma option_rows_order: "p \<in> set (option_rows qid uid n idx ps) \<Longrightarrow> int idx \<le> o_order_index p"
proof (induction ps arbitrary: n idx)
  case (Cons x ps)
  then show ?case using Cons.IH [of "Suc n" "Suc idx"] by (auto simp: option_row_def)
qed simp

lemma option_rows_sorted: "sorted (map o_order_index (option_rows qid uid n idx ps))"
proof (induction ps arbitrary: n idx)
  case (Cons x ps)
  have "int idx \<le> o_order_index p" if "p \<in> set (option_rows qid uid (Suc n) (Suc idx) ps)" for p
    using option_rows_order [OF that] by simp
  with Cons show ?case by (auto simp: option_row_def)
qed simp

lemma add_options_from:
  "for_each (\<lambda>(idx, p). bind take_uuid (\<lambda>i. modify (\<lambda>s. s\<lparr>answer_options := answer_options s @ [option_row qid idx p i]\<rparr>)))
     (enumerate k ps) s =
   (Inr (), s\<lparr>uuid_next := uuid_next s + length ps,
             answer_options := answer_options s @ option_rows qid (uuid_at s) (uuid_next s) k ps\<rparr>)"
proof (induction ps arbitrary: s k)
  case Nil
  then show ?case by simp
next
  case (Cons p ps)
  let ?s1 = "s\<lparr>uuid_next := Suc (uuid_next s), answer_options := answer_options s @ [option_row qid k p (uuid_at s (uuid_next s))]\<rparr>"
  have "bind take_uuid (\<lambda>i. modify (\<lambda>s. s\<lparr>answer_options := answer_options s @ [option_row qid k p i]\<rparr>)) s = (Inr (), ?s1)"
    by (simp add: bind_def take_uuid_def gen_uuid_def)
  with Cons.IH [of "Suc k" ?s1] show ?case by (simp add: enumerate_simps seq_Inr)
qed

lemma save_options_run:
  "\<not> session_failed s \<Longrightarrow> save_options qid ps s =
     (Inr (), s\<lparr>uuid_next := uuid_next s + length ps,
       answer_options := filter (\<lambda>p. o_question_id p \<noteq> qid) (answer_options s) @ option_rows qid (uuid_at s) (uuid_next s) 0 ps\<rparr>)"
  by (simp add: save_options_def delete_options_def flush_def seq_Inr add_options_from)

lemma options_of_replaced:
  assumes "answer_options t = filter (\<lambda>p. o_question_id p \<noteq> qid) (answer_options s) @ option_rows qid uid n 0 ps"
  shows "options_of qid t = option_rows qid uid n 0 ps" "q \<noteq> qid \<Longrightarrow> options_of q t = options_of q s"
proof -
  have "filter (\<lambda>p. o_question_id p = qid \<and> o_question_id p \<noteq> qid) (answer_options s) = []"
    by (simp add: filter_empty_conv)
  then show "options_of qid t = option_rows qid uid n 0 ps"
    by (simp add: options_of_def assms filter_filter conj_commute sort_key_sorted option_rows_sorted)
  assume q: "q \<noteq> qid"
  then have "filter (\<lambda>p. o_question_id p \<noteq> qid \<and> o_question_id p = q) (answer_options s) =
      filter (\<lambda>p. o_question_id p = q) (answer_options s)"
    by (intro filter_cong) auto
  with q show "options_of q t = options_of q s"
    by (simp add: options_of_def assms filter_filter)
qed

lemma exam_ready_replaced:
  assumes "answer_options t = filter (\<lambda>p. o_question_id p \<noteq> qid) (answer_options s) @ option_rows qid uid n 0 ps"
    "2 \<le> length ps \<and> list_ex snd ps"
  shows "q_id q = qid \<Longrightarrow> exam_ready t q" "q_id q \<noteq> qid \<Longrightarrow> exam_ready t q = exam_ready s q"
  using assms(2) option_rows_correct [of ps qid uid n 0]
  by (auto simp: exam_ready_def correct_ids_def options_of_replaced [OF assms(1)] filter_empty_conv)

subsubsection \<open>The operations keep it\<close>

lemma insert_question_Inr:
  "insert_question q s = (Inr x, t) \<Longrightarrow> \<not> session_failed s \<and>
     (q_version_id q, q_order_index q) \<notin> (\<lambda>q. (q_version_id q, q_order_index q)) ` set (questions s) \<and>
     t = s\<lparr>questions := questions s @ [q]\<rparr>"
  by (auto simp: insert_question_def split: if_splits)

lemma insert_module_Inr:
  "insert_module m s = (Inr x, t) \<Longrightarrow>
     (m_version_id m, m_order_index m) \<notin> (\<lambda>m. (m_version_id m, m_order_index m)) ` set (modules s) \<and>
     t = s\<lparr>modules := modules s @ [m]\<rparr>"
  by (auto simp: insert_module_def split: if_splits)

definition keeps_content :: "('a training_db_scheme, 'b) py \<Rightarrow> bool" where
  "keeps_content m \<longleftrightarrow> (\<forall>s x t. content_wf s \<longrightarrow> m s = (Inr x, t) \<longrightarrow> content_wf t)"

lemma keeps_contentI: "(\<And>s x t. content_wf s \<Longrightarrow> m s = (Inr x, t) \<Longrightarrow> content_wf t) \<Longrightarrow> keeps_content m"
  by (auto simp: keeps_content_def)

lemma gen_uuid_not_drawn: "content_wf s \<Longrightarrow> gen_uuid s \<notin> q_id ` set (questions s)"
  using fresh_id [of s] by (auto simp: content_wf_def)

lemma options_accepted: "\<not> options_refused form \<Longrightarrow> 2 \<le> length (options_payload form) \<and> list_ex snd (options_payload form)"
  by (simp add: options_refused_def)

lemma content_wf_saved:
  assumes wf: "content_wf s" and ok: "2 \<le> length ps \<and> list_ex snd ps"
    and t: "uuid_at t = uuid_at s" "modules t = modules s" "q_id ` set (questions t) \<subseteq> drawn t"
      "answer_options t = filter (\<lambda>p. o_question_id p \<noteq> qid) (answer_options s) @ option_rows qid uid n 0 ps"
      "q_id ` set (questions t) = insert qid (q_id ` set (questions s))"
      "distinct (map q_id (questions t))" "distinct (map (\<lambda>q. (q_version_id q, q_order_index q)) (questions t))"
  shows "content_wf t"
proof -
  have "exam_ready t r" if r: "r \<in> set (questions t)" for r
  proof (cases "q_id r = qid")
    case True
    then show ?thesis by (rule exam_ready_replaced(1) [OF t(4) ok])
  next
    case False
    then obtain r0 where r0: "r0 \<in> set (questions s)" "q_id r = q_id r0" using r t(5) by (metis imageE imageI insertE)
    then have "exam_ready t r = exam_ready t r0" by (simp add: exam_ready_def)
    also have "\<dots> = exam_ready s r0" using False r0(2) by (intro exam_ready_replaced(2) [OF t(4) ok]) simp
    finally show ?thesis using wf r0(1) by (simp add: content_wf_def)
  qed
  moreover have "o_question_id ` set (answer_options t) \<subseteq> q_id ` set (questions t)"
  proof (rule image_subsetI)
    fix p assume "p \<in> set (answer_options t)"
    then have "p \<in> set (answer_options s) \<or> o_question_id p = qid"
      unfolding t(4) using option_rows_question [of p qid uid n 0 ps] by auto
    then show "o_question_id p \<in> q_id ` set (questions t)" using wf unfolding t(5) content_wf_def by auto
  qed
  ultimately show ?thesis using wf t by (simp add: content_wf_def)
qed

lemma add_question_content:
  assumes ok: "\<not> options_refused form"
  shows "keeps_content (add_question v form)"
proof (rule keeps_contentI)
  fix s :: "'a training_db_scheme" and x t
  assume wf: "content_wf s" and run: "add_question v form s = (Inr x, t)"
  let ?i = "gen_uuid s" and ?s0 = "s\<lparr>uuid_next := Suc (uuid_next s)\<rparr>"
  let ?q = "fill_question form \<lparr>q_id = ?i, q_version_id = v_id v,
      q_order_index = next_index (map q_order_index (questions_of (v_id v) s)), q_prompt = [], q_kind = []\<rparr>"
  let ?s1 = "?s0\<lparr>questions := questions s @ [?q]\<rparr>"
  let ?s2 = "?s1\<lparr>uuid_next := Suc (uuid_next s) + length (options_payload form),
      answer_options := filter (\<lambda>p. o_question_id p \<noteq> ?i) (answer_options s) @
        option_rows ?i (uuid_at s) (Suc (uuid_next s)) 0 (options_payload form)\<rparr>"
  obtain y u where ins0: "insert_question ?q ?s0 = (Inr y, u)"
    using run unfolding add_question_def with_state_apply Let_def bind_take_uuid seq_Inr_iff by blast
  have nf: "\<not> session_failed s" and u: "u = ?s1"
    and new: "(q_version_id ?q, q_order_index ?q) \<notin> (\<lambda>q. (q_version_id q, q_order_index q)) ` set (questions s)"
    using insert_question_Inr [OF ins0] by simp_all
  have ins: "insert_question ?q ?s0 = (Inr y, ?s1)" using ins0 u by simp
  have save: "save_options ?i (options_payload form) ?s1 = (Inr (), ?s2)"
    using nf by (subst save_options_run) simp_all
  have "\<exists>r. record_entry ''training_question'' CREATE (Some ?i)
      [(''course_version_id'', JStr (v_id v)), (''n_options'', JInt (int (length (options_payload form))))] None ?s2 = (Inr r, t)"
    using run ins save unfolding add_question_def with_state_apply Let_def by (auto simp: seq_Inr bind_Inr_iff)
  then have same: "same_content ?s2 t" using same_content_record by blast
  have id [simp]: "q_id ?q = ?i" "q_version_id ?q = v_id v" by (simp_all add: fill_question_def)
  have fresh: "?i \<notin> q_id ` set (questions s)" by (rule gen_uuid_not_drawn [OF wf])
  have "content_wf ?s2"
  proof (rule content_wf_saved [OF wf options_accepted [OF ok], of ?s2 ?i])
    show "q_id ` set (questions ?s2) \<subseteq> drawn ?s2" using wf id by (auto simp: content_wf_def drawn_def gen_uuid_def)
    show "distinct (map q_id (questions ?s2))" using wf fresh by (simp add: content_wf_def)
    show "distinct (map (\<lambda>q. (q_version_id q, q_order_index q)) (questions ?s2))" using wf new by (simp add: content_wf_def)
  qed simp_all
  then show "content_wf t" by (rule content_wf_same [OF same])
qed

lemma save_question_content:
  assumes wf: "content_wf s" and q0: "q \<in> set (questions s)" and ok: "\<not> options_refused form"
    and run: "save_question q form s = (Inr x, t)"
  shows "content_wf t"
proof -
  have q: "q_id q \<in> q_id ` set (questions s)" using q0 by simp
  let ?s1 = "s\<lparr>questions := update_row q_id (q_id q) (fill_question form) (questions s)\<rparr>"
  let ?s2 = "?s1\<lparr>uuid_next := uuid_next s + length (options_payload form),
      answer_options := filter (\<lambda>p. o_question_id p \<noteq> q_id q) (answer_options s) @
        option_rows (q_id q) (uuid_at s) (uuid_next s) 0 (options_payload form)\<rparr>"
  have nf: "\<not> session_failed s"
    using run by (auto simp: save_question_def save_options_def flush_def run_iff delete_options_def split: if_splits)
  have save: "save_options (q_id q) (options_payload form) ?s1 = (Inr (), ?s2)"
    using nf by (subst save_options_run) simp_all
  have "\<exists>r. record_entry ''training_question'' UPDATE (Some (q_id q)) [] None ?s2 = (Inr r, t)"
    using run save by (auto simp: save_question_def seq_Inr bind_Inr_iff)
  then have same: "same_content ?s2 t" using same_content_record by blast
  have fill: "q_id (fill_question form r) = q_id r" "q_version_id (fill_question form r) = q_version_id r"
    "q_order_index (fill_question form r) = q_order_index r" for r
    by (simp_all add: fill_question_def)
  have maps: "map q_id (questions ?s2) = map q_id (questions s)"
    "map (\<lambda>q. (q_version_id q, q_order_index q)) (questions ?s2) = map (\<lambda>q. (q_version_id q, q_order_index q)) (questions s)"
    by (simp_all add: update_row_def fill)
  have ids: "q_id ` set (questions ?s2) = q_id ` set (questions s)" using maps(1) by (metis list.set_map)
  have "content_wf ?s2"
  proof (rule content_wf_saved [OF wf options_accepted [OF ok], of ?s2 "q_id q"])
    show "q_id ` set (questions ?s2) \<subseteq> drawn ?s2" unfolding ids using wf by (auto simp: content_wf_def drawn_def)
    show "q_id ` set (questions ?s2) = insert (q_id q) (q_id ` set (questions s))" unfolding ids using q by auto
    show "distinct (map q_id (questions ?s2))" "distinct (map (\<lambda>q. (q_version_id q, q_order_index q)) (questions ?s2))"
      unfolding maps using wf by (simp_all add: content_wf_def)
  qed simp_all
  then show "content_wf t" by (rule content_wf_same [OF same])
qed

lemma content_wf_modules:
  assumes "content_wf s" "distinct (map (\<lambda>m. (m_version_id m, m_order_index m)) ms)"
  shows "content_wf (s\<lparr>modules := ms\<rparr>)"
proof -
  have "exam_ready (s\<lparr>modules := ms\<rparr>) = exam_ready s"
    by (intro ext) (simp add: exam_ready_def correct_ids_def options_of_def)
  then show ?thesis using assms by (simp add: content_wf_def drawn_def)
qed

lemma add_module_content: "keeps_content (add_module v form)"
proof (rule keeps_contentI)
  fix s :: "'a training_db_scheme" and x t
  assume wf: "content_wf s" and run: "add_module v form s = (Inr x, t)"
  let ?s0 = "s\<lparr>uuid_next := Suc (uuid_next s)\<rparr>"
  obtain m y u where ins: "insert_module m ?s0 = (Inr y, u)" and r: "\<exists>r. record_entry ''training_module'' CREATE None
      [(''course_version_id'', JStr (v_id v)), (''order_index'', JInt (next_index (map m_order_index (modules_of (v_id v) s))))]
      None u = (Inr r, t)"
    using run unfolding add_module_def with_state_apply Let_def bind_take_uuid seq_Inr_iff bind_Inr_iff by auto
  have u: "(m_version_id m, m_order_index m) \<notin> (\<lambda>m. (m_version_id m, m_order_index m)) ` set (modules s)"
    "u = ?s0\<lparr>modules := modules s @ [m]\<rparr>"
    using insert_module_Inr [OF ins] by simp_all
  have wf0: "content_wf ?s0" by (rule content_wf_same [OF _ wf]) (simp add: same_content_def)
  have "content_wf u"
    unfolding u(2) by (rule content_wf_modules [OF wf0]) (use wf u(1) in \<open>simp add: content_wf_def\<close>)
  then show "content_wf t" using r same_content_record content_wf_same by blast
qed

text \<open>Dropping rows, and rewriting a module's texts.\<close>

lemma content_wf_fill_module: "content_wf s \<Longrightarrow> content_wf (s\<lparr>modules := update_row m_id i (fill_module form) (modules s)\<rparr>)"
  by (rule content_wf_modules)
     (simp_all add: content_wf_def update_row_def fill_module_def comp_def if_distrib cong: if_cong)

lemma content_wf_drop_module: "content_wf s \<Longrightarrow> content_wf (s\<lparr>modules := filter P (modules s)\<rparr>)"
  by (rule content_wf_modules) (simp_all add: content_wf_def distinct_map_filter)

lemma content_wf_delete_question:
  assumes wf: "content_wf s"
  shows "content_wf (delete_question qid s)"
proof -
  let ?t = "delete_question qid s"
  have opts: "options_of q ?t = options_of q s" if "q \<noteq> qid" for q
  proof -
    have "filter (\<lambda>p. o_question_id p \<noteq> qid \<and> o_question_id p = q) (answer_options s) =
        filter (\<lambda>p. o_question_id p = q) (answer_options s)"
      using that by (intro filter_cong) auto
    then show ?thesis by (simp add: options_of_def delete_question_def delete_options_def filter_filter)
  qed
  have "exam_ready ?t q = exam_ready s q" if "q_id q \<noteq> qid" for q
    by (simp add: exam_ready_def correct_ids_def opts [OF that])
  then show ?thesis
    using wf by (auto simp: content_wf_def delete_question_def delete_options_def distinct_map_filter drawn_def)
qed

subsubsection \<open>The views keep it\<close>

lemma content_committing:
  assumes "content_wf s" "\<And>x t. m s = (Inr x, t) \<Longrightarrow> content_wf t" "keeps draws m"
  shows "content_wf (snd (committing p m good bad s))"
proof -
  have "uuid_next s \<le> uuid_next (snd (m s))" using keepsD [OF assms(3), of s] by (simp add: draws_def)
  then have "content_wf (rollback s (snd (m s)))" using same_content_rollback content_wf_same assms(1) by blast
  moreover have "content_wf (commit t) = content_wf t" for t :: "'a training_db_scheme"
    by (rule iffI; erule content_wf_same [rotated]) (simp_all add: same_content_def commit_def)
  ultimately show ?thesis using assms(2)
    by (auto simp: committing_def split: prod.splits sum.splits)
qed

lemma content_permission:
  assumes "content_wf s" "\<And>u. content_wf (snd (view u s))"
  shows "content_wf (snd (require_permission code path view s))"
proof -
  have "content_wf (snd (seq (record_entry ty ac e d u) (seq (modify commit) (ret r)) s))" for ty ac e d u and r :: response
    by (rule content_wf_same [OF _ assms(1)])
      (simp add: seq_def bind_def record_entry_def Let_def same_content_def commit_def)
  then show ?thesis using assms by (simp add: require_permission_def split: option.splits)
qed

lemma content_on_active_version:
  "content_wf s \<Longrightarrow> (\<And>c v. content_wf (snd (f c v s))) \<Longrightarrow> content_wf (snd (on_active_version cid f s))"
  by (simp add: on_active_version_def split: option.splits)

lemma content_on_module:
  "content_wf s \<Longrightarrow> (\<And>c m. content_wf (snd (f c m s))) \<Longrightarrow> content_wf (snd (on_module cid mid f s))"
  unfolding on_module_def by (rule content_on_active_version) (auto split: option.splits)

lemma content_on_question:
  assumes "content_wf s" "\<And>c q. q \<in> set (questions s) \<Longrightarrow> content_wf (snd (f c q s))"
  shows "content_wf (snd (on_question cid qid f s))"
  unfolding on_question_def by (rule content_on_active_version) (use assms in \<open>auto dest: by_key_Some split: option.splits\<close>)

lemma draws_authoring [drawing]:
  "keeps draws (insert_module m)" "keeps draws (insert_question q)" "keeps draws flush"
  "keeps draws (modify (delete_options qid))" "keeps draws (modify (delete_question qid))"
  by (rule keepsI; simp add: draws_def insert_module_def insert_question_def flush_def delete_options_def delete_question_def)+

lemma draws_save [drawing]:
  "keeps draws (save_options qid ps)" "keeps draws (add_question v qf)" "keeps draws (save_question q qf)"
  "keeps draws (add_module v mf)" "keeps draws (add_assignment c rc lc mo)"
proof -
  show s: "keeps draws (save_options qid ps)" for qid ps
    unfolding save_options_def by (intro drawing) auto
  show "keeps draws (add_question v qf)" "keeps draws (save_question q qf)"
    unfolding add_question_def save_question_def by (intro drawing s; simp)+
  show "keeps draws (add_module v mf)" "keeps draws (add_assignment c rc lc mo)"
    unfolding add_module_def add_assignment_def by (intro drawing; simp)+
qed

lemma content_views:
  assumes wf: "content_wf s"
  shows "content_wf (snd (courses_new_post code desc s))" "content_wf (snd (courses_edit_post cid vf s))"
    "content_wf (snd (modules_new_post cid mf s))" "content_wf (snd (modules_edit_post cid mid mf s))"
    "content_wf (snd (modules_delete_post cid mid s))"
    "content_wf (snd (questions_new_post cid qf s))" "content_wf (snd (questions_edit_post cid qid qf s))"
    "content_wf (snd (questions_delete_post cid qid s))"
    "content_wf (snd (assignments_new_post cid rc lc mo s))" "content_wf (snd (assignments_delete_post cid aid s))"
proof -
  note same = content_wf_same [OF _ wf]
  have course: "content_wf t" if "create_course c d s = (Inr x, t)" for c d x t
    using that by (intro same) (auto simp: create_course_def Let_def run_iff record_entry_def same_content_def split: if_splits)
  have version: "content_wf t" if "add_course_version i a b c d e f s = (Inr x, t)" for i a b c d e f x t
    using that by (intro same) (auto simp: add_course_version_def Let_def run_iff record_entry_def same_content_def split: if_splits)
  have asg: "content_wf t" if "add_assignment c a b d s = (Inr x, t)" for a b c d x t
    using that by (intro same) (auto simp: add_assignment_def Let_def run_iff record_entry_def same_content_def split: if_splits)
  have unassign: "content_wf t"
    if "seq (record_entry ty ac e d u) (modify (\<lambda>s. s\<lparr>assignments := filter P (assignments s)\<rparr>)) s = (Inr x, t)" for ty ac e d u P x t
    using that by (intro same) (auto simp: run_iff record_entry_def Let_def same_content_def split: if_splits)
  have drops: "keeps draws (create_course c d)" "keeps draws (add_course_version i a b x y z f)" for a b c d f i x y z
    unfolding create_course_def add_course_version_def by (intro drawing; simp)+
  show "content_wf (snd (courses_new_post code desc s))" unfolding courses_new_post_def
    by (intro content_permission content_committing wf drops) (rule course)
  show "content_wf (snd (courses_edit_post cid vf s))" unfolding courses_edit_post_def
    using wf by (intro content_permission) (auto intro!: content_committing drops intro: version split: option.splits)
  show "content_wf (snd (modules_new_post cid mf s))" unfolding modules_new_post_def
    by (intro content_permission content_on_active_version content_committing wf drawing)
      (use add_module_content wf in \<open>auto simp: keeps_content_def\<close>)
  show "content_wf (snd (modules_edit_post cid mid mf s))" unfolding modules_edit_post_def
    by (intro content_permission content_on_module content_committing wf drawing)
      (auto dest!: same_content_record intro: content_wf_same content_wf_fill_module [OF wf])
  show "content_wf (snd (modules_delete_post cid mid s))" unfolding modules_delete_post_def
    by (intro content_permission content_on_module content_committing wf drawing)
      (auto simp: run_iff dest!: same_content_record intro!: content_wf_drop_module intro: content_wf_same [OF _ wf])
  show "content_wf (snd (questions_new_post cid qf s))" unfolding questions_new_post_def
    using wf add_question_content unfolding keeps_content_def
    by (intro content_permission content_on_active_version) (auto intro!: content_committing drawing, blast)
  show "content_wf (snd (questions_edit_post cid qid qf s))" unfolding questions_edit_post_def
    using wf by (intro content_permission content_on_question) (auto intro!: content_committing drawing intro: save_question_content)
  show "content_wf (snd (questions_delete_post cid qid s))" unfolding questions_delete_post_def
    by (intro content_permission content_on_question content_committing wf drawing)
      (auto simp: run_iff dest!: same_content_record intro!: content_wf_delete_question intro: content_wf_same [OF _ wf])
  show "content_wf (snd (assignments_new_post cid rc lc mo s))" unfolding assignments_new_post_def
    using wf by (intro content_permission) (auto intro!: content_committing drawing intro: asg split: option.splits)
  show "content_wf (snd (assignments_delete_post cid aid s))" unfolding assignments_delete_post_def
    using wf by (intro content_permission)
      (auto intro!: content_committing drawing intro: unassign split: option.splits)
qed

text \<open>An author's question finds its position free: on a usable session it is saved.\<close>

lemma next_index_new: "n \<in> set ns \<Longrightarrow> n < next_index ns"
proof -
  have max: "x \<in> set (v # vs) \<Longrightarrow> x \<le> fold max vs v" for x v :: int and vs
    by (simp flip: Max.set_eq_fold)
  show "n \<in> set ns \<Longrightarrow> n < next_index ns"
  proof (cases ns)
    case (Cons v vs)
    then show "n \<in> set ns \<Longrightarrow> n < next_index ns" using max [of n v vs] by (simp add: next_index_def)
  qed simp
qed

lemma add_question_succeeds:
  assumes w: "writable s"
  obtains t q where "add_question v form s = (Inr (), t)" "questions t = questions s @ [q]" "q_version_id q = v_id v"
proof -
  let ?i = "gen_uuid s" and ?s0 = "s\<lparr>uuid_next := Suc (uuid_next s)\<rparr>"
  let ?n = "next_index (map q_order_index (questions_of (v_id v) s))"
  let ?q = "fill_question form \<lparr>q_id = ?i, q_version_id = v_id v, q_order_index = ?n, q_prompt = [], q_kind = []\<rparr>"
  have q: "q_version_id ?q = v_id v" "q_order_index ?q = ?n" by (simp_all add: fill_question_def)
  have "q_order_index r < ?n" if "r \<in> set (questions s)" "q_version_id r = v_id v" for r
    using that by (intro next_index_new) (simp add: questions_of_def)
  then have "(v_id v, ?n) \<notin> (\<lambda>q. (q_version_id q, q_order_index q)) ` set (questions s)" by force
  then have ins: "insert_question ?q ?s0 = (Inr (), ?s0\<lparr>questions := questions s @ [?q]\<rparr>)"
    using w by (simp add: insert_question_def q writable_def)
  obtain u where save: "save_options ?i (options_payload form) (?s0\<lparr>questions := questions s @ [?q]\<rparr>) = (Inr (), u)"
    and u: "writable u" "questions u = questions s @ [?q]"
    using w by (simp add: save_options_run writable_def audit_update_allowed_def)
  let ?d = "[(''course_version_id'', JStr (v_id v)), (''n_options'', JInt (int (length (options_payload form))))]"
  obtain e t where rec: "record_entry ''training_question'' CREATE (Some ?i) ?d None u = (Inr e, t)" "questions t = questions u"
    by (simp add: record_entry_ok [OF u(1)])
  then have "add_question v form s = (Inr (), t)"
    using ins save by (simp add: add_question_def seq_Inr bind_Inr)
  with rec(2) have run: "\<exists>t. add_question v form s = (Inr (), t) \<and> questions t = questions u" by blast
  then show thesis using that [of _ ?q] u(2) q(1) by auto
qed

subsection \<open>Every exam can be passed\<close>

text \<open>
  One request of an author, or anything else that leaves modules, questions and options alone
  (taking an exam, the scheduler, a tick of the clock).
\<close>

inductive author_step :: "'a training_db_scheme \<Rightarrow> 'a training_db_scheme \<Rightarrow> bool" where
  course_new: "author_step s (snd (courses_new_post code desc s))"
| course_edit: "author_step s (snd (courses_edit_post cid vf s))"
| module_new: "author_step s (snd (modules_new_post cid mf s))"
| module_edit: "author_step s (snd (modules_edit_post cid mid mf s))"
| module_delete: "author_step s (snd (modules_delete_post cid mid s))"
| question_new: "author_step s (snd (questions_new_post cid qf s))"
| question_edit: "author_step s (snd (questions_edit_post cid qid qf s))"
| question_delete: "author_step s (snd (questions_delete_post cid qid s))"
| assignment_new: "author_step s (snd (assignments_new_post cid rc lc mo s))"
| assignment_delete: "author_step s (snd (assignments_delete_post cid aid s))"
| elsewhere: "same_content s t \<Longrightarrow> author_step s t"

lemma author_step_content: "author_step s t \<Longrightarrow> content_wf s \<Longrightarrow> content_wf t"
  by (induction rule: author_step.induct) (auto intro: content_views content_wf_same)

lemma author_steps_content: "author_step\<^sup>*\<^sup>* s t \<Longrightarrow> content_wf s \<Longrightarrow> content_wf t"
  by (induction rule: rtranclp_induct) (auto intro: author_step_content)

text \<open>The answers that select the options marked correct.\<close>

definition marked_answers :: "'a training_db_scheme \<Rightarrow> training_question list \<Rightarrow> (string \<times> string list) list" where
  "marked_answers s qs = map (\<lambda>q. (q_id q, map o_id (filter o_is_correct (options_of (q_id q) s)))) qs"

lemma marked_answers_right:
  assumes "\<forall>q\<in>set qs. exam_ready s q" "q \<in> set qs"
  shows "is_right s (marked_answers s qs) q"
proof -
  have "map_of (marked_answers s qs) (q_id q) = Some (map o_id (filter o_is_correct (options_of (q_id q) s)))"
    using assms(2) by (induction qs) (auto simp: marked_answers_def)
  then show ?thesis using assms by (auto simp: is_right_def exam_ready_def correct_ids_def Let_def)
qed


lemma option_rows_ids: "p \<in> set (option_rows qid uid n idx ps) \<Longrightarrow> \<exists>k\<ge>n. o_id p = uid k"
proof (induction ps arbitrary: n idx)
  case (Cons x ps)
  then show ?case by (auto simp: option_row_def) (metis Suc_leD)
qed simp

lemma save_question_result:
  assumes "save_question q form s = (Inr x, t)"
  obtains r where "questions t = update_row q_id (q_id q) (fill_question form) (questions s)" "enrolments t = enrolments s"
      "answer_options t = filter (\<lambda>p. o_question_id p \<noteq> q_id q) (answer_options s) @ r"
      "r = option_rows (q_id q) (uuid_at s) (uuid_next s) 0 (options_payload form)"
proof -
  let ?s1 = "s\<lparr>questions := update_row q_id (q_id q) (fill_question form) (questions s)\<rparr>"
  have "\<not> session_failed s"
    using assms by (auto simp: save_question_def save_options_def flush_def run_iff delete_options_def split: if_splits)
  then have save: "save_options (q_id q) (options_payload form) ?s1 = (Inr (), snd (save_options (q_id q) (options_payload form) ?s1))"
    and s2: "snd (save_options (q_id q) (options_payload form) ?s1) = ?s1\<lparr>uuid_next := uuid_next s + length (options_payload form),
      answer_options := filter (\<lambda>p. o_question_id p \<noteq> q_id q) (answer_options s) @
        option_rows (q_id q) (uuid_at s) (uuid_next s) 0 (options_payload form)\<rparr>"
    by (simp_all add: save_options_run)
  obtain e where "record_entry ''training_question'' UPDATE (Some (q_id q)) []  None
      (snd (save_options (q_id q) (options_payload form) ?s1)) = (Inr e, t)"
    using assms save by (auto simp: save_question_def seq_Inr bind_Inr_iff)
  then have "questions t = questions ?s1" "enrolments t = enrolments s"
    "answer_options t = filter (\<lambda>p. o_question_id p \<noteq> q_id q) (answer_options s) @
        option_rows (q_id q) (uuid_at s) (uuid_next s) 0 (options_payload form)"
    unfolding s2 by (auto simp: record_entry_def Let_def split: if_splits)
  then show thesis using that by simp
qed

text \<open>
  Questions are edited in place, not in a new version: saving a question replaces all its
  options by new ones, so answers ticked on a page that was loaded before are wrong afterwards,
  whatever was ticked, and the trainee's open exam is scored against the edited question.
\<close>

theorem question_edit_invalidates_open_exams:
  assumes wf: "content_wf s" and q: "q \<in> set (questions s)" and run: "save_question q form s = (Inr x, t)"
    and old: "\<forall>(k, ticked)\<in>set answers. set ticked \<subseteq> drawn s"
  shows "\<not> is_right t answers q \<and> fill_question form q \<in> set (questions_of (q_version_id q) t) \<and>
    exam_score t answers (questions_of (q_version_id q) t) < 1 \<and> enrolments t = enrolments s"
proof -
  obtain r where t: "questions t = update_row q_id (q_id q) (fill_question form) (questions s)" "enrolments t = enrolments s"
      "answer_options t = filter (\<lambda>p. o_question_id p \<noteq> q_id q) (answer_options s) @ r"
      "r = option_rows (q_id q) (uuid_at s) (uuid_next s) 0 (options_payload form)"
    by (rule save_question_result [OF run])
  have opts: "options_of (q_id q) t = r" using options_of_replaced(1) t(3,4) by metis
  have new: "correct_ids (q_id q) t \<inter> drawn s = {}"
  proof (intro equals0I)
    fix i assume "i \<in> correct_ids (q_id q) t \<inter> drawn s"
    then obtain p k where "p \<in> set r" "i = o_id p" "i = uuid_at s k" "k < uuid_next s"
      by (auto simp: correct_ids_def opts drawn_def)
    moreover from this obtain n where "uuid_next s \<le> n" "o_id p = uuid_at s n"
      using option_rows_ids unfolding t(4) by blast
    ultimately show False using wf by (auto simp: content_wf_def dest: injD)
  qed
  have sel: "set (case map_of answers k of None \<Rightarrow> [] | Some xs \<Rightarrow> xs) \<subseteq> drawn s" for k
    using old by (cases "map_of answers k") (auto dest: map_of_SomeD)
  then have wrong: "\<not> is_right t answers q'" if "q_id q' = q_id q" for q'
    using new sel [of "q_id q"] unfolding is_right_def Let_def that by blast
  have "fill_question form q \<in> set (questions t)" "q_version_id (fill_question form q) = q_version_id q"
    using q by (auto simp: t(1) update_row_def fill_question_def)
  then have here: "fill_question form q \<in> set (questions_of (q_version_id q) t)" by (simp add: questions_of_def)
  let ?qs = "questions_of (q_version_id q) t"
  have "\<not> is_right t answers (fill_question form q)" by (rule wrong) (simp add: fill_question_def)
  then have "length (filter (is_right t answers) ?qs) < length ?qs"
    using here by (intro length_filter_less)
  then have "exam_score t answers ?qs < 1" by (simp add: exam_score_def divide_less_eq)
  with wrong here t(2) show ?thesis by blast
qed

subsection \<open>A sample and the witnesses\<close>

definition sample_slot :: "string \<Rightarrow> bool \<Rightarrow> option_slot" where
  "sample_slot x ok = \<lparr>slot_pl = Some x, slot_en = Some x, slot_correct = ok\<rparr>"

definition sample_question_form :: question_form where
  "sample_question_form = \<lparr>qf_prompt_pl = ''Czy?'', qf_prompt_en = ''Is it?'', qf_kind = ''true_false'',
     qf_opt1 = sample_slot ''tak'' True, qf_opt2 = sample_slot ''nie'' False,
     qf_opt3 = sample_slot [] False, qf_opt4 = sample_slot [] False\<rparr>"

definition sample_authoring :: training_db where
  "sample_authoring = (sample_training [])\<lparr>questions := [], answer_options := [],
     request_context := Some \<lparr>remote_addr = None, user_agent_string = [], current_user_id = Some ''u1''\<rparr>,
     users := [sample_user None],
     roles := [\<lparr>role_id = ''r1'', role_code = ''qa'', role_permissions = [''training.author'']\<rparr>]\<rparr>"

lemma sample_authoring_simps:
  "current_user sample_authoring = Some (sample_user None)" "has_permission (sample_user None) ''training.author'' sample_authoring"
  "writable sample_authoring" "content_wf sample_authoring" "by_key c_id ''C1'' (courses sample_authoring) = Some sample_course"
  "active_version ''C1'' sample_authoring = Some sample_version" "questions sample_authoring = []"
  using sample_active
  by (auto simp: sample_authoring_def current_user_def session_user_id_def by_key_def sample_user_def has_permission_def
      role_of_def role_has_permission_def writable_def audit_update_allowed_def content_wf_def sample_course_def
      active_version_def sample_training_def inj_def dest: digits_inj)

lemma sample_accepted: "\<not> options_refused sample_question_form"
  by (simp add: options_refused_def options_payload_def sample_question_form_def sample_slot_def or_empty_def
      strip_def lstrip_def rstrip_def str_py_space_def)


definition sample_open_exam :: training_db where
  "sample_open_exam = sample_authoring\<lparr>uuid_next := 3, questions := [sample_question ''0'' 0],
     answer_options := [sample_option ''1'' ''0'' True, sample_option ''2'' ''0'' False]\<rparr>"

theorem question_edit_invalidates_open_exams_witness:
  "\<exists>t. save_question (sample_question ''0'' 0) sample_question_form sample_open_exam = (Inr (), t) \<and>
     is_right sample_open_exam [(''0'', [''1''])] (sample_question ''0'' 0) \<and>
     \<not> is_right t [(''0'', [''1''])] (sample_question ''0'' 0)"
proof -
  let ?s = sample_open_exam and ?q = "sample_question ''0'' 0"
  have ids: "drawn ?s = {''0'', ''1'', ''2''}"
    by (auto simp: drawn_def sample_open_exam_def sample_authoring_def lessThan_Suc numeral_3_eq_3) (code_simp)+
  have wf: "content_wf ?s"
    using sample_authoring_simps(4) ids
    by (auto simp: content_wf_def sample_open_exam_def sample_question_def exam_ready_def correct_ids_def options_of_def sample_option_def)
  have w: "writable ?s" using sample_authoring_simps(3) by (simp add: sample_open_exam_def writable_def audit_update_allowed_def)
  have "\<exists>t. save_question ?q sample_question_form ?s = (Inr (), t)"
    using w by (simp add: save_question_def seq_Inr save_options_run bind_def record_entry_ok writable_def audit_update_allowed_def)
  then obtain t where t: "save_question ?q sample_question_form ?s = (Inr (), t)" by blast
  have "?q \<in> set (questions ?s)" by (simp add: sample_open_exam_def)
  from question_edit_invalidates_open_exams [OF wf this t, of "[(''0'', [''1''])]"] ids t
  have "\<not> is_right t [(''0'', [''1''])] ?q" by simp
  moreover have "is_right ?s [(''0'', [''1''])] ?q"
    by (simp add: is_right_def Let_def correct_ids_def options_of_def sample_open_exam_def sample_option_def sample_question_def)
  ultimately show ?thesis using t by blast
qed

subsection \<open>The audit contract\<close>

lemma keeps_log_authoring [audited]:
  "keeps log_step (insert_module m)" "keeps log_step (insert_question q)" "keeps log_step flush"
  "keeps log_step (modify (delete_options qid))" "keeps log_step (modify (delete_question qid))"
  by (rule keepsI; auto simp: insert_module_def insert_question_def flush_def delete_options_def delete_question_def
      log_step_def log_wf_def)+

lemma keeps_log_on_version [audited]:
  "(\<And>c v. keeps log_step (f c v)) \<Longrightarrow> keeps log_step (on_active_version cid f)"
  "(\<And>c m. keeps log_step (g c m)) \<Longrightarrow> keeps log_step (on_module cid mid g)"
  "(\<And>c q. keeps log_step (h c q)) \<Longrightarrow> keeps log_step (on_question cid qid h)"
  unfolding on_module_def on_question_def on_active_version_def by (intro audited; simp)+

lemma keeps_log_save [audited]:
  "keeps log_step (save_options qid ps)" "keeps log_step (add_question v qf)" "keeps log_step (save_question q qf)"
  "keeps log_step (add_module v mf)" "keeps log_step (add_assignment c rc lc mo)"
proof -
  show s: "keeps log_step (save_options qid ps)" for qid ps
    unfolding save_options_def by (intro audited) auto
  show "keeps log_step (add_question v qf)" "keeps log_step (save_question q qf)"
    unfolding add_question_def save_question_def by (intro audited s; simp)+
  show "keeps log_step (add_module v mf)" "keeps log_step (add_assignment c rc lc mo)"
    unfolding add_module_def add_assignment_def by (intro audited; simp)+
qed

interpretation module_view: audited_operation "modules_new_post cid mf" for cid mf
  by unfold_locales (auto simp: modules_new_post_def intro!: audited)

interpretation question_view: audited_operation "questions_edit_post cid qid qf" for cid qid qf
  by unfold_locales (auto simp: questions_edit_post_def intro!: audited)

interpretation assignment_view: audited_operation "assignments_new_post cid rc lc mo" for cid rc lc mo
  by unfold_locales (auto simp: assignments_new_post_def intro!: audited)

end
