(* ===== verification/TraineeAdmin.thy ===== *)
theory TraineeAdmin
  imports TrainingCsv Certified Authoring
begin

text \<open>
  The trainee pages of app/blueprints/admin_training.py: adding and editing trainees, issuing
  links one by one and in bulk, importing and exporting, and the compliance matrix as a page, a
  CSV file and a PDF. A form has passed its validators when a view runs. \<open>host\<close> is
  \<open>request.host_url\<close>; the files of an upload are their bytes.
\<close>

subsection \<open>Trainees\<close>

record trainee_form =
  tf_employee_number :: "string option"
  tf_phone :: string
  tf_email :: "string option"
  tf_full_name :: string
  tf_role_code :: string
  tf_line_code :: string
  tf_language :: string
  tf_channel :: string
  tf_is_active :: bool

definition line_choices :: "'a ticket_db_scheme \<Rightarrow> string list" where
  "line_choices s = [] # map line_code (sort_key line_code (filter line_is_active (lines s)))"

definition course_choices :: "'a training_db_scheme \<Rightarrow> string list" where
  "course_choices s = map c_code (sort_key c_code (filter c_is_active (courses s)))"

definition trainees_index :: "string list \<Rightarrow> string list \<Rightarrow> 'a training_db_scheme \<Rightarrow> trainee list" where
  "trainees_index role_args line_args s =
     (let role_codes = filter (\<lambda>x. x \<noteq> []) (map strip role_args); line_ids = filter (\<lambda>x. x \<noteq> []) line_args
      in sort_key tr_full_name
           (filter (\<lambda>t. (role_codes = [] \<or> tr_role_code t \<in> set role_codes) \<and>
                        (line_ids = [] \<or> (\<exists>l\<in>set line_ids. tr_line_id t = Some l))) (trainees s)))"

definition form_args :: "trainee_form \<Rightarrow> 'a ticket_db_scheme \<Rightarrow> trainee_args" where
  "form_args form s =
     \<lparr>ta_phone = strip (tf_phone form), ta_full_name = strip (tf_full_name form), ta_role_code = strip (tf_role_code form),
      ta_line_id = resolve_line_id (tf_line_code form) s, ta_language = tf_language form,
      ta_email = Some (strip (or_empty (tf_email form))),
      ta_channel = (if tf_channel form = [] then ''sms'' else tf_channel form),
      ta_employee_number = Some (strip (or_empty (tf_employee_number form)))\<rparr>"

definition trainees_url :: string where
  "trainees_url = ''/admin/training/trainees''"

definition trainees_new_post :: "trainee_form \<Rightarrow> ('a training_db_scheme, response) py" where
  "trainees_new_post form =
     require_permission (perm_code TRAINING_SEND) (trainees_url @ ''/new'') (\<lambda>u. with_state (\<lambda>s.
       if strip (or_empty (tf_employee_number form)) = [] then ret Page
       else if strip (or_empty (tf_email form)) = [] then ret Page
       else committing is_training_error (create_trainee (form_args form s)) (\<lambda>_. Redirect trainees_url) Page))"

text \<open>The columns an edit writes: the phone of the form is not among them.\<close>

definition edited_trainee :: "trainee_form \<Rightarrow> 'a ticket_db_scheme \<Rightarrow> trainee \<Rightarrow> trainee" where
  "edited_trainee form s t =
     t\<lparr>tr_employee_number := or_none (strip (or_empty (tf_employee_number form))),
       tr_email := or_none (strip (or_empty (tf_email form))),
       tr_full_name := strip (tf_full_name form), tr_role_code := strip (tf_role_code form),
       tr_language := tf_language form, tr_is_active := tf_is_active form,
       tr_line_id := resolve_line_id (tf_line_code form) s,
       tr_channel := (if tf_channel form = [] then ''sms'' else tf_channel form)\<rparr>"

definition edit_diff :: "trainee \<Rightarrow> trainee \<Rightarrow> (string \<times> json) list" where
  "edit_diff t t' =
     [(''before'', JObj [(''full_name'', JStr (tr_full_name t)), (''role_code'', JStr (tr_role_code t)),
        (''is_active'', JBool (tr_is_active t)), (''notification_channel'', JStr (tr_channel t)),
        (''employee_number'', jstr_opt (tr_employee_number t))]),
      (''channel'', JStr (tr_channel t'))]"

definition number_taken :: "trainee \<Rightarrow> trainee \<Rightarrow> 'a training_db_scheme \<Rightarrow> bool" where
  "number_taken t t' s \<longleftrightarrow>
     truthy (tr_employee_number t') \<and> tr_employee_number t' \<noteq> tr_employee_number t \<and>
     list_ex (\<lambda>r. tr_employee_number r = tr_employee_number t' \<and> tr_id r \<noteq> tr_id t) (trainees s)"

definition trainees_edit_post :: "string \<Rightarrow> trainee_form \<Rightarrow> ('a training_db_scheme, response) py" where
  "trainees_edit_post tid form =
     require_permission (perm_code TRAINING_SEND) (trainees_url @ ''/'' @ tid) (\<lambda>u. with_state (\<lambda>s.
       case by_key tr_id tid (trainees s) of
         None \<Rightarrow> ret (Abort 404)
       | Some t \<Rightarrow>
           let t' = edited_trainee form s t
           in if tr_channel t' \<noteq> ''sms'' \<and> tr_email t' = None then ret Page
              else if number_taken t t' s then ret Page
              else committing (\<lambda>_. False)
                     (seq (update_trainee t') (record_entry ''trainee'' UPDATE (Some (tr_id t)) (edit_diff t t') None))
                     (\<lambda>_. Redirect trainees_url) Page))"

subsection \<open>Issuing links\<close>

text \<open>\<open>config.get("TRAINING_BASE_URL") or host_url.rstrip("/")\<close>.\<close>

definition link_base :: "string \<Rightarrow> 'a auth_db_scheme \<Rightarrow> string" where
  "link_base host s =
     (if TRAINING_BASE_URL (app_config s) \<noteq> [] then TRAINING_BASE_URL (app_config s) else rstrip_char (CHR ''/'') host)"

definition trainees_bulk_post :: "string \<Rightarrow> string list \<Rightarrow> string option \<Rightarrow> bool \<Rightarrow> ('a training_db_scheme, response) py" where
  "trainees_bulk_post host trainee_ids course_code confirmed =
     require_permission (perm_code TRAINING_SEND) (trainees_url @ ''/bulk-issue'') (\<lambda>u. with_state (\<lambda>s.
       if trainee_ids = [] then ret (Redirect trainees_url)
       else case get_course_by_code (strip (or_empty course_code)) s of
              None \<Rightarrow> ret (Redirect trainees_url)
            | Some c \<Rightarrow>
                if confirmed
                then committing (\<lambda>_. False)
                       (apply_bulk_issue c (plan_bulk_issue trainee_ids c s) (Some (link_base host s)) (Some (u_id u)))
                       (\<lambda>_. Redirect trainees_url) Page
                else ret Page))"

definition trainees_issue_post :: "string \<Rightarrow> string \<Rightarrow> string \<Rightarrow> ('a training_db_scheme, response) py" where
  "trainees_issue_post host tid course_code =
     require_permission (perm_code TRAINING_SEND) (trainees_url @ ''/'' @ tid @ ''/issue'') (\<lambda>u. with_state (\<lambda>s.
       case by_key tr_id tid (trainees s) of
         None \<Rightarrow> ret (Abort 404)
       | Some t \<Rightarrow>
           (case get_course_by_code course_code s of
              None \<Rightarrow> ret Page
            | Some c \<Rightarrow>
                committing is_training_error
                  (enrol t c (enrolment_source_value SRC_MANUAL) None (Some (link_base host s)))
                  (\<lambda>_. Redirect trainees_url) Page)))"

definition history_url :: "string \<Rightarrow> string \<Rightarrow> string" where
  "history_url tid cid = trainees_url @ ''/'' @ tid @ ''/courses/'' @ cid @ ''/history''"

definition trainee_course_issue :: "string \<Rightarrow> string \<Rightarrow> string \<Rightarrow> ('a training_db_scheme, response) py" where
  "trainee_course_issue host tid cid =
     require_permission (perm_code TRAINING_SEND) (trainees_url @ ''/'' @ tid @ ''/courses/'' @ cid @ ''/issue'') (\<lambda>u. with_state (\<lambda>s.
       case (by_key tr_id tid (trainees s), by_key c_id cid (courses s)) of
         (Some t, Some c) \<Rightarrow>
           committing is_training_error
             (enrol t c (enrolment_source_value SRC_MANUAL) None (Some (link_base host s)))
             (\<lambda>_. Redirect (history_url tid cid)) (Redirect (history_url tid cid))
       | _ \<Rightarrow> ret (Abort 404)))"

subsection \<open>Files\<close>

definition MAX_CSV_UPLOAD_BYTES :: nat where
  "MAX_CSV_UPLOAD_BYTES = 5 * 1024 * 1024"

text \<open>\<open>upload.read(max + 1)\<close>, refused when there was that much to read.\<close>

definition read_bounded_upload :: "nat \<Rightarrow> string \<Rightarrow> string option" where
  "read_bounded_upload max_bytes upload =
     (let blob = take (max_bytes + 1) upload in if length blob > max_bytes then None else Some blob)"

definition trainees_import_post :: "string option \<Rightarrow> bool \<Rightarrow> ('a training_db_scheme, response) py" where
  "trainees_import_post upload confirmed =
     require_permission (perm_code TRAINING_SEND) (trainees_url @ ''/import'') (\<lambda>u. with_state (\<lambda>s.
       case upload of
         None \<Rightarrow> ret Page
       | Some content \<Rightarrow>
           (case read_bounded_upload MAX_CSV_UPLOAD_BYTES content of
              None \<Rightarrow> ret Page
            | Some blob \<Rightarrow>
                (case plan_trainees_import blob s of
                   Inl e \<Rightarrow> throw e
                 | Inr plan \<Rightarrow>
                     if confirmed \<and> n_error_rows plan = 0 \<and> n_create_rows plan + n_update_rows plan > 0
                     then committing (\<lambda>_. False) (apply_trainees_plan plan) (\<lambda>_. Redirect trainees_url) Page
                     else ret Page))))"

definition courses_import_post :: "string option \<Rightarrow> bool \<Rightarrow> ('a training_db_scheme, response) py" where
  "courses_import_post upload confirmed =
     require_permission (perm_code TRAINING_AUTHOR) ''/admin/training/courses/import'' (\<lambda>u. with_state (\<lambda>s.
       case upload of
         None \<Rightarrow> ret Page
       | Some content \<Rightarrow>
           (case read_bounded_upload MAX_CSV_UPLOAD_BYTES content of
              None \<Rightarrow> ret Page
            | Some blob \<Rightarrow>
                (case plan_courses_import blob s of
                   Inl e \<Rightarrow> throw e
                 | Inr plan \<Rightarrow>
                     if confirmed \<and> n_error_rows plan = 0 \<and> n_create_rows plan + n_update_rows plan > 0
                     then committing (\<lambda>_. False) (apply_courses_plan plan) (\<lambda>_. Redirect ''/admin/training/courses'') Page
                     else ret Page))))"

subsection \<open>The matrix and its exports\<close>

definition query_filter :: "string list \<Rightarrow> string list \<Rightarrow> string option \<Rightarrow> matrix_filter" where
  "query_filter line_args role_args blocked_arg =
     \<lparr>f_line_id = None, f_role_code = None, f_line_ids = filter (\<lambda>x. x \<noteq> []) line_args,
      f_role_codes = filter (\<lambda>x. x \<noteq> []) (map strip role_args), blocked_only = (blocked_arg = Some ''1'')\<rparr>"

definition cell_text :: "compliance_state option \<Rightarrow> certification option \<Rightarrow> string" where
  "cell_text st cert =
     (case st of
        None \<Rightarrow> []
      | Some v \<Rightarrow>
          (case cert of
             Some c \<Rightarrow> if v \<in> {VALID, DUE_SOON, EXTRA}
                       then compliance_value v @ '' (until '' @ iso_day (valid_until c) @ '')'' else compliance_value v
           | None \<Rightarrow> compliance_value v))"

definition matrix_export_rows :: "compliance_matrix \<Rightarrow> 'a ticket_db_scheme \<Rightarrow> string list list" where
  "matrix_export_rows mx s =
     ([''Worker'', ''Role'', ''Line'', ''Clearance''] @ map c_code (mx_courses mx))
     # map (\<lambda>t.
         [tr_full_name t, tr_role_code t, line_code_of s (tr_line_id t),
          if map_of (mx_cleared mx) (tr_id t) \<noteq> Some False then ''cleared'' else ''BLOCKED''] @
         map (\<lambda>c. cell_text (map_of (mx_states mx) (tr_id t, c_id c)) (mx_certs mx (tr_id t, c_id c))) (mx_courses mx))
       (mx_trainees mx)"

text \<open>The csv module's own dialect ends a line with CR LF, and quotes both.\<close>

definition csv_excel :: "string list list \<Rightarrow> string" where
  "csv_excel rows = BOM @ encode_utf8 (concat (map (\<lambda>r. csv_line True r @ [CHR 0x0D, CHR 0x0A]) rows))"

definition dashboard_csv :: "string list \<Rightarrow> string list \<Rightarrow> string option \<Rightarrow> 'a training_db_scheme \<Rightarrow> string" where
  "dashboard_csv line_args role_args blocked_arg s =
     csv_excel (matrix_export_rows (build_compliance_matrix (query_filter line_args role_args blocked_arg) s) s)"

definition pdf_orientation :: "string option \<Rightarrow> compliance_matrix \<Rightarrow> string" where
  "pdf_orientation orient mx =
     (let o1 = lower (strip (or_empty orient))
      in if o1 \<in> {''landscape'', ''portrait''} then o1
         else if length (mx_courses mx) > 5 then ''landscape'' else ''portrait'')"

text \<open>The open enrolments shown beside the matrix: the 50 issued last.\<close>

definition dashboard_enrolments :: "'a training_db_scheme \<Rightarrow> enrolment list" where
  "dashboard_enrolments s =
     take 50 (sort_key (\<lambda>e. - instant (issued_at e)) (filter (\<lambda>e. e_status e \<in> set open_states) (enrolments s)))"

definition dashboard_roles :: "'a training_db_scheme \<Rightarrow> string list" where
  "dashboard_roles s =
     sort (remdups (filter (\<lambda>r. r \<noteq> []) (map tr_role_code (filter tr_is_active (trainees s)))))"

record course_history =
  h_enrolments :: "enrolment list"
  h_attempts :: "attempt list"
  h_certs :: "certification list"
  h_line_code :: "string option"

definition trainee_course_history :: "trainee \<Rightarrow> training_course \<Rightarrow> 'a training_db_scheme \<Rightarrow> course_history" where
  "trainee_course_history t c s =
     (let es = sort_key (\<lambda>e. - instant (issued_at e))
                 (filter (\<lambda>e. e_trainee_id e = tr_id t \<and> version_course e s = Some (c_id c)) (enrolments s))
      in \<lparr>h_enrolments = es,
          h_attempts = sort_key (\<lambda>a. - instant (started_at a))
            (filter (\<lambda>a. at_enrolment_id a \<in> set (map e_id es)) (attempts s)),
          h_certs = sort_key (\<lambda>ct. - instant (valid_until ct))
            (filter (\<lambda>ct. ct_trainee_id ct = tr_id t \<and> ct_course_id ct = c_id c) (certifications s)),
          h_line_code = (if truthy (tr_line_id t)
                         then map_option line_code (by_key line_id (or_empty (tr_line_id t)) (lines s)) else None)\<rparr>)"

end
