(* ===== verification/Roster.thy ===== *)
theory Roster
  imports TraineeAdmin
begin

text \<open>
  The roster of trainees under the pages of TraineeAdmin: who is on it can be told apart and
  reached, whatever sequence of pages is used.
\<close>

subsection \<open>The invariant\<close>

definition contactable :: "trainee \<Rightarrow> bool" where
  "contactable t \<longleftrightarrow> tr_phone t \<noteq> [] \<and> tr_full_name t \<noteq> [] \<and> tr_role_code t \<noteq> [] \<and>
     tr_channel t \<in> set (map channel_value [SMS, EMAIL, BOTH]) \<and>
     (tr_channel t \<noteq> ''sms'' \<longrightarrow> strip (or_empty (tr_email t)) \<noteq> [])"

definition roster_ok :: "trainee set \<Rightarrow> bool" where
  "roster_ok ts \<longleftrightarrow> inj_on tr_phone ts \<and> inj_on tr_employee_number {t \<in> ts. tr_employee_number t \<noteq> None} \<and>
     (\<forall>t\<in>ts. contactable t)"

definition staff_wf :: "'a training_db_scheme \<Rightarrow> bool" where
  "staff_wf s \<longleftrightarrow> inj (uuid_at s) \<and> distinct (map tr_id (trainees s)) \<and> tr_id ` set (trainees s) \<subseteq> drawn s \<and>
     roster_ok (set (trainees s))"

definition staff_step :: "'a training_db_scheme \<Rightarrow> 'a training_db_scheme \<Rightarrow> bool" where
  "staff_step s t \<longleftrightarrow> draws s t \<and> (staff_wf s \<longrightarrow> staff_wf t)"

named_theorems staffed \<open>operations that keep the roster well-formed\<close>

lemma staff_step_refl: "reflp staff_step" and staff_step_trans: "transp staff_step"
  using draws_refl draws_trans by (auto simp: staff_step_def reflp_def transp_def)

lemmas staff_step_rules [staffed] =
  keeps_ret [OF staff_step_refl] keeps_throw [OF staff_step_refl] keeps_read [OF staff_step_refl]
  keeps_bind [OF staff_step_trans] keeps_seq [OF staff_step_trans] keeps_catch [OF staff_step_trans]
  keeps_for_each [OF staff_step_refl staff_step_trans] keeps_foldM [OF staff_step_refl staff_step_trans]
  keeps_if [where R = staff_step] keeps_option [where R = staff_step] keeps_sum [where R = staff_step]
  keeps_list [where R = staff_step] keeps_prod [where R = staff_step] keeps_let [where R = staff_step]
  keeps_with_state [where R = staff_step]

text \<open>Steps that leave the roster alone.\<close>

lemma staff_same:
  assumes "trainees t = trainees s" "uuid_at t = uuid_at s" "uuid_next s \<le> uuid_next t"
  shows "staff_step s t"
  using assms by (auto simp: staff_step_def draws_def staff_wf_def drawn_def)

lemma keeps_staff_base [staffed]:
  "keeps staff_step (record_entry ty ac e d u)" "keeps staff_step take_uuid"
  "keeps staff_step (insert_enrolment en)" "keeps staff_step (modify (update_enrolment i f))"
  "keeps staff_step (modify commit)" "keeps staff_step (enqueue q fn k)"
  by (rule keepsI, rule staff_same;
    simp add: record_entry_def take_uuid_def insert_enrolment_def update_enrolment_def commit_def enqueue_def Let_def)+

lemma keeps_staff_enrol [staffed]: "keeps staff_step (enrol t c src ref base)"
  unfolding enrol_def send_enrolment_link_def deliver_magic_link_def best_effort_def enqueue_sms_def enqueue_email_def Let_def
  by (intro staffed)

lemma keeps_staff_bulk [staffed]: "keeps staff_step (apply_bulk_issue c rows base by_user)"
  unfolding apply_bulk_issue_def apply_bulk_row_def by (intro staffed)

text \<open>A new row needs a fresh id, an edited one its own.\<close>

lemma roster_insert:
  assumes "roster_ok ts" "contactable t" "tr_phone t \<notin> tr_phone ` ts"
    "tr_employee_number t = None \<or> tr_employee_number t \<notin> tr_employee_number ` ts"
  shows "roster_ok (insert t ts)"
proof -
  have "{u \<in> insert t ts. tr_employee_number u \<noteq> None} =
      (if tr_employee_number t = None then {} else {t}) \<union> {u \<in> ts. tr_employee_number u \<noteq> None}" by auto
  then show ?thesis using assms by (auto simp: roster_ok_def)
qed

lemma roster_subset: "roster_ok ts \<Longrightarrow> us \<subseteq> ts \<Longrightarrow> roster_ok us"
  unfolding roster_ok_def by (blast intro: inj_on_subset)

lemma insert_trainee_wf:
  assumes "staff_wf s" "tr_id t \<notin> tr_id ` set (trainees s)" "tr_id t \<in> drawn s" "contactable t"
  shows "staff_wf (snd (insert_trainee t s))"
  using assms roster_insert [of "set (trainees s)" t] by (auto simp: insert_trainee_def staff_wf_def drawn_def)

lemma update_row_set:
  assumes "distinct (map k xs)" "x \<in> set xs" "k x = i"
  shows "set (update_row k i (\<lambda>_. w) xs) = insert w {y \<in> set xs. k y \<noteq> i}"
  using assms by (auto simp: update_row_def image_iff split: if_splits)

lemma update_trainee_wf:
  assumes "staff_wf s" "contactable t" "tr_id t \<in> tr_id ` set (trainees s)"
  shows "staff_wf (snd (update_trainee t s))"
proof -
  let ?t = "t\<lparr>tr_updated_at := utcnow s\<rparr>" and ?o = "{x \<in> set (trainees s). tr_id x \<noteq> tr_id t}"
  obtain x where x: "x \<in> set (trainees s)" "tr_id x = tr_id t" using assms(3) by auto
  let ?s = "s\<lparr>trainees := update_row tr_id (tr_id t) (\<lambda>_. ?t) (trainees s)\<rparr>"
  have "set (trainees ?s) = insert ?t ?o"
    using update_row_set [of tr_id "trainees s" x "tr_id t" ?t] x assms(1) by (simp add: staff_wf_def)
  moreover have "map tr_id (trainees ?s) = map tr_id (trainees s)" by (simp add: update_row_def)
  moreover have "contactable ?t" using assms(2) by (simp add: contactable_def)
  moreover have "roster_ok ?o" using assms(1) by (auto simp: staff_wf_def intro: roster_subset)
  moreover have "tr_id ` insert ?t ?o \<subseteq> drawn ?s" using x assms(1) by (force simp: staff_wf_def drawn_def)
  ultimately have "staff_wf ?s" if "tr_phone t \<notin> tr_phone ` ?o"
      "tr_employee_number t = None \<or> tr_employee_number t \<notin> tr_employee_number ` ?o"
    using assms(1) that roster_insert [of ?o ?t] by (simp add: staff_wf_def)
  moreover have "staff_wf (s\<lparr>session_failed := True\<rparr>)" using assms(1) by (simp add: staff_wf_def drawn_def)
  ultimately show ?thesis using assms(1) by (auto simp: update_trainee_def Let_def)
qed

subsection \<open>The services\<close>

lemma seq_keeps: "transp R \<Longrightarrow> keeps R n \<Longrightarrow> R s (snd (m t)) \<Longrightarrow> R s (snd (seq m n t))"
  by (auto simp: seq_def bind_def split: prod.splits sum.splits dest: keepsD elim: transpE)

lemma keeps_staff_create [staffed]:
  assumes "ta_channel a \<noteq> ''sms'' \<Longrightarrow> strip (or_empty (ta_email a)) \<noteq> []"
  shows "keeps staff_step (create_trainee a :: ('a training_db_scheme, trainee) py)"
proof
  fix s :: "'a training_db_scheme"
  let ?t = "new_trainee a (gen_uuid s) (utcnow s)" and ?s = "s\<lparr>uuid_next := Suc (uuid_next s)\<rparr>"
  have ins: "staff_step s (snd (insert_trainee ?t ?s))"
    if "ta_phone a \<noteq> []" "ta_full_name a \<noteq> []" "ta_role_code a \<noteq> []" "ta_channel a \<in> set (map channel_value [SMS, EMAIL, BOTH])"
  proof -
    have c: "contactable ?t"
      using that assms by (auto simp: contactable_def new_trainee_def or_none_def or_empty_def)
    have "staff_wf (snd (insert_trainee ?t ?s))" if wf: "staff_wf s"
    proof (rule insert_trainee_wf [OF _ _ _ c])
      show "staff_wf ?s" using wf by (auto simp: staff_wf_def)
      show "tr_id ?t \<notin> tr_id ` set (trainees ?s)"
        using wf fresh_id [of s] by (auto simp: new_trainee_def staff_wf_def)
      show "tr_id ?t \<in> drawn ?s" by (simp add: new_trainee_def)
    qed
    then show ?thesis by (auto simp: staff_step_def draws_def insert_trainee_def)
  qed
  have "keeps staff_step (seq (record_entry ty ac e d u) (ret x) :: ('a training_db_scheme, trainee) py)" for ty ac e d u x
    by (intro staffed)
  then have "staff_step s (snd (seq (insert_trainee ?t) (seq (record_entry ty ac e d u) (ret x)) ?s))"
    if "staff_step s (snd (insert_trainee ?t ?s))" for ty ac e d u and x :: trainee
    using that by (intro seq_keeps [OF staff_step_trans])
  then show "staff_step s (snd (create_trainee a s))"
    using ins reflpD [OF staff_step_refl, of s] by (simp add: create_trainee_def Let_def bind_def take_uuid_def)
qed

lemma keeps_staff_update [staffed]:
  assumes "\<And>t. contactable t \<Longrightarrow> contactable (f t)" "\<And>t. tr_id (f t) = tr_id t"
  shows "keeps staff_step (with_state (\<lambda>s :: 'a training_db_scheme. case by_key tr_id i (trainees s) of
    None \<Rightarrow> ret x | Some t \<Rightarrow> seq (update_trainee (f t)) (ret y)))"
proof
  fix s :: "'a training_db_scheme"
  show "staff_step s (snd (with_state (\<lambda>s. case by_key tr_id i (trainees s) of
    None \<Rightarrow> ret x | Some t \<Rightarrow> seq (update_trainee (f t)) (ret y)) s))"
  proof (cases "by_key tr_id i (trainees s)")
    case (Some t)
    then have t: "t \<in> set (trainees s)" by (auto dest: by_key_Some)
    then have "staff_wf (snd (update_trainee (f t) s))" if "staff_wf s"
      using that assms by (intro update_trainee_wf) (auto simp: staff_wf_def roster_ok_def)
    moreover have "snd (seq (update_trainee (f t)) (ret y) s) = snd (update_trainee (f t) s)" by simp
    ultimately show ?thesis using Some by (simp add: staff_step_def draws_def update_trainee_def Let_def)
  qed (use reflpD [OF staff_step_refl] in simp)
qed

lemma wipe_contactable: "contactable t \<Longrightarrow> contactable (wipe_trainee t)"
  by (simp add: contactable_def wipe_trainee_def)

lemma keeps_staff_redact_rows [staffed]: "keeps staff_step (redact_audit_rows ids)"
  by (rule keepsI, rule staff_same)
    (simp_all add: redact_audit_rows_def Let_def split: list.splits option.splits prod.splits)

subsection \<open>Imported rows\<close>

definition fit :: "csv_dict \<Rightarrow> bool" where
  "fit raw \<longleftrightarrow> strip (cell raw ''phone'') \<noteq> [] \<and> strip (cell raw ''full_name'') \<noteq> [] \<and> strip (cell raw ''role_code'') \<noteq> [] \<and>
     cell_or raw ''notification_channel'' ''sms'' \<in> set (map channel_value [SMS, EMAIL, BOTH]) \<and>
     (cell_or raw ''notification_channel'' ''sms'' \<noteq> ''sms'' \<longrightarrow> strip (cell raw ''email'') \<noteq> [])"

definition tidy :: "csv_dict \<Rightarrow> bool" where
  "tidy raw \<longleftrightarrow> (\<forall>k. strip (cell raw k) = cell raw k)"

lemma tidy_strips: "tidy (map (\<lambda>(k, v). (k, strip v)) d)"
proof -
  have "map_of (map (\<lambda>(k, v). (k, strip v)) d) = map_option strip \<circ> map_of d"
    by (induction d) (auto simp: fun_eq_iff)
  then show ?thesis by (auto simp: tidy_def cell_def or_empty_def split: option.splits)
qed

lemma clean_rows_tidy: "clean_rows header rows = Inr ds \<Longrightarrow> d \<in> set ds \<Longrightarrow> tidy d"
proof (induction rows arbitrary: ds)
  case (Cons row rows)
  then show ?case
    by (auto simp: clean_row_def Let_def tidy_strips split: if_splits sum.splits option.splits)
qed simp

lemma csv_parse_tidy: "csv_parse blob = Inr raws \<Longrightarrow> raw \<in> set raws \<Longrightarrow> tidy raw"
  by (auto simp: csv_parse_def split: option.splits sum.splits list.splits dest: clean_rows_tidy)

lemma strip_sms: "strip ''sms'' = ''sms''"
  by (simp add: strip_def lstrip_def rstrip_def str_py_space_def)

lemma fit_row: "tidy raw \<Longrightarrow> trainee_errors s raw = [] \<Longrightarrow> fit raw"
  by (auto simp: strip_sms fit_def tidy_def trainee_errors_def cell_or_def Let_def split: if_splits)

lemma plan_rows_fit:
  assumes "r \<in> set (plan_trainee_rows s i emps phones raws)" "row_errors r = []" "\<forall>raw\<in>set raws. tidy raw"
  shows "fit (row_raw r)"
  using assms
proof (induction raws arbitrary: i emps phones)
  case (Cons raw raws)
  have "row_raw (match_trainee s i raw) = raw"
    by (simp add: match_trainee_def bad_row_def Let_def split: option.splits)
  with Cons show ?case
    by (auto simp: Let_def bad_row_def fit_row split: if_splits)
qed simp

lemma plan_fit: "plan_trainees_import blob s = Inr plan \<Longrightarrow> r \<in> set plan \<Longrightarrow> row_errors r = [] \<Longrightarrow> fit (row_raw r)"
  using plan_rows_fit [of r s 2 "[]" "[]"] csv_parse_tidy [of blob]
  by (auto simp: plan_trainees_import_def bad_row_def split: sum.splits exc.splits)

lemma keeps_staff_import:
  assumes "\<And>r. r \<in> set plan \<Longrightarrow> row_errors r = [] \<Longrightarrow> fit (row_raw r)"
  shows "keeps staff_step (apply_trainees_plan plan)"
proof -
  have "keeps staff_step (apply_trainee_row by_code n r)" if "row_errors r = [] \<Longrightarrow> fit (row_raw r)" for by_code n r
  proof (cases "row_errors r = []")
    case True
    then have f: "fit (row_raw r)" by (rule that)
    have c: "keeps staff_step (create_trainee (new_trainee_args by_code (row_raw r)))"
      using f by (intro keeps_staff_create) (auto simp: new_trainee_args_def fit_def import_email_def or_none_def or_empty_def)
    have "contactable (imported_trainee by_code (row_raw r) t)" for t
      using f by (auto simp: imported_trainee_def contactable_def fit_def import_email_def or_none_def or_empty_def)
    then have u: "keeps staff_step (with_state (\<lambda>s. case by_key tr_id i (trainees s) of None \<Rightarrow> ret x
        | Some t \<Rightarrow> seq (update_trainee (imported_trainee by_code (row_raw r) t)) (ret y)))" for i x y
      by (rule keeps_staff_update) (simp add: imported_trainee_def)
    show ?thesis
      unfolding apply_trainee_row_def using True
      by (simp only: if_False not_True_eq_False simp_thms)
        (intro keeps_if u keeps_bind [OF staff_step_trans] c keeps_ret [OF staff_step_refl])
  qed (simp add: apply_trainee_row_def, intro staffed)
  then show ?thesis using assms unfolding apply_trainees_plan_def by (intro staffed) auto
qed

subsection \<open>The pages\<close>

lemma rollback_staff: "staff_step s s' \<Longrightarrow> staff_step s (rollback s s')"
  by (auto simp: staff_step_def draws_def staff_wf_def drawn_def rollback_def)

lemma commit_staff: "staff_step s s' \<Longrightarrow> staff_step s (commit s')"
  by (auto simp: staff_step_def draws_def staff_wf_def drawn_def commit_def)

lemma committing_staff: "staff_step s (snd (m s)) \<Longrightarrow> staff_step s (snd (committing p m good bad s))"
  by (auto simp: committing_def rollback_staff commit_staff split: prod.splits sum.splits)

lemma in_request_staff: "staff_step s (snd (m s)) \<Longrightarrow> staff_step s (snd (in_request m s))"
  by (auto simp: in_request_def rollback_staff commit_staff split: prod.splits sum.splits)

lemma permission_staff:
  fixes s :: "'a training_db_scheme"
  assumes "\<And>u. staff_step s (snd (view u s))"
  shows "staff_step s (snd (require_permission code path view s))"
proof -
  have "keeps staff_step (seq (record_entry ty ac e d w) (seq (modify commit) (ret x)) :: ('a training_db_scheme, response) py)"
    for ty ac e d w x
    by (intro staffed)
  then show ?thesis
    using assms reflpD [OF staff_step_refl, of s]
    by (auto simp: require_permission_def keeps_def split: option.splits)
qed

definition trainee_form_ok :: "trainee_form \<Rightarrow> bool" where
  "trainee_form_ok form \<longleftrightarrow> strip (tf_phone form) \<noteq> [] \<and> strip (tf_full_name form) \<noteq> [] \<and> strip (tf_role_code form) \<noteq> [] \<and>
     tf_channel form \<in> set (map channel_value [SMS, EMAIL, BOTH])"

inductive trainee_page :: "training_db \<Rightarrow> training_db \<Rightarrow> bool" where
  added: "trainee_form_ok form \<Longrightarrow> trainee_page s (snd (trainees_new_post form s))"
| edited: "trainee_form_ok form \<Longrightarrow> trainee_page s (snd (trainees_edit_post tid form s))"
| issued_one: "trainee_page s (snd (trainees_issue_post host tid code s))"
| issued_again: "trainee_page s (snd (trainee_course_issue host tid cid s))"
| issued_many: "trainee_page s (snd (trainees_bulk_post host tids code confirmed s))"
| imported: "trainee_page s (snd (trainees_import_post upload confirmed s))"
| redacted: "trainee_page s (snd (in_request (redact_trainee tid) s))"
| next_request: "trainee_page s (s\<lparr>request_context := r, clock := now\<rparr>)"

lemma staff_refl: "staff_step s s"
  using staff_step_refl by (rule reflpD)

lemma new_post_staff: "staff_step s (snd (trainees_new_post form s))"
proof -
  have "keeps staff_step (create_trainee (form_args form s))" if "strip (or_empty (tf_email form)) \<noteq> []"
    using that by (intro keeps_staff_create) (simp add: form_args_def or_empty_def)
  then show ?thesis
    unfolding trainees_new_post_def
    by (intro permission_staff) (auto simp: staff_refl intro: committing_staff keepsD)
qed

lemma edit_post_staff:
  assumes "trainee_form_ok form"
  shows "staff_step s (snd (trainees_edit_post tid form s))"
proof -
  have "staff_step s (snd (update_trainee (edited_trainee form s t) s))"
    if t: "by_key tr_id tid (trainees s) = Some t"
      "tr_channel (edited_trainee form s t) \<noteq> ''sms'' \<Longrightarrow> tr_email (edited_trainee form s t) \<noteq> None" for t
  proof -
    have in_s: "t \<in> set (trainees s)" using t(1) by (auto dest: by_key_Some)
    have "contactable (edited_trainee form s t)" if "staff_wf s"
      using that assms t(2) in_s
      by (auto simp: contactable_def edited_trainee_def trainee_form_ok_def staff_wf_def roster_ok_def or_none_def or_empty_def)
    moreover have "tr_id (edited_trainee form s t) = tr_id t" by (simp add: edited_trainee_def)
    ultimately show ?thesis
      using update_trainee_wf [of s "edited_trainee form s t"] in_s
      by (auto simp: staff_step_def draws_def) (simp add: update_trainee_def Let_def)
  qed
  then show ?thesis
    unfolding trainees_edit_post_def Let_def
    by (intro permission_staff)
      (auto simp: staff_refl intro!: committing_staff seq_keeps [OF staff_step_trans] staffed split: option.splits)
qed

lemma issue_staff:
  "staff_step s (snd (trainees_issue_post host tid code s))"
  "staff_step s (snd (trainee_course_issue host tid cid s))"
  "staff_step s (snd (trainees_bulk_post host tids ccode confirmed s))"
  unfolding trainees_issue_post_def trainee_course_issue_def trainees_bulk_post_def
  by (intro permission_staff;
      auto simp: staff_refl intro!: committing_staff keepsD [OF keeps_staff_enrol] keepsD [OF keeps_staff_bulk]
        split: option.splits)+

lemma import_staff: "staff_step s (snd (trainees_import_post upload confirmed s))"
  unfolding trainees_import_post_def
  by (intro permission_staff)
    (auto simp: staff_refl intro!: committing_staff keepsD [OF keeps_staff_import] plan_fit split: option.splits sum.splits)

lemma redact_staff: "staff_step s (snd (redact_trainee tid s))"
proof (cases "by_key tr_id tid (trainees s)")
  case (Some t)
  then have "staff_wf (snd (update_trainee (wipe_trainee t) s))" if "staff_wf s"
    using that by (intro update_trainee_wf wipe_contactable) (auto simp: staff_wf_def roster_ok_def wipe_trainee_def dest: by_key_Some)
  then have u: "staff_step s (snd (update_trainee (wipe_trainee t) s))"
    by (auto simp: staff_step_def draws_def) (simp add: update_trainee_def Let_def)
  have d: "keeps staff_step (modify (\<lambda>s. s\<lparr>declarations := f (declarations s)\<rparr>))" for f
    by (rule keepsI) (simp add: staff_same)
  show ?thesis
    unfolding redact_trainee_def by (simp add: Some Let_def) (intro seq_keeps [OF staff_step_trans] u staffed d)
qed (simp add: redact_trainee_def staff_refl)

lemma trainee_page_staff: "trainee_page s t \<Longrightarrow> staff_step s t"
  by (induction rule: trainee_page.induct)
    (auto simp: new_post_staff edit_post_staff issue_staff import_staff redact_staff intro: in_request_staff staff_same)

lemma by_key_inj:
  assumes "t \<in> set xs" "\<And>u. u \<in> set xs \<Longrightarrow> f u = f t \<Longrightarrow> u = t"
  shows "by_key f (f t) xs = Some t"
proof (cases "by_key f (f t) xs")
  case (Some u)
  then show ?thesis using assms by (auto dest: by_key_Some)
qed (use assms(1) in \<open>auto simp: by_key_None\<close>)

text \<open>The lanes a link goes out on, for a trainee who can be reached.\<close>

lemma contactable_lanes:
  "contactable t \<Longrightarrow> wanted_channels t =
     (tr_channel t \<in> {channel_value SMS, channel_value BOTH}, tr_channel t \<in> {channel_value EMAIL, channel_value BOTH})"
  by (auto simp: contactable_def wanted_channels_def Let_def)

text \<open>
  C35. The roster stays addressable. Whatever sequence of trainee pages is used (adding, editing,
  issuing one link or many, importing a file, erasing, with any interleaving of requests), phones
  and the employee numbers there are identify one trainee each, and a link to any trainee is
  queued on exactly the lanes of the chosen channel: the fall-back to a text message for a
  missing e-mail address is never taken.
\<close>

theorem roster_stays_addressable:
  assumes "staff_wf s" "trainee_page\<^sup>*\<^sup>* s s'" "t \<in> set (trainees s')"
  shows "by_key tr_phone (tr_phone t) (trainees s') = Some t \<and>
    (tr_employee_number t \<noteq> None \<longrightarrow> by_key tr_employee_number (tr_employee_number t) (trainees s') = Some t) \<and>
    wanted_channels t =
      (tr_channel t \<in> {channel_value SMS, channel_value BOTH}, tr_channel t \<in> {channel_value EMAIL, channel_value BOTH})"
proof -
  have "staff_step s s'" using assms(2)
    by (induction rule: rtranclp_induct) (auto simp: staff_refl intro: transpD [OF staff_step_trans] trainee_page_staff)
  then have wf: "staff_wf s'" using assms(1) by (simp add: staff_step_def)
  have "by_key f (f t) (trainees s') = Some t" if "inj_on f {u \<in> set (trainees s'). P (f u)}" "P (f t)" for f :: "trainee \<Rightarrow> 'b" and P
    using that assms(3) by (intro by_key_inj) (auto simp: inj_on_def)
  from this [of tr_phone "\<lambda>_. True"] this [of tr_employee_number "\<lambda>n. n \<noteq> None"]
  show ?thesis using wf assms(3) contactable_lanes [of t] by (simp add: staff_wf_def roster_ok_def)
qed

text \<open>An office without trainees, where a signed-in user adds the first one.\<close>

definition sample_office :: training_db where
  "sample_office = (sample_training [])
     \<lparr>request_context := Some \<lparr>remote_addr = None, user_agent_string = [], current_user_id = Some ''u1''\<rparr>,
      users := [sample_user None],
      roles := [\<lparr>role_id = ''r1'', role_code = ''qa'', role_permissions = [''training.send'']\<rparr>]\<rparr>"

definition sample_trainee_form :: trainee_form where
  "sample_trainee_form = \<lparr>tf_employee_number = Some ''7'', tf_phone = ''+48500100200'', tf_email = Some ''a@b.pl'',
     tf_full_name = ''Anna'', tf_role_code = ''baker'', tf_line_code = [], tf_language = ''en'', tf_channel = ''both'',
     tf_is_active = True\<rparr>"

lemma sample_office_added:
  "trainees (snd (trainees_new_post sample_trainee_form sample_office)) =
     [new_trainee (form_args sample_trainee_form sample_office) (gen_uuid sample_office) (utcnow sample_office)]"
proof -
  let ?s = "sample_office"
  have u: "current_user ?s = Some (sample_user None)" "has_permission (sample_user None) ''training.send'' ?s"
    by (simp_all add: current_user_def session_user_id_def sample_office_def by_key_def sample_user_def
        has_permission_def role_of_def role_has_permission_def)
  have st: "trainees ?s = []" "\<not> session_failed ?s" "lines ?s = []"
    by (simp_all add: sample_office_def sample_training_def)
  have w: "writable (?s\<lparr>uuid_next := n, trainees := ts\<rparr>)" for n ts
    by (simp add: sample_office_def sample_training_def writable_def audit_update_allowed_def)
  have f: "strip ''7'' = ''7''" "strip ''a@b.pl'' = ''a@b.pl''" "strip ''+48500100200'' = ''+48500100200''"
    "strip ''Anna'' = ''Anna''" "strip ''baker'' = ''baker''"
    by (simp_all add: strip_def lstrip_def rstrip_def str_py_space_def)
  have run: "snd (create_trainee (form_args sample_trainee_form ?s) ?s) =
      snd (record_entry ''trainee'' CREATE (Some (gen_uuid ?s)) [(''role_code'', JStr ''baker'')] None
        (?s\<lparr>uuid_next := Suc (uuid_next ?s),
           trainees := [new_trainee (form_args sample_trainee_form ?s) (gen_uuid ?s) (utcnow ?s)]\<rparr>)) \<and>
    (\<exists>t. fst (create_trainee (form_args sample_trainee_form ?s) ?s) = Inr t)"
    using w by (simp add: create_trainee_def st sample_trainee_form_def form_args_def f Let_def bind_def take_uuid_def
        insert_trainee_def seq_def record_entry_ok or_empty_def)
  then show ?thesis
    using u w by (cases "create_trainee (form_args sample_trainee_form ?s) ?s")
      (auto simp: trainees_new_post_def require_permission_def committing_def commit_def record_entry_ok
        sample_trainee_form_def f or_empty_def)
qed

theorem roster_stays_addressable_witness:
  "\<exists>t. trainees (snd (trainees_new_post sample_trainee_form sample_office)) = [t] \<and>
     by_key tr_phone (tr_phone t) (trainees (snd (trainees_new_post sample_trainee_form sample_office))) = Some t \<and>
     wanted_channels t = (True, True)"
proof -
  let ?t = "new_trainee (form_args sample_trainee_form sample_office) (gen_uuid sample_office) (utcnow sample_office)"
  have "staff_wf sample_office" using inj_digits by (simp add: staff_wf_def roster_ok_def sample_office_def sample_training_def)
  moreover have "trainee_form_ok sample_trainee_form"
    by (simp add: trainee_form_ok_def sample_trainee_form_def strip_def lstrip_def rstrip_def str_py_space_def)
  then have "trainee_page\<^sup>*\<^sup>* sample_office (snd (trainees_new_post sample_trainee_form sample_office))"
    by (intro r_into_rtranclp added)
  moreover have "?t \<in> set (trainees (snd (trainees_new_post sample_trainee_form sample_office)))"
    by (simp add: sample_office_added)
  ultimately have "by_key tr_phone (tr_phone ?t) (trainees (snd (trainees_new_post sample_trainee_form sample_office))) = Some ?t \<and>
      wanted_channels ?t = (True, True)"
    using roster_stays_addressable [of sample_office _ ?t]
    by (simp add: new_trainee_def form_args_def sample_trainee_form_def)
  then show ?thesis using sample_office_added by blast
qed

subsection \<open>The audit contract\<close>

lemma keeps_log_update_trainee [audited]: "keeps log_step (update_trainee t)"
  by (rule keepsI) (auto simp: update_trainee_def Let_def log_step_def log_wf_def)

lemma keeps_log_trainee_rows [audited]: "keeps log_step (apply_trainees_plan plan)"
  unfolding apply_trainees_plan_def apply_trainee_row_def by (intro audited)

interpretation trainee_add_view: audited_operation "trainees_new_post form" for form
  by unfold_locales (auto simp: trainees_new_post_def intro!: audited)

interpretation trainee_edit_view: audited_operation "trainees_edit_post tid form" for tid form
  by unfold_locales (auto simp: trainees_edit_post_def Let_def intro!: audited)

interpretation bulk_issue_view: audited_operation "trainees_bulk_post host tids code confirmed" for host tids code confirmed
  by unfold_locales (auto simp: trainees_bulk_post_def intro!: audited)

interpretation trainee_import_view: audited_operation "trainees_import_post upload confirmed" for upload confirmed
  by unfold_locales (auto simp: trainees_import_post_def intro!: audited)

end
