(* ===== verification/Accounts.thy ===== *)
theory Accounts
  imports Views Jobs I18n TriggerLife UniqueInsert
begin

text \<open>
  The rest of app/blueprints/admin.py: the overview, the accounts of users, the pages of the audit
  log and the dead-letter pages. bcrypt's \<open>hashpw\<close> is a parameter, which may raise. A form has
  passed its validators when a view runs.
\<close>

subsection \<open>Users\<close>

record user_form =
  uf_email :: string
  uf_full_name :: string
  uf_role_code :: string
  uf_language :: string
  uf_password :: string
  uf_is_active :: bool

definition role_choices :: "'a auth_db_scheme \<Rightarrow> (string \<times> string) list" where
  "role_choices s = map (\<lambda>r. (role_code r, role_code r)) (sort_key role_code (roles s))"

definition user_language_choices :: "'a auth_db_scheme \<Rightarrow> (string \<times> string) list" where
  "user_language_choices s = language_choices (SUPPORTED_LANGUAGES (app_config s))"

definition users_index :: "'a auth_db_scheme \<Rightarrow> user list" where
  "users_index s = sort_key email (users s)"

definition role_by_code :: "string \<Rightarrow> 'a auth_db_scheme \<Rightarrow> role option" where
  "role_by_code code s = by_key role_code code (roles s)"

text \<open>INSERT of a user: the e-mail address is unique.\<close>

definition insert_user :: "user \<Rightarrow> ('a auth_db_scheme, unit) py" where
  "insert_user u = (\<lambda>s.
     if session_failed s then (Inl PendingRollbackError, s)
     else if email u \<in> email ` set (users s)
     then (Inl (IntegrityError ''users.email''), s\<lparr>session_failed := True\<rparr>)
     else (Inr (), s\<lparr>users := users s @ [u]\<rparr>))"

interpretation user_rows: unique_insert insert_user users email session_failed
  by unfold_locales (auto simp: insert_user_def)

definition new_user :: "user_form \<Rightarrow> string \<Rightarrow> string \<Rightarrow> string \<Rightarrow> user" where
  "new_user form hashed rid i =
     \<lparr>u_id = i, email = lower (strip (uf_email form)), password_hash = hashed, full_name = strip (uf_full_name form),
      language = uf_language form, is_active_flag = uf_is_active form, failed_attempts = 0, locked_until = None,
      last_login_at = None, u_role_id = rid, totp_secret = None, totp_enrolled_at = None\<rparr>"

definition users_url :: string where
  "users_url = ''/admin/users''"

definition users_new_post :: "(string \<Rightarrow> exc + string) \<Rightarrow> user_form \<Rightarrow> ('a auth_db_scheme, response) py" where
  "users_new_post hashpw form =
     require_permission (perm_code USERS_MANAGE) (users_url @ ''/new'') (\<lambda>_. with_state (\<lambda>s.
       if length (uf_password form) < 8 then ret Page
       else if lower (strip (uf_email form)) \<in> email ` set (users s) then ret Page
       else case role_by_code (uf_role_code form) s of
              None \<Rightarrow> ret Page
            | Some r \<Rightarrow>
                committing (\<lambda>_. False)
                  (bind (lift (hashpw (uf_password form))) (\<lambda>hashed.
                   bind take_uuid (\<lambda>i.
                   seq (insert_user (new_user form hashed (role_id r) i))
                       (record_entry ''user'' CREATE (Some i) [(''role'', JStr (role_code r))] None))))
                  (\<lambda>_. Redirect users_url) Page))"

text \<open>The row an edit writes; the e-mail address of the form is not used.\<close>

definition edited_user :: "user_form \<Rightarrow> role option \<Rightarrow> string option \<Rightarrow> user \<Rightarrow> user" where
  "edited_user form new_role hashed u =
     u\<lparr>full_name := strip (uf_full_name form), language := uf_language form, is_active_flag := uf_is_active form,
       u_role_id := (case new_role of None \<Rightarrow> u_role_id u | Some r \<Rightarrow> role_id r),
       password_hash := (case hashed of None \<Rightarrow> password_hash u | Some h \<Rightarrow> h)\<rparr>"

definition account_diff :: "role \<Rightarrow> bool \<Rightarrow> json" where
  "account_diff r active = JObj [(''role'', JStr (role_code r)), (''is_active'', JBool active)]"

text \<open>
  \<open>user.role\<close> was loaded for the first half of the diff and is not read again when the foreign
  key changes: the second half shows the role \<open>r\<close> of before.
\<close>

definition users_edit_post :: "(string \<Rightarrow> exc + string) \<Rightarrow> string \<Rightarrow> user_form \<Rightarrow> ('a auth_db_scheme, response) py" where
  "users_edit_post hashpw uid form =
     require_permission (perm_code USERS_MANAGE) (users_url @ ''/'' @ uid) (\<lambda>_. with_state (\<lambda>s.
       case by_key u_id uid (users s) of
         None \<Rightarrow> ret (Abort 404)
       | Some u \<Rightarrow>
           (case role_of u s of
              None \<Rightarrow> throw (AttributeError ''code'')
            | Some r \<Rightarrow>
                if uf_password form \<noteq> [] \<and> length (uf_password form) < 8 then ret Page
                else committing (\<lambda>_. False)
                  (bind (if uf_password form = [] then ret None
                         else bind (lift (hashpw (uf_password form))) (\<lambda>h. ret (Some h))) (\<lambda>hashed.
                   seq (modify (put_user (edited_user form (role_by_code (uf_role_code form) s) hashed u)))
                       (record_entry ''user'' UPDATE (Some uid)
                          [(''before'', account_diff r (is_active_flag u)), (''after'', account_diff r (uf_is_active form))]
                          None)))
                  (\<lambda>_. Redirect users_url) Page)))"

subsection \<open>The audit log\<close>

definition ADMIN_RECENT_AUDIT_LIMIT :: nat where
  "ADMIN_RECENT_AUDIT_LIMIT = 20"

definition recent_audit :: "'a audit_db_scheme \<Rightarrow> audit_row list" where
  "recent_audit s = take ADMIN_RECENT_AUDIT_LIMIT (rev (sort_key al_id (audit_log s)))"

text \<open>
  \<open>datetime.strptime(s, "%Y-%m-%d").date()\<close>: four digits, then one or two each; a blank may
  stand for the leading zero of the day.
\<close>

definition digits_in :: "nat set \<Rightarrow> string \<Rightarrow> bool" where
  "digits_in lens s \<longleftrightarrow> length s \<in> lens \<and> list_all is_digit s"

definition parse_day :: "string \<Rightarrow> date option" where
  "parse_day s =
     (case split_on (CHR ''-'') s of
        [y, m, d] \<Rightarrow>
          (let d' = (if length d = 2 \<and> hd d = CHR '' '' then tl d else d);
               v = \<lparr>year = int (digits_val 0 y), month = int (digits_val 0 m), day = int (digits_val 0 d')\<rparr>
           in if digits_in {4} y \<and> digits_in {1, 2} m \<and> digits_in {1, 2} d' \<and> valid_date v then Some v else None)
      | _ \<Rightarrow> None)"

text \<open>The day after: 9999-12-31 has none.\<close>

definition next_midnight :: "date \<Rightarrow> exc + int" where
  "next_midnight d =
     (if year d = 9999 \<and> month d = 12 \<and> day d = 31 then Inl (OverflowError ''date value out of range'')
      else Inr (at_time d 0 + us_day))"

definition filter_from :: "string \<Rightarrow> audit_row list \<Rightarrow> audit_row list" where
  "filter_from text rows =
     (case parse_day text of None \<Rightarrow> rows | Some d \<Rightarrow> filter (\<lambda>r. at_time d 0 \<le> instant (occurred_at r)) rows)"

definition filter_to :: "string \<Rightarrow> audit_row list \<Rightarrow> exc + audit_row list" where
  "filter_to text rows =
     (case parse_day text of
        None \<Rightarrow> Inr rows
      | Some d \<Rightarrow>
          (case next_midnight d of Inl e \<Rightarrow> Inl e | Inr t \<Rightarrow> Inr (filter (\<lambda>r. instant (occurred_at r) < t) rows)))"

definition page_size :: nat where
  "page_size = 100"

definition page_of :: "int \<Rightarrow> 'r list \<Rightarrow> 'r list" where
  "page_of page rows = take page_size (drop (nat (page - 1) * page_size) rows)"

text \<open>One page of the log, newest first, with the verdict on the whole chain.\<close>

definition audit_index ::
  "string option \<Rightarrow> string option \<Rightarrow> string option \<Rightarrow> 'a audit_db_scheme \<Rightarrow>
   exc + (audit_row list \<times> int \<times> bool \<times> int option)" where
  "audit_index page_arg date_from date_to s =
     (case (case page_arg of None \<Rightarrow> Some 1 | Some p \<Rightarrow> python_int p) of
        None \<Rightarrow> Inl (ValueError ''invalid literal for int()'')
      | Some p \<Rightarrow>
          let page = max p 1
          in case filter_to (strip (or_empty date_to)) (filter_from (strip (or_empty date_from)) (audit_log s)) of
               Inl e \<Rightarrow> Inl e
             | Inr rows \<Rightarrow> Inr (page_of page (rev (sort_key al_id rows)), page, verify_chain s))"

subsection \<open>Dead letters\<close>

text \<open>
  The pages work on RQ's registries \<open>r\<close> beside the database: a job is moved before the entry is
  written, and stays moved when that fails.
\<close>

definition dlq_entry :: "string \<Rightarrow> audit_action \<Rightarrow> string \<Rightarrow> ('a auth_db_scheme, response) py" where
  "dlq_entry jid act queue_name =
     committing (\<lambda>_. False) (record_entry ''rq_job'' act (Some jid) [(''queue'', JStr queue_name)] None)
       (\<lambda>_. Redirect ''/admin/dlq'') Page"

text \<open>A page: what it answers and writes, and the registries after it.\<close>

definition dlq_page ::
  "string \<Rightarrow> audit_action \<Rightarrow> string \<Rightarrow> (exc + string) \<times> 'r \<Rightarrow> 'r \<Rightarrow> 'a auth_db_scheme \<Rightarrow>
   ((exc + response) \<times> 'a auth_db_scheme) \<times> 'r" where
  "dlq_page path act jid moved r s =
     (let permitted = (case current_user s of None \<Rightarrow> False | Some u \<Rightarrow> has_permission u (perm_code DLQ_MANAGE) s)
      in (require_permission (perm_code DLQ_MANAGE) path
            (\<lambda>_. case fst moved of Inl e \<Rightarrow> ret (Abort 404) | Inr q \<Rightarrow> dlq_entry jid act q) s,
          if permitted then snd moved else r))"

definition dlq_requeue_post ::
  "'r rq \<Rightarrow> string \<Rightarrow> 'r \<Rightarrow> 'a auth_db_scheme \<Rightarrow> ((exc + response) \<times> 'a auth_db_scheme) \<times> 'r" where
  "dlq_requeue_post rq jid r =
     dlq_page (''/admin/dlq/'' @ jid @ ''/requeue'') DLQ_REQUEUE jid
       (case get_failed rq r jid of
          Inl e \<Rightarrow> (Inl e, r)
        | Inr (job, q) \<Rightarrow> (case dlq_requeue rq jid r of (Inl e, r') \<Rightarrow> (Inl e, r') | (Inr _, r') \<Rightarrow> (Inr q, r'))) r"

definition dlq_discard_post ::
  "'r rq \<Rightarrow> string \<Rightarrow> 'r \<Rightarrow> 'a auth_db_scheme \<Rightarrow> ((exc + response) \<times> 'a auth_db_scheme) \<times> 'r" where
  "dlq_discard_post rq jid r =
     dlq_page (''/admin/dlq/'' @ jid @ ''/discard'') DLQ_DISCARD jid (dlq_discard rq jid r) r"

subsection \<open>The audit contract\<close>

lemma keeps_log_insert_user [audited]: "keeps log_step (insert_user u)"
  by (rule keepsI) (auto simp: insert_user_def log_step_def log_wf_def)

interpretation user_add_view: audited_operation "users_new_post hashpw form" for hashpw form
  by unfold_locales (auto simp: users_new_post_def intro!: audited)

interpretation user_edit_view: audited_operation "users_edit_post hashpw uid form" for hashpw uid form
  by unfold_locales (auto simp: users_edit_post_def intro!: audited)

interpretation dlq_entry_view: audited_operation "dlq_entry jid act q" for jid act q
  by unfold_locales (auto simp: dlq_entry_def intro!: audited)

subsection \<open>A new account\<close>

lemma lower_char_cases: "lower_char c = c \<or> (\<not> str_py_space c \<and> \<not> str_py_space (lower_char c))"
proof (cases "65 \<le> (of_char c :: nat) \<and> (of_char c :: nat) \<le> 90")
  case True
  then have n: "(of_char c :: nat) \<in> {65..90}" "(of_char (lower_char c) :: nat) \<in> {97..122}" by (simp_all add: lower_char_def)
  have "\<not> str_py_space d" if "(of_char d :: nat) \<in> {65..90} \<union> {97..122}" for d
    using that by (auto simp: str_py_space_def)
  then show ?thesis using n by auto
qed (auto simp: lower_char_def)

lemma py_space_lower [simp]: "str_py_space \<circ> lower_char = str_py_space"
proof
  show "(str_py_space \<circ> lower_char) c = str_py_space c" for c using lower_char_cases [of c] by auto
qed

lemma strip_lower: "strip (lower s) = lower (strip s)"
  by (simp add: strip_def lstrip_def rstrip_def lower_def dropWhile_map rev_map)

lemma permission_answer:
  assumes "require_permission code path view s = (Inr x, s')" "x \<noteq> Redirect (''/auth/login?next='' @ path)" "x \<noteq> Abort 403"
  obtains u where "current_user s = Some u" "has_permission u code s" "view u s = (Inr x, s')"
proof (cases "current_user s")
  case None
  with assms that show thesis by (simp add: require_permission_def)
next
  case (Some u)
  with assms that show thesis
    by (cases "has_permission u code s")
      (auto simp: require_permission_def seq_def bind_def split: prod.splits sum.splits)
qed

lemma committing_Inr:
  "committing (\<lambda>_. False) m good bad s = (Inr x, s') \<Longrightarrow> \<exists>y t. m s = (Inr y, t) \<and> x = good y \<and> s' = commit t"
  by (auto simp: committing_def split: prod.splits sum.splits)

lemma users_new_post_Inr:
  fixes s :: "'a auth_db_scheme"
  assumes "users_new_post hashpw form s = (Inr (Redirect users_url), s')" "writable s"
  obtains r h where "8 \<le> length (uf_password form)" "lower (strip (uf_email form)) \<notin> email ` set (users s)"
    "role_by_code (uf_role_code form) s = Some r" "hashpw (uf_password form) = Inr h"
    "users s' = users s @ [new_user form h (role_id r) (gen_uuid s)]" "roles s' = roles s"
    "dialect s' = dialect s" "immutable_trigger s' = immutable_trigger s" "session_failed s' = False"
    "app_config s' = app_config s" "clock s' = clock s"
proof -
  obtain u where u: "(if length (uf_password form) < 8 then ret Page
       else if lower (strip (uf_email form)) \<in> email ` set (users s) then ret Page
       else case role_by_code (uf_role_code form) s of
              None \<Rightarrow> ret Page
            | Some r \<Rightarrow>
                committing (\<lambda>_. False)
                  (bind (lift (hashpw (uf_password form))) (\<lambda>hashed.
                   bind take_uuid (\<lambda>i.
                   seq (insert_user (new_user form hashed (role_id r) i))
                       (record_entry ''user'' CREATE (Some i) [(''role'', JStr (role_code r))] None))))
                  (\<lambda>_. Redirect users_url) Page) s = (Inr (Redirect users_url), s')"
    using assms(1) unfolding users_new_post_def by (rule permission_answer) (simp_all add: users_url_def with_state_def)
  then obtain r where r: "8 \<le> length (uf_password form)" "lower (strip (uf_email form)) \<notin> email ` set (users s)"
    "role_by_code (uf_role_code form) s = Some r"
    by (auto split: if_splits option.splits)
  define m :: "('a auth_db_scheme, audit_row) py" where "m = bind (lift (hashpw (uf_password form))) (\<lambda>hashed.
                   bind take_uuid (\<lambda>i.
                   seq (insert_user (new_user form hashed (role_id r) i))
                       (record_entry ''user'' CREATE (Some i) [(''role'', JStr (role_code r))] None)))"
  have "committing (\<lambda>_. False) m (\<lambda>_. Redirect users_url) Page s = (Inr (Redirect users_url), s')"
    using u r by (simp add: m_def)
  then obtain y t where t: "m s = (Inr y, t)" "s' = commit t" using committing_Inr by blast
  have w: "writable (s\<lparr>uuid_next := n, users := us\<rparr>)" for n us
    using assms(2) by (simp add: writable_def audit_update_allowed_def)
  obtain h where h: "hashpw (uf_password form) = Inr h"
    using t(1) by (cases "hashpw (uf_password form)") (simp_all add: m_def lift_def)
  have "m s = record_entry ''user'' CREATE (Some (gen_uuid s)) [(''role'', JStr (role_code r))] None
      (s\<lparr>uuid_next := Suc (uuid_next s), users := users s @ [new_user form h (role_id r) (gen_uuid s)]\<rparr>)"
    using assms(2) r(2)
    by (auto simp: m_def h lift_def bind_def take_uuid_def seq_def insert_user_def new_user_def writable_def)
  with t(1) w obtain l n where T: "t = s\<lparr>uuid_next := Suc (uuid_next s),
      users := users s @ [new_user form h (role_id r) (gen_uuid s)], audit_log := l, audit_seq := n\<rparr>"
    by (simp add: record_entry_ok) blast
  have "\<not> session_failed s" using assms(2) by (simp add: writable_def)
  then show thesis by (intro that [OF r h]) (simp_all add: t(2) T commit_def)
qed

text \<open>
  C36. A new account can sign in. After the page has stored a new active account, the e-mail
  address as it was typed and the password authenticate as that account, with the role that was
  chosen and not locked, when the password hash verifies the password it was made from.
\<close>

theorem new_account_signs_in:
  assumes post: "users_new_post hashpw form s = (Inr (Redirect users_url), s')"
    and w: "writable s" "\<not> audit_redact_ok s" and roles: "distinct (map role_id (roles s))" and act: "uf_is_active form"
    and bcrypt: "\<And>h. hashpw (uf_password form) = Inr h \<Longrightarrow> checkpw (uf_password form) h = Some True"
  shows "\<exists>u s''. authenticate checkpw (uf_email form) (uf_password form) s' = (Inr (Some u), s'') \<and>
    u \<in> set (users s'') \<and> email u = lower (strip (uf_email form)) \<and> \<not> is_locked u (clock s'') \<and>
    map_option role_code (role_of u s'') = Some (uf_role_code form)"
proof -
  obtain r h where r: "lower (strip (uf_email form)) \<notin> email ` set (users s)"
    "role_by_code (uf_role_code form) s = Some r" "hashpw (uf_password form) = Inr h"
    "users s' = users s @ [new_user form h (role_id r) (gen_uuid s)]" "roles s' = roles s"
    "dialect s' = dialect s" "immutable_trigger s' = immutable_trigger s" "session_failed s' = False"
    "app_config s' = app_config s" "clock s' = clock s"
    by (rule users_new_post_Inr [OF post w(1)])
  let ?u = "new_user form h (role_id r) (gen_uuid s)"
  let ?v = "?u\<lparr>failed_attempts := 0, locked_until := None, last_login_at := Some (utcnow s')\<rparr>"
  have found: "by_key email (strip (lower (uf_email form))) (users s') = Some ?u"
    using r(1) by (simp add: strip_lower r(4) by_key_append by_key_None [THEN iffD2] split: option.splits)
      (simp add: by_key_def new_user_def)
  have writable: "writable s'" using w r(6-8) by (auto simp: writable_def audit_update_allowed_def)
  have w': "writable (put_user ?v s')" using writable by (simp add: writable_def audit_update_allowed_def put_user_def)
  have ok: "verify_password checkpw (uf_password form) (password_hash ?u)" "is_active_flag ?u" "locked_until ?u = None"
    using bcrypt [OF r(3)] act by (simp_all add: verify_password_def new_user_def)
  define t where "t = commit (snd (record_entry ''user'' LOGIN_SUCCESS (Some (u_id ?v)) [] (Some (u_id ?v)) (put_user ?v s')))"
  have run: "authenticate checkpw (uf_email form) (uf_password form) s' = (Inr (Some ?v), t)"
    using ok record_entry_ok [OF w', of "''user''" LOGIN_SUCCESS "Some (u_id ?v)" "[]" "Some (u_id ?v)"]
    by (simp add: authenticate_def found is_locked_def served_lockout_def Let_def seq_def bind_def t_def)
  have T: "users t = update_row u_id (u_id ?v) (\<lambda>_. ?v) (users s')" "roles t = roles s"
    using w' by (simp_all add: t_def record_entry_ok commit_def put_user_def r(5))
  have "role_code r = uf_role_code form" "r \<in> set (roles s)"
    using by_key_Some [of role_code "uf_role_code form" "roles s" r] r(2) by (simp_all add: role_by_code_def)
  then have "map_option role_code (role_of ?v t) = Some (uf_role_code form)"
    using roles by (simp add: role_of_def T new_user_def by_key_unique)
  moreover have "?v \<in> set (users t)" by (simp add: T r(4) update_row_def)
  moreover have "email ?v = lower (strip (uf_email form)) \<and> \<not> is_locked ?v (clock t)" by (simp add: new_user_def is_locked_def)
  ultimately show ?thesis using run by blast
qed

subsection \<open>Editing an account\<close>

lemma users_edit_post_Inr:
  fixes s :: "'a auth_db_scheme"
  assumes "users_edit_post hashpw uid form s = (Inr (Redirect users_url), s')" "writable s"
  obtains u r hashed where "by_key u_id uid (users s) = Some u" "role_of u s = Some r"
    "case hashed of None \<Rightarrow> uf_password form = []
       | Some h \<Rightarrow> 8 \<le> length (uf_password form) \<and> hashpw (uf_password form) = Inr h"
    "users s' = update_row u_id uid (\<lambda>_. edited_user form (role_by_code (uf_role_code form) s) hashed u) (users s)"
    "roles s' = roles s"
    "audit_log s' = audit_log s @ [with_checksum (json_hash s) (new_entry ''user'' UPDATE (Some uid)
       [(''before'', account_diff r (is_active_flag u)), (''after'', account_diff r (uf_is_active form))] None s)]"
proof -
  define d :: "user \<Rightarrow> role \<Rightarrow> (string \<times> json) list" where "d = (\<lambda>u r. [(''before'', account_diff r (is_active_flag u)), (''after'', account_diff r (uf_is_active form))])"
  define hashing :: "('a auth_db_scheme, string option) py" where
    "hashing = (if uf_password form = [] then ret None else bind (lift (hashpw (uf_password form))) (\<lambda>h. ret (Some h)))"
  define m :: "user \<Rightarrow> role \<Rightarrow> ('a auth_db_scheme, audit_row) py" where
    "m = (\<lambda>u r. bind hashing (\<lambda>hashed.
       seq (modify (put_user (edited_user form (role_by_code (uf_role_code form) s) hashed u)))
           (record_entry ''user'' UPDATE (Some uid) (d u r) None)))"
  obtain u0 where "(case by_key u_id uid (users s) of None \<Rightarrow> ret (Abort 404)
       | Some u \<Rightarrow> (case role_of u s of None \<Rightarrow> throw (AttributeError ''code'')
            | Some r \<Rightarrow> if uf_password form \<noteq> [] \<and> length (uf_password form) < 8 then ret Page
                else committing (\<lambda>_. False) (m u r) (\<lambda>_. Redirect users_url) Page)) s = (Inr (Redirect users_url), s')"
    using assms(1) unfolding users_edit_post_def m_def d_def hashing_def
    by (rule permission_answer) (simp_all add: users_url_def with_state_def)
  then obtain u r where r: "by_key u_id uid (users s) = Some u" "role_of u s = Some r"
    "uf_password form = [] \<or> 8 \<le> length (uf_password form)"
    "committing (\<lambda>_. False) (m u r) (\<lambda>_. Redirect users_url) Page s = (Inr (Redirect users_url), s')"
    by (auto split: if_splits option.splits)
  then obtain y t where t: "m u r s = (Inr y, t)" "s' = commit t" using committing_Inr by blast
  obtain hashed where h: "hashing s = (Inr hashed, s)"
    "case hashed of None \<Rightarrow> uf_password form = [] | Some h \<Rightarrow> 8 \<le> length (uf_password form) \<and> hashpw (uf_password form) = Inr h"
  proof (cases "uf_password form = []")
    case True
    then show thesis by (intro that [of None]) (simp_all add: hashing_def)
  next
    case False
    with t(1) obtain h where "hashpw (uf_password form) = Inr h"
      by (cases "hashpw (uf_password form)") (simp_all add: m_def hashing_def lift_def)
    with False r(3) show thesis by (intro that [of "Some h"]) (simp_all add: hashing_def lift_def)
  qed
  let ?e = "edited_user form (role_by_code (uf_role_code form) s) hashed u"
  have id: "u_id ?e = uid" using by_key_Some [OF r(1)] by (simp add: edited_user_def)
  have w: "writable (put_user ?e s)" using assms(2) by (simp add: writable_def audit_update_allowed_def put_user_def)
  have "m u r s = record_entry ''user'' UPDATE (Some uid) (d u r) None (put_user ?e s)"
    using h(1) by (simp add: m_def seq_def bind_def)
  moreover have "new_entry ''user'' UPDATE (Some uid) (d u r) None (put_user ?e s) = new_entry ''user'' UPDATE (Some uid) (d u r) None s"
    by (simp add: new_entry_def put_user_def utcnow_def session_user_id_def request_metadata_def)
  ultimately have "users s' = update_row u_id uid (\<lambda>_. ?e) (users s)" "roles s' = roles s"
    "audit_log s' = audit_log s @ [with_checksum (json_hash s) (new_entry ''user'' UPDATE (Some uid) (d u r) None s)]"
    using t w id by (auto simp: record_entry_ok commit_def put_user_def)
  then show thesis unfolding d_def by (rule that [OF r(1,2) h(2)])
qed

lemma by_key_overwrite:
  assumes "by_key key k rows = Some r" "key v = k"
  shows "by_key key j (update_row key k (\<lambda>_. v) rows) = (if j = k then Some v else by_key key j rows)"
proof (cases "j = k")
  case True
  then show ?thesis using assms by (induction rows) (auto simp: by_key_def update_row_def)
next
  case False
  then have "by_key key j (update_row key k (\<lambda>_. v) rows) = by_key key j rows"
    using assms(2) by (induction rows) (auto simp: by_key_def update_row_def)
  with False show ?thesis by simp
qed

text \<open>
  C37. What an edit of an account changes. After a successful edit the other accounts are as they
  were; the edited one keeps its e-mail address, its second factor and its lockout, a new password
  among them; it has the chosen role if there is one of that code; its hash changes only to that of
  a password of at least eight characters. The entry in the audit log shows the old role both
  before and after, whichever role was assigned.
\<close>

theorem account_edit_effect:
  assumes "users_edit_post hashpw uid form s = (Inr (Redirect users_url), s')" "writable s"
    "distinct (map role_id (roles s))"
  shows "\<exists>u u' old e. by_key u_id uid (users s) = Some u \<and> by_key u_id uid (users s') = Some u' \<and>
    (\<forall>i. i \<noteq> uid \<longrightarrow> by_key u_id i (users s') = by_key u_id i (users s)) \<and>
    email u' = email u \<and> totp_secret u' = totp_secret u \<and> totp_enrolled_at u' = totp_enrolled_at u \<and>
    failed_attempts u' = failed_attempts u \<and> locked_until u' = locked_until u \<and> is_active_flag u' = uf_is_active form \<and>
    (role_by_code (uf_role_code form) s \<noteq> None \<longrightarrow> role_of u' s' = role_by_code (uf_role_code form) s) \<and>
    (password_hash u' \<noteq> password_hash u \<longrightarrow>
       8 \<le> length (uf_password form) \<and> hashpw (uf_password form) = Inr (password_hash u')) \<and>
    audit_log s' = audit_log s @ [e] \<and> role_of u s = Some old \<and>
    diff e = JObj [(''before'', account_diff old (is_active_flag u)), (''after'', account_diff old (is_active_flag u'))]"
proof -
  obtain u r hashed where r: "by_key u_id uid (users s) = Some u" "role_of u s = Some r"
    "case hashed of None \<Rightarrow> uf_password form = []
       | Some h \<Rightarrow> 8 \<le> length (uf_password form) \<and> hashpw (uf_password form) = Inr h"
    "users s' = update_row u_id uid (\<lambda>_. edited_user form (role_by_code (uf_role_code form) s) hashed u) (users s)"
    "roles s' = roles s"
    "audit_log s' = audit_log s @ [with_checksum (json_hash s) (new_entry ''user'' UPDATE (Some uid)
       [(''before'', account_diff r (is_active_flag u)), (''after'', account_diff r (uf_is_active form))] None s)]"
    by (rule users_edit_post_Inr [OF assms(1,2)])
  let ?e = "edited_user form (role_by_code (uf_role_code form) s) hashed u"
  have u: "u \<in> set (users s)" "u_id u = uid" using by_key_Some [OF r(1)] by auto
  have e: "u_id ?e = uid" by (simp add: edited_user_def u)
  have "by_key u_id i (users s') = (if i = uid then Some ?e else by_key u_id i (users s))" for i
    unfolding r(4) using r(1) e by (rule by_key_overwrite)
  moreover have "role_of ?e s' = Some q" if q: "role_by_code (uf_role_code form) s = Some q" for q
  proof -
    have "q \<in> set (roles s)" using q by (auto simp: role_by_code_def dest: by_key_Some)
    then show ?thesis using q assms(3) by (simp add: role_of_def r(5) edited_user_def by_key_unique)
  qed
  moreover have "password_hash ?e \<noteq> password_hash u \<longrightarrow>
      8 \<le> length (uf_password form) \<and> hashpw (uf_password form) = Inr (password_hash ?e)"
    using r(3) by (cases hashed) (simp_all add: edited_user_def)
  moreover have "email ?e = email u" "totp_secret ?e = totp_secret u" "totp_enrolled_at ?e = totp_enrolled_at u"
    "failed_attempts ?e = failed_attempts u" "locked_until ?e = locked_until u" "is_active_flag ?e = uf_is_active form"
    by (simp_all add: edited_user_def)
  ultimately show ?thesis
    by (intro exI [of _ u] exI [of _ ?e] exI [of _ r] exI [of _ "with_checksum (json_hash s) (new_entry ''user'' UPDATE
        (Some uid) [(''before'', account_diff r (is_active_flag u)), (''after'', account_diff r (uf_is_active form))] None s)"])
      (auto simp: r(1,2,6) with_checksum_def new_entry_def)
qed

subsection \<open>A sample and the witnesses\<close>

definition sample_user_form :: "string \<Rightarrow> user_form" where
  "sample_user_form r =
     \<lparr>uf_email = '' New@B '', uf_full_name = ''N'', uf_role_code = r, uf_language = ''en'', uf_password = ''12345678'',
      uf_is_active = True\<rparr>"

definition sample_accounts :: auth_db where
  "sample_accounts = (sample_auth [sample_user None])
     \<lparr>request_context := Some \<lparr>remote_addr = None, user_agent_string = [], current_user_id = Some ''u1''\<rparr>,
      roles := [\<lparr>role_id = ''r1'', role_code = ''admin'', role_permissions = [''users.manage'']\<rparr>,
                \<lparr>role_id = ''r2'', role_code = ''qa'', role_permissions = []\<rparr>]\<rparr>"

lemma sample_accounts_state:
  "current_user sample_accounts = Some (sample_user None)" "has_permission (sample_user None) ''users.manage'' sample_accounts"
  "writable sample_accounts" "\<not> audit_redact_ok sample_accounts" "\<not> session_failed sample_accounts"
  "users sample_accounts = [sample_user None]" "distinct (map role_id (roles sample_accounts))"
  "role_by_code ''qa'' sample_accounts = Some \<lparr>role_id = ''r2'', role_code = ''qa'', role_permissions = []\<rparr>"
  "role_of (sample_user None) sample_accounts =
     Some \<lparr>role_id = ''r1'', role_code = ''admin'', role_permissions = [''users.manage'']\<rparr>"
  by (simp_all add: sample_accounts_def sample_auth_def current_user_def session_user_id_def by_key_def sample_user_def
      has_permission_def role_of_def role_has_permission_def writable_def audit_update_allowed_def role_by_code_def)

lemma sample_address: "lower (strip '' New@B '') = ''new@b''"
  by code_simp

theorem new_account_signs_in_witness:
  "\<exists>s' u s''. users_new_post Inr (sample_user_form ''qa'') sample_accounts = (Inr (Redirect users_url), s') \<and>
     authenticate (\<lambda>p h. Some (p = h)) '' New@B '' ''12345678'' s' = (Inr (Some u), s'') \<and> email u = ''new@b'' \<and>
     map_option role_code (role_of u s'') = Some ''qa''"
proof -
  have w: "writable (sample_accounts\<lparr>uuid_next := n, users := us\<rparr>)" for n us
    using sample_accounts_state(3) by (simp add: writable_def audit_update_allowed_def)
  have "fst (users_new_post Inr (sample_user_form ''qa'') sample_accounts) = Inr (Redirect users_url)"
    using w by (simp add: users_new_post_def require_permission_def sample_accounts_state sample_user_form_def sample_address
        lift_def committing_def bind_def seq_def take_uuid_def insert_user_def new_user_def record_entry_ok)
      (simp add: sample_user_def)
  then obtain s' where post: "users_new_post Inr (sample_user_form ''qa'') sample_accounts = (Inr (Redirect users_url), s')"
    by (metis prod.collapse)
  have "\<exists>u s''. authenticate (\<lambda>p h. Some (p = h)) (uf_email (sample_user_form ''qa'')) (uf_password (sample_user_form ''qa'')) s' =
      (Inr (Some u), s'') \<and> u \<in> set (users s'') \<and> email u = lower (strip (uf_email (sample_user_form ''qa''))) \<and>
      \<not> is_locked u (clock s'') \<and> map_option role_code (role_of u s'') = Some (uf_role_code (sample_user_form ''qa''))"
    by (rule new_account_signs_in [OF post]) (simp_all add: sample_accounts_state sample_user_form_def)
  with post show ?thesis by (simp add: sample_user_form_def sample_address) blast
qed

theorem account_edit_effect_witness:
  "\<exists>s' u e. users_edit_post Inr ''u1'' (sample_user_form ''qa'') sample_accounts = (Inr (Redirect users_url), s') \<and>
     by_key u_id ''u1'' (users s') = Some u \<and> email u = ''a@b'' \<and> map_option role_code (role_of u s') = Some ''qa'' \<and>
     audit_log s' = audit_log sample_accounts @ [e] \<and>
     diff e = JObj [(''before'', JObj [(''role'', JStr ''admin''), (''is_active'', JBool True)]),
                    (''after'', JObj [(''role'', JStr ''admin''), (''is_active'', JBool True)])]"
proof -
  have u1: "by_key u_id ''u1'' [sample_user None] = Some (sample_user None)" by (simp add: by_key_def sample_user_def)
  have w: "writable (put_user v sample_accounts)" for v
    using sample_accounts_state(3) by simp
  have "fst (users_edit_post Inr ''u1'' (sample_user_form ''qa'') sample_accounts) = Inr (Redirect users_url)"
    using w by (simp add: users_edit_post_def require_permission_def sample_accounts_state u1 sample_user_form_def
        lift_def committing_def bind_def seq_def record_entry_ok)
  then obtain s' where post: "users_edit_post Inr ''u1'' (sample_user_form ''qa'') sample_accounts = (Inr (Redirect users_url), s')"
    by (metis prod.collapse)
  obtain u u' old e where U: "by_key u_id ''u1'' (users sample_accounts) = Some u" "by_key u_id ''u1'' (users s') = Some u'"
    "email u' = email u" "is_active_flag u' = uf_is_active (sample_user_form ''qa'')"
    "role_by_code (uf_role_code (sample_user_form ''qa'')) sample_accounts \<noteq> None \<longrightarrow>
       role_of u' s' = role_by_code (uf_role_code (sample_user_form ''qa'')) sample_accounts"
    "audit_log s' = audit_log sample_accounts @ [e]" "role_of u sample_accounts = Some old"
    "diff e = JObj [(''before'', account_diff old (is_active_flag u)), (''after'', account_diff old (is_active_flag u'))]"
    using account_edit_effect [OF post sample_accounts_state(3,7)] by blast
  have u: "u = sample_user None" using U(1) by (simp add: sample_accounts_state u1)
  then have "old = \<lparr>role_id = ''r1'', role_code = ''admin'', role_permissions = [''users.manage'']\<rparr>"
    using U(7) sample_accounts_state(9) by simp
  moreover have "email u' = ''a@b''" "is_active_flag u = True" using U(3) by (simp_all add: u sample_user_def)
  moreover have "map_option role_code (role_of u' s') = Some ''qa''"
    using U(5) sample_accounts_state(8) by (simp add: sample_user_form_def)
  ultimately have "email u' = ''a@b'' \<and> diff e = JObj
      [(''before'', JObj [(''role'', JStr ''admin''), (''is_active'', JBool True)]),
       (''after'', JObj [(''role'', JStr ''admin''), (''is_active'', JBool True)])]"
    using U(4,8) by (simp add: account_diff_def sample_user_form_def)
  with post U(2,6) \<open>map_option role_code (role_of u' s') = Some ''qa''\<close> show ?thesis by blast
qed

end
