(* ===== verification/Reports.thy ===== *)
theory Reports
  imports Haccp Accounts
begin

text \<open>
  The two reports of app/services/reports.py and their routes in app/blueprints/reports.py: the
  data a report shows. The page template and WeasyPrint turn it into a PDF and are not modelled.
  \<open>pct n bad\<close> is \<open>round((n - bad) / n * 100, 2)\<close> in double arithmetic, a parameter.
\<close>

subsection \<open>The monthly HACCP report\<close>

text \<open>From midnight of the first to 23:59:59 of the last day.\<close>

definition month_bounds :: "int \<Rightarrow> int \<Rightarrow> exc + (int \<times> int)" where
  "month_bounds y m =
     (if \<not> (1 \<le> m \<and> m \<le> 12) then Inl (ValueError ''month out of range'')
      else if \<not> (1 \<le> y \<and> y \<le> 9999) then Inl (ValueError ''year is out of range'')
      else Inr (at_time \<lparr>year = y, month = m, day = 1\<rparr> 0,
                at_time \<lparr>year = y, month = m, day = days_in_month y m\<rparr> (86399 * us_second)))"

record ccp_report =
  rr_ccp :: ccp_definition
  rr_measurements :: "ccp_measurement list"
  rr_total :: nat
  rr_deviations :: nat
  rr_within_pct :: "pyfloat option"

record haccp_report =
  hr_from :: int
  hr_to :: int
  hr_line :: "production_line option"
  hr_rows :: "ccp_report list"
  hr_total :: nat
  hr_deviations :: nat
  hr_within_pct :: "pyfloat option"

definition report_ccps :: "production_line option \<Rightarrow> 'a haccp_db_scheme \<Rightarrow> ccp_definition list" where
  "report_ccps line s =
     sort_key ccp_code
       (filter (\<lambda>c. ccp_is_active c \<and> (case line of None \<Rightarrow> True | Some l \<Rightarrow> ccp_line_id c = line_id l)) (ccp_definitions s))"

definition report_measurements :: "int \<Rightarrow> int \<Rightarrow> ccp_definition \<Rightarrow> 'a haccp_db_scheme \<Rightarrow> ccp_measurement list" where
  "report_measurements start stop c s =
     sort_key (\<lambda>m. instant (measured_at m))
       (filter (\<lambda>m. cm_ccp_id m = ccp_id c \<and> start \<le> instant (measured_at m) \<and> instant (measured_at m) \<le> stop)
         (ccp_measurements s))"

definition within_pct :: "(nat \<Rightarrow> nat \<Rightarrow> pyfloat) \<Rightarrow> nat \<Rightarrow> nat \<Rightarrow> pyfloat option" where
  "within_pct pct n bad = (if n = 0 then None else Some (pct n bad))"

definition report_row :: "(nat \<Rightarrow> nat \<Rightarrow> pyfloat) \<Rightarrow> int \<Rightarrow> int \<Rightarrow> 'a haccp_db_scheme \<Rightarrow> ccp_definition \<Rightarrow> ccp_report" where
  "report_row pct start stop s c =
     (let ms = report_measurements start stop c s; n = length ms;
          bad = length (filter (\<lambda>m. \<not> cm_within_limits m) ms)
      in \<lparr>rr_ccp = c, rr_measurements = ms, rr_total = n, rr_deviations = bad, rr_within_pct = within_pct pct n bad\<rparr>)"

text \<open>A line id that names no line is no restriction.\<close>

definition haccp_monthly_context ::
  "(nat \<Rightarrow> nat \<Rightarrow> pyfloat) \<Rightarrow> int \<Rightarrow> int \<Rightarrow> string option \<Rightarrow> 'a haccp_db_scheme \<Rightarrow> exc + haccp_report" where
  "haccp_monthly_context pct y m lid s =
     (case month_bounds y m of
        Inl e \<Rightarrow> Inl e
      | Inr (start, stop) \<Rightarrow>
          let line = (if truthy lid then by_key line_id (or_empty lid) (lines s) else None);
              rows = map (report_row pct start stop s) (report_ccps line s);
              n = sum_list (map rr_total rows); bad = sum_list (map rr_deviations rows)
          in Inr \<lparr>hr_from = start, hr_to = stop, hr_line = line, hr_rows = rows, hr_total = n, hr_deviations = bad,
                  hr_within_pct = within_pct pct n bad\<rparr>)"

subsection \<open>The traceability report\<close>

record trace_report =
  tc_entries :: "audit_row list"
  tc_users :: "user list"
  tc_chain :: "bool \<times> int option"
  tc_total :: nat

definition fsa_traceability_context :: "date \<Rightarrow> date \<Rightarrow> 'a auth_db_scheme \<Rightarrow> exc + trace_report" where
  "fsa_traceability_context date_from date_to s =
     (if toordinal date_to < toordinal date_from then Inl (ValueError ''date_to must be >= date_from'')
      else
        let start = at_time date_from 0; stop = at_time date_to (us_day - 1);
            entries = sort_key al_id
              (filter (\<lambda>r. start \<le> instant (occurred_at r) \<and> instant (occurred_at r) \<le> stop) (audit_log s));
            ids = filter (\<lambda>i. i \<noteq> []) (map (\<lambda>r. or_empty (al_user_id r)) entries)
        in Inr \<lparr>tc_entries = entries, tc_users = filter (\<lambda>u. u_id u \<in> set ids) (users s), tc_chain = verify_chain s,
                tc_total = length entries\<rparr>)"

subsection \<open>The routes\<close>

datatype 'r report_response = Report 'r string | BadRequest | Failed exc

definition today :: "'a session_scheme \<Rightarrow> date" where
  "today s = date_of (clock s)"

definition int_arg :: "string option \<Rightarrow> int \<Rightarrow> int option" where
  "int_arg arg dflt = (case arg of None \<Rightarrow> Some dflt | Some v \<Rightarrow> python_int v)"

text \<open>A year the calendar does not have is not refused by the route: the service raises.\<close>

definition haccp_monthly_route ::
  "(nat \<Rightarrow> nat \<Rightarrow> pyfloat) \<Rightarrow> string option \<Rightarrow> string option \<Rightarrow> string option \<Rightarrow> 'a haccp_db_scheme \<Rightarrow>
   haccp_report report_response" where
  "haccp_monthly_route pct year_arg month_arg line_arg s =
     (case (int_arg year_arg (year (today s)), int_arg month_arg (month (today s))) of
        (Some y, Some m) \<Rightarrow>
          if \<not> (1 \<le> m \<and> m \<le> 12) then BadRequest
          else (case haccp_monthly_context pct y m (or_none (or_empty line_arg)) s of
                  Inl e \<Rightarrow> Failed e
                | Inr r \<Rightarrow> Report r (''haccp-monthly-'' @ zpad 4 (nat y) @ ''-'' @ zpad 2 (nat m) @ ''.pdf''))
      | _ \<Rightarrow> BadRequest)"

definition parse_date :: "string option \<Rightarrow> date option" where
  "parse_date arg = (if truthy arg then parse_day (or_empty arg) else None)"

definition fsa_traceability_route ::
  "string option \<Rightarrow> string option \<Rightarrow> 'a auth_db_scheme \<Rightarrow> trace_report report_response" where
  "fsa_traceability_route from_arg to_arg s =
     (case (parse_date from_arg, parse_date to_arg) of
        (Some a, Some b) \<Rightarrow>
          if toordinal b < toordinal a then BadRequest
          else (case fsa_traceability_context a b s of
                  Inl e \<Rightarrow> Failed e
                | Inr r \<Rightarrow> Report r (''fsa-traceability-'' @ iso_date a @ ''_'' @ iso_date b @ ''.pdf''))
      | _ \<Rightarrow> BadRequest)"

subsection \<open>What a report covers\<close>

text \<open>Midnights and days: an instant on the day \<open>date_of t\<close>.\<close>

lemma toordinal_date_of: "1 \<le> t div us_day \<Longrightarrow> toordinal (date_of t) = t div us_day"
  by (simp add: date_of_def toordinal_fromordinal)

lemma at_time_le: "at_time d 0 \<le> t \<longleftrightarrow> toordinal d \<le> t div us_day"
proof -
  define q r where "q = t div us_day" and "r = t mod us_day"
  have "t = q * us_day + r" "0 \<le> r" "r < us_day" by (simp_all add: q_def r_def us_day_def)
  then show ?thesis unfolding q_def [symmetric] at_time_def us_day_def by auto
qed

lemma le_at_time:
  assumes "0 \<le> us" "us < us_day"
  shows "t \<le> at_time d us \<longleftrightarrow> t div us_day < toordinal d \<or> t div us_day = toordinal d \<and> t mod us_day \<le> us"
proof -
  define q r where "q = t div us_day" and "r = t mod us_day"
  have "t = q * us_day + r" "0 \<le> r" "r < us_day" by (simp_all add: q_def r_def us_day_def)
  then show ?thesis
    using assms unfolding q_def [symmetric] r_def [symmetric] at_time_def us_day_def by auto
qed

lemma month_days:
  assumes "1 \<le> y" "y \<le> 9999" "1 \<le> m" "m \<le> 12" "valid_date d"
  shows "toordinal \<lparr>year = y, month = m, day = 1\<rparr> \<le> toordinal d \<and>
      toordinal d \<le> toordinal \<lparr>year = y, month = m, day = days_in_month y m\<rparr> \<longleftrightarrow> year d = y \<and> month d = m"
proof
  assume between: "toordinal \<lparr>year = y, month = m, day = 1\<rparr> \<le> toordinal d \<and>
      toordinal d \<le> toordinal \<lparr>year = y, month = m, day = days_in_month y m\<rparr>"
  define k where "k = toordinal d - days_before_year y - days_before_month y m"
  let ?e = "\<lparr>year = y, month = m, day = k\<rparr>"
  have k: "1 \<le> k" "k \<le> days_in_month y m" using between by (simp_all add: k_def toordinal_def)
  then have "valid_date ?e" using assms by (simp add: valid_date_def)
  moreover have "toordinal ?e = toordinal d" by (simp add: toordinal_def k_def)
  ultimately have "d = ?e" using fromordinal_toordinal [of d] fromordinal_toordinal [of ?e] assms(5) by simp
  then show "year d = y \<and> month d = m" by simp
next
  assume "year d = y \<and> month d = m"
  with assms(5) show "toordinal \<lparr>year = y, month = m, day = 1\<rparr> \<le> toordinal d \<and>
      toordinal d \<le> toordinal \<lparr>year = y, month = m, day = days_in_month y m\<rparr>"
    by (auto simp: valid_date_def toordinal_def)
qed

lemma month_bounds_iff:
  assumes "month_bounds y m = Inr (start, stop)" "valid_date (date_of t)" "1 \<le> t div us_day"
  shows "start \<le> t \<and> t \<le> stop \<longleftrightarrow> year (date_of t) = y \<and> month (date_of t) = m \<and>
    \<not> (day (date_of t) = days_in_month y m \<and> 86399 * us_second < t mod us_day)"
proof -
  let ?last = "\<lparr>year = y, month = m, day = days_in_month y m\<rparr>"
  have b: "1 \<le> m" "m \<le> 12" "1 \<le> y" "y \<le> 9999" "start = at_time \<lparr>year = y, month = m, day = 1\<rparr> 0"
    "stop = at_time ?last (86399 * us_second)"
    using assms(1) by (auto simp: month_bounds_def split: if_splits)
  have ord: "toordinal (date_of t) = t div us_day" using assms(3) by (rule toordinal_date_of)
  have stop: "t \<le> stop \<longleftrightarrow> t div us_day < toordinal ?last \<or> t div us_day = toordinal ?last \<and> t mod us_day \<le> 86399 * us_second"
    unfolding b(6) by (rule le_at_time) (simp_all add: us_second_def us_day_def)
  have same: "toordinal (date_of t) = toordinal ?last \<longleftrightarrow> date_of t = ?last"
  proof
    have "valid_date ?last" using b days_in_month_bounds [of y m] by (simp add: valid_date_def)
    then show "date_of t = ?last" if "toordinal (date_of t) = toordinal ?last"
      using that assms(2) fromordinal_toordinal by metis
  qed simp
  have "(toordinal (date_of t) = toordinal ?last) = ((year (date_of t) = y \<and> month (date_of t) = m) \<and> day (date_of t) = days_in_month y m)"
    unfolding same by (cases "date_of t") auto
  moreover have "(f \<le> n \<and> (n < l \<or> n = l \<and> Q)) = (P \<and> \<not> (D \<and> \<not> Q))"
    if "(f \<le> n \<and> n \<le> l) = P" "(n = l) = (P \<and> D)" for f n l :: int and P D Q
    using that by auto
  ultimately have "(start \<le> t \<and> t \<le> stop) = ((year (date_of t) = y \<and> month (date_of t) = m) \<and>
      \<not> (day (date_of t) = days_in_month y m \<and> \<not> t mod us_day \<le> 86399 * us_second))"
    using month_days [OF b(3,4,1,2) assms(2)] unfolding stop unfolding b(5) at_time_le ord by blast
  then show ?thesis by (simp add: not_le)
qed

lemma report_totals:
  "sum_list (map rr_total (map (report_row pct start stop s) cs)) =
     length (concat (map rr_measurements (map (report_row pct start stop s) cs)))"
  "sum_list (map rr_deviations (map (report_row pct start stop s) cs)) =
     length (filter (\<lambda>x. \<not> cm_within_limits x) (concat (map rr_measurements (map (report_row pct start stop s) cs))))"
  by (induction cs) (simp_all add: report_row_def Let_def)


text \<open>The traceability report covers whole days, to the last microsecond.\<close>

lemma traceability_days:
  assumes "fsa_traceability_context a b s = Inr r"
    "\<forall>e\<in>set (audit_log s). 1 \<le> instant (occurred_at e) div us_day"
  shows "set (tc_entries r) = {e \<in> set (audit_log s). toordinal a \<le> toordinal (date_of (instant (occurred_at e))) \<and>
      toordinal (date_of (instant (occurred_at e))) \<le> toordinal b}"
proof -
  have "instant (occurred_at e) mod us_day \<le> us_day - 1" for e by (simp add: us_day_def)
  then show ?thesis
    using assms
    by (auto simp: fsa_traceability_context_def Let_def at_time_le le_at_time us_day_def toordinal_date_of
        split: if_splits)
qed

subsection \<open>The witness\<close>

text \<open>The last day of January 2026, at noon and half a second before midnight.\<close>

definition sample_reading :: "string \<Rightarrow> int \<Rightarrow> ccp_measurement" where
  "sample_reading i us =
     \<lparr>cm_id = i, cm_ccp_id = ''c1'', measured_value = Fin 230,
      measured_at = Aware (at_time \<lparr>year = 2026, month = 1, day = 31\<rparr> us), measured_by_user_id = None,
      cm_device_id = None, cm_within_limits = True, cm_notes = None, cm_linked_ticket_id = None\<rparr>"

definition sample_month :: haccp_db where
  "sample_month = sample_haccp\<lparr>ccp_measurements :=
     [sample_reading ''noon'' (43200 * us_second), sample_reading ''late'' (86399 * us_second + 500000)]\<rparr>"


end
