(* ===== verification/Seeds.thy ===== *)
theory Seeds
  imports Pipelines Accounts Certified UniqueInsert
begin

text \<open>
  The seeding of a new database (app/seeds.py): permissions, roles and what they may do, the first
  administrator, and the demonstration line with its pipeline. The permission table is the list of
  its codes, passed along; the labels of a role and the location of a line are not columns of the
  model. The demonstration rows of the other tables (\<open>_seed_demo_ccps\<close>, \<open>_seed_demo_salsa\<close>,
  \<open>_seed_demo_triggers\<close>, \<open>_seed_demo_training\<close>) are in SeedDemo.
\<close>

subsection \<open>Permissions and roles\<close>

text \<open>The codes of \<open>PERMISSIONS\<close> in app/permissions.py, in its order.\<close>

definition PERMISSIONS :: "perm list" where
  "PERMISSIONS = [TICKETS_CREATE, TICKETS_CLASSIFY, TICKETS_CORRECTIVE_ACTION, TICKETS_CLOSE, TICKETS_VIEW,
     CCP_MEASURE, CCP_DEFINE, SALSA_RESPOND, SALSA_DEFINE, PIPELINE_CONFIGURE, TRIGGERS_DEFINE, USERS_MANAGE,
     AUDIT_EXPORT, AUDIT_VIEW, REPORTS_GENERATE, DASHBOARD_VIEW, SYSTEM_CONFIGURE, DLQ_MANAGE,
     TRAINING_AUTHOR, TRAINING_REVIEW, TRAINING_SEND]"

fun ROLE_PERMISSIONS :: "user_role \<Rightarrow> perm list" where
  "ROLE_PERMISSIONS OPERATOR = [TICKETS_CREATE, TICKETS_VIEW, CCP_MEASURE, SALSA_RESPOND, DASHBOARD_VIEW]"
| "ROLE_PERMISSIONS QA = [TICKETS_CREATE, TICKETS_VIEW, TICKETS_CLASSIFY, TICKETS_CORRECTIVE_ACTION, CCP_MEASURE,
     SALSA_RESPOND, DASHBOARD_VIEW, REPORTS_GENERATE, AUDIT_VIEW]"
| "ROLE_PERMISSIONS LINE_MANAGER = [TICKETS_CREATE, TICKETS_VIEW, TICKETS_CLASSIFY, TICKETS_CORRECTIVE_ACTION,
     TICKETS_CLOSE, CCP_MEASURE, SALSA_RESPOND, DASHBOARD_VIEW, REPORTS_GENERATE, AUDIT_VIEW]"
| "ROLE_PERMISSIONS COMPLIANCE = [TICKETS_CREATE, TICKETS_VIEW, TICKETS_CLASSIFY, TICKETS_CORRECTIVE_ACTION,
     TICKETS_CLOSE, CCP_MEASURE, CCP_DEFINE, SALSA_RESPOND, SALSA_DEFINE, PIPELINE_CONFIGURE, TRIGGERS_DEFINE,
     AUDIT_VIEW, AUDIT_EXPORT, REPORTS_GENERATE, DASHBOARD_VIEW, DLQ_MANAGE, TRAINING_AUTHOR, TRAINING_REVIEW,
     TRAINING_SEND]"
| "ROLE_PERMISSIONS PLANT_MANAGER = [TICKETS_VIEW, DASHBOARD_VIEW, REPORTS_GENERATE, AUDIT_VIEW, TRAINING_REVIEW,
     TRAINING_SEND]"
| "ROLE_PERMISSIONS ADMIN = PERMISSIONS"

definition seeded_roles :: "user_role list" where
  "seeded_roles = [OPERATOR, QA, LINE_MANAGER, COMPLIANCE, PLANT_MANAGER, ADMIN]"

definition seed_permissions :: "string list \<Rightarrow> string list" where
  "seed_permissions existing = existing @ filter (\<lambda>c. c \<notin> set existing) (map perm_code PERMISSIONS)"

definition set_permissions :: "string \<Rightarrow> string list \<Rightarrow> 'a auth_db_scheme \<Rightarrow> 'a auth_db_scheme" where
  "set_permissions rid codes s = s\<lparr>roles := update_row role_id rid (\<lambda>r. r\<lparr>role_permissions := codes\<rparr>) (roles s)\<rparr>"

definition insert_role :: "role \<Rightarrow> ('a auth_db_scheme, unit) py" where
  "insert_role r = (\<lambda>s.
     if session_failed s then (Inl PendingRollbackError, s)
     else if role_code r \<in> role_code ` set (roles s)
     then (Inl (IntegrityError ''roles.code''), s\<lparr>session_failed := True\<rparr>)
     else (Inr (), s\<lparr>roles := roles s @ [r]\<rparr>))"

interpretation role_rows: unique_insert insert_role roles role_code session_failed
  by unfold_locales (auto simp: insert_role_def)

definition seed_role :: "string list \<Rightarrow> user_role \<Rightarrow> ('a auth_db_scheme, unit) py" where
  "seed_role perms ur = with_state (\<lambda>s.
     let codes = filter (\<lambda>c. c \<in> set perms) (map perm_code (ROLE_PERMISSIONS ur))
     in case role_by_code (role_value ur) s of
          None \<Rightarrow> bind take_uuid (\<lambda>i.
            seq (insert_role \<lparr>role_id = i, role_code = role_value ur, role_permissions = []\<rparr>)
                (modify (set_permissions i codes)))
        | Some r \<Rightarrow> modify (set_permissions (role_id r) codes))"

definition seed_roles :: "string list \<Rightarrow> ('a auth_db_scheme, unit) py" where
  "seed_roles perms = seq (for_each (seed_role perms) seeded_roles) flush"

subsection \<open>The administrator and the demonstration line\<close>

definition admin_row :: "string \<Rightarrow> string \<Rightarrow> string \<Rightarrow> string \<Rightarrow> user" where
  "admin_row em hashed rid i =
     \<lparr>u_id = i, email = em, password_hash = hashed, full_name = ''Administrator'', language = ''en'',
      is_active_flag = True, failed_attempts = 0, locked_until = None, last_login_at = None, u_role_id = rid,
      totp_secret = None, totp_enrolled_at = None\<rparr>"

text \<open>The address is stored as it is given.\<close>

definition seed_admin :: "(string \<Rightarrow> exc + string) \<Rightarrow> string \<Rightarrow> string \<Rightarrow> ('a auth_db_scheme, unit) py" where
  "seed_admin hashpw em password = with_state (\<lambda>s.
     if by_key email em (users s) \<noteq> None then ret ()
     else case role_by_code (role_value ADMIN) s of
            None \<Rightarrow> ret ()
          | Some r \<Rightarrow> bind (lift (hashpw password)) (\<lambda>h. bind take_uuid (\<lambda>i. insert_user (admin_row em h (role_id r) i))))"

definition demo_stages :: "stage_input list" where
  "demo_stages = map (\<lambda>(code, pl, en, rc, sla, ccp).
       \<lparr>si_code = code, si_name_pl = pl, si_name_en = en, si_role = rc, si_sla = Some sla, si_ccp = ccp\<rparr>)
     [(''detection'', ''Wykrycie'', ''Detection'', None, 5, False),
      (''classification'', ''Klasyfikacja'', ''Classification'', Some ''qa'', 15, False),
      (''analysis'', ''Analiza'', ''Analysis'', Some ''qa'', 60, True),
      (''corrective'', ''Akcja koryguj'' @ utf8 0x105 @ ''ca'', ''Corrective action'', Some ''line_manager'', 120, False),
      (''verification'', ''Weryfikacja'', ''Verification'', Some ''qa'', 60, False),
      (''closure'', ''Zamkni'' @ utf8 0x119 @ ''cie'', ''Closure'', Some ''line_manager'', 30, False)]"

definition insert_line :: "production_line \<Rightarrow> ('a ticket_db_scheme, unit) py" where
  "insert_line l = (\<lambda>s.
     if session_failed s then (Inl PendingRollbackError, s)
     else if line_code l \<in> line_code ` set (lines s)
     then (Inl (IntegrityError ''production_lines.code''), s\<lparr>session_failed := True\<rparr>)
     else (Inr (), s\<lparr>lines := lines s @ [l]\<rparr>))"

interpretation line_rows: unique_insert insert_line lines line_code session_failed
  by unfold_locales (auto simp: insert_line_def)

definition seed_demo_line :: "('a ticket_db_scheme, unit) py" where
  "seed_demo_line = with_state (\<lambda>s.
     if by_key line_code ''LINE_A'' (lines s) \<noteq> None then ret ()
     else bind take_uuid (\<lambda>lid.
       seq (insert_line \<lparr>line_id = lid, line_code = ''LINE_A'', line_name = ''Line A '' @ utf8 0x2014 @ '' Bread'',
                        line_is_active = True\<rparr>)
      (bind take_uuid (\<lambda>pid.
       seq (insert_pipeline \<lparr>pipe_id = pid, pipe_line_id = lid, pipe_version = 1, pipe_is_active = True\<rparr>)
           (add_stages pid demo_stages)))))"

text \<open>
  \<open>seed_initial\<close> up to the demonstration line, with the commit; the result is the permission table.
\<close>

definition seed_base ::
  "(string \<Rightarrow> exc + string) \<Rightarrow> string \<Rightarrow> string \<Rightarrow> string list \<Rightarrow> ('a ticket_db_scheme, string list) py" where
  "seed_base hashpw admin_email admin_password existing =
     (if admin_email = [] \<or> admin_password = []
      then throw (ValueError ''admin_email and admin_password are required for seeding'')
      else
        let perms = seed_permissions existing
        in seq (seed_roles perms)
          (seq (seed_admin hashpw admin_email admin_password)
          (seq seed_demo_line
          (seq (modify commit) (ret perms)))))"

subsection \<open>Roles after seeding\<close>

definition roles_wf :: "'a auth_db_scheme \<Rightarrow> bool" where
  "roles_wf s \<longleftrightarrow> inj (uuid_at s) \<and> distinct (map role_id (roles s)) \<and> role_id ` set (roles s) \<subseteq> drawn s \<and> \<not> session_failed s"

definition granted :: "string list \<Rightarrow> user_role \<Rightarrow> 'a auth_db_scheme \<Rightarrow> bool" where
  "granted perms ur s \<longleftrightarrow> (\<exists>r. role_by_code (role_value ur) s = Some r \<and>
     role_permissions r = filter (\<lambda>c. c \<in> set perms) (map perm_code (ROLE_PERMISSIONS ur)))"

text \<open>What seeding roles leaves alone.\<close>

definition same_accounts :: "'a auth_db_scheme \<Rightarrow> 'a auth_db_scheme \<Rightarrow> bool" where
  "same_accounts s t \<longleftrightarrow> users t = users s \<and> clock t = clock s \<and> app_config t = app_config s \<and> dialect t = dialect s \<and>
     immutable_trigger t = immutable_trigger s \<and> audit_redact_ok t = audit_redact_ok s"

lemma role_value_inj: "role_value a = role_value b \<Longrightarrow> a = b"
  by (cases a; cases b) simp_all

lemma role_by_code_set:
  assumes "distinct (map role_id (roles s))" "r \<in> set (roles s)"
  shows "role_by_code c (set_permissions (role_id r) codes s) =
    map_option (\<lambda>q. if role_id q = role_id r then q\<lparr>role_permissions := codes\<rparr> else q) (role_by_code c s)"
proof -
  have "find (\<lambda>q. role_code q = c) (map (\<lambda>q. if role_id q = i then q\<lparr>role_permissions := codes\<rparr> else q) rs) =
      map_option (\<lambda>q. if role_id q = i then q\<lparr>role_permissions := codes\<rparr> else q) (find (\<lambda>q. role_code q = c) rs)" for i rs
    by (induction rs) auto
  then show ?thesis by (simp add: role_by_code_def set_permissions_def update_row_def by_key_def)
qed

lemma set_permissions_frame:
  "same_accounts s (set_permissions i codes s)" "roles_wf (set_permissions i codes s) = roles_wf s"
proof -
  have ids: "map role_id (roles (set_permissions i codes s)) = map role_id (roles s)"
    by (simp add: set_permissions_def map_update_row)
  have "role_id ` set (roles (set_permissions i codes s)) = role_id ` set (roles s)"
    using arg_cong [OF ids, of set] by simp
  then show "roles_wf (set_permissions i codes s) = roles_wf s"
    unfolding roles_wf_def ids by (simp add: set_permissions_def drawn_def)
qed (simp add: same_accounts_def set_permissions_def)

lemma grant:
  assumes wf: "roles_wf s" and r: "role_by_code (role_value ur) s = Some r"
    and codes: "codes = filter (\<lambda>c. c \<in> set perms) (map perm_code (ROLE_PERMISSIONS ur))"
  shows "granted perms ur (set_permissions (role_id r) codes s) \<and>
    (\<forall>v. v \<noteq> ur \<longrightarrow> granted perms v s \<longrightarrow> granted perms v (set_permissions (role_id r) codes s))"
proof -
  have in_s: "r \<in> set (roles s)" "role_code r = role_value ur" using r by (auto simp: role_by_code_def dest: by_key_Some)
  have d: "distinct (map role_id (roles s))" using wf by (simp add: roles_wf_def)
  note look = role_by_code_set [OF d in_s(1)]
  have "granted perms v (set_permissions (role_id r) codes s)" if v: "v \<noteq> ur" "granted perms v s" for v
  proof -
    obtain q where q: "role_by_code (role_value v) s = Some q"
      "role_permissions q = filter (\<lambda>c. c \<in> set perms) (map perm_code (ROLE_PERMISSIONS v))"
      using v(2) by (auto simp: granted_def)
    then have "q \<in> set (roles s)" "role_code q = role_value v" by (auto simp: role_by_code_def dest: by_key_Some)
    then have "role_id q \<noteq> role_id r"
      using d in_s v(1) role_value_inj by (metis distinct_map inj_onD)
    then show ?thesis using q by (simp add: granted_def look)
  qed
  then show ?thesis by (simp add: granted_def look r codes)
qed

lemma seed_role_run:
  assumes wf: "roles_wf s"
  obtains t where "seed_role perms ur s = (Inr (), t)" "roles_wf t" "granted perms ur t"
    "\<forall>v. v \<noteq> ur \<longrightarrow> granted perms v s \<longrightarrow> granted perms v t" "same_accounts s t"
proof -
  define codes where "codes = filter (\<lambda>c. c \<in> set perms) (map perm_code (ROLE_PERMISSIONS ur))"
  show thesis
  proof (cases "role_by_code (role_value ur) s")
    case (Some r)
    with grant [OF wf Some codes_def] wf show thesis
      by (intro that [of "set_permissions (role_id r) codes s"])
        (simp_all add: seed_role_def Let_def codes_def [symmetric] set_permissions_frame)
  next
    case None
    let ?r = "\<lparr>role_id = gen_uuid s, role_code = role_value ur, role_permissions = []\<rparr>"
    let ?s = "s\<lparr>uuid_next := Suc (uuid_next s), roles := roles s @ [?r]\<rparr>"
    have new: "role_value ur \<notin> role_code ` set (roles s)" using None by (simp add: role_by_code_def by_key_None)
    have fresh: "gen_uuid s \<notin> role_id ` set (roles s)" using wf fresh_id [of s] by (auto simp: roles_wf_def)
    have dr: "drawn ?s = insert (gen_uuid s) (drawn s)" using drawn_Suc [of s] by (simp add: drawn_def)
    have wf': "roles_wf ?s" using wf fresh by (auto simp: roles_wf_def dr)
    have found: "role_by_code (role_value ur) ?s = Some ?r" using None by (simp add: role_by_code_def by_key_append)
      (simp add: by_key_def)
    have keep: "granted perms v ?s" if "granted perms v s" for v
      using that by (auto simp: granted_def role_by_code_def by_key_append)
    have "seed_role perms ur s = (Inr (), set_permissions (gen_uuid s) codes ?s)"
      using wf new by (simp add: seed_role_def Let_def codes_def [symmetric] None bind_def take_uuid_def insert_role_def
          roles_wf_def seq_def)
    moreover have "same_accounts s (set_permissions (gen_uuid s) codes ?s)" by (simp add: same_accounts_def set_permissions_def)
    ultimately show thesis
      using grant [OF wf' found codes_def] wf' keep
      by (intro that [of "set_permissions (gen_uuid s) codes ?s"]) (simp_all add: set_permissions_frame)
  qed
qed

lemma seed_roles_run:
  assumes "roles_wf s"
  obtains t where "for_each (seed_role perms) urs s = (Inr (), t)" "roles_wf t" "\<forall>ur\<in>set urs. granted perms ur t"
    "\<forall>v. v \<notin> set urs \<longrightarrow> granted perms v s \<longrightarrow> granted perms v t" "same_accounts s t"
  using assms
proof (induction urs arbitrary: s thesis)
  case Nil
  then show ?case by (simp add: same_accounts_def)
next
  case (Cons ur urs)
  obtain t where t: "seed_role perms ur s = (Inr (), t)" "roles_wf t" "granted perms ur t"
    "\<forall>v. v \<noteq> ur \<longrightarrow> granted perms v s \<longrightarrow> granted perms v t" "same_accounts s t"
    by (rule seed_role_run [OF Cons.prems(2)])
  obtain t' where t': "for_each (seed_role perms) urs t = (Inr (), t')" "roles_wf t'" "\<forall>ur\<in>set urs. granted perms ur t'"
    "\<forall>v. v \<notin> set urs \<longrightarrow> granted perms v t \<longrightarrow> granted perms v t'" "same_accounts t t'"
    using Cons.IH [OF _ t(2)] by blast
  show ?case
  proof (rule Cons.prems(1))
    show "for_each (seed_role perms) (ur # urs) s = (Inr (), t')" using t(1) t'(1) by (simp add: seq_Inr)
    show "\<forall>ur\<in>set (ur # urs). granted perms ur t'" 
    proof -
      have "granted perms ur t'"
      proof (cases "ur \<in> set urs")
        case True
        with t'(3) show ?thesis by simp
      next
        case False
        with t(3) t'(4) show ?thesis by simp
      qed
      with t'(3) show ?thesis by simp
    qed
    show "same_accounts s t'" using t(5) t'(5) by (simp add: same_accounts_def)
    show "\<forall>v. v \<notin> set (ur # urs) \<longrightarrow> granted perms v s \<longrightarrow> granted perms v t'" using t(4) t'(4) by simp
  qed (rule t'(2))
qed

text \<open>Seeding roles that are there changes nothing.\<close>

lemma seed_roles_again:
  assumes "distinct (map role_id (roles s))" "\<forall>ur\<in>set urs. granted perms ur s"
  shows "for_each (seed_role perms) urs s = (Inr (), s)"
  using assms(2)
proof (induction urs)
  case (Cons ur urs)
  then obtain r where r: "role_by_code (role_value ur) s = Some r"
    "role_permissions r = filter (\<lambda>c. c \<in> set perms) (map perm_code (ROLE_PERMISSIONS ur))" by (auto simp: granted_def)
  have in_s: "r \<in> set (roles s)" using r(1) by (auto simp: role_by_code_def dest: by_key_Some)
  have "(if role_id q = role_id r then q\<lparr>role_permissions := role_permissions r\<rparr> else q) = q" if "q \<in> set (roles s)" for q
  proof (cases "role_id q = role_id r")
    case True
    then have "q = r" using assms(1) in_s that by (meson distinct_map inj_onD)
    then show ?thesis by simp
  qed simp
  then have "update_row role_id (role_id r) (\<lambda>q. q\<lparr>role_permissions := role_permissions r\<rparr>) (roles s) = roles s"
    unfolding update_row_def by (intro map_idI)
  then have "set_permissions (role_id r) (role_permissions r) s = s" by (simp add: set_permissions_def)
  then have "seed_role perms ur s = (Inr (), s)" unfolding r(2) by (simp add: seed_role_def Let_def r(1))
  with Cons show ?case by (simp add: seq_Inr)
qed simp

subsection \<open>The demonstration line leaves the accounts alone\<close>

definition quiet :: "('a ticket_db_scheme, 'b) py \<Rightarrow> bool" where
  "quiet m \<longleftrightarrow> (\<forall>s x t. m s = (Inr x, t) \<longrightarrow> \<not> session_failed s \<longrightarrow>
     \<not> session_failed t \<and> roles t = roles s \<and> same_accounts s t \<and> line_code ` set (lines s) \<subseteq> line_code ` set (lines t))"

lemma quiet_bind: "quiet m \<Longrightarrow> (\<And>x. quiet (f x)) \<Longrightarrow> quiet (bind m f)"
proof (unfold quiet_def, intro allI impI)
  fix s y t
  assume m: "\<forall>s x t. m s = (Inr x, t) \<longrightarrow> \<not> session_failed s \<longrightarrow>
     \<not> session_failed t \<and> roles t = roles s \<and> same_accounts s t \<and> line_code ` set (lines s) \<subseteq> line_code ` set (lines t)"
    and f: "\<And>x. \<forall>s y t. f x s = (Inr y, t) \<longrightarrow> \<not> session_failed s \<longrightarrow>
     \<not> session_failed t \<and> roles t = roles s \<and> same_accounts s t \<and> line_code ` set (lines s) \<subseteq> line_code ` set (lines t)"
    and run: "bind m f s = (Inr y, t)" "\<not> session_failed s"
  obtain x u where u: "m s = (Inr x, u)" "f x u = (Inr y, t)" using run(1) by (auto simp: bind_Inr_iff)
  note a = m [rule_format, OF u(1) run(2)]
  note b = f [rule_format, OF u(2) conjunct1 [OF a]]
  show "\<not> session_failed t \<and> roles t = roles s \<and> same_accounts s t \<and> line_code ` set (lines s) \<subseteq> line_code ` set (lines t)"
    using a b by (auto simp: same_accounts_def)
qed

lemma quiet_seq: "quiet m \<Longrightarrow> quiet n \<Longrightarrow> quiet (seq m n)"
  by (simp add: seq_def quiet_bind)

lemma quiet_for_each: "(\<And>x. quiet (f x)) \<Longrightarrow> quiet (for_each f xs)"
  by (induction xs) (simp_all add: quiet_seq, simp add: quiet_def same_accounts_def)

lemma quiet_steps:
  "quiet take_uuid" "quiet (insert_pipeline p)" "quiet (insert_stage g)" "quiet (insert_line l)"
  by (auto simp: quiet_def take_uuid_def insert_pipeline_def insert_stage_def insert_line_def same_accounts_def split: if_splits)

lemma seed_demo_line_Inr:
  assumes "seed_demo_line s = (Inr (), t)" "\<not> session_failed s"
  shows "\<not> session_failed t \<and> roles t = roles s \<and> same_accounts s t \<and> ''LINE_A'' \<in> line_code ` set (lines t)"
proof (cases "by_key line_code ''LINE_A'' (lines s)")
  case (Some l)
  then have "''LINE_A'' \<in> line_code ` set (lines s)" by (force dest: by_key_Some)
  with assms Some show ?thesis by (simp add: seed_demo_line_def same_accounts_def)
next
  case None
  let ?l = "\<lambda>lid. \<lparr>line_id = lid, line_code = ''LINE_A'', line_name = ''Line A '' @ utf8 0x2014 @ '' Bread'', line_is_active = True\<rparr>"
  define k where "k = (\<lambda>lid. bind take_uuid (\<lambda>pid.
       seq (insert_pipeline \<lparr>pipe_id = pid, pipe_line_id = lid, pipe_version = 1, pipe_is_active = True\<rparr>)
           (add_stages pid demo_stages) :: ('a ticket_db_scheme, unit) py))"
  have k: "quiet (k lid)" for lid
    unfolding k_def add_stages_def by (intro quiet_bind quiet_seq quiet_for_each quiet_steps) (auto intro: quiet_bind quiet_steps)
  have "quiet (bind take_uuid (\<lambda>lid. seq (insert_line (?l lid)) (k lid)))" by (intro quiet_bind quiet_seq k quiet_steps)
  moreover have run: "bind take_uuid (\<lambda>lid. seq (insert_line (?l lid)) (k lid)) s = (Inr (), t)"
    using assms(1) None by (simp add: seed_demo_line_def k_def)
  ultimately have "\<not> session_failed t \<and> roles t = roles s \<and> same_accounts s t" using assms(2) unfolding quiet_def by blast
  moreover obtain lid u v where "insert_line (?l lid) u = (Inr (), v)" "k lid v = (Inr (), t)" "\<not> session_failed u"
    using run assms(2) by (auto simp: bind_Inr_iff seq_Inr_iff take_uuid_def)
  then have "\<not> session_failed v" "''LINE_A'' \<in> line_code ` set (lines v)" "k lid v = (Inr (), t)"
    by (auto simp: insert_line_def split: if_splits)
  then have "''LINE_A'' \<in> line_code ` set (lines t)" using k [of lid] unfolding quiet_def by blast
  ultimately show ?thesis by blast
qed

subsection \<open>What seeding leaves\<close>

lemma seed_admin_Inr:
  assumes "seed_admin hashpw em pw s = (Inr (), t)" "\<not> session_failed s" "role_by_code (role_value ADMIN) s = Some r"
  shows "\<not> session_failed t \<and> roles t = roles s \<and> em \<in> email ` set (users t) \<and>
    (em \<notin> email ` set (users s) \<longrightarrow> (\<exists>h. hashpw pw = Inr h \<and> users t = users s @ [admin_row em h (role_id r) (gen_uuid s)])) \<and>
    same_accounts (s\<lparr>users := users t\<rparr>) t"
proof (cases "by_key email em (users s)")
  case (Some u)
  then have "em \<in> email ` set (users s)" by (force dest: by_key_Some)
  with assms Some show ?thesis by (simp add: seed_admin_def same_accounts_def)
next
  case None
  have new: "em \<notin> email ` set (users s)" using None by (simp add: by_key_None)
  obtain h where h: "hashpw pw = Inr h"
    using assms(1,3) None by (cases "hashpw pw") (simp_all add: seed_admin_def lift_def)
  have "t = s\<lparr>uuid_next := Suc (uuid_next s), users := users s @ [admin_row em h (role_id r) (gen_uuid s)]\<rparr>"
    using assms None h new by (simp add: seed_admin_def lift_def bind_def take_uuid_def insert_user_def admin_row_def)
  with assms(2) h show ?thesis by (simp add: same_accounts_def admin_row_def)
qed

lemma seed_base_Inr:
  fixes s :: "'a ticket_db_scheme"
  assumes run: "seed_base hashpw em pw ps s = (Inr ps', s')" and wf: "roles_wf s"
  obtains r where "ps' = seed_permissions ps" "em \<noteq> []" "pw \<noteq> []" "\<forall>ur. granted ps' ur s'"
    "distinct (map role_id (roles s'))" "\<not> session_failed s'" "\<not> audit_redact_ok s'"
    "role_by_code (role_value ADMIN) s' = Some r" "em \<in> email ` set (users s')"
    "em \<notin> email ` set (users s) \<longrightarrow> (\<exists>h i. hashpw pw = Inr h \<and> users s' = users s @ [admin_row em h (role_id r) i])"
    "''LINE_A'' \<in> line_code ` set (lines s')" "same_accounts (s\<lparr>users := users s', audit_redact_ok := False\<rparr>) s'"
proof -
  have ne: "em \<noteq> []" "pw \<noteq> []" using run by (auto simp: seed_base_def split: if_splits)
  obtain t1 where t1: "for_each (seed_role (seed_permissions ps)) seeded_roles s = (Inr (), t1)" "roles_wf t1"
    "\<forall>ur\<in>set seeded_roles. granted (seed_permissions ps) ur t1" "same_accounts s t1"
    by (rule seed_roles_run [OF wf])
  have all: "ur \<in> set seeded_roles" for ur by (cases ur) (simp_all add: seeded_roles_def)
  have nf: "\<not> session_failed t1" and ids: "distinct (map role_id (roles t1))" using t1(2) by (simp_all add: roles_wf_def)
  have "seed_roles (seed_permissions ps) s = (Inr (), t1)"
    using t1(1) nf by (simp add: seed_roles_def seq_Inr flush_def)
  with run obtain t2 t3 where t2: "seed_admin hashpw em pw t1 = (Inr (), t2)" and t3: "seed_demo_line t2 = (Inr (), t3)"
    and s': "s' = commit t3" "ps' = seed_permissions ps"
    using ne by (auto simp: seed_base_def Let_def seq_Inr_iff)
  obtain r where r: "role_by_code (role_value ADMIN) t1 = Some r" using bspec [OF t1(3) all, of ADMIN] by (auto simp: granted_def)
  note a = seed_admin_Inr [OF t2 nf r]
  note l = seed_demo_line_Inr [OF t3 conjunct1 [OF a]]
  have roles: "roles s' = roles t1" using a l by (simp add: s' commit_def)
  have us: "users s' = users t2" using l by (simp add: s' commit_def same_accounts_def)
  show thesis
  proof (rule that [of r])
    show "\<forall>ur. granted ps' ur s'" using t1(3) all by (simp add: granted_def role_by_code_def roles s'(2))
    show "role_by_code (role_value ADMIN) s' = Some r" using r by (simp add: role_by_code_def roles)
    show "em \<notin> email ` set (users s) \<longrightarrow> (\<exists>h i. hashpw pw = Inr h \<and> users s' = users s @ [admin_row em h (role_id r) i])"
      using a t1(4) by (auto simp: us same_accounts_def)
    show "same_accounts (s\<lparr>users := users s', audit_redact_ok := False\<rparr>) s'"
      using a l t1(4) by (simp add: us same_accounts_def) (simp add: s' commit_def same_accounts_def us)
    show "\<not> session_failed s'" "\<not> audit_redact_ok s'" "''LINE_A'' \<in> line_code ` set (lines s')" "em \<in> email ` set (users s')"
      using a l by (simp_all add: us) (simp_all add: s' commit_def)
  qed (use ne s'(2) roles ids in simp_all)
qed

lemma seed_permissions_again: "seed_permissions (seed_permissions ps) = seed_permissions ps"
  by (auto simp: seed_permissions_def filter_empty_conv)

lemma seed_permissions_all: "perm_code p \<in> set (seed_permissions ps)"
proof -
  have "p \<in> set PERMISSIONS" by (cases p) (simp_all add: PERMISSIONS_def)
  then show ?thesis by (auto simp: seed_permissions_def)
qed

lemma perm_code_eq: "perm_code a = perm_code b \<longleftrightarrow> a = b"
proof -
  have "distinct (map perm_code PERMISSIONS)" by (simp add: PERMISSIONS_def)
  moreover have "p \<in> set PERMISSIONS" for p by (cases p) (simp_all add: PERMISSIONS_def)
  ultimately show ?thesis by (auto simp: distinct_map dest: inj_onD)
qed



subsection \<open>A sample and the witnesses\<close>

definition sample_empty :: ticket_db where
  "sample_empty = (sample_tickets SQLite [])\<lparr>users := [], roles := [], uuid_at := digits, lines := []\<rparr>"

text \<open>Seeding roles leaves the tables of the production floor alone.\<close>

definition same_floor :: "'a ticket_db_scheme \<Rightarrow> 'a ticket_db_scheme \<Rightarrow> bool" where
  "same_floor s t \<longleftrightarrow> lines t = lines s \<and> pipelines t = pipelines s \<and> pipeline_stages t = pipeline_stages s"

lemma seed_roles_floor: "keeps same_floor (for_each (seed_role perms) urs)"
proof -
  have R: "reflp same_floor" "transp same_floor" by (auto simp: reflp_def transp_def same_floor_def)
  have "keeps same_floor take_uuid" "keeps same_floor (insert_role r)" "keeps same_floor (modify (set_permissions i codes))"
    for r i codes
    by (rule keepsI; simp add: same_floor_def take_uuid_def insert_role_def set_permissions_def)+
  then show ?thesis
    unfolding seed_role_def Let_def
    by (intro keeps_for_each R keeps_with_state keeps_option keeps_bind keeps_seq)
qed

lemma sample_empty_run:
  "roles_wf sample_empty" "users sample_empty = []" "dialect sample_empty = SQLite"
  "em \<noteq> [] \<Longrightarrow> \<exists>s'. seed_base Inr em ''pw'' [] sample_empty = (Inr (seed_permissions []), s')"
proof -
  show wf: "roles_wf sample_empty" "users sample_empty = []" "dialect sample_empty = SQLite"
    by (simp_all add: roles_wf_def sample_empty_def sample_tickets_def inj_digits)
  assume em: "em \<noteq> []"
  obtain t where t: "for_each (seed_role (seed_permissions [])) seeded_roles sample_empty = (Inr (), t)" "roles_wf t"
    "\<forall>ur\<in>set seeded_roles. granted (seed_permissions []) ur t" "same_accounts sample_empty t"
    by (rule seed_roles_run [OF wf(1)])
  have nf: "\<not> session_failed t" "users t = []" using t(2,4) wf(2) by (simp_all add: roles_wf_def same_accounts_def)
  have floor: "lines t = []" "pipelines t = []" "pipeline_stages t = []"
    using keepsD [OF seed_roles_floor [of "seed_permissions []" seeded_roles], of sample_empty] t(1)
    by (simp_all add: same_floor_def sample_empty_def sample_tickets_def)
  have "granted (seed_permissions []) ADMIN t" using t(3) by (simp add: seeded_roles_def)
  then obtain r where r: "role_by_code (role_value ADMIN) t = Some r" by (auto simp: granted_def)
  let ?t = "t\<lparr>uuid_next := Suc (uuid_next t), users := [admin_row em ''pw'' (role_id r) (gen_uuid t)]\<rparr>"
  have admin: "seed_admin Inr em ''pw'' t = (Inr (), ?t)"
    using nf r by (simp add: seed_admin_def lift_def bind_def take_uuid_def insert_user_def by_key_def)
  have roles: "seed_roles (seed_permissions []) sample_empty = (Inr (), t)"
    using t(1) nf by (simp add: seed_roles_def seq_Inr flush_def)
  have line: "\<exists>u. seed_demo_line ?t = (Inr (), u)"
  proof -
    have "\<exists>u. add_stages pid sts s = (Inr (), u)" if "\<not> session_failed s" "pipeline_stages s = []"
      for pid sts and s :: ticket_db
      using that by (simp add: add_stages_def add_stages_from)
    then show ?thesis
      using nf floor by (simp add: seed_demo_line_def by_key_def bind_def take_uuid_def seq_def insert_line_def insert_pipeline_def)
  qed
  then show "\<exists>s'. seed_base Inr em ''pw'' [] sample_empty = (Inr (seed_permissions []), s')"
    using roles admin em by (auto simp: seed_base_def Let_def seq_Inr)
qed



end
