(* ===== verification/SeedDemo.thy ===== *)
theory SeedDemo
  imports Seeds Ingest TriggerAdmin Authoring UniqueInsert
begin

text \<open>
  The demonstration rows of app/seeds.py: critical control points, checklists, the oven trigger
  with its two responders, and a course with lessons and an exam. Each step of \<open>seed_initial\<close>
  works on the tables of its component. The Polish texts are UTF-8, as in Seeds.
\<close>

subsection \<open>Control points and checklists\<close>

text \<open>The names, the corrective actions and the monitoring intervals are not columns of the model.\<close>

definition demo_ccp :: "string \<Rightarrow> string \<Rightarrow> pyfloat option \<Rightarrow> pyfloat option \<Rightarrow> string \<Rightarrow> ccp_definition" where
  "demo_ccp lid code lo hi i =
     \<lparr>ccp_id = i, ccp_line_id = lid, ccp_code = code, ccp_parameter = ''temperature'', ccp_unit = utf8 0xB0 @ ''C'',
      critical_limit_min = lo, critical_limit_max = hi, ccp_is_active = True\<rparr>"

definition seed_demo_ccps :: "('a haccp_db_scheme, unit) py" where
  "seed_demo_ccps = with_state (\<lambda>s.
     case by_key line_code ''LINE_A'' (lines s) of
       None \<Rightarrow> ret ()
     | Some l \<Rightarrow>
         if list_ex (\<lambda>c. ccp_line_id c = line_id l) (ccp_definitions s) then ret ()
         else bind take_uuid (\<lambda>i. bind take_uuid (\<lambda>j.
           seq (modify (\<lambda>s. s\<lparr>ccp_definitions := ccp_definitions s @
                  [demo_ccp (line_id l) ''CCP-OVEN-1'' (Some (Fin 180)) (Some (Fin 220)) i,
                   demo_ccp (line_id l) ''CCP-CORE-TEMP'' (Some (Fin 92)) None j]\<rparr>))
               flush)))"

definition insert_checklist :: "salsa_checklist \<Rightarrow> ('a salsa_db_scheme, unit) py" where
  "insert_checklist c = (\<lambda>s.
     if session_failed s then (Inl PendingRollbackError, s)
     else if sc_code c \<in> sc_code ` set (salsa_checklists s)
     then (Inl (IntegrityError ''salsa_checklists.code''), s\<lparr>session_failed := True\<rparr>)
     else (Inr (), s\<lparr>salsa_checklists := salsa_checklists s @ [c]\<rparr>))"

interpretation checklist_rows: unique_insert insert_checklist salsa_checklists sc_code session_failed
  by unfold_locales (auto simp: insert_checklist_def)

text \<open>The names and the Polish prompts of a checklist are not columns of the model.\<close>

definition demo_checklist :: "string \<Rightarrow> checklist_frequency \<Rightarrow> (string \<times> string) list \<Rightarrow> string option \<Rightarrow> string \<Rightarrow> salsa_checklist" where
  "demo_checklist code freq items lid i =
     \<lparr>sc_id = i, sc_code = code, sc_frequency = frequency_value freq, sc_line_id = lid, sc_is_active = True,
      sc_items = map (\<lambda>(k, en). \<lparr>item_key = k, item_prompt_en = Some en\<rparr>) items\<rparr>"

definition HYGIENE_ITEMS :: "(string \<times> string) list" where
  "HYGIENE_ITEMS =
     [(''gloves'', ''All operators wear clean gloves.''), (''hairnets'', ''All operators wear hairnets.''),
      (''no_jewellery'', ''No jewellery (except approved).''), (''health_check'', ''No reported illness symptoms.'')]"

definition MACHINE_ITEMS :: "(string \<times> string) list" where
  "MACHINE_ITEMS =
     [(''mixer_clean'', ''Mixer cleaned.''), (''conveyor_clean'', ''Conveyor clean.''), (''oven_inspected'', ''Oven inspected.'')]"

definition seed_demo_salsa :: "('a salsa_db_scheme, unit) py" where
  "seed_demo_salsa = with_state (\<lambda>s.
     let lid = map_option line_id (by_key line_code ''LINE_A'' (lines s))
     in if by_key sc_code ''HYG-DAILY'' (salsa_checklists s) \<noteq> None then ret ()
        else bind take_uuid (\<lambda>i. seq (insert_checklist (demo_checklist ''HYG-DAILY'' DAILY HYGIENE_ITEMS lid i))
            (bind take_uuid (\<lambda>j. insert_checklist (demo_checklist ''MACH-SHIFT'' SHIFT MACHINE_ITEMS lid j)))))"

subsection \<open>The oven trigger\<close>

definition notify_responder :: "string \<Rightarrow> responder" where
  "notify_responder i =
     \<lparr>rs_id = i, rs_code = ''NOTIFY_QA'', rs_name = bilingual ''Powiadom QA'' ''Notify QA'',
      rs_type = responder_type_value NOTIFY_IN_APP,
      rs_config =
        [(''title'', JStr (''Trigger {trigger_code}: {metric} = {temperature}'' @ utf8 0xB0 @ ''C'')),
         (''body'', JStr ''Severity: {severity}''),
         (''recipients'', JList [JObj [(''role_code'', JStr ''qa'')], JObj [(''role_code'', JStr ''line_manager'')]])],
      rs_is_active = True\<rparr>"

definition open_ticket_responder :: "string \<Rightarrow> responder" where
  "open_ticket_responder i =
     \<lparr>rs_id = i, rs_code = ''OPEN_TICKET'',
      rs_name = bilingual (''Otw'' @ utf8 0xF3 @ ''rz zg'' @ utf8 0x142 @ ''oszenie'') ''Open ticket'',
      rs_type = responder_type_value CREATE_TICKET,
      rs_config =
        [(''title'', JStr (''Auto: {trigger_code} '' @ utf8 0x2014 @ '' {metric} = {temperature}'')),
         (''description'', JStr ''Auto-generated by trigger {trigger_code}.'')],
      rs_is_active = True\<rparr>"

definition oven_trigger :: "production_line option \<Rightarrow> string \<Rightarrow> trigger" where
  "oven_trigger line i =
     \<lparr>tg_id = i, tg_code = ''OVEN1_OVERHEAT'', tg_name = bilingual ''Przegrzanie pieca 1'' ''Oven 1 overheating'',
      tg_scope = map_option (\<lambda>l. ''line:'' @ line_code l) line,
      tg_condition = [(''metric'', JStr ''temperature''), (''operator'', JStr ''>''), (''value'', JInt 220)],
      tg_severity = ''high'', tg_is_active = True, dry_run = False\<rparr>"

definition insert_responder :: "responder \<Rightarrow> ('a trigger_db_scheme, unit) py" where
  "insert_responder r = (\<lambda>s.
     if session_failed s then (Inl PendingRollbackError, s)
     else if rs_code r \<in> rs_code ` set (responders s)
     then (Inl (IntegrityError ''responders.code''), s\<lparr>session_failed := True\<rparr>)
     else (Inr (), s\<lparr>responders := responders s @ [r]\<rparr>))"

interpretation responder_rows: unique_insert insert_responder responders rs_code session_failed
  by unfold_locales (auto simp: insert_responder_def)

definition insert_trigger :: "trigger \<Rightarrow> ('a trigger_db_scheme, unit) py" where
  "insert_trigger t = (\<lambda>s.
     if session_failed s then (Inl PendingRollbackError, s)
     else if tg_code t \<in> tg_code ` set (triggers s)
     then (Inl (IntegrityError ''triggers.code''), s\<lparr>session_failed := True\<rparr>)
     else (Inr (), s\<lparr>triggers := triggers s @ [t]\<rparr>))"

interpretation trigger_rows: unique_insert insert_trigger triggers tg_code session_failed
  by unfold_locales (auto simp: insert_trigger_def)

text \<open>Only the code of the trigger decides whether the rows are there.\<close>

definition seed_demo_triggers :: "('a trigger_db_scheme, unit) py" where
  "seed_demo_triggers = with_state (\<lambda>s.
     if by_key tg_code ''OVEN1_OVERHEAT'' (triggers s) \<noteq> None then ret ()
     else bind take_uuid (\<lambda>n. seq (insert_responder (notify_responder n))
         (bind take_uuid (\<lambda>k. seq (insert_responder (open_ticket_responder k))
         (bind take_uuid (\<lambda>i. seq (insert_trigger (oven_trigger (by_key line_code ''LINE_A'' (lines s)) i))
         (seq (insert_link \<lparr>link_trigger_id = i, link_responder_id = n, link_order_index = 0\<rparr>)
              (insert_link \<lparr>link_trigger_id = i, link_responder_id = k, link_order_index = 1\<rparr>))))))))"

subsection \<open>The course\<close>

definition DEMO_COURSE_CODE :: string where
  "DEMO_COURSE_CODE = ''HACCP-REFRESHER''"

text \<open>The lessons of the demonstration course, in Markdown.\<close>

definition nl :: string where
  "nl = [CHR 0x0A]"

definition DEMO_MODULES :: "(texts \<times> texts) list" where
  "DEMO_MODULES =
    [(bilingual (''Wprowadzenie do HACCP'')
        (''Introduction to HACCP''),
      bilingual (''## Czym jest HACCP?'' @ nl @ nl @
         ''HACCP (Hazard Analysis and Critical Control Points) to systematyczne podej'' @ utf8 0x15B @
         ''cie do bezpiecze'' @ utf8 0x144 @ ''stwa '' @ utf8 0x17C @ ''ywno'' @ utf8 0x15B @
         ''ci. Jako pracownik produkcji **masz osobist'' @ utf8 0x105 @ '' odpowiedzialno'' @
         utf8 0x15B @ utf8 0x107 @ ''** za przestrzeganie procedur krytycznych punkt'' @ utf8 0xF3 @
         ''w kontrolnych (CCP) na swojej linii.'' @ nl @ nl @ ''### Twoje obowi'' @ utf8 0x105 @
         ''zki'' @ nl @ nl @ ''- Wykonuj pomiary CCP w wyznaczonych odst'' @ utf8 0x119 @
         ''pach czasu'' @ nl @ ''- Natychmiast zg'' @ utf8 0x142 @ ''aszaj odchylenia od limit'' @
         utf8 0xF3 @ ''w krytycznych'' @ nl @
         ''- Stosuj procedury higieny osobistej i higieny maszyn'' @ nl @
         ''- Nie podejmuj samodzielnych decyzji w razie w'' @ utf8 0x105 @ ''tpliwo'' @ utf8 0x15B @
         ''ci '' @ utf8 0x2014 @ '' skonsultuj si'' @ utf8 0x119 @ '' z kierownikiem linii lub QA'')
        (''## What is HACCP?'' @ nl @ nl @
         ''HACCP (Hazard Analysis and Critical Control Points) is a systematic approach to food safety. As a production worker you **personally own** the discipline at critical control points (CCPs) on your line.'' @
         nl @ nl @ ''### Your responsibilities'' @ nl @ nl @
         ''- Take CCP measurements at the prescribed intervals'' @ nl @
         ''- Report deviations from critical limits immediately'' @ nl @
         ''- Follow personal hygiene and machine hygiene procedures'' @ nl @
         ''- Never improvise when in doubt '' @ utf8 0x2014 @
         '' escalate to your line manager or QA'')),
     (bilingual (''Krytyczne limity i pomiary'')
        (''Critical limits and measurements''),
      bilingual (''## Limity krytyczne'' @ nl @ nl @ ''Ka'' @ utf8 0x17C @
         ''dy CCP ma zdefiniowany **limit krytyczny** '' @ utf8 0x2014 @ '' warto'' @ utf8 0x15B @
         utf8 0x107 @ '', kt'' @ utf8 0xF3 @ ''rej przekroczenie oznacza utrat'' @ utf8 0x119 @
         '' kontroli nad zagro'' @ utf8 0x17C @ ''eniem. Limity s'' @ utf8 0x105 @
         '' ustalane na podstawie wymaga'' @ utf8 0x144 @
         '' prawnych, danych naukowych i wytycznych retailer'' @ utf8 0xF3 @
         ''w (SALSA, BRC, M&S, Tesco).'' @ nl @ nl @ ''### Procedura pomiaru'' @ nl @ nl @
         ''1. Sprawd'' @ utf8 0x17A @ '', czy urz'' @ utf8 0x105 @ ''dzenie jest skalibrowane'' @ nl @
         ''2. Wprowad'' @ utf8 0x17A @ '' wynik do aplikacji QMS na tablecie'' @ nl @ ''3. Je'' @
         utf8 0x17C @ ''eli system zg'' @ utf8 0x142 @ ''asza odchylenie, **wstrzymaj produkcj'' @
         utf8 0x119 @ ''** i zastosuj akcj'' @ utf8 0x119 @ '' koryguj'' @ utf8 0x105 @ ''c'' @
         utf8 0x105 @ '' zdefiniowan'' @ utf8 0x105 @ '' dla danego CCP'' @ nl @ ''4. Ka'' @
         utf8 0x17C @ ''dy pomiar '' @ utf8 0x2014 @ '' w limicie czy poza nim '' @ utf8 0x2014 @
         '' jest zapisany w dzienniku audytu (chain-hashed)'')
        (''## Critical limits'' @ nl @ nl @ ''Each CCP has a defined **critical limit** '' @
         utf8 0x2014 @
         '' the value beyond which the hazard is no longer controlled. Limits come from legal requirements, scientific data, and retailer standards (SALSA, BRC, M&S, Tesco).'' @
         nl @ nl @ ''### Measurement procedure'' @ nl @ nl @ ''1. Confirm the device is calibrated'' @
         nl @ ''2. Enter the reading into the QMS app on the tablet'' @ nl @
         ''3. If the system reports a deviation, **halt production** and apply the corrective action defined for that CCP'' @
         nl @ ''4. Every measurement '' @ utf8 0x2014 @ '' within limits or out '' @ utf8 0x2014 @
         '' is written to the chain-hashed audit log'')),
     (bilingual (''Higiena i identyfikowalno'' @ utf8 0x15B @ utf8 0x107)
        (''Hygiene and traceability''),
      bilingual (''## Higiena osobista'' @ nl @ nl @ ''- Czyste r'' @ utf8 0x119 @ ''kawice, siatki na w'' @
         utf8 0x142 @ ''osy, brak bi'' @ utf8 0x17C @ ''uterii'' @ nl @
         ''- Codzienne checklisty SALSA wype'' @ utf8 0x142 @ ''niane na pocz'' @ utf8 0x105 @
         ''tku zmiany'' @ nl @ ''- Zg'' @ utf8 0x142 @ ''aszanie objaw'' @ utf8 0xF3 @
         ''w chorobowych przed rozpocz'' @ utf8 0x119 @ ''ciem pracy'' @ nl @ nl @
         ''## Identyfikowalno'' @ utf8 0x15B @ utf8 0x107 @ nl @ nl @ ''Ka'' @ utf8 0x17C @
         ''da partia, ka'' @ utf8 0x17C @ ''dy pomiar i ka'' @ utf8 0x17C @ ''dy podpis musz'' @
         utf8 0x105 @ '' by'' @ utf8 0x107 @ '' powi'' @ utf8 0x105 @ ''zane z numerem zg'' @
         utf8 0x142 @ ''oszenia (ticketu) w systemie. Audyt FSA / EHO oczekuje pe'' @ utf8 0x142 @
         ''nej '' @ utf8 0x15B @ ''cie'' @ utf8 0x17C @ ''ki od surowca do wysy'' @ utf8 0x142 @
         ''ki w mniej ni'' @ utf8 0x17C @ '' 4 godziny.'')
        (''## Personal hygiene'' @ nl @ nl @ ''- Clean gloves, hairnets, no jewellery'' @ nl @
         ''- Daily SALSA checklists at the start of every shift'' @ nl @
         ''- Report illness symptoms before starting work'' @ nl @ nl @ ''## Traceability'' @ nl @ nl @
         ''Every batch, every measurement, and every signature must be linked to a ticket number in the system. FSA / EHO audits expect a complete trail from raw material to dispatch in under 4 hours.''))]"

text \<open>The exam: a prompt and its options, with the right ones marked.\<close>

definition DEMO_QUESTIONS :: "(texts \<times> (texts \<times> bool) list) list" where
  "DEMO_QUESTIONS =
    [(bilingual (''Co oznacza skr'' @ utf8 0xF3 @ ''t HACCP?'')
        (''What does HACCP stand for?''),
      [(bilingual (''Hazard Analysis and Critical Control Points'')
         (''Hazard Analysis and Critical Control Points''), True),
       (bilingual (''Hygiene Audit and Compliance Certification Procedure'')
         (''Hygiene Audit and Compliance Certification Procedure''), False),
       (bilingual (''High Altitude Cooking and Cooling Practice'')
         (''High Altitude Cooking and Cooling Practice''), False)]),
     (bilingual (''Co nale'' @ utf8 0x17C @ ''y zrobi'' @ utf8 0x107 @ '' w pierwszej kolejno'' @ utf8 0x15B @
         ''ci po wykryciu odchylenia od limitu krytycznego?'')
        (''What should you do first after detecting a deviation from a critical limit?''),
      [(bilingual (''Wstrzyma'' @ utf8 0x107 @ '' produkcj'' @ utf8 0x119 @ '' i zastosowa'' @ utf8 0x107 @
          '' akcj'' @ utf8 0x119 @ '' koryguj'' @ utf8 0x105 @ ''c'' @ utf8 0x105)
         (''Halt production and apply the corrective action''), True),
       (bilingual (''Kontynuowa'' @ utf8 0x107 @ '' produkcj'' @ utf8 0x119 @ '' i zg'' @ utf8 0x142 @ ''osi'' @
          utf8 0x107 @ '' to po zmianie'')
         (''Keep producing and report it after the shift''), False),
       (bilingual (''Skorygowa'' @ utf8 0x107 @ '' wynik r'' @ utf8 0x119 @ ''cznie w dzienniku'')
         (''Manually correct the reading in the log''), False)]),
     (bilingual (''Czy ka'' @ utf8 0x17C @ ''dy pomiar CCP jest zapisywany w dzienniku audytu?'')
        (''Is every CCP measurement written to the audit log?''),
      [(bilingual (''Tak '' @ utf8 0x2014 @ '' wszystkie, niezale'' @ utf8 0x17C @ ''nie od wyniku'')
         (''Yes '' @ utf8 0x2014 @ '' every reading, regardless of outcome''), True),
       (bilingual (''Tylko te poza limitami'')
         (''Only out-of-limit ones''), False)]),
     (bilingual (''Jakie s'' @ utf8 0x105 @ '' wymagania higieny osobistej na linii?'')
        (''What are the personal hygiene requirements on the line?''),
      [(bilingual (''Czyste r'' @ utf8 0x119 @ ''kawice, siatki na w'' @ utf8 0x142 @ ''osy, brak bi'' @
          utf8 0x17C @ ''uterii'')
         (''Clean gloves, hairnets, no jewellery''), True),
       (bilingual (''Tylko czyste ubranie robocze'')
         (''Just clean work clothing''), False),
       (bilingual (''Tylko siatki na w'' @ utf8 0x142 @ ''osy w piekarni'')
         (''Only hairnets in the bakery''), False)]),
     (bilingual (''Jaka jest oczekiwana czas pe'' @ utf8 0x142 @ ''nej identyfikowalno'' @ utf8 0x15B @
         ''ci partii dla audytu FSA?'')
        (''What is the expected traceability turnaround for an FSA audit?''),
      [(bilingual (''Mniej ni'' @ utf8 0x17C @ '' 4 godziny'')
         (''Under 4 hours''), True),
       (bilingual (''Mniej ni'' @ utf8 0x17C @ '' 24 godziny'')
         (''Under 24 hours''), False),
       (bilingual (''Nast'' @ utf8 0x119 @ ''pnego dnia roboczego'')
         (''Next business day''), False)])]"

definition demo_version :: "string \<Rightarrow> string \<Rightarrow> course_version" where
  "demo_version cid i =
     \<lparr>v_id = i, v_course_id = cid, v_version = 1, v_is_active = True,
      v_title = bilingual (''Od'' @ utf8 0x15B @ ''wie'' @ utf8 0x17C @ ''enie HACCP'')
         (''HACCP Refresher''),
      v_summary = bilingual (''10-minutowy kurs od'' @ utf8 0x15B @ ''wie'' @ utf8 0x17C @ ''aj'' @ utf8 0x105 @
          ''cy kluczowe zasady HACCP.'')
         (''A 10-minute refresher of the key HACCP principles.''),
      pass_threshold = Fin (7 / 10), validity_months = 12, link_ttl_days = 7, exam_time_limit_seconds = None\<rparr>"

definition demo_module :: "string \<Rightarrow> nat \<times> texts \<times> texts \<Rightarrow> string \<Rightarrow> training_module" where
  "demo_module vid p i =
     \<lparr>m_id = i, m_version_id = vid, m_order_index = int (fst p), m_title = fst (snd p), m_body_md = snd (snd p)\<rparr>"

definition seed_module :: "string \<Rightarrow> nat \<times> texts \<times> texts \<Rightarrow> ('a training_db_scheme, unit) py" where
  "seed_module vid p = bind take_uuid (\<lambda>i. insert_module (demo_module vid p i))"

text \<open>One question with its options, in the order of the list.\<close>

definition seed_question :: "string \<Rightarrow> nat \<times> texts \<times> (texts \<times> bool) list \<Rightarrow> ('a training_db_scheme, unit) py" where
  "seed_question vid p =
     bind take_uuid (\<lambda>qid.
       seq (insert_question \<lparr>q_id = qid, q_version_id = vid, q_order_index = int (fst p), q_prompt = fst (snd p),
                             q_kind = question_kind_value SINGLE_CHOICE\<rparr>)
           (for_each (\<lambda>(idx, p). bind take_uuid (\<lambda>i.
              modify (\<lambda>s. s\<lparr>answer_options := answer_options s @ [option_row qid idx p i]\<rparr>))) (enumerate 0 (snd (snd p)))))"

definition seed_demo_training :: "('a training_db_scheme, unit) py" where
  "seed_demo_training = with_state (\<lambda>s.
     if get_course_by_code DEMO_COURSE_CODE s \<noteq> None then ret ()
     else bind take_uuid (\<lambda>cid.
       seq (modify (\<lambda>s. s\<lparr>courses := courses s @ [\<lparr>c_id = cid, c_code = DEMO_COURSE_CODE,
              c_description = Some ''Annual HACCP knowledge refresher for floor operators.'', c_is_active = True\<rparr>]\<rparr>))
      (bind take_uuid (\<lambda>vid.
       seq (modify (\<lambda>s. s\<lparr>course_versions := course_versions s @ [demo_version cid vid]\<rparr>))
      (seq (for_each (seed_module vid) (enumerate 0 DEMO_MODULES))
      (seq (for_each (seed_question vid) (enumerate 0 DEMO_QUESTIONS))
      (bind take_uuid (\<lambda>i.
       seq (modify (\<lambda>s. s\<lparr>assignments := assignments s @ [\<lparr>as_id = i, as_course_id = cid, as_role_code = Some ''operator'',
              as_line_id = None, recurrence_months = 12\<rparr>]\<rparr>))
           flush))))))))"

subsection \<open>What sets off the alarm\<close>

lemma oven_not_gated: "\<not> gated (oven_trigger line i)"
  by (simp add: gated_def oven_trigger_def duration_of_def jget_or_null_def jget_def)

text \<open>A reading that reaches the engine carries the metric under its own name; nothing else is called temperature.\<close>

lemma reading_temperature:
  "jget ''temperature'' (reading_of line device metric x) = (if metric = ''temperature'' then Some (JFloat x) else None)"
  by (auto simp: reading_of_def jget_def map_of_jset simp del: jset.simps)

lemma oven_matches:
  "matches (reading_of line device metric x) (oven_trigger l i) \<longleftrightarrow>
     (case l of None \<Rightarrow> True | Some l \<Rightarrow> line = line_code l) \<and> metric = ''temperature'' \<and> flt (Fin 220) x"
proof -
  have op: "operator_of ''>'' = Some (\<lambda>a b. jlt b a)" by (simp add: operator_of_def)
  have "jlt (JInt 220) (JFloat x) = Some (flt (Fin 220) x)" by (cases x) simp_all
  moreover have "jget_or_null ''scope'' (reading_of line device metric x) = JStr (''line:'' @ line)"
    by (simp add: jget_or_null_def reading_of_fixed [unfolded jget_def])
  moreover have "truthy (Some (''line:'' @ c))" for c by (simp add: truthy_def)
  ultimately show ?thesis
    by (auto simp: matches_def oven_trigger_def scope_matches_def evaluate_condition_def jget_or_null_def jget_def [of "''metric''"]
        jget_def [of "''operator''"] jget_def [of "''value''"] op reading_temperature or_empty_def truthy_def split: option.splits)
qed

text \<open>A database without the rows, whose ids are all drawn ones.\<close>

definition alarm_free :: "'a trigger_db_scheme \<Rightarrow> bool" where
  "alarm_free s \<longleftrightarrow> \<not> session_failed s \<and> inj (uuid_at s) \<and> ''OVEN1_OVERHEAT'' \<notin> tg_code ` set (triggers s) \<and>
     {''NOTIFY_QA'', ''OPEN_TICKET''} \<inter> rs_code ` set (responders s) = {} \<and>
     rs_id ` set (responders s) \<union> link_trigger_id ` set (trigger_responders s) \<subseteq> drawn s"

lemma triggers_and_links_frame:
  "responders (snd (insert_trigger t s)) = responders s" "responders (snd (insert_link l s)) = responders s"
  by (simp_all add: insert_trigger_def insert_link_def)

text \<open>Whatever seeding does, the codes of the responders stay unique, as firing a trigger needs.\<close>

lemma seeding_keeps_codes:
  fixes s :: "'a trigger_db_scheme"
  assumes "distinct (map rs_code (responders s))"
  shows "distinct (map rs_code (responders (snd (seed_demo_triggers s))))"
proof -
  define R where "R = (\<lambda>(s :: 'a trigger_db_scheme) (t :: 'a trigger_db_scheme). distinct (map rs_code (responders s)) \<longrightarrow> distinct (map rs_code (responders t)))"
  have r: "reflp R" and t: "transp R" by (auto simp: R_def reflp_def transp_def)
  have rules: "keeps R take_uuid" "keeps R (insert_trigger g)" "keeps R (insert_link l)" "keeps R (insert_responder x)" for g l x
    by (rule keepsI; simp add: R_def take_uuid_def triggers_and_links_frame responder_rows.ins_unique)+
  have "keeps R seed_demo_triggers"
    unfolding seed_demo_triggers_def
    by (intro rules keeps_with_state keeps_if keeps_ret [OF r] keeps_bind [OF t] keeps_seq [OF t])
  then have "R s (snd (seed_demo_triggers s))" by (rule keepsD)
  then show ?thesis using assms by (simp add: R_def)
qed

lemma later_id: "inj (uuid_at s) \<Longrightarrow> uuid_next s \<le> n \<Longrightarrow> uuid_at s n \<notin> drawn s"
  by (auto simp: drawn_def inj_eq)

lemma alarm_free_fresh:
  assumes "alarm_free s" "uuid_next s \<le> n"
  shows "uuid_at s n \<notin> rs_id ` set (responders s)" "uuid_at s n \<notin> link_trigger_id ` set (trigger_responders s)"
  using assms later_id [of s n] by (auto simp: alarm_free_def)

lemma seed_demo_triggers_run:
  assumes "alarm_free s"
  shows "seed_demo_triggers s = (Inr (), s
    \<lparr>uuid_next := uuid_next s + 3,
     responders := responders s @ [notify_responder (uuid_at s (uuid_next s)), open_ticket_responder (uuid_at s (uuid_next s + 1))],
     triggers := triggers s @ [oven_trigger (by_key line_code ''LINE_A'' (lines s)) (uuid_at s (uuid_next s + 2))],
     trigger_responders := trigger_responders s @
       [\<lparr>link_trigger_id = uuid_at s (uuid_next s + 2), link_responder_id = uuid_at s (uuid_next s), link_order_index = 0\<rparr>,
        \<lparr>link_trigger_id = uuid_at s (uuid_next s + 2), link_responder_id = uuid_at s (uuid_next s + 1), link_order_index = 1\<rparr>]\<rparr>)"
proof -
  have new: "uuid_at s (uuid_next s + 2) \<notin> link_trigger_id ` set (trigger_responders s)"
    by (rule alarm_free_fresh(2) [OF assms]) simp
  have ids: "uuid_at s (uuid_next s) \<noteq> uuid_at s (uuid_next s + 1)"
    using assms by (auto simp: alarm_free_def dest: injD)
  show ?thesis
    using assms new ids
    by (auto simp: alarm_free_def seed_demo_triggers_def by_key_None seq_Inr insert_responder_def insert_trigger_def
        insert_link_def notify_responder_def open_ticket_responder_def oven_trigger_def gen_uuid_def seq_def bind_def take_uuid_def)
qed

text \<open>
  Seeding the alarm of the oven. On a database without it, seeding succeeds and adds one trigger,
  active, live and without a duration, whose responders are the notification and the ticket; of
  the messages the MQTT bridge accepts it matches exactly those of the demonstration line with a
  temperature above 220; and seeding again changes nothing.
\<close>

theorem seeded_alarm:
  assumes "alarm_free s" "by_key line_code ''LINE_A'' (lines s) = Some l"
  shows "\<exists>t s'. seed_demo_triggers s = (Inr (), s') \<and> triggers s' = triggers s @ [t] \<and> tg_is_active t \<and> \<not> dry_run t \<and> \<not> gated t \<and>
    map rs_code (responders_of (tg_id t) s') = [''NOTIFY_QA'', ''OPEN_TICKET''] \<and>
    (\<forall>topic payload r. parse_message topic payload = Inr (Some r) \<longrightarrow>
       matches r t = (jget ''line_code'' r = Some (JStr ''LINE_A'') \<and> (\<exists>x. jget ''temperature'' r = Some (JFloat x) \<and> flt (Fin 220) x))) \<and>
    seed_demo_triggers s' = (Inr (), s')"
proof -
  define t where "t = oven_trigger (Some l) (uuid_at s (uuid_next s + 2))"
  obtain s' where run: "seed_demo_triggers s = (Inr (), s')" and s': "triggers s' = triggers s @ [t]"
    "responders s' = responders s @ [notify_responder (uuid_at s (uuid_next s)), open_ticket_responder (uuid_at s (uuid_next s + 1))]"
    "trigger_responders s' = trigger_responders s @
       [\<lparr>link_trigger_id = tg_id t, link_responder_id = uuid_at s (uuid_next s), link_order_index = 0\<rparr>,
        \<lparr>link_trigger_id = tg_id t, link_responder_id = uuid_at s (uuid_next s + 1), link_order_index = 1\<rparr>]"
    using seed_demo_triggers_run [OF assms(1)] assms(2) by (simp add: t_def oven_trigger_def)
  have linked: "(\<exists>k\<in>set (trigger_responders s'). link_trigger_id k = tg_id t \<and> link_responder_id k = i) \<longleftrightarrow>
      i \<in> {uuid_at s (uuid_next s), uuid_at s (uuid_next s + 1)}" for i
  proof -
    have "link_trigger_id k \<noteq> tg_id t" if "k \<in> set (trigger_responders s)" for k
      using imageI [OF that, of link_trigger_id] alarm_free_fresh(2) [OF assms(1), of "uuid_next s + 2"]
      by (auto simp: t_def oven_trigger_def)
    then show ?thesis by (auto simp: s'(3))
  qed
  have "filter (\<lambda>r. rs_id r \<in> {uuid_at s (uuid_next s), uuid_at s (uuid_next s + 1)}) (responders s) = []"
    using alarm_free_fresh(1) [OF assms(1), of "uuid_next s"] alarm_free_fresh(1) [OF assms(1), of "uuid_next s + 1"]
    by (auto simp: filter_empty_conv) (metis imageI)+
  then have "responders_of (tg_id t) s' =
      [notify_responder (uuid_at s (uuid_next s)), open_ticket_responder (uuid_at s (uuid_next s + 1))]"
    unfolding responders_of_def linked s'(2) by (simp add: notify_responder_def open_ticket_responder_def)
  then have codes: "map rs_code (responders_of (tg_id t) s') = [''NOTIFY_QA'', ''OPEN_TICKET'']"
    by (simp add: notify_responder_def open_ticket_responder_def)
  have m: "matches r t = (jget ''line_code'' r = Some (JStr ''LINE_A'') \<and> (\<exists>x. jget ''temperature'' r = Some (JFloat x) \<and> flt (Fin 220) x))"
    if p: "parse_message topic payload = Inr (Some r)" for topic payload r
  proof -
    obtain line device metric x where "r = reading_of line device metric x" by (rule parse_message_Some [OF p]) blast
    moreover have "line_code l = ''LINE_A''" using by_key_Some [OF assms(2)] by simp
    ultimately show ?thesis by (simp add: t_def oven_matches reading_temperature reading_of_fixed)
  qed
  have "by_key tg_code ''OVEN1_OVERHEAT'' (triggers s') \<noteq> None"
    by (simp add: by_key_None s'(1) t_def oven_trigger_def)
  then have "seed_demo_triggers s' = (Inr (), s')" by (auto simp: seed_demo_triggers_def)
  then show ?thesis
    using run s'(1) codes m oven_not_gated
    by (intro exI [of _ t] exI [of _ s']) (auto simp: t_def, simp_all add: oven_trigger_def)
qed

lemma recorded_healthy: "record_entry ty ac e d u s = (Inr x, t) \<Longrightarrow> \<not> session_failed t"
  by (auto simp: record_entry_def Let_def split: if_splits)

text \<open>
  Seeding is not safe to repeat once the trigger has been renamed. The trigger page lets an author
  change the code, the responders stay, and the next seeding run ends in an IntegrityError on
  their codes.
\<close>

theorem renamed_trigger_blocks_seeding:
  assumes w: "writable s" and m: "may_define s form" and t: "by_key tg_id tid (triggers s) = Some t"
    and one: "\<forall>r\<in>set (triggers s). tg_code r = ''OVEN1_OVERHEAT'' \<longrightarrow> tg_id r = tid"
    and new: "code_taken form s = None" "strip (f_code form) \<noteq> ''OVEN1_OVERHEAT''"
    and rs: "''NOTIFY_QA'' \<in> rs_code ` set (responders s)"
  shows "\<exists>s'. triggers_edit_post tid form s = (Inr (Redirect ''/admin/triggers''), s') \<and>
    fst (seed_demo_triggers s') = Inl (IntegrityError ''responders.code'')"
proof -
  have f: "\<not> metric_missing form" "distinct (f_responder_ids form)" using m by (auto simp: may_define_def)
  have id: "tg_id t = tid" using by_key_Some [OF t] by simp
  obtain c where c: "save_trigger t form s = (Inr (), c)"
    "triggers c = update_row tg_id (tg_id t) (apply_form_to_trigger form) (triggers s)" "responders c = responders s"
    by (rule save_trigger_run [OF w f(2)])
  have run: "triggers_edit_post tid form s = (Inr (Redirect ''/admin/triggers''), commit c)"
    using m f(1) by (auto simp: may_define_def triggers_edit_post_def require_permission_def t new(1) committing_def c(1))
  have "tg_code r \<noteq> ''OVEN1_OVERHEAT''" if "r \<in> set (triggers (commit c))" for r
    using that one new(2) by (auto simp: c(2) update_row_def id split: if_splits)
  then have none: "by_key tg_code ''OVEN1_OVERHEAT'' (triggers (commit c)) = None"
    unfolding by_key_None image_iff by metis
  have "\<not> session_failed (commit c)"
    using c(1) by (auto simp: save_trigger_def run_iff commit_def dest!: recorded_healthy)
  with none rs have "fst (seed_demo_triggers (commit c)) = Inl (IntegrityError ''responders.code'')"
    by (simp add: seed_demo_triggers_def seq_Inl insert_responder_def c(3) notify_responder_def)
  with run show ?thesis by blast
qed

subsection \<open>The demonstration course\<close>

text \<open>The rows of a question and its options that a prompt with its options becomes.\<close>

definition asks :: "'a training_db_scheme \<Rightarrow> training_question \<Rightarrow> texts \<times> (texts \<times> bool) list \<Rightarrow> bool" where
  "asks s q p \<longleftrightarrow> q_prompt q = fst p \<and> q_kind q = question_kind_value SINGLE_CHOICE \<and>
     map (\<lambda>o1. (o_label o1, o_is_correct o1)) (options_of (q_id q) s) = snd p"

lemma option_rows_texts: "map (\<lambda>o1. (o_label o1, o_is_correct o1)) (option_rows qid uid n idx ps) = ps"
  by (induction ps arbitrary: n idx) (simp_all add: option_row_def)

text \<open>The other tables of the course.\<close>

definition same_courses :: "'a training_db_scheme \<Rightarrow> 'a training_db_scheme \<Rightarrow> bool" where
  "same_courses s t \<longleftrightarrow> courses t = courses s \<and> course_versions t = course_versions s \<and> assignments t = assignments s \<and>
     uuid_at t = uuid_at s \<and> uuid_next s \<le> uuid_next t \<and> (session_failed t \<longleftrightarrow> session_failed s)"

lemma same_courses_trans: "same_courses s t \<Longrightarrow> same_courses t u \<Longrightarrow> same_courses s u"
  by (auto simp: same_courses_def)

lemma seed_question_run:
  assumes wf: "content_wf s" and nf: "\<not> session_failed s"
    and new: "(vid, int k) \<notin> (\<lambda>q. (q_version_id q, q_order_index q)) ` set (questions s)"
    and ok: "2 \<le> length (snd p) \<and> list_ex snd (snd p)"
  obtains q t where "seed_question vid (k, p) s = (Inr (), t)" "content_wf t" "questions t = questions s @ [q]"
    "q_version_id q = vid" "q_order_index q = int k" "asks t q p" "q_id q \<notin> q_id ` set (questions s)"
    "\<And>qid. qid \<noteq> q_id q \<Longrightarrow> options_of qid t = options_of qid s" "modules t = modules s" "same_courses s t"
proof -
  let ?i = "gen_uuid s"
  let ?q = "\<lparr>q_id = ?i, q_version_id = vid, q_order_index = int k, q_prompt = fst p, q_kind = question_kind_value SINGLE_CHOICE\<rparr>"
  let ?s1 = "s\<lparr>uuid_next := Suc (uuid_next s), questions := questions s @ [?q]\<rparr>"
  let ?t = "?s1\<lparr>uuid_next := Suc (uuid_next s) + length (snd p),
      answer_options := answer_options s @ option_rows ?i (uuid_at s) (Suc (uuid_next s)) 0 (snd p)\<rparr>"
  have fresh: "?i \<notin> q_id ` set (questions s)" by (rule gen_uuid_not_drawn [OF wf])
  have no_opts: "filter (\<lambda>p. o_question_id p \<noteq> ?i) (answer_options s) = answer_options s"
  proof (intro filter_True ballI notI)
    fix p assume "p \<in> set (answer_options s)" "o_question_id p = ?i"
    then have "?i \<in> o_question_id ` set (answer_options s)" by force
    then show False using wf fresh by (auto simp only: content_wf_def)
  qed
  have run: "seed_question vid (k, p) s = (Inr (), ?t)"
    using nf new by (simp add: seed_question_def seq_Inr insert_question_def add_options_from)
  have opts: "answer_options ?t = filter (\<lambda>p. o_question_id p \<noteq> ?i) (answer_options s) @
      option_rows ?i (uuid_at s) (Suc (uuid_next s)) 0 (snd p)" by (simp add: no_opts)
  have "content_wf ?t"
  proof (rule content_wf_saved [OF wf ok, of ?t ?i])
    show "q_id ` set (questions ?t) \<subseteq> drawn ?t" using wf by (auto simp: content_wf_def drawn_def gen_uuid_def)
    show "distinct (map q_id (questions ?t))" using wf fresh by (simp add: content_wf_def)
    show "distinct (map (\<lambda>q. (q_version_id q, q_order_index q)) (questions ?t))" using wf new by (simp add: content_wf_def)
  qed (simp_all add: no_opts)
  then show thesis
    using fresh options_of_replaced [OF opts]
    by (intro that [of ?t ?q] run) (simp_all add: asks_def option_rows_texts same_courses_def)
qed

lemma seed_questions_run:
  assumes "content_wf s" "\<not> session_failed s" "\<forall>q\<in>set (questions s). q_version_id q = vid \<longrightarrow> q_order_index q < int k"
    "\<forall>p\<in>set ps. 2 \<le> length (snd p) \<and> list_ex snd (snd p)"
  obtains qs t where "for_each (seed_question vid) (enumerate k ps) s = (Inr (), t)" "content_wf t" "questions t = questions s @ qs"
    "\<forall>q\<in>set qs. q_version_id q = vid" "map q_order_index qs = map int [k..<k + length ps]" "list_all2 (asks t) qs ps"
    "q_id ` set qs \<inter> q_id ` set (questions s) = {}"
    "\<And>qid. qid \<notin> q_id ` set qs \<Longrightarrow> options_of qid t = options_of qid s" "modules t = modules s" "same_courses s t"
  using assms
proof (induction ps arbitrary: s k thesis)
  case Nil
  then show ?case by (auto simp: same_courses_def)
next
  case (Cons p ps)
  have new: "(vid, int k) \<notin> (\<lambda>q. (q_version_id q, q_order_index q)) ` set (questions s)" using Cons.prems(4) by auto
  have ok: "2 \<le> length (snd p) \<and> list_ex snd (snd p)" using Cons.prems(5) by simp
  obtain q u where q: "seed_question vid (k, p) s = (Inr (), u)" "content_wf u" "questions u = questions s @ [q]"
    "q_version_id q = vid" "q_order_index q = int k" "asks u q p" "q_id q \<notin> q_id ` set (questions s)"
    "\<And>qid. qid \<noteq> q_id q \<Longrightarrow> options_of qid u = options_of qid s" "modules u = modules s" "same_courses s u"
    by (rule seed_question_run [OF Cons.prems(2,3) new ok]) blast
  have nf: "\<not> session_failed u" using Cons.prems(3) q(10) by (simp add: same_courses_def)
  have below: "\<forall>r\<in>set (questions u). q_version_id r = vid \<longrightarrow> q_order_index r < int (Suc k)"
    using Cons.prems(4) q(5) by (auto simp: q(3))
  obtain qs t where t: "for_each (seed_question vid) (enumerate (Suc k) ps) u = (Inr (), t)" "content_wf t" "questions t = questions u @ qs"
    "\<forall>q\<in>set qs. q_version_id q = vid" "map q_order_index qs = map int [Suc k..<Suc k + length ps]" "list_all2 (asks t) qs ps"
    "q_id ` set qs \<inter> q_id ` set (questions u) = {}"
    "\<And>qid. qid \<notin> q_id ` set qs \<Longrightarrow> options_of qid t = options_of qid u" "modules t = modules u" "same_courses u t"
    using Cons.IH [OF _ q(2) nf below] Cons.prems(5) by auto
  have "q_id q \<notin> q_id ` set qs" using t(7) by (auto simp: q(3))
  then have "asks t q p" using q(6) t(8) [of "q_id q"] by (simp add: asks_def)
  moreover have "for_each (seed_question vid) (enumerate k (p # ps)) s = (Inr (), t)"
    using q(1) t(1) by (simp add: enumerate_simps seq_Inr)
  moreover have "map int [k..<k + length (p # ps)] = int k # map int [Suc k..<Suc k + length ps]"
    by (subst upt_conv_Cons) simp_all
  ultimately show ?case
    using q t same_courses_trans [OF q(10) t(10)]
    by (intro Cons.prems(1) [of t "q # qs"]) auto
qed

lemma demo_questions_ok:
  "\<forall>p\<in>set DEMO_QUESTIONS. 2 \<le> length (snd p) \<and> list_ex snd (snd p) \<and> length (filter snd (snd p)) = 1"
  by (simp add: DEMO_QUESTIONS_def)

lemma list_all2_partner: "list_all2 P xs ys \<Longrightarrow> x \<in> set xs \<Longrightarrow> \<exists>y\<in>set ys. P x y"
  by (induction rule: list_all2_induct) auto

lemma one_right_option:
  assumes "asks s q p" "length (filter snd (snd p)) = 1"
  shows "\<exists>!i. i \<in> correct_ids (q_id q) s"
proof -
  have opts: "snd p = map (\<lambda>o1. (o_label o1, o_is_correct o1)) (options_of (q_id q) s)"
    using assms(1) by (simp add: asks_def)
  have "filter snd (snd p) = map (\<lambda>o1. (o_label o1, o_is_correct o1)) (filter o_is_correct (options_of (q_id q) s))"
    by (simp add: opts filter_map comp_def)
  then obtain o1 where "filter o_is_correct (options_of (q_id q) s) = [o1]"
    using assms(2) by (auto simp: length_Suc_conv)
  then show ?thesis by (simp add: correct_ids_def)
qed

lemma seed_modules_run:
  assumes "content_wf s" "\<not> session_failed s" "\<forall>m\<in>set (modules s). m_version_id m = vid \<longrightarrow> m_order_index m < int k"
  obtains ms t where "for_each (seed_module vid) (enumerate k ps) s = (Inr (), t)"
    "content_wf t" "modules t = modules s @ ms" "\<forall>m\<in>set ms. m_version_id m = vid"
    "map m_order_index ms = map int [k..<k + length ps]" "map (\<lambda>m. (m_title m, m_body_md m)) ms = ps"
    "questions t = questions s" "same_courses s t"
  using assms
proof (induction ps arbitrary: s k thesis)
  case Nil
  then show ?case by (auto simp: same_courses_def)
next
  case (Cons p ps)
  let ?m = "demo_module vid (k, p) (gen_uuid s)"
  let ?u = "s\<lparr>uuid_next := Suc (uuid_next s), modules := modules s @ [?m]\<rparr>"
  have new: "(vid, int k) \<notin> (\<lambda>m. (m_version_id m, m_order_index m)) ` set (modules s)" using Cons.prems(4) by auto
  have run: "seed_module vid (k, p) s = (Inr (), ?u)"
    using new Cons.prems(3) by (simp add: seed_module_def insert_module_def demo_module_def)
  have "content_wf (s\<lparr>uuid_next := Suc (uuid_next s)\<rparr>)"
    by (rule content_wf_same [OF _ Cons.prems(2)]) (simp add: same_content_def)
  from content_wf_modules [OF this, of "modules s @ [?m]"]
  have wf: "content_wf ?u" using Cons.prems(2) new by (auto simp: content_wf_def demo_module_def)
  have below: "\<forall>m\<in>set (modules ?u). m_version_id m = vid \<longrightarrow> m_order_index m < int (Suc k)"
    using Cons.prems(4) by (auto simp: demo_module_def)
  have nf: "\<not> session_failed ?u" using Cons.prems(3) by simp
  obtain ms t where t: "for_each (seed_module vid) (enumerate (Suc k) ps) ?u = (Inr (), t)"
    "content_wf t" "modules t = modules ?u @ ms" "\<forall>m\<in>set ms. m_version_id m = vid"
    "map m_order_index ms = map int [Suc k..<Suc k + length ps]" "map (\<lambda>m. (m_title m, m_body_md m)) ms = ps"
    "questions t = questions ?u" "same_courses ?u t"
    by (rule Cons.IH [OF _ wf nf below])
  have "map int [k..<k + length (p # ps)] = int k # map int [Suc k..<Suc k + length ps]"
    by (subst upt_conv_Cons) simp_all
  moreover have "for_each (seed_module vid) (enumerate k (p # ps)) s = (Inr (), t)"
    using run t(1) by (simp add: enumerate_simps seq_Inr)
  ultimately show ?case
    by (intro Cons.prems(1) [of t "?m # ms"]) (use t in \<open>simp_all add: demo_module_def same_courses_def\<close>)
qed

text \<open>
  Seeding the demonstration course. On a database without the course, whose ids are drawn ones,
  seeding succeeds: the course is there with one active version, its lessons and the questions of
  its exam in order, each with exactly one right option; every operator is assigned to it; the
  content invariant of the authoring pages holds; and seeding again changes nothing.
\<close>

definition course_free :: "'a training_db_scheme \<Rightarrow> bool" where
  "course_free s \<longleftrightarrow> \<not> session_failed s \<and> content_wf s \<and> DEMO_COURSE_CODE \<notin> c_code ` set (courses s) \<and>
     v_course_id ` set (course_versions s) \<union> as_course_id ` set (assignments s) \<union> m_version_id ` set (modules s) \<union>
       q_version_id ` set (questions s) \<union> v_id ` set (course_versions s) \<subseteq> drawn s"

theorem seeded_course:
  assumes "course_free s"
  shows "\<exists>c v t. seed_demo_training s = (Inr (), t) \<and> content_wf t \<and> get_course_by_code DEMO_COURSE_CODE t = Some c \<and>
    active_version (c_id c) t = Some v \<and> map (\<lambda>m. (m_title m, m_body_md m)) (modules_of (v_id v) t) = DEMO_MODULES \<and>
    list_all2 (asks t) (questions_of (v_id v) t) DEMO_QUESTIONS \<and>
    (\<forall>q\<in>set (questions_of (v_id v) t). \<exists>!i. i \<in> correct_ids (q_id q) t) \<and>
    map as_role_code (assignments_of (c_id c) t) = [Some ''operator''] \<and> seed_demo_training t = (Inr (), t)"
proof -
  let ?cid = "uuid_at s (uuid_next s)" and ?vid = "uuid_at s (Suc (uuid_next s))"
  let ?c = "\<lparr>c_id = ?cid, c_code = DEMO_COURSE_CODE,
     c_description = Some ''Annual HACCP knowledge refresher for floor operators.'', c_is_active = True\<rparr>"
  let ?v = "demo_version ?cid ?vid"
  let ?s2 = "s\<lparr>courses := courses s @ [?c], uuid_next := Suc (Suc (uuid_next s)), course_versions := course_versions s @ [?v]\<rparr>"
  have inj: "inj (uuid_at s)" using assms by (simp add: course_free_def content_wf_def)
  have new: "?cid \<notin> drawn s" "?vid \<notin> drawn s" by (rule later_id [OF inj]; simp)+
  have "?cid \<notin> v_course_id ` set (course_versions s)" "?cid \<notin> as_course_id ` set (assignments s)"
    "?vid \<notin> m_version_id ` set (modules s)" "?vid \<notin> q_version_id ` set (questions s)"
    using assms new unfolding course_free_def by blast+
  then have fresh: "\<forall>v\<in>set (course_versions s). v_course_id v \<noteq> ?cid" "\<forall>a\<in>set (assignments s). as_course_id a \<noteq> ?cid"
    "\<forall>m\<in>set (modules s). m_version_id m \<noteq> ?vid" "\<forall>q\<in>set (questions s). q_version_id q \<noteq> ?vid"
    by (metis imageI)+
  have wf2: "content_wf ?s2" by (rule content_wf_same [of s]) (use assms in \<open>simp_all add: same_content_def course_free_def\<close>)
  have nf2: "\<not> session_failed ?s2" using assms by (simp add: course_free_def)
  obtain ms t1 where ms: "for_each (seed_module ?vid) (enumerate 0 DEMO_MODULES) ?s2 = (Inr (), t1)"
    "content_wf t1" "modules t1 = modules ?s2 @ ms" "\<forall>m\<in>set ms. m_version_id m = ?vid"
    "map m_order_index ms = map int [0..<0 + length DEMO_MODULES]" "map (\<lambda>m. (m_title m, m_body_md m)) ms = DEMO_MODULES"
    "questions t1 = questions ?s2" "same_courses ?s2 t1"
    by (rule seed_modules_run [OF wf2 nf2, of ?vid 0 DEMO_MODULES]) (use fresh(3) in auto)
  have nf1: "\<not> session_failed t1" using nf2 ms(8) by (simp add: same_courses_def)
  obtain qs t2 where qs: "for_each (seed_question ?vid) (enumerate 0 DEMO_QUESTIONS) t1 = (Inr (), t2)" "content_wf t2"
    "questions t2 = questions t1 @ qs" "\<forall>q\<in>set qs. q_version_id q = ?vid"
    "map q_order_index qs = map int [0..<0 + length DEMO_QUESTIONS]" "list_all2 (asks t2) qs DEMO_QUESTIONS"
    "modules t2 = modules t1" "same_courses t1 t2"
    by (rule seed_questions_run [OF ms(2) nf1, of ?vid 0 DEMO_QUESTIONS]) (use fresh(4) demo_questions_ok ms(7) in auto)
  have nf: "\<not> session_failed t2" using nf1 qs(8) by (simp add: same_courses_def)
  let ?t = "t2\<lparr>uuid_next := Suc (uuid_next t2), assignments := assignments t2 @
     [\<lparr>as_id = gen_uuid t2, as_course_id = ?cid, as_role_code = Some ''operator'', as_line_id = None, recurrence_months = 12\<rparr>]\<rparr>"
  have none: "get_course_by_code DEMO_COURSE_CODE s = None"
    using assms unfolding get_course_by_code_def find_None_iff course_free_def by (metis imageI)
  have run: "seed_demo_training s = (Inr (), ?t)"
    using none ms(1) qs(1) nf by (simp add: seed_demo_training_def seq_Inr gen_uuid_def flush_def)
  have course: "get_course_by_code DEMO_COURSE_CODE ?t = Some ?c"
    using none ms(8) qs(8) by_key_append [of c_code DEMO_COURSE_CODE "courses s" "[?c]"]
    by (simp add: get_course_by_code_def same_courses_def by_key_def)
  have "filter (\<lambda>v. v_course_id v = ?cid \<and> v_is_active v) (course_versions s) = []"
    using fresh(1) by (auto simp: filter_empty_conv)
  then have version: "active_version ?cid ?t = Some ?v"
    using ms(8) qs(8) by (simp add: active_version_def same_courses_def demo_version_def last_by_def)
  have ord: "sorted (map int [0..<n])" for n by (induction n) (auto simp: sorted_append)
  have "filter (\<lambda>m. m_version_id m = ?vid) (modules s) = []" using fresh(3) by (auto simp: filter_empty_conv)
  then have mods: "modules_of ?vid ?t = ms"
    using ms(3-5) qs(7) ord by (simp add: modules_of_def sort_key_sorted)
  have "filter (\<lambda>q. q_version_id q = ?vid) (questions s) = []" using fresh(4) by (auto simp: filter_empty_conv)
  then have exam: "questions_of ?vid ?t = qs"
    using qs(3-5) ms(7) ord by (simp add: questions_of_def sort_key_sorted)
  have asked: "list_all2 (asks ?t) qs DEMO_QUESTIONS" using qs(6) by (simp add: asks_def [abs_def] options_of_def)
  have "\<exists>!i. i \<in> correct_ids (q_id q) ?t" if q: "q \<in> set qs" for q
  proof -
    obtain p where p: "asks ?t q p" "p \<in> set DEMO_QUESTIONS"
      using list_all2_partner [OF asked q] by blast
    show ?thesis by (rule one_right_option [OF p(1)]) (use p(2) demo_questions_ok in blast)
  qed
  moreover have "filter (\<lambda>a. as_course_id a = ?cid) (assignments s) = []" using fresh(2) by (auto simp: filter_empty_conv)
  then have "map as_role_code (assignments_of ?cid ?t) = [Some ''operator'']"
    using ms(8) qs(8) by (simp add: assignments_of_def same_courses_def)
  moreover have "content_wf ?t" by (rule content_wf_same [OF _ qs(2)]) (simp add: same_content_def)
  moreover have "seed_demo_training ?t = (Inr (), ?t)" by (simp add: seed_demo_training_def course)
  ultimately show ?thesis
    using run course version mods exam asked ms(6)
    by (intro exI [of _ ?c] exI [of _ ?v] exI [of _ ?t]) (simp add: demo_version_def)
qed

end
