(* ===== verification/Gateway.thy ===== *)
theory Gateway
  imports Accounts Dsar Certificates
begin

text \<open>
  The edges of the application: where a sign-in may lead and the choice of a language
  (app/blueprints/auth.py), the headers of every answer (app/security_headers.py), and what
  app/__init__.py does itself: the section of a page, the warnings about a configuration, and the
  commands that issue a link, export a subject and erase one. \<open>url_for('dashboard.index')\<close> is
  the path of the dashboard.
\<close>

subsection \<open>Where to go next\<close>

definition dashboard_url :: string where
  "dashboard_url = ''/''"

text \<open>
  The network location of a URL must have both brackets of an IPv6 address or none; \<open>urlparse\<close>
  raises otherwise. Its further checks of a bracketed or a non-ASCII host, which raise as well, are
  left out: such a host is refused here.
\<close>

definition malformed_netloc :: "string \<Rightarrow> bool" where
  "malformed_netloc u \<longleftrightarrow> (CHR ''['' \<in> set (url_netloc u)) \<noteq> (CHR '']'' \<in> set (url_netloc u))"

definition safe_next_url :: "string option \<Rightarrow> exc + string" where
  "safe_next_url candidate =
     (if \<not> truthy candidate then Inr dashboard_url
      else let c = or_empty candidate
           in if malformed_netloc c then Inl (ValueError ''Invalid IPv6 URL'')
              else if url_scheme c \<noteq> [] \<or> url_netloc c \<noteq> [] then Inr dashboard_url
              else if \<not> startswith c ''/'' \<or> startswith c ''//'' then Inr dashboard_url
              else Inr c)"

text \<open>A path of this site, which no reader takes for another host.\<close>

definition local_path :: "string \<Rightarrow> bool" where
  "local_path u \<longleftrightarrow> startswith u ''/'' \<and> \<not> startswith u ''//'' \<and> url_scheme u = [] \<and> url_netloc u = []"

theorem next_url_stays_local:
  assumes "safe_next_url candidate = Inr u"
  shows "local_path u"
proof -
  have "url_scheme dashboard_url = []" "url_netloc dashboard_url = []" by code_simp+
  then show ?thesis
    using assms by (auto simp: safe_next_url_def local_path_def Let_def dashboard_url_def split: if_splits)
qed

text \<open>A browser strips tabs before it reads a URL; so does the filter.\<close>

lemma next_url_examples:
  "safe_next_url (Some ''/tickets/?status=new'') = Inr ''/tickets/?status=new''"
  "safe_next_url (Some ''https://evil.example/qms'') = Inr dashboard_url"
  "safe_next_url (Some (''/'' @ [CHR 0x09] @ ''/evil.example'')) = Inr dashboard_url"
  "safe_next_url (Some ''//['') = Inl (ValueError ''Invalid IPv6 URL'')"
  by code_simp+

subsection \<open>Choosing a language\<close>

text \<open>\<open>urlparse(u).path\<close>: up to the query or the fragment, without the parameters of the last segment.\<close>

definition url_path :: "string \<Rightarrow> string" where
  "url_path u =
     (let rest = snd (url_split_scheme (url_clean u));
          after = (if startswith rest ''//'' then dropWhile (\<lambda>c. c \<notin> {CHR ''/'', CHR ''?'', CHR ''#''}) (drop 2 rest) else rest);
          path = takeWhile (\<lambda>c. c \<notin> {CHR ''?'', CHR ''#''}) after;
          final = rev (takeWhile (\<lambda>c. c \<noteq> CHR ''/'') (rev path))
      in take (length path - length final) path @ takeWhile (\<lambda>c. c \<noteq> CHR '';'') final)"

text \<open>The answer with its language cookie.\<close>

datatype language_response = InvalidLanguage | LanguageSet string string

definition next_candidate :: "string option \<Rightarrow> string option \<Rightarrow> string \<Rightarrow> exc + string option" where
  "next_candidate nxt referrer host =
     (if truthy nxt \<or> \<not> truthy referrer then Inr nxt
      else let r = or_empty referrer
           in if malformed_netloc r then Inl (ValueError ''Invalid IPv6 URL'')
              else if url_netloc r \<noteq> host then Inr nxt
              else Inr (Some (if url_path r = [] then ''/'' else url_path r)))"

definition set_language ::
  "string \<Rightarrow> string option \<Rightarrow> string option \<Rightarrow> string \<Rightarrow> ('a auth_db_scheme, language_response) py" where
  "set_language code nxt referrer host = with_state (\<lambda>s.
     if code \<notin> set (SUPPORTED_LANGUAGES (app_config s)) then ret InvalidLanguage
     else bind (lift (next_candidate nxt referrer host)) (\<lambda>candidate.
          bind (lift (safe_next_url candidate)) (\<lambda>next_url.
            case current_user s of
              None \<Rightarrow> ret (LanguageSet next_url code)
            | Some u \<Rightarrow>
                seq (modify (\<lambda>s. s\<lparr>users := update_row u_id (u_id u) (\<lambda>u. u\<lparr>language := code\<rparr>) (users s)\<rparr>))
               (seq flush (seq (modify commit) (ret (LanguageSet next_url code)))))))"

lemma set_language_Inr:
  assumes "set_language code nxt referrer host s = (Inr (LanguageSet u c), t)"
  shows "c = code \<and> code \<in> set (SUPPORTED_LANGUAGES (app_config s)) \<and> local_path u \<and>
    t = (case current_user s of None \<Rightarrow> s
         | Some v \<Rightarrow> commit (s\<lparr>users := update_row u_id (u_id v) (\<lambda>v. v\<lparr>language := code\<rparr>) (users s)\<rparr>))"
  using assms next_url_stays_local
  by (auto simp: set_language_def lift_def run_iff flush_def split: if_splits sum.splits option.splits)

text \<open>
  The language that was chosen is the one the next request is served in: from the row of a
  signed-in user whatever the cookie says, from the cookie otherwise. Nobody else's changes.
\<close>

theorem language_choice_sticks:
  assumes run: "set_language code nxt referrer host s = (Inr (LanguageSet url c), t)" and "code \<noteq> []"
  shows "local_path url \<and>
    (case current_user s of
       None \<Rightarrow> t = s \<and> detect_language (app_config t) None (Some c) best_match = code
     | Some u \<Rightarrow> (\<forall>cookie. detect_language (app_config t) (current_user t) cookie best_match = code) \<and>
         filter (\<lambda>v. u_id v \<noteq> u_id u) (users t) = filter (\<lambda>v. u_id v \<noteq> u_id u) (users s))"
proof (cases "current_user s")
  case None
  with set_language_Inr [OF run] \<open>code \<noteq> []\<close> show ?thesis
    by (auto simp: detect_language_def Let_def truthy_def or_empty_def)
next
  case (Some u)
  let ?f = "\<lambda>v. v\<lparr>language := code\<rparr>"
  have t: "t = commit (s\<lparr>users := update_row u_id (u_id u) ?f (users s)\<rparr>)" "local_path url"
    "code \<in> set (SUPPORTED_LANGUAGES (app_config s))"
    using set_language_Inr [OF run] Some by simp_all
  have "by_key u_id (u_id u) (update_row u_id (u_id u) ?f (users s)) = map_option ?f (by_key u_id (u_id u) (users s))"
    by (rule by_key_update_same) simp
  moreover obtain i where "session_user_id s = Some i" "by_key u_id i (users s) = Some u" "u_id u = i"
    using Some by (auto simp: current_user_def split: option.splits dest: by_key_Some)
  ultimately have "current_user t = Some (?f u)"
    by (simp add: t(1) current_user_def session_user_id_def commit_def)
  moreover have "filter (\<lambda>v. u_id v \<noteq> u_id u) (users t) = filter (\<lambda>v. u_id v \<noteq> u_id u) (users s)"
    by (simp add: t(1) commit_def update_row_def filter_map comp_def if_distrib cong: if_cong filter_cong) (rule map_idI, simp)
  moreover have "app_config t = app_config s" by (simp add: t(1) commit_def)
  ultimately show ?thesis using Some t \<open>code \<noteq> []\<close> by (simp add: detect_language_def Let_def)
qed

subsection \<open>The headers of an answer\<close>

definition quoted :: "string \<Rightarrow> string" where
  "quoted s = CHR 0x27 # s @ [CHR 0x27]"

definition build_csp :: "string list \<Rightarrow> string" where
  "build_csp extra_script =
     join_with ''; ''
       [''default-src '' @ quoted ''self'', ''script-src '' @ join_with '' '' (quoted ''self'' # extra_script),
        ''style-src '' @ quoted ''self'', ''img-src '' @ join_with '' '' [quoted ''self'', ''data:''],
        ''connect-src '' @ quoted ''self'', ''font-src '' @ quoted ''self'', ''object-src '' @ quoted ''none'',
        ''frame-ancestors '' @ quoted ''none'', ''base-uri '' @ quoted ''self'', ''form-action '' @ quoted ''self'']"

definition set_default :: "string \<Rightarrow> string \<Rightarrow> (string \<times> string) list \<Rightarrow> (string \<times> string) list" where
  "set_default k v headers = (case map_of headers k of None \<Rightarrow> headers @ [(k, v)] | Some w \<Rightarrow> headers)"

text \<open>The header names are compared as they are written; the application writes them in one way.\<close>

definition set_headers :: "bool \<Rightarrow> string list \<Rightarrow> int \<Rightarrow> bool \<Rightarrow> (string \<times> string) list \<Rightarrow> (string \<times> string) list" where
  "set_headers enabled extra_script max_age is_secure headers =
     (if \<not> enabled then headers
      else let hs = fold (\<lambda>(k, v). set_default k v)
             [(''Content-Security-Policy'', build_csp extra_script), (''X-Content-Type-Options'', ''nosniff''),
              (''X-Frame-Options'', ''DENY''), (''Referrer-Policy'', ''strict-origin-when-cross-origin''),
              (''Permissions-Policy'', ''camera=(), microphone=(), geolocation=(), payment=(), usb=()'')] headers
           in if is_secure then set_default ''Strict-Transport-Security'' (''max-age='' @ show_int max_age @ ''; includeSubDomains'') hs
              else hs)"

lemma set_default_get:
  "map_of (set_default k v headers) j =
     (case map_of headers j of None \<Rightarrow> if j = k then Some v else None | Some w \<Rightarrow> Some w)"
  by (auto simp: set_default_def map_add_def split: option.splits)

text \<open>A view's own header wins; every answer that sets none gets the default, framing refused.\<close>

lemma set_headers_policy:
  "map_of headers k = Some v \<Longrightarrow> map_of (set_headers enabled extra max_age secure headers) k = Some v"
  "map_of headers ''X-Frame-Options'' = None \<Longrightarrow>
     map_of (set_headers True extra max_age secure headers) ''X-Frame-Options'' = Some ''DENY''"
  by (simp_all add: set_headers_def Let_def set_default_get split: option.split)

subsection \<open>Sections and configuration warnings\<close>

definition SECTION_FOR_PREFIX :: "(string \<times> string) list" where
  "SECTION_FOR_PREFIX =
     [(''admin.audit_'', ''compliance''), (''admin_training.'', ''compliance''), (''reports.'', ''compliance''),
      (''tickets.'', ''operations''), (''haccp.'', ''operations''), (''salsa.'', ''operations''), (''admin.'', ''system'')]"

definition classify_endpoint :: "string option \<Rightarrow> string option" where
  "classify_endpoint endpoint =
     (if \<not> truthy endpoint then None
      else map_option snd (find (\<lambda>(prefix, _). startswith (or_empty endpoint) prefix) SECTION_FOR_PREFIX))"

text \<open>The warnings at start-up; the text of \<open>repr\<close> is PyText's.\<close>

definition warn_unsafe_defaults :: "bool \<Rightarrow> bool \<Rightarrow> bool \<Rightarrow> app_config \<Rightarrow> string list" where
  "warn_unsafe_defaults testing debug cookie_secure cfg =
     (if testing \<or> debug then []
      else (if SMTP_FROM cfg \<in> {''qms@local'', ''qms@example.invalid''}
            then [''SMTP_FROM='' @ py_repr (SMTP_FROM cfg) @ '' is a placeholder '' @ utf8 0x2014 @
                  '' outbound email will fail or be marked spam in production''] else []) @
           (if SECRET_KEY cfg \<noteq> [] \<and> length (SECRET_KEY cfg) < 16
            then [''SECRET_KEY is shorter than 16 chars '' @ utf8 0x2014 @ '' generate a longer one''] else []) @
           (if \<not> cookie_secure then [''SESSION_COOKIE_SECURE is False '' @ utf8 0x2014 @ '' sessions can leak over HTTP''] else []) @
           (if TOTP_ENC_KEY cfg = []
            then [''TOTP_ENC_KEY is not set '' @ utf8 0x2014 @ '' any TOTP enrolment or verification will fail at runtime''] else []))"

subsection \<open>Commands\<close>

text \<open>A command prints its result, or refuses with a message and leaves nothing behind.\<close>

datatype 'r command = Refused string | Printed 'r

definition run_command :: "('a audit_db_scheme, 'r command) py \<Rightarrow> ('a audit_db_scheme, 'r command) py" where
  "run_command m = (\<lambda>s. case m s of
     (Inr (Printed r), t) \<Rightarrow> (Inr (Printed r), t)
   | (Inr (Refused e), t) \<Rightarrow> (Inr (Refused e), rollback s t)
   | (Inl e, t) \<Rightarrow> (Inl e, rollback s t))"

fun refusal :: "exc \<Rightarrow> string option" where
  "refusal (GDPRError m) = Some m"
| "refusal (DSARError m) = Some m"
| "refusal _ = None"

text \<open>Erasure needs the flag; the errors of the services become refusals.\<close>

definition gdpr_redact_command :: "string \<Rightarrow> bool \<Rightarrow> ('a training_db_scheme, json command) py" where
  "gdpr_redact_command spec confirm = run_command
     (if \<not> confirm then ret (Refused (''Refusing to redact without --confirm. This rewrites audit '' @
             ''diffs in place and rehashes every subsequent chain row.''))
      else catch (bind (redact spec) (\<lambda>summary. ret (Printed summary)))
             (\<lambda>e. refusal e \<noteq> None) (\<lambda>e. ret (Refused (or_empty (refusal e)))))"

definition dsar_export_command :: "row_extras \<Rightarrow> string \<Rightarrow> ('a training_db_scheme, json command) py" where
  "dsar_export_command x spec = run_command
     (catch (bind (export x spec) (\<lambda>payload. ret (Printed payload)))
        (\<lambda>e. refusal e \<noteq> None) (\<lambda>e. ret (Refused (or_empty (refusal e)))))"

definition cli_trainee :: "string \<Rightarrow> string \<Rightarrow> string \<Rightarrow> ('a training_db_scheme, trainee) py" where
  "cli_trainee phone name code = with_state (\<lambda>s.
     case by_key tr_phone phone (trainees s) of
       Some t \<Rightarrow> ret t
     | None \<Rightarrow> create_trainee
         \<lparr>ta_phone = phone, ta_full_name = name, ta_role_code = code, ta_line_id = None, ta_language = ''en'',
          ta_email = None, ta_channel = channel_value SMS, ta_employee_number = None\<rparr>)"

text \<open>The dry run: the enrolment with its link, without a job and without an audit entry.\<close>

definition dry_run_link :: "trainee \<Rightarrow> training_course \<Rightarrow> ('a training_db_scheme, string command) py" where
  "dry_run_link t c = with_state (\<lambda>s.
     case active_version (c_id c) s of
       None \<Rightarrow> ret (Refused (''Course '' @ c_code c @ '' has no active version.''))
     | Some v \<Rightarrow>
         bind take_uuid (\<lambda>i.
           let e = new_enrolment t v (enrolment_source_value SRC_MANUAL) (Some ''cli-dry-run'') s i
           in seq (insert_enrolment e)
             (case issue_token (training_db.hmac_hex s) (app_config s) i (expires_at e) of
                Inl x \<Rightarrow> throw x
              | Inr token \<Rightarrow>
                  seq (modify (update_enrolment i (\<lambda>e. e\<lparr>magic_token := token\<rparr>)))
                 (seq (modify commit) (ret (Printed (magic_link None (app_config s) token)))))))"

definition training_issue_link :: "string \<Rightarrow> string \<Rightarrow> string \<Rightarrow> string \<Rightarrow> bool \<Rightarrow> ('a training_db_scheme, string command) py" where
  "training_issue_link phone course_code name code dry = run_command (with_state (\<lambda>s.
     case get_course_by_code course_code s of
       None \<Rightarrow> ret (Refused (''Course '' @ py_repr course_code @ '' not found.''))
     | Some c \<Rightarrow>
         bind (cli_trainee phone name code) (\<lambda>t.
           if dry then dry_run_link t c
           else bind (enrol t c (enrolment_source_value SRC_MANUAL) (Some ''cli'') None) (\<lambda>e. with_state (\<lambda>s.
                  seq (modify commit) (ret (Printed (magic_link None (app_config s) (magic_token e)))))))))"

lemma refused_leaves_nothing:
  "run_command m s = (Inr (Refused msg), t) \<Longrightarrow> \<exists>u. t = rollback s u"
  by (auto simp: run_command_def split: prod.splits sum.splits command.splits)

lemma redaction_needs_confirmation:
  "gdpr_redact_command spec False s = (r, t) \<Longrightarrow> t = rollback s s"
  by (simp add: gdpr_redact_command_def run_command_def)

text \<open>
  The dry run only spares the message: for a trainee who is known it stores an enrolment that is
  open and whose link is the one printed, while the audit log and the queues stay as they were.
\<close>

theorem dry_run_stores_a_live_link:
  assumes run: "training_issue_link phone course_code name code True s = (Inr (Printed url), t)"
    and known: "by_key tr_phone phone (trainees s) = Some tr"
  shows "\<exists>e\<in>set (enrolments t). e_trainee_id e = tr_id tr \<and> e_status e = enrolment_status_value ISSUED \<and>
    url = magic_link None (app_config s) (magic_token e) \<and> audit_log t = audit_log s \<and> queue t = queue s"
proof -
  obtain c where "dry_run_link tr c s = (Inr (Printed url), t)"
    using run known
    by (auto simp: training_issue_link_def run_command_def cli_trainee_def bind_def
        split: option.splits prod.splits sum.splits command.splits if_splits)
  then obtain v token where v: "active_version (c_id c) s = Some v"
    and token: "issue_token (training_db.hmac_hex s) (app_config s) (gen_uuid s) (Aware (clock s + days (link_ttl_days v))) = Inr token"
    and rest: "url = magic_link None (app_config s) token"
      "t = commit (update_enrolment (gen_uuid s) (\<lambda>e. e\<lparr>magic_token := token\<rparr>)
         (s\<lparr>uuid_next := Suc (uuid_next s),
            enrolments := enrolments s @ [new_enrolment tr v (enrolment_source_value SRC_MANUAL) (Some ''cli-dry-run'') s (gen_uuid s)]\<rparr>))"
    unfolding dry_run_link_def Let_def
    by (auto simp: run_iff insert_enrolment_def new_enrolment_def split: option.splits sum.splits if_splits)
  show ?thesis
    unfolding rest by (auto simp: update_enrolment_def update_row_def new_enrolment_def commit_def)
qed

end
