(* ===== verification/Spec2Isabelle.thy ===== *)
theory Spec2Isabelle
  imports Views Jobs Streams Certified Dsar TrainingCsv Pipelines TriggerAdmin Authoring TraineeAdmin Roster
    Accounts Reports SeedDemo Gateway
begin

text \<open>
  The verification development of the bakery quality management system (src/app, a Flask
  application with SQLAlchemy, Redis, RQ and MQTT).

  THE PROGRAM. Operators and sensors report readings and problems; the system turns them into
  tickets, follows each ticket along a table of states, and keeps an audit log whose entries are
  chained by checksums. Readings arrive on pages (control points, checklists), over the REST API
  and over MQTT through a Redis stream, and are evaluated against triggers whose responders open
  tickets, notify people and enqueue jobs for the workers. A second half issues training: magic
  links, an exam, a signed declaration, a certificate, reminders and re-certification. Everything
  is administered from pages behind roles, permissions and a second factor.

  HOW IT IS MODELLED. A service is a function of type \<open>('s, 'a) py\<close> (Prelude): from a state to an
  exception or a value, with the state it leaves. A Python exception does not undo writes; the
  callers' commit and rollback are operations of their own (AuditTrail, Views.committing). The
  state is one record that the components extend in a chain, as the services share one session:

    session (clock, ids, request, queue, Redis; AuditTrail)  <  audit_db  <  auth_db (Auth)
      <  ticket_db (Tickets)  <  haccp_db (Haccp), salsa_db (Salsa), training_db (Training)
      and training_db  <  trigger_db (Triggers)

  Operations are polymorphic in what comes after their own tables, so a ticket opened by a trigger
  is the same function as one opened on a page. A table is the list of its rows in order of
  insertion; a unique column is checked by the INSERT, which fails the session as the database
  does (IntegrityError, then PendingRollbackError until a rollback). Strings are byte strings,
  UTF-8 where the source has other characters; Python integers are \<open>int\<close>; a float is its exact
  rational value or one of the IEEE special values (\<open>pyfloat\<close>); datetimes are microseconds since
  the epoch, naive or aware (PyTime). Views return Page, Redirect or Abort; a form has passed its
  validators when a view runs, and what the validators promise is stated where a theorem needs it.

  THEORIES AND SOURCES (paths under src/app unless given in full).

  Shared: UniqueInsert (the contract of an INSERT), Prelude (exceptions, the state functions, \<open>keeps\<close> rules for relations that survive any
  outcome, lookups and updates of tables, string functions); PyTime, Iso (decimal printing, the
  Gregorian calendar, ISO texts and back); PyText, PyFormat, PyJson, JsonText (repr, str.format,
  JSON values, their comparison, printing and parsing); Csv (the csv module and the UTF-8 codec);
  Ports (the RQ queues and the Redis server).

  Audit: AuditTrail (services/audit.py, models/audit.py, audit_actions.py and the trigger of
  migrations/versions/c9e1a2b3d4f5), Redaction and Gdpr (services/gdpr.py, services/retention.py),
  Dsar (services/dsar.py).

  Accounts: Auth and SignIn (models/auth.py, auth.py, permissions.py, services/totp.py,
  services/totp_crypto.py, blueprints/auth.py, the key rotation and the second-factor gate of
  __init__.py); Accounts (users, audit pages and dead letters of blueprints/admin.py); Gateway
  (next URL and language page, security_headers.py, the warnings and commands of __init__.py);
  Seeds, SeedDemo (seeds.py).

  Tickets: Tickets, TicketLife (services/tickets.py and its models); Pipelines (the pipeline editor
  of blueprints/admin.py); Haccp and Salsa (services/haccp.py, services/salsa.py); Views
  (blueprints/tickets.py, haccp.py, salsa.py); Reports (services/reports.py, blueprints/reports.py).

  Work outside the request: Queue, Jobs (services/queue.py, jobs/, services/dlq.py); RateLimit
  (services/ratelimit.py, the signature check of blueprints/api.py).

  Readings and triggers: TriggerState (services/trigger_state.py), Triggers, TriggerLife
  (services/triggers.py), Ingest (mqtt/bridge.py, blueprints/api.py), Streams (services/stream.py,
  workers/trigger_worker.py), TriggerAdmin (the trigger pages of blueprints/admin.py).

  Training: TrainingLinks (services/training_links.py), Training, Enrolment, TrainingLife,
  Compliance, Reminders, Certificates, Certified (services/training.py and
  workers/training_scheduler.py), TrainingViews (blueprints/training.py), I18n (i18n.py),
  TrainingCsv (services/training_csv.py), Authoring, TraineeAdmin, Roster
  (blueprints/admin_training.py).

  WHAT THE LEMMAS SHOW.

  The audit contract. Every operation that writes goes through \<open>record_entry\<close>; the relation
  log_step (the log only grows, by well-formed chained entries) is kept by each of them on every
  outcome. The locale audited_operation states that contract once and is interpreted on the
  operations of each component; its consequences (a verified chain stays verified) are lemmas of
  the locale. The properties about the log state what tampering the chain detects, that
  verification does not depend on the driver's time zones, and that erasure leaves a chain that
  verifies.

  State machines. Tickets: the exact effect of a transition, and over any sequence of service calls
  that every ticket is the replay of its events and a closed one stays closed. The duration gate of
  triggers refines an abstract machine that keeps the first time a condition held. Streams: each
  entry is handled and acknowledged once, in order. Training: over every sequence of public pages,
  administration, scheduler ticks and passing time a certificate rests on a passed exam and a
  signed declaration. Roster and Authoring state invariants over any sequence of their pages.

  Safety. The lockout bounds guessing; a session needs an accepted password and code; views check
  permissions before they write; webhooks do not reach private addresses; a link opens only a live
  enrolment; an export carries no credentials; a sign-in leads to a path of this site.

  Functional behaviour, round trips and equivalences. Scoring, measurements, checklists, the
  compliance matrix against the scheduler's rule, the coverage of a monthly report, the pipeline
  editor, trigger forms, CSV files and key rotation read back what was written; seeding again
  changes nothing, and what the seeded alarm and course consist of. Where the code does not do
  what it says, the theorem states what it does, and the list of findings beside the development
  names the line.

  INTERFACES. The contract between the services and the audit log is the locale
  audited_operation, interpreted on operations of every component that writes; sequences of
  operations inherit it. The contract of an INSERT with a unique key is the locale unique_insert
  (UniqueInsert), interpreted on the tables of the components. What the code relies on in Redis, in the HMAC and in the cipher are named
  predicates, hypotheses of the theorems that need them, with an instance in each witness.

  LOOPS AND BOUNDS. Loops over rows are structural (for_each, foldM). The reading loops of the
  workers take the number of rounds as an argument, and the theorems about them hold for every
  number. The JSON and CSV readers and the decimal parsers recurse on the rest of their input.
  No definition needs fuel to reach a result a theorem speaks about.

  PARAMETERS, for code that is not in the repository: bcrypt (\<open>checkpw\<close>, \<open>hashpw\<close>), Fernet and
  pyotp, HMAC-SHA256 and SHA-256 of a printed value, what RQ, SMTP, HTTP and name resolution
  answer, the text of a float (\<open>show_float\<close>) and of a library's exception, the rounded
  percentage of a report, the walk of a Python set, and the best match of an Accept-Language
  header. Hypotheses about them state documented behaviour and have instances in the witnesses.

  NOT MODELLED. Templates, WeasyPrint, Markdown rendering and static pages, which only print; the
  wiring of the Flask application and the reading of environment variables; the generated schema
  migrations (their constraints are in the INSERTs of the model); the connection of the MQTT
  client, signal handling and the start of workers; concurrency between database transactions: an
  operation runs as one step, and interleaving is between operations; CSRF tokens and cookies,
  which the framework checks.
\<close>

end
